(* ===== verification/Prelude.thy ===== *)
theory Prelude
  imports Main "HOL-Library.Word" "HOL-Library.AList" "HOL-Library.Multiset"
begin

text \<open>
  What the components share: the widths of Go's integers, the values a Go call can produce (a
  return, an error value, a panic), Go maps as association lists with distinct keys, and the
  interfaces that several components provide: a packet framing, a codec, a keyed table and a
  machine with an invariant.
\<close>

unbundle bit_operations_syntax

named_theorems go_simps
named_theorems table_simps

section \<open>Go's types\<close>

type_synonym byte = "8 word"
type_synonym uint16 = "16 word"
type_synonym uint32 = "32 word"
type_synonym uint64 = "64 word"
type_synonym int64 = "64 word"

text \<open>
  A call either returns or panics (an index out of range, a nil dereference). Nothing that a panic
  leaves behind is observed by the callers of this code, so \<open>Panic\<close> carries nothing.
\<close>

datatype 'a outcome = Return 'a | Panic

text \<open>
  The error values of the sources. Sentinels that the code compares with have a constructor of their
  own; \<open>ErrNew s\<close> is any error known by its text only (\<open>errors.New\<close>, \<open>fmt.Errorf\<close>, an error of a
  library or of the operating system). \<open>ErrInvalidHeader e\<close> is the sentinel of \<open>stream\<close> wrapping
  \<open>e\<close>; \<open>ErrJSON\<close> is an error of \<open>encoding/json\<close>, whose text the code only passes on.
\<close>

datatype error =
    EOF | ErrUnexpectedEOF | ErrShortBuffer | ErrOverflow
  | ECONNRESET | ErrNotFound | ErrSyntax | ErrRange | ErrJSON
  | ErrInvalidHeader error
  | ErrNew string

text \<open>The text of an error, where the code reads it (\<open>None\<close>: a text the code never looks at).\<close>

fun errText :: "error \<Rightarrow> string option" where
  "errText EOF = Some ''EOF''"
| "errText ErrUnexpectedEOF = Some ''unexpected EOF''"
| "errText ErrShortBuffer = Some ''short buffer''"
| "errText ErrOverflow = Some ''binary: varint overflows a 64-bit integer''"
| "errText ECONNRESET = Some ''connection reset by peer''"
| "errText ErrNotFound = Some ''leveldb: not found''"
| "errText ErrSyntax = Some ''invalid syntax''"
| "errText ErrRange = Some ''value out of range''"
| "errText ErrJSON = None"
| "errText (ErrInvalidHeader e) = map_option ((@) ''invalid header: '') (errText e)"
| "errText (ErrNew s) = Some s"

section \<open>Go maps\<close>

text \<open>
  A Go map is the list of its entries, no key twice. \<open>AList.update\<close> and \<open>AList.delete\<close> are the
  assignment \<open>m[k] = v\<close> and \<open>delete(m, k)\<close>. The order in which \<open>range\<close> visits the entries is not
  defined by the language: an operation that ranges over a map takes the visited list as an argument,
  and \<open>ranges xs m\<close> says that \<open>xs\<close> is one of the orders the runtime may choose.
\<close>

type_synonym ('k, 'v) gomap = "('k \<times> 'v) list"

definition wf_gomap :: "('k, 'v) gomap \<Rightarrow> bool" where
  "wf_gomap m \<longleftrightarrow> distinct (map fst m)"

definition ranges :: "('k \<times> 'v) list \<Rightarrow> ('k, 'v) gomap \<Rightarrow> bool" where
  "ranges xs m \<longleftrightarrow> mset xs = mset m"

lemma wf_gomap_empty [simp]: "wf_gomap []"
  by (simp add: wf_gomap_def)

lemma wf_gomap_update [simp, intro]: "wf_gomap m \<Longrightarrow> wf_gomap (AList.update k v m)"
  by (simp add: wf_gomap_def distinct_update)

lemma wf_gomap_delete [simp, intro]: "wf_gomap m \<Longrightarrow> wf_gomap (AList.delete k m)"
  by (simp add: wf_gomap_def distinct_delete)

lemma map_of_alist_update [simp]: "map_of (AList.update k v m) = (map_of m)(k \<mapsto> v)"
  by (rule update_conv')

lemma map_of_alist_delete [simp]: "map_of (AList.delete k m) = (map_of m)(k := None)"
  by (rule delete_conv')

lemma ranges_refl [simp, intro]: "ranges m m"
  by (simp add: ranges_def)

lemma ranges_set: "ranges xs m \<Longrightarrow> set xs = set m"
  unfolding ranges_def by (rule mset_eq_setD)

lemma ranges_wf: "ranges xs m \<Longrightarrow> wf_gomap m \<Longrightarrow> wf_gomap xs"
  unfolding ranges_def wf_gomap_def
  by (metis mset_map mset_eq_imp_distinct_iff)

lemma ranges_map_of:
  assumes "ranges xs m" and "wf_gomap m"
  shows "map_of xs = map_of m"
proof
  fix k
  have dx: "distinct (map fst xs)" and dm: "distinct (map fst m)"
    using assms ranges_wf by (auto simp: wf_gomap_def)
  show "map_of xs k = map_of m k"
    using ranges_set [OF assms(1)] dx dm
    by (metis map_of_eq_Some_iff not_None_eq)
qed

lemma wf_gomap_mem: "wf_gomap m \<Longrightarrow> (k, v) \<in> set m \<longleftrightarrow> map_of m k = Some v"
  by (simp add: wf_gomap_def)

lemma wf_gomap_set_eq: "map_of m = map_of m' \<Longrightarrow> wf_gomap m \<Longrightarrow> wf_gomap m' \<Longrightarrow> set m = set m'"
  unfolding wf_gomap_def using map_of_inject_set by blast

text \<open>Ranging over a map yields its values, each as often as it has keys.\<close>

lemma ranges_values: "ranges xs m \<Longrightarrow> wf_gomap m \<Longrightarrow> set (map snd xs) = ran (map_of m)"
  by (simp add: ranges_set wf_gomap_def ran_distinct)

lemma ranges_distinct:
  assumes "ranges xs m" and "wf_gomap m" and "\<And>k v. (k, v) \<in> set m \<Longrightarrow> key v = k"
  shows "distinct (map snd xs)"
proof -
  have "distinct (map fst xs)" using ranges_wf [OF assms(1,2)] by (simp add: wf_gomap_def)
  moreover have "map fst xs = map key (map snd xs)" using assms(3) ranges_set [OF assms(1)] by auto
  ultimately show ?thesis by (metis distinct_map)
qed

lemma option_ext: "(\<And>d. x = Some d \<longleftrightarrow> y = Some d) \<Longrightarrow> x = y"
  by (cases x; cases y) auto

lemma find_Some_in: "List.find P xs = Some x \<Longrightarrow> x \<in> set xs \<and> P x"
  by (auto simp: find_Some_iff)

lemma find_None_all: "List.find P xs = None \<longleftrightarrow> (\<forall>x \<in> set xs. \<not> P x)"
  by (auto simp: find_None_iff)

section \<open>Interfaces\<close>

text \<open>
  A framing writes a payload as a run of bytes that a reader can cut off the front of any stream.
  A payload may be refused (\<open>None\<close>).
\<close>

locale framing =
  fixes frame :: "'a list \<Rightarrow> 'a list option"
    and unframe :: "'a list \<Rightarrow> ('a list \<times> 'a list) option"
  assumes unframe_frame: "frame p = Some bs \<Longrightarrow> unframe (bs @ rest) = Some (p, rest)"
begin

primrec frames :: "'a list list \<Rightarrow> 'a list option" where
  "frames [] = Some []"
| "frames (p # ps) =
     (case frame p of None \<Rightarrow> None | Some bs \<Rightarrow> map_option (\<lambda>cs. bs @ cs) (frames ps))"

primrec unframes :: "nat \<Rightarrow> 'a list \<Rightarrow> ('a list list \<times> 'a list) option" where
  "unframes 0 bs = Some ([], bs)"
| "unframes (Suc n) bs =
     (case unframe bs of
        None \<Rightarrow> None
      | Some (p, rest) \<Rightarrow> map_option (\<lambda>(ps, r). (p # ps, r)) (unframes n rest))"

lemma unframes_frames:
  "frames ps = Some bs \<Longrightarrow> unframes (length ps) (bs @ rest) = Some (ps, rest)"
  by (induction ps arbitrary: bs) (auto simp: unframe_frame split: option.splits)

lemma frame_prefix_free:
  assumes "frame p = Some bs" and "frame q = Some cs" and "bs @ r = cs @ r'"
  shows "p = q \<and> r = r'"
  using unframe_frame [OF assms(1), of r] unframe_frame [OF assms(2), of r'] assms(3) by simp

end

text \<open>A codec: what is encoded can be decoded.\<close>

locale codec =
  fixes encode :: "'a \<Rightarrow> 'b"
    and decode :: "'b \<Rightarrow> 'a option"
    and valid :: "'a \<Rightarrow> bool"
  assumes decode_encode: "valid x \<Longrightarrow> decode (encode x) = Some x"
begin

lemma encode_inj: "valid x \<Longrightarrow> valid y \<Longrightarrow> encode x = encode y \<Longrightarrow> x = y"
  by (metis decode_encode option.inject)

lemma decode_map: "list_all valid xs \<Longrightarrow> those (map (\<lambda>x. decode (encode x)) xs) = Some xs"
  by (induction xs) (auto simp: decode_encode)

end

text \<open>
  A table of entries under a key, as the managers of the gateway keep it. \<open>present\<close> is the map the
  table stands for, \<open>valid\<close> the entries that may be stored.
\<close>

locale keyed_table =
  fixes present :: "'s \<Rightarrow> 'k \<Rightarrow> 'v option"
    and key :: "'v \<Rightarrow> 'k"
    and put :: "'v \<Rightarrow> 's \<Rightarrow> 's"
    and del :: "'k \<Rightarrow> 's \<Rightarrow> 's"
    and valid :: "'v \<Rightarrow> bool"
    and wf :: "'s \<Rightarrow> bool"
  assumes present_put: "wf s \<Longrightarrow> valid v \<Longrightarrow> present (put v s) = (present s)(key v \<mapsto> v)"
    and present_del: "wf s \<Longrightarrow> present (del k s) = (present s)(k := None)"
    and wf_put: "wf s \<Longrightarrow> valid v \<Longrightarrow> wf (put v s)"
    and wf_del: "wf s \<Longrightarrow> wf (del k s)"

text \<open>A table that survives a restart of the process.\<close>

datatype ('k, 'v) table_op = TPut 'v | TDel 'k | TRestart

fun map_op :: "('v \<Rightarrow> 'k) \<Rightarrow> ('k, 'v) table_op \<Rightarrow> ('k \<Rightarrow> 'v option) \<Rightarrow> ('k \<Rightarrow> 'v option)" where
  "map_op key (TPut v) m = m(key v \<mapsto> v)"
| "map_op key (TDel k) m = m(k := None)"
| "map_op key TRestart m = m"

fun op_valid :: "('v \<Rightarrow> bool) \<Rightarrow> ('k, 'v) table_op \<Rightarrow> bool" where
  "op_valid valid (TPut v) = valid v"
| "op_valid valid _ = True"

fun run_ops ::
  "('v \<Rightarrow> 's \<Rightarrow> 's) \<Rightarrow> ('k \<Rightarrow> 's \<Rightarrow> 's) \<Rightarrow> ('s \<Rightarrow> 's option) \<Rightarrow> ('k, 'v) table_op list \<Rightarrow> 's \<Rightarrow> 's option" where
  "run_ops put del restart [] s = Some s"
| "run_ops put del restart (TPut v # xs) s = run_ops put del restart xs (put v s)"
| "run_ops put del restart (TDel k # xs) s = run_ops put del restart xs (del k s)"
| "run_ops put del restart (TRestart # xs) s =
     (case restart s of None \<Rightarrow> None | Some s' \<Rightarrow> run_ops put del restart xs s')"

locale durable_table = keyed_table +
  fixes restart :: "'s \<Rightarrow> 's option"
  assumes restarted: "wf s \<Longrightarrow> \<exists>s'. restart s = Some s' \<and> present s' = present s \<and> wf s'"
begin

text \<open>Every history of calls and restarts does to the table what it does to the map.\<close>

lemma run_ops_refines:
  assumes "wf s" and "list_all (op_valid valid) xs"
  shows "\<exists>s'. run_ops put del restart xs s = Some s' \<and> wf s'
    \<and> present s' = fold (map_op key) xs (present s)"
  using assms
proof (induction xs arbitrary: s)
  case Nil
  then show ?case by simp
next
  case (Cons x xs)
  show ?case
  proof (cases x)
    case (TPut v)
    with Cons.prems have "valid v" "list_all (op_valid valid) xs" by simp_all
    with Cons.IH [OF wf_put [OF Cons.prems(1)], of v] show ?thesis
      unfolding TPut by (simp only: run_ops.simps fold.simps map_op.simps comp_apply present_put [OF Cons.prems(1)])
  next
    case (TDel k)
    with Cons.prems have "list_all (op_valid valid) xs" by simp
    with Cons.IH [OF wf_del [OF Cons.prems(1)], of k] show ?thesis
      unfolding TDel by (simp only: run_ops.simps fold.simps map_op.simps comp_apply present_del [OF Cons.prems(1)])
  next
    case TRestart
    obtain s1 where "restart s = Some s1" "present s1 = present s" "wf s1"
      using restarted [OF Cons.prems(1)] by blast
    then show ?thesis using Cons.IH [of s1] Cons.prems(2) TRestart by simp
  qed
qed

end

text \<open>
  Runs of a machine whose steps may panic. A machine that simulates another does so along every run of admitted
  events and never panics there; with nothing to simulate, this is an invariant.
\<close>

fun runs :: "('e \<Rightarrow> 's \<Rightarrow> 's outcome) \<Rightarrow> 'e list \<Rightarrow> 's \<Rightarrow> 's outcome" where
  "runs step [] s = Return s"
| "runs step (e # es) s = (case step e s of Panic \<Rightarrow> Panic | Return s' \<Rightarrow> runs step es s')"

locale simulation =
  fixes step :: "'e \<Rightarrow> 's \<Rightarrow> 's outcome"
    and admitted :: "'e \<Rightarrow> bool"
    and astep :: "'e \<Rightarrow> 'a \<Rightarrow> 'a"
    and related :: "'s \<Rightarrow> 'a \<Rightarrow> bool"
  assumes step_simulates: "related s a \<Longrightarrow> admitted e \<Longrightarrow> \<exists>s'. step e s = Return s' \<and> related s' (astep e a)"
begin

lemma runs_simulate: "related s a \<Longrightarrow> list_all admitted es \<Longrightarrow> \<exists>s'. runs step es s = Return s' \<and> related s' (fold astep es a)"
proof (induction es arbitrary: s a)
  case (Cons e es)
  then obtain s' where "step e s = Return s'" "related s' (astep e a)" using step_simulates by fastforce
  with Cons show ?case by simp
qed simp

end

locale total_machine =
  fixes step :: "'e \<Rightarrow> 's \<Rightarrow> 's outcome"
    and inv :: "'s \<Rightarrow> bool"
  assumes step_keeps: "inv s \<Longrightarrow> \<exists>s'. step e s = Return s' \<and> inv s'"

sublocale total_machine \<subseteq> sim: simulation step "\<lambda>_. True" "\<lambda>_ a. a" "\<lambda>s (_ :: unit). inv s"
  by unfold_locales (rule step_keeps)

context total_machine
begin

lemma runs_keep: "inv s \<Longrightarrow> \<exists>s'. runs step es s = Return s' \<and> inv s'"
  using sim.runs_simulate [of s es] by (simp add: list_all_iff)

end

end
