(* ===== verification/GoIO.thy ===== *)
theory GoIO
  imports Prelude
begin

text \<open>
  The part of Go's \<open>io\<close> and \<open>encoding/binary\<close> that the wire code uses: a connection as the code sees
  it, \<open>Read\<close>, \<open>io.ReadFull\<close>, \<open>Write\<close>, fixed-width integers in both byte orders and the
  variable-length integers of \<open>binary.PutUvarint\<close> and \<open>binary.ReadUvarint\<close>.
\<close>

section \<open>Connections\<close>

text \<open>
  A connection over symbols \<open>'a\<close> (bytes, or the characters of a text protocol). \<open>rd_chunks\<close> is what the
  peer has sent, cut the way \<open>Read\<close> will deliver it, after which \<open>Read\<close> returns \<open>rd_err\<close>;
  \<open>wr_data\<close> is what has been written; the write end fails with \<open>wr_err\<close> once \<open>wr_room\<close> more symbols
  are written (\<open>None\<close>: never). \<open>Close\<close> and \<open>Reset\<close> are recorded.
\<close>

record 'a conn =
  rd_chunks :: "'a list list"
  rd_err :: error
  wr_data :: "'a list"
  wr_room :: "nat option"
  wr_err :: error
  is_closed :: bool
  is_reset :: bool

definition pending :: "'a conn \<Rightarrow> 'a list" where
  "pending c = concat (rd_chunks c)"

definition conn_of :: "'a list \<Rightarrow> 'a conn" where
  "conn_of bs = \<lparr>rd_chunks = (if bs = [] then [] else [bs]), rd_err = EOF, wr_data = [],
                 wr_room = None, wr_err = EOF, is_closed = False, is_reset = False\<rparr>"

lemma pending_conn_of [simp]: "pending (conn_of bs) = bs"
  by (simp add: pending_def conn_of_def)

definition conn_close :: "'a conn \<Rightarrow> 'a conn" where
  "conn_close c = c\<lparr>is_closed := True\<rparr>"

definition conn_reset :: "'a conn \<Rightarrow> 'a conn" where
  "conn_reset c = c\<lparr>is_reset := True\<rparr>"

text \<open>One call of \<open>Read\<close> with a buffer of \<open>n\<close> symbols: at most the next piece.\<close>

definition conn_read :: "nat \<Rightarrow> 'a conn \<Rightarrow> 'a list \<times> error option \<times> 'a conn" where
  "conn_read n c =
     (case rd_chunks c of
        [] \<Rightarrow> ([], Some (rd_err c), c)
      | ch # chs \<Rightarrow>
          (take n ch, None, c\<lparr>rd_chunks := (if drop n ch = [] then chs else drop n ch # chs)\<rparr>))"

definition conn_write :: "'a list \<Rightarrow> 'a conn \<Rightarrow> nat \<times> error option \<times> 'a conn" where
  "conn_write bs c =
     (case wr_room c of
        None \<Rightarrow> (length bs, None, c\<lparr>wr_data := wr_data c @ bs\<rparr>)
      | Some r \<Rightarrow>
          if length bs \<le> r
          then (length bs, None, c\<lparr>wr_data := wr_data c @ bs, wr_room := Some (r - length bs)\<rparr>)
          else (r, Some (wr_err c),
                c\<lparr>wr_data := wr_data c @ take r bs, wr_room := Some 0\<rparr>))"

text \<open>
  \<open>io.ReadFull\<close>: \<open>Read\<close> until the buffer is full or \<open>Read\<close> fails. What shrinks is the number of
  symbols and pieces still to come.
\<close>

function read_loop :: "nat \<Rightarrow> 'a list \<Rightarrow> 'a conn \<Rightarrow> 'a list \<times> error option \<times> 'a conn" where
  "read_loop n acc c =
     (if n \<le> length acc then (acc, None, c)
      else case conn_read (n - length acc) c of
        (bs, Some e, c') \<Rightarrow> (acc, Some e, c')
      | (bs, None, c') \<Rightarrow> read_loop n (acc @ bs) c')"
  by pat_completeness auto
termination
  by (relation "measure (\<lambda>(n, acc, c). length (concat (rd_chunks c)) + length (rd_chunks c))")
     (auto simp: conn_read_def split: list.splits if_splits)

declare read_loop.simps [simp del]

definition read_full :: "nat \<Rightarrow> 'a conn \<Rightarrow> 'a list \<times> error option \<times> 'a conn" where
  "read_full n c =
     (case read_loop n [] c of
        (bs, None, c') \<Rightarrow> (bs, None, c')
      | (bs, Some e, c') \<Rightarrow>
          (bs, Some (if bs \<noteq> [] \<and> e = EOF then ErrUnexpectedEOF else e), c'))"

text \<open>How the peer's data is cut into pieces does not matter to \<open>ReadFull\<close>.\<close>

lemma read_loop_enough:
  assumes "length acc \<le> n" and "n \<le> length acc + length (pending c)"
  shows "\<exists>chs. read_loop n acc c =
             (acc @ take (n - length acc) (pending c), None, c\<lparr>rd_chunks := chs\<rparr>)
           \<and> concat chs = drop (n - length acc) (pending c)"
  using assms
proof (induction n acc c rule: read_loop.induct)
  case (1 n acc c)
  show ?case
  proof (cases "n \<le> length acc")
    case True
    with "1.prems" show ?thesis
      by (auto simp: read_loop.simps [of n acc c] pending_def intro!: exI [of _ "rd_chunks c"])
  next
    case False
    let ?m = "n - length acc"
    from False "1.prems"(2) obtain ch chs where ch: "rd_chunks c = ch # chs"
      by (cases "rd_chunks c") (auto simp: pending_def)
    let ?chs' = "if drop ?m ch = [] then chs else drop ?m ch # chs"
    let ?c' = "c\<lparr>rd_chunks := ?chs'\<rparr>"
    have rd: "conn_read ?m c = (take ?m ch, None, ?c')" by (simp add: conn_read_def ch)
    have cat: "concat ?chs' = drop ?m ch @ concat chs" by simp
    have acc: "length (acc @ take ?m ch) \<le> n" using False by simp
    have tot: "n \<le> length (acc @ take ?m ch) + length (pending ?c')"
      using "1.prems" False ch cat by (auto simp: pending_def min_def split: if_splits)
    from "1.IH" [OF False rd [symmetric] refl refl acc tot]
    obtain ds where
      ds: "read_loop n (acc @ take ?m ch) ?c' =
             ((acc @ take ?m ch) @ take (n - length (acc @ take ?m ch)) (pending ?c'), None,
              ?c'\<lparr>rd_chunks := ds\<rparr>)"
      and cds: "concat ds = drop (n - length (acc @ take ?m ch)) (pending ?c')" by blast
    have p: "pending c = ch @ concat chs" and p': "pending ?c' = drop ?m ch @ concat chs"
      using ch cat by (simp_all add: pending_def)
    have k: "n - length (acc @ take ?m ch) = ?m - length ch" by (simp add: min_def)
    have tk: "take ?m ch @ take (?m - length ch) (drop ?m ch @ concat chs) = take ?m (ch @ concat chs)"
      and dr: "drop (?m - length ch) (drop ?m ch @ concat chs) = drop ?m (ch @ concat chs)"
      by (cases "?m \<le> length ch"; simp)+
    have "read_loop n acc c = read_loop n (acc @ take ?m ch) ?c'"
      using False rd by (simp add: read_loop.simps [of n acc c])
    with ds cds p p' k tk dr show ?thesis by (intro exI [of _ ds]) simp
  qed
qed

lemma read_loop_short:
  assumes "length acc + length (pending c) < n"
  shows "read_loop n acc c = (acc @ pending c, Some (rd_err c), c\<lparr>rd_chunks := []\<rparr>)"
  using assms
proof (induction n acc c rule: read_loop.induct)
  case (1 n acc c)
  have less: "\<not> n \<le> length acc" using "1.prems" by simp
  show ?case
  proof (cases "rd_chunks c")
    case Nil
    then have "c\<lparr>rd_chunks := []\<rparr> = c" by simp
    with Nil less show ?thesis by (simp add: read_loop.simps [of n acc c] conn_read_def pending_def)
  next
    case (Cons ch chs)
    let ?m = "n - length acc"
    let ?c' = "c\<lparr>rd_chunks := chs\<rparr>"
    from "1.prems" Cons have len: "length ch < ?m" by (simp add: pending_def)
    then have rd: "conn_read ?m c = (ch, None, ?c')" by (simp add: conn_read_def Cons)
    have tot: "length (acc @ ch) + length (pending ?c') < n"
      using "1.prems" Cons by (simp add: pending_def)
    from "1.IH" [OF less rd [symmetric] refl refl tot]
    have "read_loop n (acc @ ch) ?c' =
        ((acc @ ch) @ pending ?c', Some (rd_err ?c'), ?c'\<lparr>rd_chunks := []\<rparr>)" .
    with less rd Cons show ?thesis
      by (simp add: read_loop.simps [of n acc c] pending_def)
  qed
qed

lemma read_full_enough:
  assumes "n \<le> length (pending c)"
  obtains chs where "read_full n c = (take n (pending c), None, c\<lparr>rd_chunks := chs\<rparr>)"
    and "concat chs = drop n (pending c)"
  using read_loop_enough [of "[]" n c] assms by (auto simp: read_full_def)

lemma read_full_short:
  assumes "length (pending c) < n"
  shows "read_full n c =
    (pending c,
     Some (if pending c \<noteq> [] \<and> rd_err c = EOF then ErrUnexpectedEOF else rd_err c),
     c\<lparr>rd_chunks := []\<rparr>)"
  using read_loop_short [of "[]" c n] assms by (simp add: read_full_def)

lemma read_full_0 [simp]: "read_full 0 c = ([], None, c)"
  by (simp add: read_full_def read_loop.simps [of 0])

text \<open>
  \<open>io.Copy(dst, src)\<close> between two connections, in rounds of a 32 KiB buffer: the error it returns and
  both ends. It ends because every round takes something off what \<open>src\<close> will deliver.
\<close>

function io_Copy :: "'a conn \<Rightarrow> 'a conn \<Rightarrow> error option \<times> 'a conn \<times> 'a conn" where
  "io_Copy dst src =
     (case conn_read 32768 src of
        (bs, Some e, src') \<Rightarrow> ((if e = EOF then None else Some e), dst, src')
      | (bs, None, src') \<Rightarrow>
          (case conn_write bs dst of
             (n, Some e, dst') \<Rightarrow> (Some e, dst', src')
           | (n, None, dst') \<Rightarrow> io_Copy dst' src'))"
  by pat_completeness auto
termination
  by (relation "measure (\<lambda>(dst, src). length (concat (rd_chunks src)) + length (rd_chunks src))")
     (auto simp: conn_read_def split: list.splits if_splits)

declare io_Copy.simps [simp del]

lemma io_Copy_all:
  assumes "wr_room dst = None"
  shows "io_Copy dst src =
    ((if rd_err src = EOF then None else Some (rd_err src)), dst\<lparr>wr_data := wr_data dst @ pending src\<rparr>,
     src\<lparr>rd_chunks := []\<rparr>)"
  using assms
proof (induction dst src rule: io_Copy.induct)
  case (1 dst src)
  show ?case
  proof (cases "rd_chunks src")
    case Nil
    then show ?thesis
      by (simp add: io_Copy.simps [of dst src] conn_read_def pending_def)
  next
    case (Cons ch chs)
    let ?src = "src\<lparr>rd_chunks := (if drop 32768 ch = [] then chs else drop 32768 ch # chs)\<rparr>"
    let ?dst = "dst\<lparr>wr_data := wr_data dst @ take 32768 ch\<rparr>"
    have rd: "conn_read 32768 src = (take 32768 ch, None, ?src)" by (simp add: conn_read_def Cons)
    have wr: "conn_write (take 32768 ch) dst = (length (take 32768 ch), None, ?dst)"
      using "1.prems" by (simp add: conn_write_def)
    have "io_Copy dst src = io_Copy ?dst ?src"
      by (subst io_Copy.simps) (simp only: rd wr prod.case option.case)
    moreover have "io_Copy ?dst ?src = ((if rd_err src = EOF then None else Some (rd_err src)),
        ?dst\<lparr>wr_data := wr_data ?dst @ pending ?src\<rparr>, ?src\<lparr>rd_chunks := []\<rparr>)"
      using "1.IH" [OF rd [symmetric] refl refl wr [symmetric] refl refl] "1.prems" by simp
    moreover have "take 32768 ch @ pending ?src = pending src" by (simp add: pending_def Cons)
    ultimately show ?thesis by simp
  qed
qed

section \<open>Fixed-width integers\<close>

text \<open>\<open>binary.LittleEndian.PutUint64\<close> and \<open>Uint64\<close> (which panics on a slice shorter than eight).\<close>

definition le_bytes64 :: "uint64 \<Rightarrow> byte list" where
  "le_bytes64 x = map (\<lambda>i. ucast (drop_bit (8 * i) x)) [0, 1, 2, 3, 4, 5, 6, 7]"

definition le_uint64 :: "byte list \<Rightarrow> uint64 outcome" where
  "le_uint64 bs =
     (if length bs < 8 then Panic
      else Return (foldr (\<lambda>i a. push_bit (8 * i) (ucast (bs ! i)) OR a) [0, 1, 2, 3, 4, 5, 6, 7] 0))"

lemma length_le_bytes64 [simp]: "length (le_bytes64 x) = 8"
  by (simp add: le_bytes64_def)

lemma le_uint64_le_bytes64: "le_uint64 (le_bytes64 x @ rest) = Return x"
proof -
  have "push_bit 0 (ucast (ucast (drop_bit 0 x) :: byte))
      OR (push_bit 8 (ucast (ucast (drop_bit 8 x) :: byte))
      OR (push_bit 16 (ucast (ucast (drop_bit 16 x) :: byte))
      OR (push_bit 24 (ucast (ucast (drop_bit 24 x) :: byte))
      OR (push_bit 32 (ucast (ucast (drop_bit 32 x) :: byte))
      OR (push_bit 40 (ucast (ucast (drop_bit 40 x) :: byte))
      OR (push_bit 48 (ucast (ucast (drop_bit 48 x) :: byte))
      OR push_bit 56 (ucast (ucast (drop_bit 56 x) :: byte)))))))) = (x :: uint64)"
    (is "?l = x")
  proof (rule bit_word_eqI)
    fix n assume n: "n < LENGTH(64)"
    then have "n < 8 \<or> 8 \<le> n \<and> n < 16 \<or> 16 \<le> n \<and> n < 24 \<or> 24 \<le> n \<and> n < 32
      \<or> 32 \<le> n \<and> n < 40 \<or> 40 \<le> n \<and> n < 48 \<or> 48 \<le> n \<and> n < 56 \<or> 56 \<le> n \<and> n < 64"
      by auto
    then show "bit ?l n = bit x n"
      by (elim disjE conjE) (simp_all add: bit_simps less_diff_conv2)
  qed
  then show ?thesis
    by (simp add: le_uint64_def le_bytes64_def)
qed

text \<open>\<open>binary.BigEndian\<close> on a \<open>uint16\<close>, as \<open>binary.Write\<close> and \<open>binary.Read\<close> lay it out.\<close>

definition be_bytes16 :: "uint16 \<Rightarrow> byte list" where
  "be_bytes16 x = [ucast (drop_bit 8 x), ucast x]"

definition be_uint16 :: "byte list \<Rightarrow> uint16" where
  "be_uint16 bs = push_bit 8 (ucast (bs ! 0)) OR ucast (bs ! 1)"

lemma length_be_bytes16 [simp]: "length (be_bytes16 x) = 2"
  by (simp add: be_bytes16_def)

lemma be_uint16_be_bytes16 [simp]: "be_uint16 (be_bytes16 x) = x"
proof -
  have "push_bit 8 (ucast (ucast (drop_bit 8 x) :: byte)) OR ucast (ucast x :: byte) = (x :: uint16)"
    (is "?l = x")
  proof (rule bit_word_eqI)
    fix n assume "n < LENGTH(16)"
    then have "n < 8 \<or> 8 \<le> n \<and> n < 16" by auto
    then show "bit ?l n = bit x n" by (elim disjE) (auto simp: bit_simps)
  qed
  then show ?thesis by (simp add: be_uint16_def be_bytes16_def)
qed

section \<open>Variable-length integers\<close>

text \<open>The bytes \<open>binary.PutUvarint\<close> produces, seven bits at a time, the lowest first.\<close>

function uvarint_bytes :: "uint64 \<Rightarrow> byte list" where
  "uvarint_bytes x =
     (if 0x80 \<le> x then (ucast x OR 0x80) # uvarint_bytes (drop_bit 7 x) else [ucast x])"
  by pat_completeness auto
termination
proof (relation "measure unat")
  fix x :: uint64
  assume "0x80 \<le> x"
  then have "128 \<le> unat x" by (simp add: word_le_nat_alt)
  then show "(drop_bit 7 x, x) \<in> measure unat" by (simp add: unat_drop_bit_eq drop_bit_nat_def)
qed simp

declare uvarint_bytes.simps [simp del]

lemma uvarint_bytes_small: "unat x < 128 \<Longrightarrow> uvarint_bytes x = [ucast x]"
  by (simp add: uvarint_bytes.simps [of x] word_le_nat_alt)

text \<open>\<open>binary.PutUvarint(buf, x)\<close>: the header goes to the front of \<open>buf\<close>, which must hold it.\<close>

definition put_uvarint :: "byte list \<Rightarrow> uint64 \<Rightarrow> (nat \<times> byte list) outcome" where
  "put_uvarint buf x =
     (let h = uvarint_bytes x
      in if length buf < length h then Panic else Return (length h, h @ drop (length h) buf))"

text \<open>
  \<open>binary.ReadUvarint\<close> over a reader of single bytes: \<open>k\<close> rounds are left of the ten, \<open>x\<close> and \<open>s\<close> are
  the value and the shift so far.
\<close>

fun read_uvarint_loop ::
  "('c \<Rightarrow> byte \<times> error option \<times> 'c) \<Rightarrow> nat \<Rightarrow> nat \<Rightarrow> uint64 \<Rightarrow> nat \<Rightarrow> 'c
     \<Rightarrow> uint64 \<times> error option \<times> 'c" where
  "read_uvarint_loop readByte 0 i x s c = (x, Some ErrOverflow, c)"
| "read_uvarint_loop readByte (Suc k) i x s c =
     (case readByte c of
        (b, Some e, c') \<Rightarrow> (x, Some (if 0 < i \<and> e = EOF then ErrUnexpectedEOF else e), c')
      | (b, None, c') \<Rightarrow>
          if b < 0x80
          then if k = 0 \<and> 1 < b then (x, Some ErrOverflow, c')
               else (x OR push_bit s (ucast b), None, c')
          else read_uvarint_loop readByte k (Suc i) (x OR push_bit s (ucast (b AND 0x7f))) (s + 7) c')"

definition read_uvarint ::
  "('c \<Rightarrow> byte \<times> error option \<times> 'c) \<Rightarrow> 'c \<Rightarrow> uint64 \<times> error option \<times> 'c" where
  "read_uvarint readByte c = read_uvarint_loop readByte 10 0 0 0 c"

lemma uvarint_consts:
  "(0x7f :: byte) = mask 7" "(0x7f :: uint64) = mask 7" "(0x80 :: byte) = 2 ^ 7"
  "(0x80 :: uint64) = 2 ^ 7"
  by (simp_all add: mask_eq_exp_minus_1)

lemma uvarint_byte_low: "ucast ((ucast x OR 0x80 :: byte) AND 0x7f) = (x AND 0x7f :: uint64)"
  unfolding uvarint_consts by (rule bit_word_eqI) (auto simp: bit_simps simp del: power_numeral)

lemma uvarint_split:
  fixes v :: uint64
  shows "push_bit s (v AND 0x7f) OR push_bit (s + 7) (drop_bit 7 v) = push_bit s v"
proof -
  have "bit v (7 + (n - (s + 7))) = bit v (n - s)" if "s \<le> n" "\<not> n - s < 7" for n
  proof -
    have "7 + (n - (s + 7)) = n - s" using that by arith
    then show ?thesis by simp
  qed
  then have "bit (push_bit s (v AND mask 7) OR push_bit (s + 7) (drop_bit 7 v)) n = bit (push_bit s v) n"
    if "n < 64" for n
    using that by (cases "s \<le> n"; cases "n - s < 7") (auto simp: bit_simps)
  then show ?thesis unfolding uvarint_consts by (intro bit_word_eqI) simp
qed

lemma uvarint_byte_high: "\<not> (ucast (x :: uint64) OR 0x80 :: byte) < 0x80"
  using le_word_or1 [of "0x80 :: byte" "ucast x"] by (simp add: not_less)


lemma ucast_ucast_small: 
  fixes v :: uint64
  assumes "v < 0x80" shows "ucast (ucast v :: byte) = v"
proof -
  have v: "v AND mask 7 = v" using assms unfolding uvarint_consts by (rule less_mask_eq)
  have "ucast (ucast (v AND mask 7) :: byte) = v AND mask 7"
    by (rule bit_word_eqI) (auto simp: bit_simps)
  then show ?thesis by (simp only: v)
qed
lemma unat_take8: "unat (take_bit 8 (v :: uint64)) = unat v mod 256"
  by (simp add: unsigned_take_bit_eq take_bit_nat_def)

lemma unat_drop_7:
  assumes "unat (v :: uint64) < 2 ^ (n + 7)" shows "unat (drop_bit 7 v) < 2 ^ n"
  using assms by (simp add: unat_drop_bit_eq drop_bit_nat_def power_add less_mult_imp_div_less)

lemma unat_lt_80: "(v :: uint64) < 0x80 \<longleftrightarrow> unat v < 128"
  by (simp add: word_less_nat_alt)

lemma read_uvarint_loop_bytes:
  assumes rb: "\<And>c b bs. view c = b # bs \<Longrightarrow>
      \<exists>c'. readByte c = (b, None, c') \<and> view c' = bs \<and> rest_of c' = rest_of c"
    and "k + i = 10" and "0 < k" and "s = 7 * i" and "unat v < 2 ^ (64 - s)"
    and "view c = uvarint_bytes v @ rest"
  shows "\<exists>c'. read_uvarint_loop readByte k i x s c = (x OR push_bit s v, None, c')
          \<and> view c' = rest \<and> rest_of c' = rest_of c"
  using assms(2-)
proof (induction k arbitrary: i x s c v)
  case 0
  then show ?case by simp
next
  case (Suc k)
  have i: "i \<le> 9" using Suc.prems(1) by simp
  show ?case
  proof (cases "v < 0x80")
    case True
    then have bytes: "uvarint_bytes v = [ucast v]" by (simp add: uvarint_bytes.simps [of v] not_le [symmetric])
    with Suc.prems(5) obtain c' where c': "readByte c = (ucast v, None, c')" "view c' = rest"
      "rest_of c' = rest_of c" using rb by fastforce
    have small: "(ucast v :: byte) < 0x80"
      using True by (simp add: word_less_nat_alt unsigned_ucast_eq take_bit_nat_def unat_take8)
    have last: "\<not> (k = 0 \<and> 1 < (ucast v :: byte))"
    proof
      assume a: "k = 0 \<and> 1 < (ucast v :: byte)"
      then have "i = 9" using Suc.prems(1) by simp
      then have "unat v < 2" using Suc.prems(3,4) by simp
      then have "unat (ucast v :: byte) < 2" by (simp add: unsigned_ucast_eq take_bit_nat_def unat_take8)
      with a show False by (simp add: word_less_nat_alt)
    qed
    show ?thesis using c' small last ucast_ucast_small [OF True] by auto
  next
    case False
    let ?b = "ucast v OR 0x80 :: byte"
    have bytes: "uvarint_bytes v = ?b # uvarint_bytes (drop_bit 7 v)"
      using False by (simp add: uvarint_bytes.simps [of v] not_less)
    with Suc.prems(5) obtain c1 where c1: "readByte c = (?b, None, c1)"
      "view c1 = uvarint_bytes (drop_bit 7 v) @ rest" "rest_of c1 = rest_of c"
      using rb by fastforce
    have "0 < k" 
    proof (rule ccontr)
      assume "\<not> 0 < k"
      then have "unat v < 2" using Suc.prems(1,3,4) by simp
      with False show False by (simp add: unat_lt_80)
    qed
    moreover have "unat (drop_bit 7 v) < 2 ^ (64 - (s + 7))"
      using Suc.prems(3,4) i \<open>0 < k\<close> Suc.prems(1) by (intro unat_drop_7) simp
    ultimately obtain c' where "read_uvarint_loop readByte k (Suc i)
        (x OR push_bit s (ucast (?b AND 0x7f))) (s + 7) c1 =
        ((x OR push_bit s (ucast (?b AND 0x7f))) OR push_bit (s + 7) (drop_bit 7 v), None, c')"
      "view c' = rest" "rest_of c' = rest_of c1"
      using Suc.IH [of "Suc i" "s + 7" "drop_bit 7 v" c1] Suc.prems(1,3) c1(2) by auto
    then show ?thesis
      using c1 uvarint_byte_high [of v]
      by (simp add: uvarint_byte_low uvarint_split or.assoc del: push_bit_and)
  qed
qed

lemma read_uvarint_bytes:
  assumes "\<And>c b bs. view c = b # bs \<Longrightarrow>
      \<exists>c'. readByte c = (b, None, c') \<and> view c' = bs \<and> rest_of c' = rest_of c"
    and "view c = uvarint_bytes v @ rest"
  shows "\<exists>c'. read_uvarint readByte c = (v, None, c') \<and> view c' = rest \<and> rest_of c' = rest_of c"
  using read_uvarint_loop_bytes [where k = 10 and i = 0 and s = 0 and x = 0 and v = v, OF assms(1)]
    assms(2) unsigned_less [of v]
  by (auto simp: read_uvarint_def)

end
