(* ===== verification/VarLenStream.thy ===== *)
theory VarLenStream
  imports GoIO
begin

text \<open>
  \<open>stream/var_length_packet.go\<close>: packets with a variable-length length header over a byte
  connection. The stream keeps a one-byte read buffer and a write buffer of \<open>maxPacketSize\<close> bytes,
  into which a packet is assembled, header first.
\<close>

record VarLenPacketStream =
  vs_conn :: "byte conn"
  vs_readBuf :: "byte list"
  vs_buf :: "byte list"
  vs_maxSize :: uint64

definition NewVarLenPacketStream :: "byte conn \<Rightarrow> uint64 \<Rightarrow> VarLenPacketStream" where
  "NewVarLenPacketStream c maxPacketSize =
     \<lparr>vs_conn = c, vs_readBuf = [0], vs_buf = replicate (unat maxPacketSize) 0,
      vs_maxSize = maxPacketSize\<rparr>"

text \<open>\<open>ReadFull\<close> fills the one-byte buffer, whose old content stays when nothing is read.\<close>

definition VLPS_ReadByte :: "VarLenPacketStream \<Rightarrow> byte \<times> error option \<times> VarLenPacketStream" where
  "VLPS_ReadByte s =
     (case read_full 1 (vs_conn s) of
        (bs, err, c') \<Rightarrow>
          let rb = bs @ drop (length bs) (vs_readBuf s)
          in (hd rb, err, s\<lparr>vs_conn := c', vs_readBuf := rb\<rparr>))"

text \<open>
  \<open>Read(p)\<close> with \<open>len(p) = plen\<close>: the bytes put into \<open>p\<close> (the returned count is their number).
  A Go length is below \<open>2 ^ 63\<close>, so \<open>uint64(len(p))\<close> is exact and the comparison is made on numbers.
\<close>

definition VLPS_Read ::
  "nat \<Rightarrow> VarLenPacketStream \<Rightarrow> byte list \<times> error option \<times> VarLenPacketStream" where
  "VLPS_Read plen s =
     (case read_uvarint VLPS_ReadByte s of
        (_, Some err, s') \<Rightarrow> ([], Some (ErrInvalidHeader err), s')
      | (length', None, s') \<Rightarrow>
          if vs_maxSize s' < length' then ([], Some ErrShortBuffer, s')
          else if plen < unat length' then ([], Some ErrShortBuffer, s')
          else (case read_full (unat length') (vs_conn s') of
                  (bs, err, c') \<Rightarrow> (bs, err, s'\<lparr>vs_conn := c'\<rparr>)))"

text \<open>
  \<open>Write(p)\<close>. \<open>copy\<close> stops at the end of the buffer; the slice \<open>s.buf[:l+headerOff]\<close> panics past the
  buffer's capacity, which is its length (\<open>make([]byte, maxPacketSize)\<close>).
\<close>

definition VLPS_Write ::
  "byte list \<Rightarrow> VarLenPacketStream \<Rightarrow> (nat \<times> error option \<times> VarLenPacketStream) outcome" where
  "VLPS_Write p s =
     (let l = length p in
      if unat (vs_maxSize s) < l then Return (0, Some ErrShortBuffer, s)
      else case put_uvarint (vs_buf s) (of_nat l) of
        Panic \<Rightarrow> Panic
      | Return (headerOff, buf1) \<Rightarrow>
          let room = length buf1 - headerOff;
              buf2 = take headerOff buf1 @ take room p @ drop (headerOff + min room l) buf1
          in if length buf2 < l + headerOff then Panic
             else case conn_write (take (l + headerOff) buf2) (vs_conn s) of
                    (n, err, c') \<Rightarrow> Return (n, err, s\<lparr>vs_conn := c', vs_buf := buf2\<rparr>))"

definition VLPS_Close :: "VarLenPacketStream \<Rightarrow> VarLenPacketStream" where
  "VLPS_Close s = s\<lparr>vs_conn := conn_close (vs_conn s)\<rparr>"

section \<open>Well-formed streams\<close>

definition wf_stream :: "VarLenPacketStream \<Rightarrow> bool" where
  "wf_stream s \<longleftrightarrow> length (vs_readBuf s) = 1 \<and> length (vs_buf s) = unat (vs_maxSize s)"

abbreviation header_of :: "byte list \<Rightarrow> byte list" where
  "header_of p \<equiv> uvarint_bytes (of_nat (length p))"

lemma wf_New [simp]: "wf_stream (NewVarLenPacketStream c m)"
  by (simp add: wf_stream_def NewVarLenPacketStream_def)

lemma New_simps [simp]:
  "vs_conn (NewVarLenPacketStream c m) = c" "vs_maxSize (NewVarLenPacketStream c m) = m"
  by (simp_all add: NewVarLenPacketStream_def)

lemma read_full_1_pending:
  assumes "pending c = b # bs"
  obtains chs where "read_full 1 c = ([b], None, c\<lparr>rd_chunks := chs\<rparr>)" and "concat chs = bs"
  using read_full_enough [of 1 c] assms by auto

text \<open>What reading leaves alone: everything but the pieces read and the one-byte buffer.\<close>

definition stream_frame :: "VarLenPacketStream \<Rightarrow> byte conn \<times> byte list \<times> uint64 \<times> nat" where
  "stream_frame s =
     ((vs_conn s)\<lparr>rd_chunks := []\<rparr>, vs_buf s, vs_maxSize s, length (vs_readBuf s))"

lemma stream_frame_maxSize: "stream_frame s' = stream_frame s \<Longrightarrow> vs_maxSize s' = vs_maxSize s"
  by (simp add: stream_frame_def)

lemma ReadByte_pending:
  assumes "length (vs_readBuf s) = 1" and "pending (vs_conn s) = b # bs"
  shows "\<exists>s'. VLPS_ReadByte s = (b, None, s') \<and> pending (vs_conn s') = bs
          \<and> stream_frame s' = stream_frame s"
proof -
  obtain chs where "read_full 1 (vs_conn s) = ([b], None, (vs_conn s)\<lparr>rd_chunks := chs\<rparr>)"
    and "concat chs = bs" using read_full_1_pending [OF assms(2)] .
  then show ?thesis
    using assms(1) by (simp add: VLPS_ReadByte_def stream_frame_def pending_def)
qed

lemma ReadByte_eof:
  assumes "length (vs_readBuf s) = 1" and "pending (vs_conn s) = []"
  shows "\<exists>b s'. VLPS_ReadByte s = (b, Some (rd_err (vs_conn s)), s')"
  using read_full_short [of "vs_conn s" 1] assms by (simp add: VLPS_ReadByte_def)

text \<open>A header on the connection is read back, wherever the connection cuts it.\<close>

lemma read_header:
  assumes "wf_stream s" and "pending (vs_conn s) = uvarint_bytes v @ rest"
  shows "\<exists>s'. read_uvarint VLPS_ReadByte s = (v, None, s') \<and> pending (vs_conn s') = rest
          \<and> stream_frame s' = stream_frame s"
proof -
  let ?view = "\<lambda>s. if length (vs_readBuf s) = 1 then pending (vs_conn s) else []"
  have "\<exists>s'. VLPS_ReadByte s = (b, None, s') \<and> ?view s' = bs \<and> stream_frame s' = stream_frame s"
    if "?view s = b # bs" for s b bs
    using that ReadByte_pending [of s b bs] by (auto simp: stream_frame_def split: if_splits)
  moreover have "?view s = uvarint_bytes v @ rest" using assms by (simp add: wf_stream_def)
  ultimately obtain s' where s': "read_uvarint VLPS_ReadByte s = (v, None, s')" "?view s' = rest"
    "stream_frame s' = stream_frame s"
    using read_uvarint_bytes [of ?view VLPS_ReadByte stream_frame s v rest] by blast
  then have "length (vs_readBuf s') = 1" using assms(1) by (simp add: stream_frame_def wf_stream_def)
  with s' show ?thesis by auto
qed

section \<open>What Write does\<close>

lemma unat_of_length: "length p \<le> unat (m :: uint64) \<Longrightarrow> unat (of_nat (length p) :: uint64) = length p"
proof -
  assume "length p \<le> unat m"
  moreover have "unat m < 2 ^ 64" using unsigned_less [of m] by simp
  ultimately show ?thesis by (simp add: unat_of_nat)
qed

lemma Write_fits:
  assumes "wf_stream s" and "length (header_of p) + length p \<le> unat (vs_maxSize s)"
  shows "VLPS_Write p s =
    (case conn_write (header_of p @ p) (vs_conn s) of
       (n, err, c') \<Rightarrow>
         Return (n, err,
           s\<lparr>vs_conn := c',
             vs_buf := header_of p @ p @ drop (length (header_of p) + length p) (vs_buf s)\<rparr>))"
proof -
  have len: "length (vs_buf s) = unat (vs_maxSize s)" using assms(1) by (simp add: wf_stream_def)
  let ?h = "header_of p"
  have "put_uvarint (vs_buf s) (of_nat (length p)) = Return (length ?h, ?h @ drop (length ?h) (vs_buf s))"
    using assms(2) len by (simp add: put_uvarint_def Let_def)
  moreover have "min (length (vs_buf s) - length ?h) (length p) = length p"
    using assms(2) len by simp
  ultimately show ?thesis
    using assms(2) len by (simp add: VLPS_Write_def Let_def ac_simps split: prod.splits)
qed

lemma Write_too_long:
  "unat (vs_maxSize s) < length p \<Longrightarrow> VLPS_Write p s = Return (0, Some ErrShortBuffer, s)"
  by (simp add: VLPS_Write_def)

lemma Write_panics:
  assumes "wf_stream s" and "length p \<le> unat (vs_maxSize s)"
    and "unat (vs_maxSize s) < length (header_of p) + length p"
  shows "VLPS_Write p s = Panic"
  using assms by (auto simp: VLPS_Write_def put_uvarint_def Let_def wf_stream_def)

section \<open>Properties\<close>

text \<open>
  C31: \<open>Write\<close> on every branch. A payload longer than \<open>maxSize\<close> is refused with \<open>ErrShortBuffer\<close> and
  nothing is written. A payload that fits together with its header is written as one packet, header
  then payload, and the count returned is that of the connection, header included. In between, where
  the payload fits but header and payload together do not, \<open>Write\<close> panics.
\<close>

theorem VLPS_Write_correct:
  assumes "wf_stream s"
  shows "VLPS_Write p s =
    (if unat (vs_maxSize s) < length p then Return (0, Some ErrShortBuffer, s)
     else if unat (vs_maxSize s) < length (header_of p) + length p then Panic
     else case conn_write (header_of p @ p) (vs_conn s) of
       (n, err, c') \<Rightarrow>
         Return (n, err,
           s\<lparr>vs_conn := c',
             vs_buf := header_of p @ p @ drop (length (header_of p) + length p) (vs_buf s)\<rparr>))"
  using Write_fits [OF assms] Write_too_long Write_panics [OF assms] by auto

theorem VLPS_Write_correct_witness:
  "VLPS_Write [1, 2, 3] (NewVarLenPacketStream (conn_of []) 3) = Panic
   \<and> VLPS_Write [1, 2, 3, 4] (NewVarLenPacketStream (conn_of []) 3)
     = Return (0, Some ErrShortBuffer, NewVarLenPacketStream (conn_of []) 3)"
  using VLPS_Write_correct [OF wf_New, of "[1, 2, 3]" "conn_of []" 3]
    VLPS_Write_correct [OF wf_New, of "[1, 2, 3, 4]" "conn_of []" 3]
  by (simp add: uvarint_bytes_small)

lemma Read_packet:
  assumes "wf_stream r" and "pending (vs_conn r) = header_of p @ p @ rest"
    and "length p \<le> unat (vs_maxSize r)" and "length p \<le> plen"
  shows "\<exists>r'. VLPS_Read plen r = (p, None, r') \<and> pending (vs_conn r') = rest \<and> wf_stream r'"
proof -
  obtain r1 where r1: "read_uvarint VLPS_ReadByte r = (of_nat (length p), None, r1)"
    "pending (vs_conn r1) = p @ rest" "stream_frame r1 = stream_frame r"
    using read_header [OF assms(1), of "of_nat (length p)" "p @ rest"] assms(2) by auto
  have n: "unat (of_nat (length p) :: uint64) = length p" by (rule unat_of_length [OF assms(3)])
  have "\<not> vs_maxSize r1 < of_nat (length p)"
    using stream_frame_maxSize [OF r1(3)] assms(3) n by (simp add: word_less_nat_alt)
  moreover obtain chs where
    "read_full (length p) (vs_conn r1) = (p, None, (vs_conn r1)\<lparr>rd_chunks := chs\<rparr>)" "concat chs = rest"
    using read_full_enough [of "length p" "vs_conn r1"] r1(2) by auto
  ultimately show ?thesis
    using r1 assms(1,4) n
    by (simp add: VLPS_Read_def pending_def wf_stream_def stream_frame_def)
qed

text \<open>
  C23: a packet that one side writes is what the other side reads: from any connection on which the
  written bytes come first, however it cuts them into pieces, a reader with room for the payload
  returns exactly the payload and leaves the following bytes for the next packet.
\<close>

theorem VLPS_roundtrip:
  assumes "wf_stream w" and "wf_stream r" and "VLPS_Write p w = Return (n, None, w')"
    and "wr_data (vs_conn w') = wr_data (vs_conn w) @ sent" and "pending (vs_conn r) = sent @ rest"
    and "length p \<le> unat (vs_maxSize r)" and "length p \<le> plen"
  shows "\<exists>r'. VLPS_Read plen r = (p, None, r') \<and> pending (vs_conn r') = rest \<and> wf_stream r'"
proof -
  have "length (header_of p) + length p \<le> unat (vs_maxSize w)"
    using Write_too_long [of w p] Write_panics [OF assms(1), of p] assms(3) by fastforce
  from Write_fits [OF assms(1) this] have "sent = header_of p @ p"
    using assms(3,4) by (auto simp: conn_write_def split: if_splits option.splits)
  then show ?thesis using Read_packet [OF assms(2) _ assms(6,7), of rest] assms(5) by simp
qed

theorem VLPS_roundtrip_witness:
  "\<exists>r'. VLPS_Read 16 (NewVarLenPacketStream (conn_of [1, 7, 9]) 8) = ([7], None, r')
        \<and> pending (vs_conn r') = [9] \<and> wf_stream r'"
proof (rule VLPS_roundtrip [OF wf_New wf_New])
  let ?w = "NewVarLenPacketStream (conn_of []) 8"
  have h: "header_of [7] = [1]" by (simp add: uvarint_bytes_small)
  show "VLPS_Write [7] ?w =
      Return (Suc (Suc 0), None,
        ?w\<lparr>vs_conn := (conn_of [])\<lparr>wr_data := [1, 7]\<rparr>,
           vs_buf := [1, 7] @ drop (Suc (Suc 0)) (vs_buf ?w)\<rparr>)"
    using Write_fits [OF wf_New, of "[7]" "conn_of []" 8] unfolding h
    by (simp add: conn_write_def conn_of_def)
qed (simp_all add: conn_of_def pending_def)

section \<open>The stream as a packet framing\<close>

text \<open>A packet as it appears on a fresh connection, and the first packet of received bytes.\<close>

definition VLPS_frame :: "uint64 \<Rightarrow> byte list \<Rightarrow> byte list option" where
  "VLPS_frame m p =
     (case VLPS_Write p (NewVarLenPacketStream (conn_of []) m) of
        Return (n, None, s') \<Rightarrow> Some (wr_data (vs_conn s'))
      | _ \<Rightarrow> None)"

definition VLPS_unframe :: "uint64 \<Rightarrow> byte list \<Rightarrow> (byte list \<times> byte list) option" where
  "VLPS_unframe m bs =
     (case VLPS_Read (unat m) (NewVarLenPacketStream (conn_of bs) m) of
        (p, None, s') \<Rightarrow> Some (p, pending (vs_conn s'))
      | _ \<Rightarrow> None)"

lemma VLPS_frame_eq:
  "VLPS_frame m p =
     (if length (header_of p) + length p \<le> unat m then Some (header_of p @ p) else None)"
  using Write_fits [OF wf_New, of p "conn_of []" m]
    Write_too_long [of "NewVarLenPacketStream (conn_of []) m" p]
    Write_panics [OF wf_New, of p "conn_of []" m]
  by (fastforce simp: VLPS_frame_def conn_write_def conn_of_def)

interpretation vlps: framing "VLPS_frame m" "VLPS_unframe m" for m
proof
  fix p bs rest
  assume "VLPS_frame m p = Some bs"
  then have fits: "length p \<le> unat m" and bs: "bs = header_of p @ p"
    by (auto simp: VLPS_frame_eq split: if_splits)
  show "VLPS_unframe m (bs @ rest) = Some (p, rest)"
    using Read_packet [OF wf_New, of "conn_of (bs @ rest)" m p rest "unat m"] fits bs
    by (auto simp: VLPS_unframe_def)
qed

text \<open>
  A whole conversation. If every payload of a list can be framed, a reader that is given the
  frames one after the other, followed by anything, gets back exactly that list of payloads and
  stops exactly before what follows.
\<close>

theorem VLPS_conversation:
  assumes "framing.frames (VLPS_frame m) ps = Some bs"
  shows "framing.unframes (VLPS_unframe m) (length ps) (bs @ rest) = Some (ps, rest)"
  using assms by (rule vlps.unframes_frames)

theorem VLPS_conversation_witness:
  "framing.unframes (VLPS_unframe 16) 2 ([2, 5, 6, 0] @ [9]) = Some ([[5, 6], []], [9])"
proof -
  have "framing.frames (VLPS_frame 16) [[5, 6], []] = Some [2, 5, 6, 0]"
    by (simp add: vlps.frames.simps VLPS_frame_eq uvarint_bytes_small)
  from VLPS_conversation [OF this, of "[9]"] show ?thesis by (simp add: numeral_2_eq_2)
qed

text \<open>
  A stream that ends inside a header yields \<open>ErrInvalidHeader\<close>, and a complete header that
  announces more than \<open>maxSize\<close>, or more than the caller's buffer, yields \<open>ErrShortBuffer\<close> with the
  header consumed and the announced payload still on the connection.
\<close>

theorem VLPS_Read_errors:
  assumes "wf_stream s"
  shows "(pending (vs_conn s) = [] \<longrightarrow>
      (\<exists>s'. VLPS_Read plen s = ([], Some (ErrInvalidHeader (rd_err (vs_conn s))), s')))
    \<and> (pending (vs_conn s) = uvarint_bytes v @ rest \<longrightarrow> vs_maxSize s < v \<or> plen < unat v \<longrightarrow>
      (\<exists>s'. VLPS_Read plen s = ([], Some ErrShortBuffer, s') \<and> pending (vs_conn s') = rest))"
proof (intro conjI impI)
  assume "pending (vs_conn s) = []"
  with ReadByte_eof [of s] assms
  show "\<exists>s'. VLPS_Read plen s = ([], Some (ErrInvalidHeader (rd_err (vs_conn s))), s')"
    by (auto simp: VLPS_Read_def read_uvarint_def eval_nat_numeral wf_stream_def)
next
  assume p: "pending (vs_conn s) = uvarint_bytes v @ rest" and big: "vs_maxSize s < v \<or> plen < unat v"
  from read_header [OF assms p] big
  show "\<exists>s'. VLPS_Read plen s = ([], Some ErrShortBuffer, s') \<and> pending (vs_conn s') = rest"
    by (auto simp: VLPS_Read_def stream_frame_def)
qed

theorem VLPS_Read_errors_witness:
  "\<exists>s'. VLPS_Read 4 (NewVarLenPacketStream (conn_of [9, 1, 2]) 8) = ([], Some ErrShortBuffer, s')
        \<and> pending (vs_conn s') = [1, 2]"
  using VLPS_Read_errors [OF wf_New, of "conn_of [9, 1, 2]" 8 4 9 "[1, 2]"]
  by (simp add: uvarint_bytes_small)

end
