(* ===== verification/GoText.thy ===== *)
theory GoText
  imports Prelude "HOL-Library.Char_ord" "HOL-Library.List_Lexorder"
begin

text \<open>
  The part of \<open>strconv\<close>, \<open>strings\<close>, \<open>unicode/utf8\<close> and \<open>fmt\<close> that the sources use. A Go string is its
  bytes, a list of 8-bit characters. Go's \<open>int\<close> is 64 bits wide: integers are \<open>int\<close> here, and every
  parser enforces the range.
\<close>

section \<open>Decimal numbers\<close>

definition digit_char :: "nat \<Rightarrow> char" where
  "digit_char d = char_of (48 + d)"

definition char_nat :: "char \<Rightarrow> nat" where
  "char_nat c = of_char c"

lemma char_nat_literal [simp]: "char_nat (Char b0 b1 b2 b3 b4 b5 b6 b7) = of_char (Char b0 b1 b2 b3 b4 b5 b6 b7)"
  by (simp add: char_nat_def)

lemma char_nat_inj: "char_nat c = char_nat d \<longleftrightarrow> c = d"
  by (simp add: char_nat_def)

definition is_digit :: "char \<Rightarrow> bool" where
  "is_digit c \<longleftrightarrow> 48 \<le> char_nat c \<and> char_nat c \<le> 57"

definition digit_val :: "char \<Rightarrow> nat" where
  "digit_val c = char_nat c - 48"

text \<open>\<open>strconv.FormatUint(n, 10)\<close> and \<open>strconv.Itoa\<close>.\<close>

fun nat_digits :: "nat \<Rightarrow> string" where
  "nat_digits n = (if n < 10 then [digit_char n] else nat_digits (n div 10) @ [digit_char (n mod 10)])"

declare nat_digits.simps [simp del]

definition FormatUint :: "uint64 \<Rightarrow> string" where
  "FormatUint x = nat_digits (unat x)"

definition Itoa :: "int \<Rightarrow> string" where
  "Itoa i = (if i < 0 then CHR ''-'' # nat_digits (nat (- i)) else nat_digits (nat i))"

text \<open>
  \<open>strconv.ParseUint(s, 10, 64)\<close>: the value with the error, as Go returns both. A value that does not
  fit is reported at the digit where it happens, before the rest is looked at.
\<close>

definition maxUint64 :: nat where
  "maxUint64 = 2 ^ 64 - 1"

fun parse_uint_loop :: "nat \<Rightarrow> string \<Rightarrow> nat \<times> error option" where
  "parse_uint_loop n [] = (n, None)"
| "parse_uint_loop n (c # cs) =
     (if \<not> is_digit c then (0, Some ErrSyntax)
      else if maxUint64 < n * 10 + digit_val c then (maxUint64, Some ErrRange)
      else parse_uint_loop (n * 10 + digit_val c) cs)"

definition ParseUint :: "string \<Rightarrow> nat \<times> error option" where
  "ParseUint s = (if s = [] then (0, Some ErrSyntax) else parse_uint_loop 0 s)"

text \<open>\<open>strconv.ParseInt(s, 10, 64)\<close>; \<open>strconv.Atoi\<close> agrees with it in value and kind of error.\<close>

definition ParseInt :: "string \<Rightarrow> int \<times> error option" where
  "ParseInt s =
     (let (neg, body) =
            (case s of
               c # cs \<Rightarrow> if c = CHR ''+'' then (False, cs) else if c = CHR ''-'' then (True, cs) else (False, s)
             | [] \<Rightarrow> (False, s))
      in case ParseUint body of
           (un, err) \<Rightarrow>
             if err \<noteq> None \<and> err \<noteq> Some ErrRange then (0, err)
             else if \<not> neg \<and> 2 ^ 63 \<le> un then (2 ^ 63 - 1, Some ErrRange)
             else if neg \<and> 2 ^ 63 < un then (- (2 ^ 63), Some ErrRange)
             else ((if neg then - int un else int un), None))"

definition Atoi :: "string \<Rightarrow> int \<times> error option" where
  "Atoi s = ParseInt s"

lemma char_nat_digit [simp]: "d < 10 \<Longrightarrow> char_nat (digit_char d) = 48 + d"
  by (simp add: char_nat_def digit_char_def)

lemma digit_char_digit [simp]: "d < 10 \<Longrightarrow> is_digit (digit_char d)"
  by (simp add: is_digit_def)

lemma digit_val_char [simp]: "d < 10 \<Longrightarrow> digit_val (digit_char d) = d"
  by (simp add: digit_val_def)

lemma nat_digits_all: "c \<in> set (nat_digits n) \<Longrightarrow> is_digit c"
  by (induction n rule: nat_digits.induct) (subst (asm) nat_digits.simps, auto split: if_splits)

lemma digits_disjoint: "set (nat_digits n) \<inter> {CHR '':'', CHR ''['', CHR '']''} = {}"
  by (auto dest!: nat_digits_all simp: is_digit_def)

lemma nat_digits_neq_Nil [simp]: "nat_digits n \<noteq> []"
  by (subst nat_digits.simps) simp

lemma nat_digits_zero: "hd (nat_digits n) = CHR ''0'' \<longleftrightarrow> n = 0"
proof (induction n rule: nat_digits.induct)
  case (1 n)
  show ?case
  proof (cases "n < 10")
    case True
    have "digit_char n = CHR ''0'' \<longleftrightarrow> char_nat (digit_char n) = char_nat (CHR ''0'')"
      by (rule char_nat_inj [symmetric])
    with True show ?thesis by (simp add: nat_digits.simps [of n] char_nat_def [of "CHR ''0''"])
  next
    case False
    with 1 show ?thesis by (simp add: nat_digits.simps [of n])
  qed
qed

lemma digit_no_sign: "is_digit c \<Longrightarrow> c \<noteq> CHR ''-'' \<and> c \<noteq> CHR ''+''"
  by (auto simp: is_digit_def char_nat_def)

lemma parse_uint_loop_digits:
  "n \<le> maxUint64 \<Longrightarrow> parse_uint_loop 0 (nat_digits n @ cs) = parse_uint_loop n cs"
proof (induction n arbitrary: cs rule: nat_digits.induct)
  case (1 n)
  show ?case
  proof (cases "n < 10")
    case True
    then show ?thesis using "1.prems" by (simp add: nat_digits.simps [of n])
  next
    case False
    then have "nat_digits n = nat_digits (n div 10) @ [digit_char (n mod 10)]"
      by (simp add: nat_digits.simps [of n])
    moreover have "n div 10 \<le> maxUint64" using "1.prems" by (rule order_trans [OF div_le_dividend])
    moreover have "(n div 10) * 10 + n mod 10 = n" by presburger
    ultimately show ?thesis
      using "1.IH" [OF False, of "digit_char (n mod 10) # cs"] "1.prems" by simp
  qed
qed

lemma ParseUint_digits: "n \<le> maxUint64 \<Longrightarrow> ParseUint (nat_digits n) = (n, None)"
  using parse_uint_loop_digits [of n "[]"] by (simp add: ParseUint_def)

lemma unat_le_max: "unat (x :: uint64) \<le> maxUint64"
proof -
  have "unat x < 2 ^ LENGTH(64)" by (rule unsigned_less)
  then show ?thesis by (simp add: maxUint64_def)
qed

lemma ParseUint_FormatUint [simp]: "ParseUint (FormatUint x) = (unat x, None)"
  by (simp add: FormatUint_def ParseUint_digits unat_le_max)

text \<open>The values of a Go \<open>int\<close>.\<close>

definition int64_ok :: "int \<Rightarrow> bool" where
  "int64_ok i \<longleftrightarrow> - (2 ^ 63) \<le> i \<and> i < 2 ^ 63"

lemma nat_digits_no_sign: "nat_digits n = c # cs \<Longrightarrow> c \<noteq> CHR ''-'' \<and> c \<noteq> CHR ''+''"
  using nat_digits_all [of c n] digit_no_sign by simp

lemma ParseInt_Itoa [simp]:
  assumes "int64_ok i" shows "ParseInt (Itoa i) = (i, None)"
proof (cases "i < 0")
  case True
  then have "nat (- i) \<le> 2 ^ 63" using assms by (auto simp: int64_ok_def)
  moreover from this have "ParseUint (nat_digits (nat (- i))) = (nat (- i), None)"
    by (intro ParseUint_digits) (simp add: maxUint64_def)
  ultimately show ?thesis using True by (simp add: ParseInt_def Itoa_def)
next
  case False
  then have "nat i < 2 ^ 63" using assms by (auto simp: int64_ok_def)
  moreover from this have "ParseUint (nat_digits (nat i)) = (nat i, None)"
    by (intro ParseUint_digits) (simp add: maxUint64_def)
  ultimately show ?thesis
    using False nat_digits_no_sign [of "nat i"]
    by (cases "nat_digits (nat i)") (auto simp: ParseInt_def Itoa_def)
qed

section \<open>Strings\<close>

text \<open>\<open>strings.HasPrefix\<close>, \<open>strings.Contains\<close> and \<open>strings.Split\<close> on a one-character separator.\<close>

definition HasPrefix :: "string \<Rightarrow> string \<Rightarrow> bool" where
  "HasPrefix s p \<longleftrightarrow> take (length p) s = p"

lemma HasPrefix_append: "HasPrefix s p \<longleftrightarrow> (\<exists>t. s = p @ t)"
  unfolding HasPrefix_def by (metis append_eq_conv_conj)

definition Contains :: "string \<Rightarrow> string \<Rightarrow> bool" where
  "Contains s sub \<longleftrightarrow> list_ex (\<lambda>k. HasPrefix (drop k s) sub) [0..<Suc (length s)]"

fun Split :: "char \<Rightarrow> string \<Rightarrow> string list" where
  "Split sep [] = [[]]"
| "Split sep (c # cs) =
     (if c = sep then [] # Split sep cs
      else case Split sep cs of [] \<Rightarrow> [[c]] | w # ws \<Rightarrow> (c # w) # ws)"

fun Join :: "char \<Rightarrow> string list \<Rightarrow> string" where
  "Join sep [] = []"
| "Join sep [w] = w"
| "Join sep (w # v # ws) = w @ sep # Join sep (v # ws)"

lemma Split_neq_Nil [simp]: "Split sep s \<noteq> []"
  by (induction s) (auto split: list.splits)

lemma Split_word: "sep \<notin> set w \<Longrightarrow> Split sep w = [w]"
  by (induction w) auto

lemma Split_word_sep: "sep \<notin> set w \<Longrightarrow> Split sep (w @ sep # s) = w # Split sep s"
  by (induction w) auto

lemma Split_append: "Split sep (a @ sep # b) = Split sep a @ Split sep b"
proof (induction a)
  case (Cons c a)
  moreover obtain w ws where "Split sep a = w # ws" by (cases "Split sep a") auto
  ultimately show ?case by simp
qed simp

lemma Split_Join: "ws \<noteq> [] \<Longrightarrow> \<forall>w \<in> set ws. sep \<notin> set w \<Longrightarrow> Split sep (Join sep ws) = ws"
  by (induction sep ws rule: Join.induct) (auto simp: Split_word Split_word_sep)

section \<open>UTF-8\<close>

text \<open>
  The length of the well-formed sequence at the front of a string, 0 when there is none (\<open>utf8.DecodeRune\<close>
  reports \<open>RuneError\<close> of width 1). The bounds on the second byte are those of the encoding.
\<close>

definition cont_in :: "nat \<Rightarrow> nat \<Rightarrow> char \<Rightarrow> bool" where
  "cont_in lo hi c \<longleftrightarrow> lo \<le> char_nat c \<and> char_nat c \<le> hi"

definition second_ok :: "nat \<Rightarrow> char \<Rightarrow> bool" where
  "second_ok b c =
     (if b = 0xE0 then cont_in 0xA0 0xBF c
      else if b = 0xED then cont_in 0x80 0x9F c
      else if b = 0xF0 then cont_in 0x90 0xBF c
      else if b = 0xF4 then cont_in 0x80 0x8F c
      else cont_in 0x80 0xBF c)"

definition rune_need :: "nat \<Rightarrow> nat" where
  "rune_need b =
     (if b < 0x80 then 1
      else if 0xC2 \<le> b \<and> b \<le> 0xDF then 2
      else if 0xE0 \<le> b \<and> b \<le> 0xEF then 3
      else if 0xF0 \<le> b \<and> b \<le> 0xF4 then 4
      else 0)"

definition conts_ok :: "nat \<Rightarrow> string \<Rightarrow> bool" where
  "conts_ok b cs \<longleftrightarrow> cs = [] \<or> second_ok b (hd cs) \<and> list_all (cont_in 0x80 0xBF) (tl cs)"

definition rune_len :: "string \<Rightarrow> nat" where
  "rune_len s =
     (case s of
        [] \<Rightarrow> 0
      | c # cs \<Rightarrow>
          let n = rune_need (char_nat c)
          in if n \<le> length s \<and> conts_ok (char_nat c) (take (n - 1) cs) then n else 0)"

text \<open>\<open>utf8.Valid\<close>: the string is a sequence of well-formed runes.\<close>

function utf8_valid :: "string \<Rightarrow> bool" where
  "utf8_valid [] = True"
| "utf8_valid (c # cs) = (0 < rune_len (c # cs) \<and> utf8_valid (drop (rune_len (c # cs) - 1) cs))"
  by pat_completeness auto
termination
  by (relation "measure length") (auto simp: less_Suc_eq_le)

lemma rune_len_le: "rune_len s \<le> length s"
  by (auto simp: rune_len_def Let_def split: list.splits)

lemma rune_len_pos: "0 < rune_len (c # cs) \<Longrightarrow>
    rune_len (c # cs) = rune_need (char_nat c) \<and> rune_need (char_nat c) \<le> Suc (length cs)
    \<and> conts_ok (char_nat c) (take (rune_need (char_nat c) - 1) cs)"
  by (auto simp: rune_len_def Let_def split: if_splits)

lemma rune_len_append:
  assumes "0 < rune_len (c # cs)"
  shows "rune_len (c # cs @ t) = rune_len (c # cs)"
  using rune_len_pos [OF assms] by (auto simp: rune_len_def Let_def)

lemma rune_len_cut:
  assumes "0 < rune_len (c # cs)"
  shows "rune_len (c # take (rune_len (c # cs) - 1) cs @ t) = rune_len (c # cs)"
proof -
  let ?n = "rune_need (char_nat c)"
  have n: "rune_len (c # cs) = ?n" "?n \<le> Suc (length cs)" "conts_ok (char_nat c) (take (?n - 1) cs)"
    using rune_len_pos [OF assms] by auto
  have "take (?n - 1) (take (?n - 1) cs @ t) = take (?n - 1) cs" using n(2) by simp
  with n show ?thesis by (simp add: rune_len_def Let_def)
qed

lemma cont_high: "cont_in lo hi d \<Longrightarrow> 128 \<le> lo \<Longrightarrow> 128 \<le> char_nat d"
  by (simp add: cont_in_def)

lemma second_high: "second_ok b d \<Longrightarrow> 128 \<le> char_nat d"
  by (auto simp: second_ok_def dest: cont_high split: if_splits)

lemma conts_high:
  assumes "conts_ok b cs" and "d \<in> set cs" shows "128 \<le> char_nat d"
  using assms by (cases cs) (auto simp: conts_ok_def list_all_iff dest: second_high cont_high)

lemma rune_high:
  assumes "0 < rune_len (c # cs)" and "d \<in> set (take (rune_len (c # cs) - 1) cs)"
  shows "128 \<le> char_nat d"
  using rune_len_pos [OF assms(1)] assms(2) conts_high by metis

lemma rune_len_ascii [simp]: "char_nat c < 128 \<Longrightarrow> rune_len (c # cs) = 1"
  by (simp add: rune_len_def rune_need_def conts_ok_def)

lemma utf8_valid_ascii: "\<forall>c \<in> set s. char_nat c < 128 \<Longrightarrow> utf8_valid s"
  by (induction s) auto

end
