(* ===== verification/GoNet.thy ===== *)
theory GoNet
  imports GoText
begin

text \<open>
  The part of \<open>net\<close> the sources use on addresses: \<open>net.IPNet\<close>, \<open>To4\<close>, \<open>Mask.Size\<close>, the parser of IPv4 and
  IPv6 addresses (\<open>netip.ParseAddr\<close>) and \<open>net.ParseCIDR\<close>.
\<close>

section \<open>IP networks\<close>

text \<open>A \<open>net.IPNet\<close>, its \<open>To4\<close> (an absent result is the empty list) and \<open>Mask.Size\<close>.\<close>

record IPNet =
  ipnet_IP :: "byte list"
  ipnet_Mask :: "byte list"

definition ip_To4 :: "byte list \<Rightarrow> byte list" where
  "ip_To4 ip =
     (if length ip = 4 then ip
      else if length ip = 16 \<and> take 12 ip = replicate 10 0 @ [0xff, 0xff] then drop 12 ip
      else [])"

text \<open>The leading one bits of a byte, when only zero bits follow them.\<close>

definition byte_ones :: "byte \<Rightarrow> nat option" where
  "byte_ones v = List.find (\<lambda>n. v = NOT (mask (8 - n))) [0, 1, 2, 3, 4, 5, 6, 7, 8]"

fun simpleMaskLength :: "byte list \<Rightarrow> nat option" where
  "simpleMaskLength [] = Some 0"
| "simpleMaskLength (v # vs) =
     (if v = 0xff then map_option ((+) 8) (simpleMaskLength vs)
      else if list_all (\<lambda>w. w = 0) vs then byte_ones v else None)"

definition mask_Size :: "byte list \<Rightarrow> nat \<times> nat" where
  "mask_Size m = (case simpleMaskLength m of None \<Rightarrow> (0, 0) | Some n \<Rightarrow> (n, 8 * length m))"

text \<open>An IPv4 network as \<open>net.ParseCIDR\<close> returns it: the address masked, four bytes of each.\<close>

definition be_bytes32 :: "uint32 \<Rightarrow> byte list" where
  "be_bytes32 x = [ucast (drop_bit 24 x), ucast (drop_bit 16 x), ucast (drop_bit 8 x), ucast x]"
lemma mask_Size_v4: "n \<le> 32 \<Longrightarrow> mask_Size (be_bytes32 (NOT (mask (32 - n)))) = (n, 32)"
proof -
  have "list_all (\<lambda>n. mask_Size (be_bytes32 (NOT (mask (32 - n)))) = (n, 32)) [0..<33]"
    by code_simp
  then show "n \<le> 32 \<Longrightarrow> ?thesis" by (simp add: list_all_iff)
qed
definition v4_net :: "uint32 \<Rightarrow> nat \<Rightarrow> IPNet" where
  "v4_net a n =
     \<lparr>ipnet_IP = be_bytes32 (a AND NOT (mask (32 - n))), ipnet_Mask = be_bytes32 (NOT (mask (32 - n)))\<rparr>"

section \<open>Parsing addresses\<close>

text \<open>An octet of a dotted address: digits without a leading zero, at most 255.\<close>

fun octet_loop :: "nat \<Rightarrow> string \<Rightarrow> nat option" where
  "octet_loop v [] = Some v"
| "octet_loop v (c # cs) =
     (if \<not> is_digit c then None
      else if 255 < v * 10 + digit_val c then None
      else octet_loop (v * 10 + digit_val c) cs)"

definition parse_octet :: "string \<Rightarrow> byte option" where
  "parse_octet s =
     (case s of
        [] \<Rightarrow> None
      | c # cs \<Rightarrow>
          if c = CHR ''0'' \<and> cs \<noteq> [] then None else map_option of_nat (octet_loop 0 s))"

definition parseIPv4 :: "string \<Rightarrow> byte list option" where
  "parseIPv4 s =
     (case map parse_octet (Split (CHR ''.'') s) of
        [Some a, Some b, Some c, Some d] \<Rightarrow> Some [a, b, c, d]
      | _ \<Rightarrow> None)"

definition hex_digit :: "char \<Rightarrow> nat option" where
  "hex_digit c =
     (let b = char_nat c in
      if 48 \<le> b \<and> b \<le> 57 then Some (b - 48)
      else if 97 \<le> b \<and> b \<le> 102 then Some (b - 87)
      else if 65 \<le> b \<and> b \<le> 70 then Some (b - 55)
      else None)"

definition hex_run :: "string \<Rightarrow> string" where
  "hex_run s = takeWhile (\<lambda>c. hex_digit c \<noteq> None) s"

definition hex_value :: "string \<Rightarrow> nat" where
  "hex_value s = foldl (\<lambda>a c. a * 16 + the (hex_digit c)) 0 s"

text \<open>
  The loop of \<open>parseIPv6\<close>: \<open>ip\<close> are the bytes so far and \<open>ell\<close> where \<open>::\<close> stood. Each round takes a group
  of at most four hexadecimal digits, or the dotted rest; the loop ends at sixteen bytes or at the
  end of the text. The result is what was read, the ellipsis and what is left of the text.
\<close>

function v6_loop :: "byte list \<Rightarrow> nat option \<Rightarrow> string \<Rightarrow> (byte list \<times> nat option \<times> string) option" where
  "v6_loop ip ell s =
     (if 16 \<le> length ip then Some (ip, ell, s)
      else let h = hex_run s; r = drop (length h) s in
        if h = [] \<or> 4 < length h then None
        else if r \<noteq> [] \<and> hd r = CHR ''.'' then
          (if ell = None \<and> length ip \<noteq> 12 \<or> 16 < length ip + 4 then None
           else case parseIPv4 s of None \<Rightarrow> None | Some q \<Rightarrow> Some (ip @ q, ell, []))
        else let ip' = ip @ [of_nat (hex_value h div 256), of_nat (hex_value h)] in
          (case r of
             [] \<Rightarrow> Some (ip', ell, [])
           | c # t \<Rightarrow>
               if c \<noteq> CHR '':'' \<or> t = [] then None
               else if hd t = CHR '':'' then
                 (if ell \<noteq> None then None
                  else if tl t = [] then Some (ip', Some (length ip'), [])
                  else v6_loop ip' (Some (length ip')) (tl t))
               else v6_loop ip' ell t))"
  by pat_completeness auto
termination
  by (relation "measure (\<lambda>(ip, ell, s). 16 - length ip)") auto

declare v6_loop.simps [simp del]

definition parseIPv6 :: "string \<Rightarrow> byte list option" where
  "parseIPv6 s =
     (let (ell, s') = (if HasPrefix s ''::'' then (Some 0, drop 2 s) else (None, s))
      in if ell \<noteq> None \<and> s' = [] then Some (replicate 16 0)
         else case v6_loop [] ell s' of
           None \<Rightarrow> None
         | Some (ip, ell', rest) \<Rightarrow>
             if rest \<noteq> [] then None
             else if length ip < 16 then
               (case ell' of
                  None \<Rightarrow> None
                | Some e \<Rightarrow> Some (take e ip @ replicate (16 - length ip) 0 @ drop e ip))
             else if ell' \<noteq> None then None
             else Some ip)"

text \<open>\<open>netip.ParseAddr\<close> without a zone: four bytes or sixteen. The first dot or colon decides.\<close>

definition ParseAddr :: "string \<Rightarrow> byte list option" where
  "ParseAddr s =
     (case List.find (\<lambda>c. c = CHR ''.'' \<or> c = CHR '':'' \<or> c = CHR ''%'') s of
        None \<Rightarrow> None
      | Some c \<Rightarrow>
          if c = CHR ''.'' then parseIPv4 s
          else if c = CHR ''%'' \<or> CHR ''%'' \<in> set s then None
          else parseIPv6 s)"

section \<open>Networks\<close>

definition CIDRMask :: "nat \<Rightarrow> nat \<Rightarrow> byte list" where
  "CIDRMask ones bits =
     map (\<lambda>i. NOT (mask (8 - min 8 (ones - 8 * i)))) [0..<bits div 8]"

definition ip_Mask :: "byte list \<Rightarrow> byte list \<Rightarrow> byte list" where
  "ip_Mask ip m = map2 (AND) ip m"

text \<open>
  \<open>net.ParseCIDR\<close>, the network only: the text before the first slash is an address, the rest a
  decimal number of bits that the address has.
\<close>

definition ParseCIDR :: "string \<Rightarrow> IPNet option" where
  "ParseCIDR s =
     (let addr = takeWhile (\<lambda>c. c \<noteq> CHR ''/'') s; rest = drop (length addr) s
      in case rest of
           [] \<Rightarrow> None
         | _ # bits \<Rightarrow>
             (case ParseAddr addr of
                None \<Rightarrow> None
              | Some ip \<Rightarrow>
                  if bits = [] \<or> \<not> list_all is_digit bits then None
                  else let n = foldl (\<lambda>a c. a * 10 + digit_val c) 0 bits
                    in if 0xFFFFFF \<le> n \<or> 8 * length ip < n then None
                       else let m = CIDRMask n (8 * length ip)
                         in Some \<lparr>ipnet_IP = ip_Mask ip m, ipnet_Mask = m\<rparr>))"

section \<open>Printed IPv4 networks\<close>

definition IPv4_String :: "uint32 \<Rightarrow> string" where
  "IPv4_String a = Join (CHR ''.'') (map (\<lambda>b. nat_digits (unat b)) (be_bytes32 a))"

lemma octet_loop_digits: "n \<le> 255 \<Longrightarrow> octet_loop 0 (nat_digits n @ cs) = octet_loop n cs"
proof (induction n arbitrary: cs rule: nat_digits.induct)
  case (1 n)
  show ?case
  proof (cases "n < 10")
    case True
    then show ?thesis by (simp add: nat_digits.simps [of n])
  next
    case False
    then have "nat_digits n = nat_digits (n div 10) @ [digit_char (n mod 10)]"
      by (simp add: nat_digits.simps [of n])
    moreover have "n div 10 \<le> 255" using "1.prems" by (rule order_trans [OF div_le_dividend])
    moreover have "(n div 10) * 10 + n mod 10 = n" by presburger
    ultimately show ?thesis using "1.IH" [OF False, of "digit_char (n mod 10) # cs"] "1.prems" by simp
  qed
qed

lemma parse_octet_digits: "parse_octet (nat_digits (unat (b :: byte))) = Some b"
proof -
  have "unat b < 2 ^ LENGTH(8)" by (rule unsigned_less)
  then have le: "unat b \<le> 255" by simp
  obtain c cs where d: "nat_digits (unat b) = c # cs" by (cases "nat_digits (unat b)") auto
  have "cs = []" if "c = CHR ''0''"
    using that d nat_digits_zero [of "unat b"] by (simp add: nat_digits.simps [of 0])
  with d octet_loop_digits [OF le, of "[]"] show ?thesis by (auto simp: parse_octet_def)
qed

lemma parseIPv4_String: "parseIPv4 (IPv4_String a) = Some (be_bytes32 a)"
proof -
  have "CHR ''.'' \<notin> set (nat_digits n)" for n
    using nat_digits_all [of "CHR ''.''" n] by (auto simp: is_digit_def)
  then have "Split (CHR ''.'') (IPv4_String a) = map (\<lambda>b. nat_digits (unat b)) (be_bytes32 a)"
    unfolding IPv4_String_def by (intro Split_Join) (auto simp: be_bytes32_def)
  then show ?thesis by (simp add: parseIPv4_def parse_octet_digits be_bytes32_def)
qed

lemma find_first: "\<forall>x \<in> set ds. \<not> P x \<Longrightarrow> P c \<Longrightarrow> List.find P (ds @ c # cs) = Some c"
  by (induction ds) auto

lemma ParseAddr_String: "ParseAddr (IPv4_String a) = Some (be_bytes32 a)"
proof -
  obtain ds cs where s: "IPv4_String a = ds @ CHR ''.'' # cs" and ds: "\<forall>x \<in> set ds. is_digit x"
  proof
    show "IPv4_String a = nat_digits (unat (be_bytes32 a ! 0)) @ CHR ''.'' #
        Join (CHR ''.'') (map (\<lambda>b. nat_digits (unat b)) (tl (be_bytes32 a)))"
      by (simp add: IPv4_String_def be_bytes32_def)
  qed (use nat_digits_all in auto)
  have "List.find (\<lambda>c. c = CHR ''.'' \<or> c = CHR '':'' \<or> c = CHR ''%'') (IPv4_String a) = Some (CHR ''.'')"
    unfolding s using ds by (intro find_first) (auto simp: is_digit_def)
  then show ?thesis by (simp add: ParseAddr_def parseIPv4_String)
qed

lemma foldl_digits: "foldl (\<lambda>a c. a * 10 + digit_val c) 0 (nat_digits n) = n"
  by (induction n rule: nat_digits.induct) (subst nat_digits.simps, simp)

lemma v4_mask: "n \<le> 32 \<Longrightarrow> CIDRMask n 32 = be_bytes32 (NOT (mask (32 - n)))"
proof -
  have "list_all (\<lambda>n. CIDRMask n 32 = be_bytes32 (NOT (mask (32 - n)))) [0..<33]" by code_simp
  then show "n \<le> 32 \<Longrightarrow> ?thesis" by (simp add: list_all_iff)
qed

lemma ip_Mask_v4: "ip_Mask (be_bytes32 a) (be_bytes32 m) = be_bytes32 (a AND m)"
  by (simp add: ip_Mask_def be_bytes32_def unsigned_and_eq)

text \<open>A network written out is parsed to what the router expects.\<close>

lemma ParseCIDR_v4:
  assumes "n \<le> 32"
  shows "ParseCIDR (IPv4_String a @ CHR ''/'' # nat_digits n) = Some (v4_net a n)"
proof -
  have "CHR ''/'' \<notin> set (nat_digits k)" for k
    using nat_digits_all [of "CHR ''/''" k] by (auto simp: is_digit_def)
  then have "CHR ''/'' \<notin> set (IPv4_String a)" by (simp add: IPv4_String_def be_bytes32_def)
  then have "takeWhile (\<lambda>c. c \<noteq> CHR ''/'') (IPv4_String a @ CHR ''/'' # nat_digits n) = IPv4_String a"
    by (subst takeWhile_append2) auto
  moreover have "list_all is_digit (nat_digits n)" using nat_digits_all by (auto simp: list_all_iff)
  moreover have "length (be_bytes32 a) = 4" by (simp add: be_bytes32_def)
  ultimately show ?thesis
    using assms by (simp add: ParseCIDR_def ParseAddr_String foldl_digits Let_def v4_mask ip_Mask_v4 v4_net_def)
qed

section \<open>Texts that are addresses\<close>

lemma parseIPv4_length: "parseIPv4 s = Some ip \<Longrightarrow> length ip = 4"
  by (auto simp: parseIPv4_def split: list.splits option.splits)

lemma v6_loop_length:
  "v6_loop ip ell s = Some (ip', ell', rest) \<Longrightarrow> even (length ip) \<Longrightarrow> length ip \<le> 16 \<Longrightarrow> even (length ip') \<and> length ip' \<le> 16"
proof (induction ip ell s rule: v6_loop.induct)
  case (1 ip ell s)
  have step: "length ip + 2 \<le> 16" if "\<not> 16 \<le> length ip" using that "1.prems"(2) by presburger
  show ?case
    using "1.prems" "1.IH" [OF _ refl refl _ _ refl] step parseIPv4_length [of s]
    by (subst (asm) v6_loop.simps) (auto simp: Let_def split: if_splits option.splits list.splits)
qed

lemma ParseAddr_length: "ParseAddr s = Some ip \<Longrightarrow> length ip = 4 \<or> length ip = 16"
  using parseIPv4_length [of s ip]
  by (auto simp: ParseAddr_def parseIPv6_def Let_def dest!: v6_loop_length split: option.splits if_splits prod.splits)

text \<open>No brackets, so that they can be put around them.\<close>

definition brackets :: "char set" where
  "brackets = {CHR ''['', CHR '']''}"

lemma octet_loop_chars: "octet_loop v s = Some n \<Longrightarrow> set s \<inter> brackets = {}"
  by (induction v s rule: octet_loop.induct) (auto simp: brackets_def is_digit_def split: if_splits)

lemma Split_chars: "set s \<subseteq> insert sep (\<Union> (set ` set (Split sep s)))"
  by (induction s) (fastforce split: list.splits if_splits)+

lemma parseIPv4_chars: "parseIPv4 s = Some ip \<Longrightarrow> set s \<inter> brackets = {}"
proof -
  assume "parseIPv4 s = Some ip"
  then have "\<forall>w \<in> set (Split (CHR ''.'') s). parse_octet w \<noteq> None"
    by (auto simp: parseIPv4_def map_eq_Cons_conv split: list.splits option.splits)
  moreover have "set w \<inter> brackets = {}" if "parse_octet w \<noteq> None" for w
    using that octet_loop_chars [of 0 w] by (auto simp: parse_octet_def split: list.splits if_splits)
  ultimately show ?thesis using Split_chars [of s "CHR ''.''"] by (fastforce simp: brackets_def)
qed

lemma hex_run_split: "set s \<inter> brackets = set (drop (length (hex_run s)) s) \<inter> brackets"
proof -
  have "set (hex_run s) \<inter> brackets = {}"
    by (auto simp: hex_run_def brackets_def hex_digit_def char_nat_def dest!: set_takeWhileD)
  moreover have "s = hex_run s @ drop (length (hex_run s)) s"
    by (metis append_eq_conv_conj hex_run_def takeWhile_dropWhile_id)
  ultimately show ?thesis by (metis Int_Un_distrib2 set_append sup_bot_left)
qed

lemma v6_loop_chars: "v6_loop ip ell s = Some (ip', ell', []) \<Longrightarrow> set s \<inter> brackets = {}"
proof (induction ip ell s rule: v6_loop.induct)
  case (1 ip ell s)
  show ?case
    using "1.prems" "1.IH" [OF _ refl refl _ _ refl] parseIPv4_chars [of s] hex_run_split [of s]
    by (subst (asm) v6_loop.simps) (auto simp: Let_def brackets_def neq_Nil_conv split: if_splits option.splits list.splits)
qed

lemma ParseAddr_chars: "ParseAddr s = Some ip \<Longrightarrow> set s \<inter> brackets = {}"
proof -
  assume a: "ParseAddr s = Some ip"
  have "set s \<subseteq> insert (CHR '':'') (set (drop 2 s))" if "HasPrefix s ''::''"
    using that by (cases s; cases "tl s") (auto simp: HasPrefix_def)
  with a v6_loop_chars [of "[]"] parseIPv4_chars [of s ip] show ?thesis
    by (fastforce simp: ParseAddr_def parseIPv6_def Let_def brackets_def split: option.splits if_splits prod.splits)
qed

end
