(* ===== verification/ProxyRouter.thy ===== *)
theory ProxyRouter
  imports GoNet "HOL-Library.Tree"
begin

text \<open>
  \<open>gateway/proxy_router.go\<close>: which outbound gateway carries the traffic to an IPv4 address. The
  router keeps the address ranges of its routes in the AVL tree of \<open>github.com/emirpasic/gods\<close>,
  keyed by the first address of a range, and walks the tree's nodes itself. The library's tree is
  its node structure; its operations are parameters, with what the code relies on stated in
  \<open>avltree_spec\<close>.
\<close>

section \<open>The range of a network\<close>

text \<open>\<open>big.Int.SetBytes\<close>, \<open>Int64\<close> and the conversion to \<open>uint32\<close>.\<close>

definition be_uint32 :: "byte list \<Rightarrow> uint32" where
  "be_uint32 bs = foldl (\<lambda>a b. push_bit 8 a OR ucast b) 0 bs"

text \<open>
  \<open>getCidrIntRange\<close>. A nil network is dereferenced. A shift by the width or more gives zero, in Go
  as for \<^const>\<open>push_bit\<close>.
\<close>

definition getCidrIntRange :: "IPNet option \<Rightarrow> (uint32 \<times> uint32) outcome" where
  "getCidrIntRange ipNet =
     (case ipNet of
        None \<Rightarrow> Panic
      | Some net \<Rightarrow>
          let ipMin = be_uint32 (ip_To4 (ipnet_IP net));
              (ones, allBits) = mask_Size (ipnet_Mask net);
              m = push_bit (allBits - ones) (0xffffffff :: uint32);
              ipMax = ipMin + NOT m
          in Return (ipMin, ipMax))"

section \<open>The tree of the library\<close>

record 'd routeItem =
  ri_max :: uint32
  ri_dialer :: 'd

type_synonym 'd route_tree = "(uint32 \<times> 'd routeItem) tree"

record 'd avltree =
  avl_Clear :: "'d route_tree \<Rightarrow> 'd route_tree"
  avl_Get :: "'d route_tree \<Rightarrow> uint32 \<Rightarrow> 'd routeItem option"
  avl_Put :: "uint32 \<Rightarrow> 'd routeItem \<Rightarrow> 'd route_tree \<Rightarrow> 'd route_tree"
  avl_Remove :: "uint32 \<Rightarrow> 'd route_tree \<Rightarrow> 'd route_tree"

text \<open>The entries of a search tree, and what the library documents of an ordered map.\<close>

definition ordered :: "'d route_tree \<Rightarrow> bool" where
  "ordered t \<longleftrightarrow> sorted_wrt (<) (map fst (inorder t))"

definition entries :: "'d route_tree \<Rightarrow> uint32 \<Rightarrow> 'd routeItem option" where
  "entries t = map_of (inorder t)"

definition avltree_spec :: "'d avltree \<Rightarrow> bool" where
  "avltree_spec A \<longleftrightarrow>
     (\<forall>t. avl_Clear A t = Leaf) \<and>
     (\<forall>t k. ordered t \<longrightarrow> avl_Get A t k = entries t k) \<and>
     (\<forall>t k v. ordered t \<longrightarrow> ordered (avl_Put A k v t) \<and> entries (avl_Put A k v t) = (entries t)(k \<mapsto> v)) \<and>
     (\<forall>t k. ordered t \<longrightarrow> ordered (avl_Remove A k t) \<and> entries (avl_Remove A k t) = (entries t)(k := None))"

section \<open>The router\<close>

text \<open>\<open>proxyRouter\<close>: \<open>None\<close> is the nil tree of a router that has not been initialised.\<close>

type_synonym 'd proxyRouter = "'d route_tree option"

text \<open>\<open>NewWith\<close> on the first call, \<open>Clear\<close> on every call.\<close>

definition router_init :: "'d avltree \<Rightarrow> 'd proxyRouter \<Rightarrow> 'd proxyRouter" where
  "router_init A r = Some (avl_Clear A (case r of None \<Rightarrow> Leaf | Some t \<Rightarrow> t))"

definition newProxyRouter :: "'d avltree \<Rightarrow> 'd proxyRouter" where
  "newProxyRouter A = router_init A None"

text \<open>The walk of \<open>add\<close> from the root: \<open>True\<close> when it falls off the tree, \<open>False\<close> at an overlap.\<close>

fun add_walk :: "uint32 \<Rightarrow> uint32 \<Rightarrow> 'd route_tree \<Rightarrow> bool" where
  "add_walk newMinIP newMaxIP Leaf = True"
| "add_walk newMinIP newMaxIP (Node l (curMinIP, ri) r) =
     (if ri_max ri < newMinIP then add_walk newMinIP newMaxIP r
      else if newMaxIP < curMinIP then add_walk newMinIP newMaxIP l
      else False)"

definition router_add ::
  "'d avltree \<Rightarrow> uint32 \<Rightarrow> 'd routeItem \<Rightarrow> 'd route_tree \<Rightarrow> bool \<times> 'd route_tree" where
  "router_add A key val t =
     (if ri_max val < key then (False, t)
      else if add_walk key (ri_max val) t then (True, avl_Put A key val t)
      else (False, t))"

definition addRoute ::
  "'d avltree \<Rightarrow> IPNet option \<Rightarrow> 'd \<Rightarrow> 'd proxyRouter \<Rightarrow> (bool \<times> 'd proxyRouter) outcome" where
  "addRoute A ipNet dialer r =
     (case getCidrIntRange ipNet of
        Panic \<Rightarrow> Panic
      | Return (min', max') \<Rightarrow>
          (case r of
             None \<Rightarrow> Panic
           | Some t \<Rightarrow>
               (case avl_Get A t min' of
                  None \<Rightarrow>
                    (case router_add A min' \<lparr>ri_max = max', ri_dialer = dialer\<rparr> t of
                       (ok, t') \<Rightarrow> Return (ok, Some t'))
                | Some ri \<Rightarrow>
                    if ri_max ri \<noteq> max' then Return (False, r)
                    else Return (True, Some (avl_Put A min' (ri\<lparr>ri_dialer := dialer\<rparr>) t)))))"

definition delRoute :: "'d avltree \<Rightarrow> IPNet option \<Rightarrow> 'd proxyRouter \<Rightarrow> 'd proxyRouter outcome" where
  "delRoute A ipNet r =
     (case getCidrIntRange ipNet of
        Panic \<Rightarrow> Panic
      | Return (min', _) \<Rightarrow>
          (case r of None \<Rightarrow> Panic | Some t \<Rightarrow> Return (Some (avl_Remove A min' t))))"

fun get_walk :: "uint32 \<Rightarrow> 'd route_tree \<Rightarrow> 'd option" where
  "get_walk key Leaf = None"
| "get_walk key (Node l (curMinIP, ri) r) =
     (if curMinIP \<le> key \<and> key \<le> ri_max ri then Some (ri_dialer ri)
      else if key < curMinIP then get_walk key l
      else get_walk key r)"

definition router_get :: "uint32 \<Rightarrow> 'd proxyRouter \<Rightarrow> 'd option" where
  "router_get key r = (case r of None \<Rightarrow> None | Some t \<Rightarrow> get_walk key t)"

section \<open>Ranges and invariant\<close>

text \<open>
  What a router's tree keeps: it is a search tree, every range is non-empty, and the ranges of two
  different keys do not meet.
\<close>

definition disjoint_ranges :: "(uint32 \<Rightarrow> 'd routeItem option) \<Rightarrow> bool" where
  "disjoint_ranges m \<longleftrightarrow>
     (\<forall>k i. m k = Some i \<longrightarrow> k \<le> ri_max i) \<and>
     (\<forall>k i k' i'. m k = Some i \<longrightarrow> m k' = Some i' \<longrightarrow> k < k' \<longrightarrow> ri_max i < k')"

definition router_inv :: "'d route_tree \<Rightarrow> bool" where
  "router_inv t \<longleftrightarrow> ordered t \<and> disjoint_ranges (entries t)"

lemma ordered_Node:
  "ordered (Node l (k, v) r) \<longleftrightarrow>
     ordered l \<and> ordered r \<and> (\<forall>x \<in> fst ` set (inorder l). x < k) \<and> (\<forall>x \<in> fst ` set (inorder r). k < x)"
  by (auto simp: ordered_def sorted_wrt_append) force+

lemma ordered_distinct: "ordered t \<Longrightarrow> distinct (map fst (inorder t))"
  unfolding ordered_def by (simp add: strict_sorted_iff)

lemma entries_in: "ordered t \<Longrightarrow> entries t k = Some v \<longleftrightarrow> (k, v) \<in> set (inorder t)"
  by (simp add: entries_def ordered_distinct)

lemma entries_Leaf [simp]: "entries Leaf = Map.empty"
  by (simp add: entries_def)

lemma ordered_Leaf [simp]: "ordered Leaf"
  by (simp add: ordered_def)

lemma entries_Node:
  assumes "ordered (Node l (k, v) r)"
  shows "entries (Node l (k, v) r) x =
    (if x = k then Some v else if x < k then entries l x else entries r x)"
proof -
  have l: "ordered l" "\<forall>y \<in> fst ` set (inorder l). y < k"
    and r: "ordered r" "\<forall>y \<in> fst ` set (inorder r). k < y"
    using assms by (auto simp: ordered_Node)
  have "entries l x = None" if "k \<le> x" using l that by (fastforce simp: entries_def map_of_eq_None_iff)
  moreover have "entries r x = None" if "x \<le> k"
    using r that by (fastforce simp: entries_def map_of_eq_None_iff)
  ultimately show ?thesis
    by (auto simp: entries_def map_add_def split: option.splits)
qed

lemma router_inv_Node:
  assumes "router_inv (Node l (k, v) r)"
  shows "router_inv l" and "router_inv r" and "k \<le> ri_max v"
    and "entries l x = Some i \<Longrightarrow> x < k \<and> ri_max i < k"
    and "entries r x = Some i \<Longrightarrow> ri_max v < x"
    and "entries (Node l (k, v) r) x = Some i \<longleftrightarrow>
           x = k \<and> i = v \<or> entries l x = Some i \<or> entries r x = Some i"
proof -
  let ?t = "Node l (k, v) r"
  have o: "ordered ?t" and d: "disjoint_ranges (entries ?t)" using assms by (simp_all add: router_inv_def)
  have ol: "ordered l" and or: "ordered r" using o by (simp_all add: ordered_Node)
  have lt: "x < k" if "entries l x = Some i" for x i
    using that o ol by (force simp: entries_in ordered_Node)
  have gt: "k < x" if "entries r x = Some i" for x i
    using that o or by (force simp: entries_in ordered_Node)
  have el: "entries ?t x = Some i" if "entries l x = Some i" for x i
    using that lt [OF that] by (simp add: entries_Node [OF o])
  have er: "entries ?t x = Some i" if "entries r x = Some i" for x i
    using that gt [OF that] by (auto simp: entries_Node [OF o])
  have ek: "entries ?t k = Some v" by (simp add: entries_Node [OF o])
  show "router_inv l" using d ol el unfolding router_inv_def disjoint_ranges_def by blast
  show "router_inv r" using d or er unfolding router_inv_def disjoint_ranges_def by blast
  show "k \<le> ri_max v" using d ek unfolding disjoint_ranges_def by blast
  show "entries l x = Some i \<Longrightarrow> x < k \<and> ri_max i < k"
    using d ek el lt unfolding disjoint_ranges_def by blast
  show "entries r x = Some i \<Longrightarrow> ri_max v < x"
    using d ek er gt unfolding disjoint_ranges_def by blast
  show "entries ?t x = Some i \<longleftrightarrow> x = k \<and> i = v \<or> entries l x = Some i \<or> entries r x = Some i"
    using el [of x i] er [of x i] ek by (auto simp: entries_Node [OF o] split: if_splits)
qed

text \<open>The walk of \<open>add\<close> decides whether a range meets one of the tree.\<close>

lemma add_walk_iff:
  assumes "router_inv t" and "lo \<le> hi"
  shows "add_walk lo hi t \<longleftrightarrow> (\<forall>k i. entries t k = Some i \<longrightarrow> ri_max i < lo \<or> hi < k)"
  using assms(1)
proof (induction t)
  case Leaf
  then show ?case by simp
next
  case (Node l kv r)
  obtain k v where kv: "kv = (k, v)" by (cases kv)
  note inv = router_inv_Node [OF Node.prems [unfolded kv]]
  note IH = Node.IH(1) [OF inv(1)] Node.IH(2) [OF inv(2)]
  consider "ri_max v < lo" | "\<not> ri_max v < lo" "hi < k" | "\<not> ri_max v < lo" "\<not> hi < k" by blast
  then show ?case
  proof cases
    case 1
    have "ri_max i < lo" if "entries l x = Some i" for x i
      using inv(4) [OF that, THEN conjunct2] inv(3) 1 by order
    with 1 IH(2) show ?thesis unfolding kv inv(6) by auto
  next
    case 2
    have "hi < x" if "entries r x = Some i" for x i
      using inv(5) [OF that] inv(3) 2 by order
    with 2 IH(1) show ?thesis unfolding kv inv(6) by auto
  next
    case 3
    then show ?thesis unfolding kv inv(6) by auto
  qed
qed

text \<open>The walk of \<open>get\<close> finds the route whose range holds the address.\<close>

lemma get_walk_iff:
  assumes "router_inv t"
  shows "get_walk ip t = Some d \<longleftrightarrow>
    (\<exists>k i. entries t k = Some i \<and> k \<le> ip \<and> ip \<le> ri_max i \<and> ri_dialer i = d)"
  using assms
proof (induction t)
  case Leaf
  then show ?case by simp
next
  case (Node l kv r)
  obtain k v where kv: "kv = (k, v)" by (cases kv)
  note inv = router_inv_Node [OF Node.prems [unfolded kv]]
  note IH = Node.IH(1) [OF inv(1)] Node.IH(2) [OF inv(2)]
  have lo: "\<not> (x \<le> ip \<and> ip \<le> ri_max i)" if "entries l x = Some i" "k \<le> ip" for x i
    using inv(4) [OF that(1)] that(2) by auto
  have hi: "\<not> (x \<le> ip \<and> ip \<le> ri_max i)" if "entries r x = Some i" "ip \<le> ri_max v" for x i
    using inv(5) [OF that(1)] that(2) by auto
  consider "k \<le> ip" "ip \<le> ri_max v" | "ip < k" | "\<not> ip < k" "\<not> ip \<le> ri_max v" by fastforce
  then show ?case
  proof cases
    case 1
    then show ?thesis unfolding kv inv(6) using lo hi by auto
  next
    case 2
    then show ?thesis unfolding kv inv(6) using IH(1) hi inv(3) by (auto dest: less_le_trans)
  next
    case 3
    then show ?thesis unfolding kv inv(6) using IH(2) lo by auto
  qed
qed

section \<open>What the operations do to the routing\<close>

lemma avl_laws:
  assumes "avltree_spec A"
  shows "avl_Clear A t = Leaf"
    and "ordered t \<Longrightarrow> avl_Get A t k = entries t k"
    and "ordered t \<Longrightarrow> ordered (avl_Put A k v t)"
    and "ordered t \<Longrightarrow> entries (avl_Put A k v t) = (entries t)(k \<mapsto> v)"
    and "ordered t \<Longrightarrow> ordered (avl_Remove A k t)"
    and "ordered t \<Longrightarrow> entries (avl_Remove A k t) = (entries t)(k := None)"
  using assms unfolding avltree_spec_def by blast+

definition meets_none :: "uint32 \<Rightarrow> uint32 \<Rightarrow> 'd route_tree \<Rightarrow> bool" where
  "meets_none lo hi t \<longleftrightarrow> (\<forall>k i. entries t k = Some i \<longrightarrow> ri_max i < lo \<or> hi < k)"

lemma router_inv_ordered: "router_inv t \<Longrightarrow> ordered t"
  by (simp add: router_inv_def)

text \<open>At most one range holds an address; the routing of an address depends on that range only.\<close>

lemma covering_unique:
  assumes "disjoint_ranges m" and "m k = Some i" and "k \<le> ip" and "ip \<le> ri_max i"
    and "m k' = Some i'" and "k' \<le> ip" and "ip \<le> ri_max i'"
  shows "k = k'"
proof (rule ccontr)
  assume "k \<noteq> k'"
  then consider "k < k'" | "k' < k" by fastforce
  then show False
  proof cases
    case 1
    then have "ri_max i < k'" using assms unfolding disjoint_ranges_def by blast
    then show False using assms(4,6) by order
  next
    case 2
    then have "ri_max i' < k" using assms unfolding disjoint_ranges_def by blast
    then show False using assms(3,7) by order
  qed
qed

lemma get_walk_cong:
  assumes "router_inv t" and "router_inv t'"
    and "\<And>k i. k \<le> ip \<Longrightarrow> ip \<le> ri_max i \<Longrightarrow> entries t' k = Some i \<longleftrightarrow> entries t k = Some i"
  shows "get_walk ip t' = get_walk ip t"
  by (rule option_ext, unfold get_walk_iff [OF assms(1)] get_walk_iff [OF assms(2)])
    (use assms(3) in blast)

lemma get_walk_hit:
  assumes "router_inv t" and "entries t k = Some i" and "k \<le> ip" and "ip \<le> ri_max i"
  shows "get_walk ip t = Some (ri_dialer i)"
  unfolding get_walk_iff [OF assms(1)] using assms(2-) by blast

lemma get_walk_miss:
  assumes "router_inv t" and "\<And>k i. entries t k = Some i \<Longrightarrow> k \<le> ip \<Longrightarrow> ip \<le> ri_max i \<Longrightarrow> False"
  shows "get_walk ip t = None"
proof (rule ccontr)
  assume "get_walk ip t \<noteq> None"
  then obtain x where "get_walk ip t = Some x" by auto
  then show False using assms(2) unfolding get_walk_iff [OF assms(1)] by blast
qed

text \<open>Storing a range that meets no other one: the new addresses go to its dialer.\<close>

lemma no_route_meets:
  assumes "router_inv t" and "\<And>ip. lo \<le> ip \<Longrightarrow> ip \<le> hi \<Longrightarrow> get_walk ip t = None" and "lo \<le> hi"
  shows "meets_none lo hi t"
  unfolding meets_none_def
proof (intro allI impI, rule ccontr)
  fix k i
  assume e: "entries t k = Some i" and n: "\<not> (ri_max i < lo \<or> hi < k)"
  have "k \<le> ri_max i" using assms(1) e by (auto simp: router_inv_def disjoint_ranges_def)
  with n assms(3) have "k \<le> max k lo" "max k lo \<le> ri_max i" "lo \<le> max k lo" "max k lo \<le> hi" by auto
  with get_walk_hit [OF assms(1) e, of "max k lo"] assms(2) [of "max k lo"] show False by simp
qed

lemma put_fresh:
  fixes t :: "'d route_tree" and d :: 'd
  assumes A: "avltree_spec A" and t: "router_inv t" and le: "lo \<le> hi" and none: "meets_none lo hi t"
  defines "t' \<equiv> avl_Put A lo \<lparr>ri_max = hi, ri_dialer = d\<rparr> t"
  shows "router_inv t'" and "get_walk ip t' = (if lo \<le> ip \<and> ip \<le> hi then Some d else get_walk ip t)"
proof -
  have o: "ordered t'" and e: "entries t' = (entries t)(lo \<mapsto> \<lparr>ri_max = hi, ri_dialer = d\<rparr>)"
    using avl_laws(3,4) [OF A] router_inv_ordered [OF t] by (simp_all add: t'_def)
  have d: "disjoint_ranges (entries t)" using t by (simp add: router_inv_def)
  have "disjoint_ranges (entries t')"
    unfolding disjoint_ranges_def e
  proof (intro conjI allI impI)
    fix k i assume "((entries t)(lo \<mapsto> \<lparr>ri_max = hi, ri_dialer = d\<rparr>)) k = Some i"
    then show "k \<le> ri_max i" using d le by (auto simp: disjoint_ranges_def split: if_splits)
  next
    fix k i k' i'
    assume "((entries t)(lo \<mapsto> \<lparr>ri_max = hi, ri_dialer = d\<rparr>)) k = Some i"
      and "((entries t)(lo \<mapsto> \<lparr>ri_max = hi, ri_dialer = d\<rparr>)) k' = Some i'" and "k < k'"
    then show "ri_max i < k'"
      using d le none unfolding disjoint_ranges_def meets_none_def
      by (fastforce split: if_splits dest: less_trans le_less_trans)
  qed
  with o show inv: "router_inv t'" by (simp add: router_inv_def)
  have fresh: "entries t lo = None"
    using none le d unfolding meets_none_def disjoint_ranges_def
    by (metis leD not_None_eq)
  show "get_walk ip t' = (if lo \<le> ip \<and> ip \<le> hi then Some d else get_walk ip t)"
  proof (cases "lo \<le> ip \<and> ip \<le> hi")
    case True
    then show ?thesis using get_walk_hit [OF inv, of lo] by (simp add: e)
  next
    case False
    then have "get_walk ip t' = get_walk ip t"
      by (intro get_walk_cong [OF t inv]) (use fresh in \<open>auto simp: e\<close>)
    with False show ?thesis by auto
  qed
qed

text \<open>Storing a dialer under a range the tree already has.\<close>

lemma put_same:
  fixes t :: "'d route_tree" and d :: 'd
  assumes A: "avltree_spec A" and t: "router_inv t" and i: "entries t lo = Some i"
  defines "t' \<equiv> avl_Put A lo (i\<lparr>ri_dialer := d\<rparr>) t"
  shows "router_inv t'"
    and "get_walk ip t' = (if lo \<le> ip \<and> ip \<le> ri_max i then Some d else get_walk ip t)"
proof -
  have o: "ordered t'" and e: "entries t' = (entries t)(lo \<mapsto> i\<lparr>ri_dialer := d\<rparr>)"
    using avl_laws(3,4) [OF A] router_inv_ordered [OF t] by (simp_all add: t'_def)
  have dj: "disjoint_ranges (entries t)" using t by (simp add: router_inv_def)
  then have "disjoint_ranges (entries t')"
    using i unfolding disjoint_ranges_def e by (auto split: if_splits)
  with o show inv: "router_inv t'" by (simp add: router_inv_def)
  show "get_walk ip t' = (if lo \<le> ip \<and> ip \<le> ri_max i then Some d else get_walk ip t)"
  proof (cases "lo \<le> ip \<and> ip \<le> ri_max i")
    case True
    then show ?thesis using get_walk_hit [OF inv, of lo] by (simp add: e)
  next
    case False
    then have "get_walk ip t' = get_walk ip t"
      by (intro get_walk_cong [OF t inv]) (use i in \<open>auto simp: e\<close>)
    with False show ?thesis by auto
  qed
qed

text \<open>Removing a key takes exactly the addresses of its range out of the routing.\<close>

lemma remove_route:
  fixes t :: "'d route_tree" and lo :: uint32
  assumes A: "avltree_spec A" and t: "router_inv t"
  defines "t' \<equiv> avl_Remove A lo t"
  shows "router_inv t'"
    and "get_walk ip t' =
      (case entries t lo of
         Some i \<Rightarrow> if lo \<le> ip \<and> ip \<le> ri_max i then None else get_walk ip t
       | None \<Rightarrow> get_walk ip t)"
proof -
  have o: "ordered t'" and e: "entries t' = (entries t)(lo := None)"
    using avl_laws(5,6) [OF A] router_inv_ordered [OF t] by (simp_all add: t'_def)
  have dj: "disjoint_ranges (entries t)" using t by (simp add: router_inv_def)
  then have "disjoint_ranges (entries t')"
    unfolding disjoint_ranges_def e by (auto split: if_splits)
  with o show inv: "router_inv t'" by (simp add: router_inv_def)
  show "get_walk ip t' =
      (case entries t lo of
         Some i \<Rightarrow> if lo \<le> ip \<and> ip \<le> ri_max i then None else get_walk ip t
       | None \<Rightarrow> get_walk ip t)"
  proof (cases "\<exists>i. entries t lo = Some i \<and> lo \<le> ip \<and> ip \<le> ri_max i")
    case True
    then obtain i where i: "entries t lo = Some i" "lo \<le> ip" "ip \<le> ri_max i" by blast
    have "get_walk ip t' = None"
    proof (rule get_walk_miss [OF inv])
      fix k j assume "entries t' k = Some j" and "k \<le> ip" and "ip \<le> ri_max j"
      then show False using covering_unique [OF dj i, of k j] by (simp add: e split: if_splits)
    qed
    with i show ?thesis by simp
  next
    case False
    then have "get_walk ip t' = get_walk ip t"
      by (intro get_walk_cong [OF t inv]) (auto simp: e)
    with False show ?thesis by (auto split: option.splits)
  qed
qed

section \<open>The range of an IPv4 network\<close>

lemma be_uint32_be_bytes32 [simp]: "be_uint32 (be_bytes32 x) = x"
proof -
  have "push_bit 8 (push_bit 8 (push_bit 8 (ucast (ucast (drop_bit 24 x) :: byte)) OR ucast (ucast (drop_bit 16 x) :: byte)) OR ucast (ucast (drop_bit 8 x) :: byte)) OR ucast (ucast x :: byte) = (x :: uint32)"
    (is "?l = x")
  proof (rule bit_word_eqI)
    fix n assume "n < LENGTH(32)"
    then have "n < 8 \<or> 8 \<le> n \<and> n < 16 \<or> 16 \<le> n \<and> n < 24 \<or> 24 \<le> n \<and> n < 32" by auto
    then show "bit ?l n = bit x n" by (elim disjE conjE) (simp_all add: bit_simps less_diff_conv2)
  qed
  then show ?thesis by (simp add: be_uint32_def be_bytes32_def)
qed

lemma unat_clear_low: "unat ((x :: uint32) AND NOT (mask k)) = 2 ^ k * (unat x div 2 ^ k)"
proof -
  have "x AND NOT (mask k) = push_bit k (drop_bit k x)"
    by (rule bit_word_eqI) (auto simp: bit_simps)
  moreover have "unat (push_bit k (drop_bit k x)) = 2 ^ k * (unat x div 2 ^ k)"
  proof -
    have "2 ^ k * (unat x div 2 ^ k) \<le> unat x" by simp
    also have "unat x < 2 ^ 32" using unsigned_less [of x] by simp
    finally show ?thesis
      by (simp add: unsigned_push_bit_eq push_bit_nat_def unat_drop_bit_eq drop_bit_nat_def take_bit_nat_def mult.commute)
  qed
  ultimately show ?thesis by simp
qed

lemma cidr_top_sum:
  fixes b :: uint32
  shows "(b AND NOT (mask k)) + mask k = b OR mask k"
proof -
  have "(b AND NOT (mask k)) + mask k = (b AND NOT (mask k)) OR mask k"
    by (rule disjunctive_add_eq_or) (auto simp: bit_eq_iff bit_simps)
  also have "\<dots> = b OR mask k" by (auto simp: bit_eq_iff bit_simps)
  finally show ?thesis .
qed
lemma div_eq_between:
  assumes "0 < N"
  shows "(N * q \<le> x \<and> x \<le> N * q + (N - 1)) \<longleftrightarrow> x div N = (q :: nat)"
proof
  assume "N * q \<le> x \<and> x \<le> N * q + (N - 1)"
  then have "N * q \<le> x" and "x < N * Suc q" using assms by (simp_all) linarith
  then show "x div N = q" by (rule div_nat_eqI)
next
  assume "x div N = q"
  then have "x = N * q + x mod N" by auto
  moreover have "x mod N \<le> N - 1" using mod_less_divisor [OF assms, of x] by linarith
  ultimately show "N * q \<le> x \<and> x \<le> N * q + (N - 1)" by linarith
qed

lemma cidr_mem:
  fixes b ip :: uint32
  assumes "k \<le> 32"
  shows "b AND NOT (mask k) \<le> ip \<and> ip \<le> b OR mask k \<longleftrightarrow> ip AND NOT (mask k) = b AND NOT (mask k)"
proof -
  let ?B = "unat b div 2 ^ k" and ?I = "unat ip div 2 ^ k"
  have m: "unat (mask k :: uint32) = 2 ^ k - 1"
  proof -
    have "of_nat (mask k) = (mask k :: uint32)" by (rule of_nat_mask_eq)
    then have "unat (mask k :: uint32) = take_bit 32 (mask k)"
      using unat_of_nat [of "mask k", where 'a = 32] by (simp add: take_bit_nat_def)
    also have "\<dots> = mask k" using assms by simp
    finally show ?thesis by (simp only: mask_nat_def)
  qed
  have lt: "2 ^ k * ?B + (2 ^ k - 1) < 2 ^ 32"
  proof -
    have "?B < 2 ^ (32 - k)"
      using unsigned_less [of b] assms by (intro less_mult_imp_div_less) (simp flip: power_add)
    then have "2 ^ k * Suc ?B \<le> 2 ^ k * 2 ^ (32 - k)" by (intro mult_le_mono2) simp
    also have "\<dots> = (2 :: nat) ^ 32" using assms by (simp flip: power_add)
    finally have "2 ^ k * Suc ?B \<le> (2 :: nat) ^ 32" .
    moreover have "(0 :: nat) < 2 ^ k" by simp
    ultimately show ?thesis by (simp only: mult_Suc_right)
  qed
  have hi: "unat (b OR mask k) = 2 ^ k * ?B + (2 ^ k - 1)"
    unfolding cidr_top_sum [symmetric] using lt by (simp add: unat_word_ariths unat_clear_low m)
  have "(2 ^ k * ?B \<le> unat ip \<and> unat ip \<le> 2 ^ k * ?B + (2 ^ k - 1)) \<longleftrightarrow> ?I = ?B"
    by (rule div_eq_between) simp
  moreover have "ip AND NOT (mask k) = b AND NOT (mask k) \<longleftrightarrow> ?I = ?B"
    by (simp add: word_unat_eq_iff unat_clear_low)
  ultimately show ?thesis by (simp add: word_le_nat_alt hi unat_clear_low)
qed

lemma cidr_drop_bit:
  fixes a ip :: uint32
  assumes "n \<le> 32"
  shows "a AND NOT (mask (32 - n)) \<le> ip \<and> ip \<le> a OR mask (32 - n) \<longleftrightarrow> drop_bit (32 - n) ip = drop_bit (32 - n) a"
proof -
  have clear: "x AND NOT (mask k) = push_bit k (drop_bit k x)"
    and keep: "drop_bit k (push_bit k (drop_bit k x)) = drop_bit k x" for x :: uint32 and k
    by (rule bit_word_eqI; auto simp: bit_simps dest: bit_imp_le_length)+
  show ?thesis using cidr_mem [of "32 - n" a ip] unfolding clear by (metis diff_le_self keep)
qed

lemma range_v4:
  assumes "n \<le> 32"
  shows "getCidrIntRange (Some (v4_net a n)) =
    Return (a AND NOT (mask (32 - n)), a OR mask (32 - n))"
proof -
  have "ip_To4 (be_bytes32 x) = be_bytes32 x" for x by (simp add: ip_To4_def be_bytes32_def)
  moreover have "NOT (push_bit (32 - n) (0xffffffff :: uint32)) = mask (32 - n)"
  proof -
    have "(0xffffffff :: uint32) = - 1" by simp
    moreover have "NOT (push_bit (32 - n) (- 1 :: uint32)) = mask (32 - n)"
      by (rule bit_word_eqI) (auto simp: bit_simps)
    ultimately show ?thesis by (simp only:)
  qed
  ultimately show ?thesis
    using assms by (simp add: getCidrIntRange_def v4_net_def mask_Size_v4 cidr_top_sum Let_def)
qed

section \<open>Histories of route changes\<close>

lemma range_no_panic: "getCidrIntRange (Some net) = Return (lo, hi) \<Longrightarrow>
    addRoute A (Some net) d (Some t) =
      (case avl_Get A t lo of
         None \<Rightarrow> (case router_add A lo \<lparr>ri_max = hi, ri_dialer = d\<rparr> t of (ok, t') \<Rightarrow> Return (ok, Some t'))
       | Some ri \<Rightarrow>
           if ri_max ri \<noteq> hi then Return (False, Some t)
           else Return (True, Some (avl_Put A lo (ri\<lparr>ri_dialer := d\<rparr>) t)))"
  by (simp add: addRoute_def)

definition admits :: "uint32 \<Rightarrow> uint32 \<Rightarrow> 'd route_tree \<Rightarrow> bool" where
  "admits lo hi t \<longleftrightarrow>
     lo \<le> hi \<and> ((\<exists>i. entries t lo = Some i \<and> ri_max i = hi) \<or> meets_none lo hi t)"

lemma add_effect:
  assumes A: "avltree_spec A" and t: "router_inv t" and r: "getCidrIntRange (Some net) = Return (lo, hi)"
  shows "\<exists>t'. addRoute A (Some net) d (Some t) = Return (admits lo hi t, Some t') \<and> router_inv t'
    \<and> (\<forall>ip. get_walk ip t' =
          (if admits lo hi t \<and> lo \<le> ip \<and> ip \<le> hi then Some d else get_walk ip t))"
proof (cases "entries t lo")
  case None
  have g: "avl_Get A t lo = None" using avl_laws(2) [OF A router_inv_ordered [OF t]] None by simp
  show ?thesis
  proof (cases "admits lo hi t")
    case True
    with None have m: "lo \<le> hi" "meets_none lo hi t" by (auto simp: admits_def)
    then have "add_walk lo hi t" using add_walk_iff [OF t m(1)] by (simp add: meets_none_def)
    with m g True show ?thesis
      using put_fresh [OF A t m, where d = d] by (simp add: range_no_panic [OF r] router_add_def)
  next
    case False
    then have "hi < lo \<or> \<not> add_walk lo hi t"
      using add_walk_iff [OF t, of lo hi] unfolding admits_def meets_none_def by fastforce
    with g False t show ?thesis by (auto simp: range_no_panic [OF r] router_add_def)
  qed
next
  case (Some i)
  have g: "avl_Get A t lo = Some i" using avl_laws(2) [OF A router_inv_ordered [OF t]] Some by simp
  have le: "lo \<le> ri_max i" using t Some by (simp add: router_inv_def disjoint_ranges_def)
  then have "\<not> (lo \<le> hi \<and> meets_none lo hi t)" using Some unfolding meets_none_def by (meson leD)
  with le Some have adm: "admits lo hi t \<longleftrightarrow> ri_max i = hi" by (auto simp: admits_def)
  with g t show ?thesis
    using put_same [OF A t Some, where d = d] by (auto simp: range_no_panic [OF r])
qed

lemma del_effect:
  assumes A: "avltree_spec A" and t: "router_inv t" and r: "getCidrIntRange (Some net) = Return (lo, hi)"
  shows "\<exists>t'. delRoute A (Some net) (Some t) = Return (Some t') \<and> router_inv t'
    \<and> (\<forall>ip. get_walk ip t' =
          (case entries t lo of
             Some i \<Rightarrow> if lo \<le> ip \<and> ip \<le> ri_max i then None else get_walk ip t
           | None \<Rightarrow> get_walk ip t))"
  using remove_route [OF A t] r by (simp add: delRoute_def)

text \<open>A run of route changes, as the gateway makes them one after the other.\<close>

datatype 'd route_op = AddRoute IPNet 'd | DelRoute IPNet

definition route_step :: "'d avltree \<Rightarrow> 'd route_op \<Rightarrow> 'd proxyRouter \<Rightarrow> 'd proxyRouter outcome" where
  "route_step A x r =
     (case x of
        AddRoute net d \<Rightarrow> (case addRoute A (Some net) d r of Panic \<Rightarrow> Panic | Return (ok, r') \<Rightarrow> Return r')
      | DelRoute net \<Rightarrow> delRoute A (Some net) r)"

definition router_live :: "'d avltree \<Rightarrow> 'd proxyRouter \<Rightarrow> bool" where
  "router_live A r \<longleftrightarrow> avltree_spec A \<and> (\<exists>t. r = Some t \<and> router_inv t)"

lemma range_total: "\<exists>lo hi. getCidrIntRange (Some net) = Return (lo, hi)"
  by (simp add: getCidrIntRange_def Let_def split: prod.splits)

interpretation rt: total_machine "route_step A" "router_live A" for A
proof
  fix r and x :: "'a route_op"
  assume "router_live A r"
  then obtain t where A: "avltree_spec A" and r: "r = Some t" and t: "router_inv t" by (auto simp: router_live_def)
  show "\<exists>r'. route_step A x r = Return r' \<and> router_live A r'"
  proof (cases x)
    case (AddRoute net d)
    obtain lo hi where "getCidrIntRange (Some net) = Return (lo, hi)" using range_total by blast
    from add_effect [OF A t this, of d] A show ?thesis by (auto simp: AddRoute r route_step_def router_live_def)
  next
    case (DelRoute net)
    obtain lo hi where "getCidrIntRange (Some net) = Return (lo, hi)" using range_total by blast
    from del_effect [OF A t this] A show ?thesis by (auto simp: DelRoute r route_step_def router_live_def)
  qed
qed

text \<open>
  A concrete ordered tree, for evaluating the model: a right spine rebuilt from the sorted list of
  entries by every change.
\<close>

definition spine :: "(uint32 \<times> 'd routeItem) list \<Rightarrow> 'd route_tree" where
  "spine xs = foldr (\<lambda>x t. Node Leaf x t) xs Leaf"

definition spine_tree :: "'d avltree" where
  "spine_tree =
     \<lparr>avl_Clear = (\<lambda>_. Leaf),
      avl_Get = (\<lambda>t. map_of (inorder t)),
      avl_Put = (\<lambda>k v t. spine (filter (\<lambda>x. fst x < k) (inorder t) @ (k, v) # filter (\<lambda>x. k < fst x) (inorder t))),
      avl_Remove = (\<lambda>k t. spine (filter (\<lambda>x. fst x \<noteq> k) (inorder t)))\<rparr>"

lemma inorder_spine [simp]: "inorder (spine xs) = xs"
  by (induction xs) (simp_all add: spine_def)

lemma map_of_filter_fst: "map_of (filter (\<lambda>x. P (fst x)) xs) k = (if P k then map_of xs k else None)"
  by (induction xs) auto

lemma spine_tree_spec: "avltree_spec spine_tree"
  unfolding avltree_spec_def
proof (intro conjI allI impI)
  fix t :: "'a route_tree" and k v
  assume t: "ordered t"
  then have s: "sorted_wrt (<) (map fst (filter P (inorder t)))" for P
    unfolding ordered_def sorted_wrt_map by (rule sorted_wrt_filter)
  show "ordered (avl_Put spine_tree k v t)" "ordered (avl_Remove spine_tree k t)"
    using s by (auto simp: spine_tree_def ordered_def sorted_wrt_append)
  show "entries (avl_Put spine_tree k v t) = (entries t)(k \<mapsto> v)"
    by (rule ext)
      (auto simp: spine_tree_def entries_def map_add_def map_of_filter_fst
        map_of_filter_fst [where P = "\<lambda>y. y < k"] split: option.splits)
  show "entries (avl_Remove spine_tree k t) = (entries t)(k := None)"
    using map_of_filter_fst [of "\<lambda>x. x \<noteq> k" "inorder t"]
    by (auto simp: spine_tree_def entries_def)
qed (simp_all add: spine_tree_def entries_def)

section \<open>Properties\<close>

text \<open>
  C32: the range of an IPv4 network \<open>a/n\<close> holds exactly the addresses that agree with \<open>a\<close> on the top
  \<open>n\<close> bits, and it is not empty.
\<close>

theorem getCidrIntRange_v4:
  assumes "n \<le> 32"
  shows "\<exists>lo hi. getCidrIntRange (Some (v4_net a n)) = Return (lo, hi) \<and> lo \<le> hi
    \<and> (\<forall>ip. lo \<le> ip \<and> ip \<le> hi \<longleftrightarrow> drop_bit (32 - n) ip = drop_bit (32 - n) a)"
proof -
  have "a AND NOT (mask (32 - n)) \<le> a \<and> a \<le> a OR mask (32 - n)"
    using cidr_mem [of "32 - n" a a] by simp
  then have "a AND NOT (mask (32 - n)) \<le> a OR mask (32 - n)" by (auto intro: order_trans)
  then show ?thesis
    using range_v4 [OF assms] cidr_drop_bit [OF assms] by auto
qed

theorem getCidrIntRange_v4_witness:
  "\<exists>lo hi. getCidrIntRange (Some (v4_net 0x0a000001 8)) = Return (lo, hi) \<and> lo \<le> hi
    \<and> (\<forall>ip. lo \<le> ip \<and> ip \<le> hi \<longleftrightarrow> drop_bit 24 ip = (0x0a :: uint32))"
  using getCidrIntRange_v4 [of 8 "0x0a000001"] by simp

text \<open>
  C6: \<open>addRoute\<close> accepts a network exactly when its range is already in the router or meets none of
  the router's ranges; then every address of the network is routed to the given dialer and every
  other address as before. Otherwise it changes no routing. The router stays well formed.
\<close>

theorem addRoute_correct:
  assumes "avltree_spec A" and "router_inv t" and "getCidrIntRange (Some net) = Return (lo, hi)"
  shows "\<exists>ok r'. addRoute A (Some net) d (Some t) = Return (ok, Some r') \<and> router_inv r'
    \<and> (ok \<longleftrightarrow> lo \<le> hi \<and> ((\<exists>i. entries t lo = Some i \<and> ri_max i = hi)
                           \<or> (\<forall>k i. entries t k = Some i \<longrightarrow> ri_max i < lo \<or> hi < k)))
    \<and> (\<forall>ip. router_get ip (Some r') =
          (if ok \<and> lo \<le> ip \<and> ip \<le> hi then Some d else router_get ip (Some t)))"
  using add_effect [OF assms, of d] unfolding admits_def meets_none_def router_get_def option.case
  by blast

theorem addRoute_correct_witness:
  "\<exists>ok r'. addRoute spine_tree (Some (v4_net 0x0a000000 8)) (7 :: nat) (Some Leaf) = Return (ok, Some r')
    \<and> ok \<and> router_get 0x0a010203 (Some r') = Some 7 \<and> router_get 0x0b000000 (Some r') = None"
proof -
  have r: "getCidrIntRange (Some (v4_net 0x0a000000 8)) = Return (0x0a000000, 0x0affffff)"
    using range_v4 [of 8 "0x0a000000"] by (simp add: mask_eq_exp_minus_1)
  have "router_inv (Leaf :: nat route_tree)" by (simp add: router_inv_def disjoint_ranges_def)
  from addRoute_correct [OF spine_tree_spec this r, of 7] obtain ok r' where
    "addRoute spine_tree (Some (v4_net 0x0a000000 8)) (7 :: nat) (Some Leaf) = Return (ok, Some r')"
    and "ok" and "\<forall>ip. router_get ip (Some r') =
      (if ok \<and> 0x0a000000 \<le> ip \<and> ip \<le> 0x0affffff then Some 7 else router_get ip (Some Leaf))"
    by (auto simp: word_le_nat_alt)
  then show ?thesis by (intro exI [of _ ok] exI [of _ r']) (simp add: router_get_def word_le_nat_alt)
qed

text \<open>
  \<open>delRoute\<close> removes the route that starts at the network's first address, whatever its length:
  exactly the addresses of that route lose their dialer.
\<close>

theorem delRoute_correct:
  assumes "avltree_spec A" and "router_inv t" and "getCidrIntRange (Some net) = Return (lo, hi)"
  shows "\<exists>r'. delRoute A (Some net) (Some t) = Return (Some r') \<and> router_inv r'
    \<and> (\<forall>ip. router_get ip (Some r') =
          (case entries t lo of
             Some i \<Rightarrow> if lo \<le> ip \<and> ip \<le> ri_max i then None else router_get ip (Some t)
           | None \<Rightarrow> router_get ip (Some t)))"
  using del_effect [OF assms] unfolding router_get_def option.case .

theorem delRoute_correct_witness:
  "\<exists>r'. delRoute spine_tree (Some (v4_net 0x0a000000 16)) (Some (Node Leaf (0x0a000000, \<lparr>ri_max = 0x0affffff, ri_dialer = (7 :: nat)\<rparr>) Leaf))
      = Return (Some r') \<and> router_get 0x0a800000 (Some r') = None"
proof -
  let ?t = "Node Leaf (0x0a000000, \<lparr>ri_max = 0x0affffff, ri_dialer = (7 :: nat)\<rparr>) Leaf"
  have r: "getCidrIntRange (Some (v4_net 0x0a000000 16)) = Return (0x0a000000, 0x0a00ffff)"
    using range_v4 [of 16 "0x0a000000"] by (simp add: mask_eq_exp_minus_1)
  have "router_inv ?t"
    by (simp add: router_inv_def disjoint_ranges_def ordered_def entries_def word_le_nat_alt)
  from delRoute_correct [OF spine_tree_spec this r] show ?thesis
    by (auto simp: entries_def word_le_nat_alt)
qed

text \<open>
  C21: from a new router, every sequence of route changes ends without a panic in a router whose
  ranges are ordered and pairwise disjoint.
\<close>

theorem router_reachable_inv:
  assumes "avltree_spec A"
  shows "\<exists>t. runs (route_step A) xs (newProxyRouter A) = Return (Some t) \<and> router_inv t"
proof -
  have "router_live A (newProxyRouter A)"
    using assms by (simp add: router_live_def newProxyRouter_def router_init_def avl_laws(1) router_inv_def
      disjoint_ranges_def)
  from rt.runs_keep [OF this, of xs] show ?thesis by (auto simp: router_live_def)
qed

theorem router_reachable_inv_witness:
  "\<exists>t. runs (route_step spine_tree) [AddRoute (v4_net 0x0a000000 8) (1 :: nat), DelRoute (v4_net 0 0)]
        (newProxyRouter spine_tree) = Return (Some t) \<and> router_inv t"
  by (rule router_reachable_inv [OF spine_tree_spec])

text \<open>
  The router has no notion of IPv6. A network with an IPv6 address and a prefix of at most 96
  bits gets the range of all IPv4 addresses, so a router that takes it sends every IPv4 address to
  that dialer.
\<close>

theorem getCidrIntRange_v6_catches_all:
  assumes "ip_To4 (ipnet_IP net) = []" and "mask_Size (ipnet_Mask net) = (n, 128)" and "n \<le> 96"
  shows "getCidrIntRange (Some net) = Return (0, 0xffffffff)"
proof -
  have "push_bit (128 - n) (0xffffffff :: uint32) = 0"
    using assms(3) by (intro bit_word_eqI) (simp add: bit_simps)
  then show ?thesis
    using assms(1,2) by (simp add: getCidrIntRange_def be_uint32_def)
qed

theorem getCidrIntRange_v6_catches_all_witness:
  "getCidrIntRange (Some \<lparr>ipnet_IP = [0x20, 1] @ replicate 14 0, ipnet_Mask = replicate 4 0xff @ replicate 12 0\<rparr>)
     = Return (0, 0xffffffff)"
  by (rule getCidrIntRange_v6_catches_all [where n = 32]) code_simp+

end
