(* ===== verification/SocksFrame.thy ===== *)
theory SocksFrame
  imports GoIO
begin

text \<open>
  \<open>socks5/util.go\<close>: packets with a two-byte length over a stream (\<open>packetReadWriter\<close>), datagrams
  prefixed with a SOCKS address (\<open>socks5ReadFrom\<close>, \<open>socks5WriteTo\<close>), and the two-way copy
  \<open>tunneling\<close>. The address codec is that of \<open>github.com/txthinking/socks5\<close>: its functions are
  parameters, with their documented relation stated in \<open>socks_addr_spec\<close>.
\<close>

section \<open>Packets with a two-byte length\<close>

definition errPacketTooLarge :: error where
  "errPacketTooLarge = ErrNew ''packet too large''"

text \<open>A \<open>packetReadWriter\<close> is the connection it wraps.\<close>

definition prw_Write :: "byte list \<Rightarrow> byte conn \<Rightarrow> nat \<times> error option \<times> byte conn" where
  "prw_Write p c =
     (let len = length p in
      if 0xFFFF < len then (0, Some errPacketTooLarge, c)
      else case conn_write (be_bytes16 (of_nat len)) c of
        (_, None, c') \<Rightarrow> conn_write p c'
      | (_, Some err, c') \<Rightarrow> (0, Some err, c'))"

text \<open>
  \<open>Read(p)\<close>, with \<open>n\<close> the capacity of \<open>p\<close>: \<open>p[:l]\<close> panics beyond it. The result is what has been
  put at the front of \<open>p\<close>; the returned count is its length.
\<close>

definition prw_Read :: "nat \<Rightarrow> byte conn \<Rightarrow> (byte list \<times> error option \<times> byte conn) outcome" where
  "prw_Read n c =
     (case read_full 2 c of
        (bs, Some err, c') \<Rightarrow> Return ([], Some err, c')
      | (bs, None, c') \<Rightarrow>
          let l = unat (be_uint16 bs)
          in if n < l then Panic else Return (read_full l c'))"

section \<open>Datagrams with a SOCKS address\<close>

text \<open>The address functions of the SOCKS library: type, address and port as they stand on the wire.\<close>

record socks_addr =
  ParseAddress :: "string \<Rightarrow> error + byte \<times> byte list \<times> byte list"
  ParseBytesAddress :: "byte list \<Rightarrow> error + byte \<times> byte list \<times> byte list"
  ToAddress :: "byte \<Rightarrow> byte list \<Rightarrow> byte list \<Rightarrow> string"

text \<open>
  What the code relies on: the wire form that \<open>ParseAddress\<close> computes is what \<open>ParseBytesAddress\<close>
  recognises at the front of any bytes, and the port has two bytes.
\<close>

definition socks_addr_spec :: "socks_addr \<Rightarrow> bool" where
  "socks_addr_spec L \<longleftrightarrow>
     (\<forall>s a addr port rest. ParseAddress L s = Inr (a, addr, port) \<longrightarrow>
        length port = 2 \<and> ParseBytesAddress L (a # addr @ port @ rest) = Inr (a, addr, port))"

text \<open>
  \<open>socks5ReadFrom(p, rd)\<close> on the buffer \<open>p\<close> (capacity and length agree at both callers). The address is
  parsed from the whole buffer, old bytes behind the packet included; the payload is the slice
  \<open>p[1+len(addr)+2 : n]\<close>, which panics when the packet ends inside the address.
\<close>

definition socks5ReadFrom ::
  "socks_addr \<Rightarrow> byte list \<Rightarrow> byte conn
     \<Rightarrow> ((error + byte list \<times> string) \<times> byte list \<times> byte conn) outcome" where
  "socks5ReadFrom L p c =
     (case prw_Read (length p) c of
        Panic \<Rightarrow> Panic
      | Return (bs, err, c') \<Rightarrow>
          let n = length bs; p' = bs @ drop n p
          in case err of
               Some e \<Rightarrow> Return (Inl e, p', c')
             | None \<Rightarrow>
                 (case ParseBytesAddress L p' of
                    Inl e \<Rightarrow> Return (Inl e, p', c')
                  | Inr (a, addr, port) \<Rightarrow>
                      let from = 1 + length addr + 2
                      in if n < from then Panic
                         else Return (Inr (drop from (take n p'), ToAddress L a addr port), p', c')))"

definition socks5WriteTo ::
  "socks_addr \<Rightarrow> byte list \<Rightarrow> string \<Rightarrow> byte conn \<Rightarrow> error option \<times> byte conn" where
  "socks5WriteTo L p to c =
     (case ParseAddress L to of
        Inl e \<Rightarrow> (Some e, c)
      | Inr (a, addr, port) \<Rightarrow>
          (case prw_Write (a # addr @ port @ p) c of (_, err, c') \<Rightarrow> (err, c')))"

section \<open>The two-way copy\<close>

text \<open>
  One end of a tunnel: a byte stream, a stream of packets (\<open>packetReadWriter\<close>) or a UDP socket, where
  one \<open>Read\<close> takes one datagram and drops what does not fit.
\<close>

datatype end_kind = KStream | KPacket | KDatagram

record tun_end =
  te_kind :: end_kind
  te_conn :: "byte conn"

definition end_read :: "nat \<Rightarrow> tun_end \<Rightarrow> (byte list \<times> error option \<times> tun_end) outcome" where
  "end_read n e =
     (case te_kind e of
        KStream \<Rightarrow> (case conn_read n (te_conn e) of (bs, err, c) \<Rightarrow> Return (bs, err, e\<lparr>te_conn := c\<rparr>))
      | KPacket \<Rightarrow>
          (case prw_Read n (te_conn e) of
             Panic \<Rightarrow> Panic
           | Return (bs, err, c) \<Rightarrow> Return (bs, err, e\<lparr>te_conn := c\<rparr>))
      | KDatagram \<Rightarrow>
          (case rd_chunks (te_conn e) of
             [] \<Rightarrow> Return ([], Some (rd_err (te_conn e)), e)
           | ch # chs \<Rightarrow> Return (take n ch, None, e\<lparr>te_conn := (te_conn e)\<lparr>rd_chunks := chs\<rparr>\<rparr>)))"

definition end_write :: "byte list \<Rightarrow> tun_end \<Rightarrow> nat \<times> error option \<times> tun_end" where
  "end_write bs e =
     (case (if te_kind e = KPacket then prw_Write bs (te_conn e) else conn_write bs (te_conn e)) of
        (n, err, c) \<Rightarrow> (n, err, e\<lparr>te_conn := c\<rparr>))"

text \<open>
  One round of \<open>io.Copy\<close>: read into its buffer of 32 KiB, write what came. The result is \<open>None\<close> when
  the copy goes on and \<open>Some err\<close> when it returns \<open>err\<close> (the end of the input is no error).
\<close>

definition copyBufSize :: nat where
  "copyBufSize = 32 * 1024"

definition copy_round ::
  "tun_end \<Rightarrow> tun_end \<Rightarrow> (error option option \<times> tun_end \<times> tun_end) outcome" where
  "copy_round dst src =
     (case end_read copyBufSize src of
        Panic \<Rightarrow> Panic
      | Return (bs, er, src') \<Rightarrow>
          let fin = (case er of
                       None \<Rightarrow> None
                     | Some e \<Rightarrow> Some (if e = EOF then None else Some e))
          in if bs = [] then Return (fin, dst, src')
             else (case end_write bs dst of
                     (nw, ew, dst') \<Rightarrow>
                       (case ew of
                          Some e \<Rightarrow> Return (Some (Some e), dst', src')
                        | None \<Rightarrow>
                            if nw \<noteq> length bs then Return (Some (Some (ErrNew ''short write'')), dst', src')
                            else Return (fin, dst', src'))))"

text \<open>
  \<open>tunneling(dst, src)\<close>: two copies run at the same time and the first that returns decides the
  result. The schedule says which of them makes the next round (\<open>True\<close>: from \<open>src\<close> to \<open>dst\<close>); a
  schedule that ends before one of them has returned leaves \<open>None\<close>.
\<close>

fun tunneling ::
  "bool list \<Rightarrow> tun_end \<Rightarrow> tun_end \<Rightarrow> (error option option \<times> tun_end \<times> tun_end) outcome" where
  "tunneling [] dst src = Return (None, dst, src)"
| "tunneling (True # sched) dst src =
     (case copy_round dst src of
        Panic \<Rightarrow> Panic
      | Return (None, dst', src') \<Rightarrow> tunneling sched dst' src'
      | Return (Some err, dst', src') \<Rightarrow> Return (Some err, dst', src'))"
| "tunneling (False # sched) dst src =
     (case copy_round src dst of
        Panic \<Rightarrow> Panic
      | Return (None, src', dst') \<Rightarrow> tunneling sched dst' src'
      | Return (Some err, src', dst') \<Rightarrow> Return (Some err, dst', src'))"

section \<open>Packets: what is written is what is read\<close>

definition prw_bytes :: "byte list \<Rightarrow> byte list" where
  "prw_bytes p = be_bytes16 (of_nat (length p)) @ p"

lemma prw_Write_fits:
  assumes "length p \<le> 0xFFFF" and "wr_room c = None"
  shows "prw_Write p c = (length p, None, c\<lparr>wr_data := wr_data c @ prw_bytes p\<rparr>)"
  using assms by (simp add: prw_Write_def conn_write_def prw_bytes_def Let_def)

lemma prw_Write_sent:
  assumes "prw_Write p c = (n, None, c')" and "wr_data c' = wr_data c @ sent"
  shows "sent = prw_bytes p \<and> length p \<le> 0xFFFF"
  using assms by (auto simp: prw_Write_def conn_write_def prw_bytes_def Let_def split: if_splits option.splits)

lemma unat_of_packet: "length p \<le> 0xFFFF \<Longrightarrow> unat (of_nat (length p) :: uint16) = length p"
  by (simp add: unat_of_nat)

lemma prw_Read_header:
  assumes "pending c = be_bytes16 l @ rest"
  obtains chs where "read_full 2 c = (be_bytes16 l, None, c\<lparr>rd_chunks := chs\<rparr>)" and "concat chs = rest"
  using read_full_enough [of 2 c] assms by auto

lemma prw_Read_packet:
  assumes "pending c = prw_bytes p @ rest" and "length p \<le> 0xFFFF" and "length p \<le> n"
  shows "\<exists>chs. prw_Read n c = Return (p, None, c\<lparr>rd_chunks := chs\<rparr>) \<and> concat chs = rest"
proof -
  obtain chs where h: "read_full 2 c = (be_bytes16 (of_nat (length p)), None, c\<lparr>rd_chunks := chs\<rparr>)"
    and chs: "concat chs = p @ rest"
    using prw_Read_header [of c "of_nat (length p)" "p @ rest"] assms(1) by (auto simp: prw_bytes_def)
  obtain chs' where "read_full (length p) (c\<lparr>rd_chunks := chs\<rparr>) = (p, None, c\<lparr>rd_chunks := chs'\<rparr>)"
    and "concat chs' = rest"
    using read_full_enough [of "length p" "c\<lparr>rd_chunks := chs\<rparr>"] chs by (auto simp: pending_def)
  with h show ?thesis
    using assms(2,3) by (auto simp: prw_Read_def unat_of_packet Let_def)
qed

definition prw_frame :: "byte list \<Rightarrow> byte list option" where
  "prw_frame p = (case prw_Write p (conn_of []) of (n, None, c') \<Rightarrow> Some (wr_data c') | _ \<Rightarrow> None)"

definition prw_unframe :: "byte list \<Rightarrow> (byte list \<times> byte list) option" where
  "prw_unframe bs =
     (case prw_Read 0xFFFF (conn_of bs) of Return (p, None, c') \<Rightarrow> Some (p, pending c') | _ \<Rightarrow> None)"

lemma prw_frame_eq: "prw_frame p = (if length p \<le> 0xFFFF then Some (prw_bytes p) else None)"
  by (auto simp: prw_frame_def prw_Write_def conn_write_def conn_of_def prw_bytes_def Let_def)

interpretation prw: framing prw_frame prw_unframe
proof
  fix p bs rest
  assume "prw_frame p = Some bs"
  then have p: "length p \<le> 0xFFFF" and bs: "bs = prw_bytes p" by (auto simp: prw_frame_eq split: if_splits)
  then obtain chs where
    "prw_Read 0xFFFF (conn_of (bs @ rest)) = Return (p, None, (conn_of (bs @ rest))\<lparr>rd_chunks := chs\<rparr>)"
    "concat chs = rest"
    using prw_Read_packet [of "conn_of (bs @ rest)" p rest "0xFFFF"] by auto
  then show "prw_unframe (bs @ rest) = Some (p, rest)"
    by (simp add: prw_unframe_def pending_def)
qed

section \<open>What a tunnel moves\<close>

lemma conn_read_pending:
  assumes "conn_read n c = (bs, err, c')"
  shows "pending c = bs @ pending c' \<and> wr_data c' = wr_data c \<and> wr_room c' = wr_room c \<and> rd_err c' = rd_err c
    \<and> (err = None \<or> err = Some (rd_err c) \<and> bs = [] \<and> rd_chunks c = [])"
  using assms by (auto simp: conn_read_def pending_def split: list.splits)

lemma conn_write_prefix:
  assumes "conn_write bs c = (n, err, c')"
  shows "\<exists>xs ys. bs = xs @ ys \<and> wr_data c' = wr_data c @ xs \<and> (err = None \<longrightarrow> ys = [] \<and> n = length bs)
    \<and> rd_chunks c' = rd_chunks c"
  using assms by (auto simp: conn_write_def intro: exI [of _ bs] split: option.splits if_splits)
    (metis append_take_drop_id)

text \<open>
  From \<open>b\<close> to \<open>a\<close>: what has been written at \<open>a\<close> is the front of what has been read at \<open>b\<close>, and all of
  it when no write has failed.
\<close>

definition moved :: "tun_end \<Rightarrow> tun_end \<Rightarrow> bool \<Rightarrow> tun_end \<Rightarrow> tun_end \<Rightarrow> bool" where
  "moved a b whole a' b' \<longleftrightarrow>
     (\<exists>xs ys. pending (te_conn b) = xs @ ys @ pending (te_conn b')
            \<and> wr_data (te_conn a') = wr_data (te_conn a) @ xs \<and> (whole \<longrightarrow> ys = []))"

lemma moved_refl [simp, intro]: "moved a b w a b"
  by (auto simp: moved_def)

lemma moved_trans:
  assumes "moved a b True a1 b1" and "moved a1 b1 w a2 b2"
  shows "moved a b w a2 b2"
proof -
  obtain xs where "pending (te_conn b) = xs @ pending (te_conn b1)"
    "wr_data (te_conn a1) = wr_data (te_conn a) @ xs" using assms(1) by (auto simp: moved_def)
  moreover obtain xs' ys' where "pending (te_conn b1) = xs' @ ys' @ pending (te_conn b2)"
    "wr_data (te_conn a2) = wr_data (te_conn a1) @ xs'" "w \<longrightarrow> ys' = []"
    using assms(2) by (auto simp: moved_def)
  ultimately show ?thesis
    unfolding moved_def by (intro exI [of _ "xs @ xs'"] exI [of _ ys']) simp
qed

lemma copy_round_stream:
  assumes "te_kind dst = KStream" and "te_kind src = KStream"
    and "copy_round dst src = Return (fin, dst', src')"
  shows "te_kind dst' = KStream \<and> te_kind src' = KStream
    \<and> moved dst src (fin = None) dst' src' \<and> moved src dst True src' dst'"
proof -
  obtain bs er c where rd: "conn_read copyBufSize (te_conn src) = (bs, er, c)"
    by (cases "conn_read copyBufSize (te_conn src)") auto
  note r = conn_read_pending [OF rd]
  obtain nw ew d where wr: "conn_write bs (te_conn dst) = (nw, ew, d)"
    by (cases "conn_write bs (te_conn dst)") auto
  from conn_write_prefix [OF wr] obtain xs ys where w: "bs = xs @ ys"
    "wr_data d = wr_data (te_conn dst) @ xs" "ew = None \<longrightarrow> ys = [] \<and> nw = length bs"
    "rd_chunks d = rd_chunks (te_conn dst)" by blast
  show ?thesis
  proof (cases "bs = []")
    case True
    then show ?thesis using assms rd r by (auto simp: copy_round_def end_read_def moved_def Let_def)
  next
    case False
    then show ?thesis
      using assms rd r wr w
      by (auto simp: copy_round_def end_read_def end_write_def moved_def Let_def pending_def
          split: option.splits if_splits)
  qed
qed

text \<open>What is left to read at one end, in rounds.\<close>

definition end_left :: "tun_end \<Rightarrow> nat" where
  "end_left e = length (pending (te_conn e)) + length (rd_chunks (te_conn e))"

lemma copy_round_progress:
  assumes "te_kind dst = KStream" and "te_kind src = KStream"
    and "copy_round dst src = Return (None, dst', src')"
  shows "end_left src' < end_left src \<and> end_left dst' = end_left dst"
  using assms
  by (auto simp: copy_round_def end_read_def end_write_def conn_read_def conn_write_def end_left_def
      pending_def copyBufSize_def Let_def split: list.splits option.splits if_splits)

lemma copy_round_no_panic:
  assumes "te_kind src = KStream" obtains r where "copy_round dst src = Return r"
proof -
  have "copy_round dst src \<noteq> Panic"
    using assms by (auto simp: copy_round_def end_read_def Let_def split: prod.splits option.splits)
  then show thesis using that by (cases "copy_round dst src") auto
qed

lemma tunneling_streams:
  assumes "te_kind dst = KStream" and "te_kind src = KStream"
  shows "\<exists>res dst' src'. tunneling sched dst src = Return (res, dst', src')
    \<and> moved dst src (res = None) dst' src' \<and> moved src dst (res = None) src' dst'"
  using assms
proof (induction sched arbitrary: dst src)
  case Nil
  then show ?case by simp
next
  case (Cons b sched)
  show ?case
  proof (cases b)
    case True
    obtain fin dst1 src1 where r: "copy_round dst src = Return (fin, dst1, src1)"
      using copy_round_no_panic [OF Cons.prems(2), of dst] by (metis prod_cases3)
    note c = copy_round_stream [OF Cons.prems r]
    show ?thesis
    proof (cases fin)
      case None
      obtain res dst' src' where "tunneling sched dst1 src1 = Return (res, dst', src')"
        "moved dst1 src1 (res = None) dst' src'" "moved src1 dst1 (res = None) src' dst'"
        using Cons.IH c by blast
      with c r None True show ?thesis by (auto elim: moved_trans)
    qed (use c r True in \<open>auto simp: moved_def\<close>)
  next
    case False
    obtain fin dst1 src1 where r: "copy_round src dst = Return (fin, src1, dst1)"
      using copy_round_no_panic [OF Cons.prems(1), of src] by (metis prod_cases3)
    note c = copy_round_stream [OF Cons.prems(2,1) r]
    show ?thesis
    proof (cases fin)
      case None
      obtain res dst' src' where "tunneling sched dst1 src1 = Return (res, dst', src')"
        "moved dst1 src1 (res = None) dst' src'" "moved src1 dst1 (res = None) src' dst'"
        using Cons.IH c by blast
      with c r None False show ?thesis by (auto elim: moved_trans)
    qed (use c r False in \<open>auto simp: moved_def\<close>)
  qed
qed

text \<open>A tunnel between a socket and a stream of packets that fit into the buffer of the copy does not panic either.\<close>

definition packet_bytes :: "byte list \<Rightarrow> bool" where
  "packet_bytes bs \<longleftrightarrow> (\<exists>ps. bs = concat (map prw_bytes ps) \<and> (\<forall>p \<in> set ps. length p \<le> copyBufSize))"

lemma packet_bytes_Nil: "packet_bytes []"
  unfolding packet_bytes_def by (intro exI [of _ "[]"]) simp

lemma read_full_none: "pending c = [] \<Longrightarrow> \<exists>e. read_full 2 c = ([], Some e, c\<lparr>rd_chunks := []\<rparr>)"
  using read_full_short [of c 2] by auto

lemma copy_round_packets:
  assumes "te_kind src = KPacket" and "packet_bytes (pending (te_conn src))"
  shows "\<exists>fin dst' src'. copy_round dst src = Return (fin, dst', src') \<and> te_kind dst' = te_kind dst \<and> te_kind src' = KPacket
    \<and> packet_bytes (pending (te_conn src'))"
proof -
  obtain ps where ps: "pending (te_conn src) = concat (map prw_bytes ps)" "\<forall>p \<in> set ps. length p \<le> copyBufSize"
    using assms(2) by (auto simp: packet_bytes_def)
  have k: "te_kind (snd (snd (end_write bs dst))) = te_kind dst" for bs by (auto simp: end_write_def split: prod.splits)
  obtain bs err c where r: "prw_Read copyBufSize (te_conn src) = Return (bs, err, c)" "packet_bytes (pending c)"
  proof (cases ps)
    case Nil
    with ps read_full_none [of "te_conn src"] that show thesis by (auto simp: prw_Read_def pending_def packet_bytes_Nil)
  next
    case (Cons p qs)
    with ps prw_Read_packet [of "te_conn src" p "concat (map prw_bytes qs)" copyBufSize] obtain chs
      where chs: "prw_Read copyBufSize (te_conn src) = Return (p, None, (te_conn src)\<lparr>rd_chunks := chs\<rparr>)" "concat chs = concat (map prw_bytes qs)"
      by (auto simp: copyBufSize_def)
    with ps Cons show thesis by (intro that [OF chs(1)]) (auto simp: packet_bytes_def pending_def)
  qed
  obtain nw ew d where w: "end_write bs dst = (nw, ew, d)" "te_kind d = te_kind dst" using k [of bs] by (cases "end_write bs dst") auto
  with assms(1) r show ?thesis
    by (cases "bs = []"; cases ew) (simp_all add: copy_round_def end_read_def Let_def)
qed

lemma copy_round_datagrams:
  assumes "te_kind dst = KPacket" and "te_kind src = KDatagram"
  shows "\<exists>fin dst' src'. copy_round dst src = Return (fin, dst', src') \<and> te_kind dst' = KPacket \<and> te_kind src' = KDatagram
    \<and> pending (te_conn dst') = pending (te_conn dst)"
  using assms
  by (auto simp: copy_round_def end_read_def end_write_def prw_Write_def conn_write_def pending_def Let_def
      split: list.splits prod.splits option.splits if_splits)

lemma tunneling_packets:
  assumes "te_kind dst = KDatagram" and "te_kind src = KPacket" and "packet_bytes (pending (te_conn src))"
  shows "tunneling sched dst src \<noteq> Panic"
  using assms
proof (induction sched arbitrary: dst src)
  case (Cons b sched)
  show ?case
  proof (cases b)
    case True
    with copy_round_packets [OF Cons.prems(2,3), of dst] Cons.IH Cons.prems show ?thesis by (auto split: option.splits)
  next
    case False
    with copy_round_datagrams [OF Cons.prems(2,1)] Cons.IH Cons.prems show ?thesis by (auto split: option.splits)
  qed
qed simp

lemma tunneling_ends:
  assumes "te_kind dst = KStream" and "te_kind src = KStream"
    and "end_left src < count_list sched True \<or> end_left dst < count_list sched False" and "tunneling sched dst src = Return (res, dst', src')"
  shows "res \<noteq> None"
  using assms
proof (induction sched arbitrary: dst src)
  case Nil
  then show ?case by simp
next
  case (Cons b sched)
  show ?case
  proof (cases b)
    case True
    obtain fin dst1 src1 where r: "copy_round dst src = Return (fin, dst1, src1)"
      using copy_round_no_panic [OF Cons.prems(2), of dst] by (metis prod_cases3)
    show ?thesis
    proof (cases fin)
      case None
      with r Cons.prems True copy_round_stream [OF Cons.prems(1,2) r] copy_round_progress [OF Cons.prems(1,2)]
      show ?thesis by (intro Cons.IH [of dst1 src1]) fastforce+
    qed (use r Cons.prems True in auto)
  next
    case False
    obtain fin dst1 src1 where r: "copy_round src dst = Return (fin, src1, dst1)"
      using copy_round_no_panic [OF Cons.prems(1), of src] by (metis prod_cases3)
    show ?thesis
    proof (cases fin)
      case None
      with r Cons.prems False copy_round_stream [OF Cons.prems(2,1) r] copy_round_progress [OF Cons.prems(2,1)]
      show ?thesis by (intro Cons.IH [of dst1 src1]) fastforce+
    qed (use r Cons.prems False in auto)
  qed
qed

section \<open>Properties\<close>

text \<open>
  Packets over a stream. A reader that gets the frames of a list of packets one after the other,
  cut anywhere and followed by anything, reads back exactly that list.
\<close>

theorem prw_conversation:
  assumes "framing.frames prw_frame ps = Some bs"
  shows "framing.unframes prw_unframe (length ps) (bs @ rest) = Some (ps, rest)"
  using assms by (rule prw.unframes_frames)

theorem prw_conversation_witness:
  "framing.unframes prw_unframe 2 ([0, 1, 5, 0, 2, 6, 7] @ [9]) = Some ([[5], [6, 7]], [9])"
proof -
  have "framing.frames prw_frame [[5], [6, 7]] = Some [0, 1, 5, 0, 2, 6, 7]"
    by (simp add: prw.frames.simps prw_frame_eq prw_bytes_def be_bytes16_def)
  from prw_conversation [OF this, of "[9]"] show ?thesis by (simp add: numeral_2_eq_2)
qed

text \<open>
  \<open>packetReadWriter.Read\<close> trusts the length on the wire. When the announced length is above the
  capacity of the caller's buffer it panics; otherwise it returns that many bytes, or the error of
  \<open>io.ReadFull\<close> when the stream ends before them.
\<close>

theorem prw_Read_correct:
  assumes "pending c = be_bytes16 l @ rest"
  shows "(n < unat l \<longrightarrow> prw_Read n c = Panic)
    \<and> (unat l \<le> n \<and> unat l \<le> length rest \<longrightarrow>
        (\<exists>c'. prw_Read n c = Return (take (unat l) rest, None, c') \<and> pending c' = drop (unat l) rest))
    \<and> (unat l \<le> n \<and> length rest < unat l \<longrightarrow>
        (\<exists>c'. prw_Read n c =
          Return (rest, Some (if rest \<noteq> [] \<and> rd_err c = EOF then ErrUnexpectedEOF else rd_err c), c')))"
proof -
  obtain chs where h: "read_full 2 c = (be_bytes16 l, None, c\<lparr>rd_chunks := chs\<rparr>)"
    and chs: "concat chs = rest"
    using prw_Read_header [OF assms] .
  let ?c = "c\<lparr>rd_chunks := chs\<rparr>"
  have p: "pending ?c = rest" using chs by (simp add: pending_def)
  have r: "prw_Read n c = (if n < unat l then Panic else Return (read_full (unat l) ?c))"
    using h by (simp add: prw_Read_def)
  show ?thesis
  proof (intro conjI impI)
    assume "unat l \<le> n \<and> unat l \<le> length rest"
    moreover obtain chs' where "read_full (unat l) ?c = (take (unat l) rest, None, ?c\<lparr>rd_chunks := chs'\<rparr>)"
      "concat chs' = drop (unat l) rest"
      using read_full_enough [of "unat l" ?c] calculation p by metis
    ultimately show "\<exists>c'. prw_Read n c = Return (take (unat l) rest, None, c') \<and> pending c' = drop (unat l) rest"
      by (simp add: r pending_def)
  next
    assume "unat l \<le> n \<and> length rest < unat l"
    with r p show "\<exists>c'. prw_Read n c =
        Return (rest, Some (if rest \<noteq> [] \<and> rd_err c = EOF then ErrUnexpectedEOF else rd_err c), c')"
      using read_full_short [of ?c "unat l"] by simp
  qed (simp add: r)
qed

theorem prw_Read_correct_witness:
  "prw_Read 4 (conn_of [0, 5, 1]) = Panic
   \<and> (\<exists>c'. prw_Read 8 (conn_of [0, 1, 7, 9]) = Return ([7], None, c') \<and> pending c' = [9])"
proof -
  have "be_bytes16 5 = [0, 5]" "be_bytes16 1 = [0, 1]" by (simp_all add: be_bytes16_def)
  then show ?thesis
    using prw_Read_correct [of "conn_of [0, 5, 1]" 5 "[1]" 4]
      prw_Read_correct [of "conn_of [0, 1, 7, 9]" 1 "[7, 9]" 8] by simp
qed

text \<open>
  The same length reaches \<open>io.Copy\<close>: a peer that announces a packet of more than 32 KiB on a
  tunnel for UDP makes the copy, and with it the process, panic, whatever follows.
\<close>

theorem tunnel_oversized_packet_panics:
  assumes "te_kind src = KPacket" and "pending (te_conn src) = be_bytes16 l @ rest"
    and "32 * 1024 < unat l"
  shows "tunneling (True # sched) dst src = Panic"
proof -
  obtain chs where h: "read_full 2 (te_conn src) = (be_bytes16 l, None, (te_conn src)\<lparr>rd_chunks := chs\<rparr>)"
    using prw_Read_header [OF assms(2)] .
  then have "prw_Read copyBufSize (te_conn src) = Panic"
    using assms(3) by (simp add: prw_Read_def copyBufSize_def)
  then show ?thesis using assms(1) by (simp add: copy_round_def end_read_def)
qed

theorem tunnel_oversized_packet_panics_witness:
  "tunneling [True] \<lparr>te_kind = KDatagram, te_conn = conn_of []\<rparr>
      \<lparr>te_kind = KPacket, te_conn = conn_of [0x80, 0x01]\<rparr> = Panic"
  by (rule tunnel_oversized_packet_panics [where l = "0x8001" and rest = "[]"])
     (simp_all add: be_bytes16_def drop_bit_numeral_minus_bit1)


text \<open>An address codec for evaluation: one IPv4 address in both forms.\<close>

definition one_addr :: socks_addr where
  "one_addr =
     \<lparr>ParseAddress = (\<lambda>s. if s = ''0.0.0.0:53'' then Inr (1, [0, 0, 0, 0], [0, 53]) else Inl (ErrNew ''invalid address'')),
      ParseBytesAddress = (\<lambda>bs. if 7 \<le> length bs \<and> hd bs = 1 then Inr (1, take 4 (tl bs), take 2 (drop 5 bs))
                                else Inl (ErrNew ''invalid address'')),
      ToAddress = (\<lambda>a addr port. if addr = [0, 0, 0, 0] \<and> port = [0, 53] then ''0.0.0.0:53'' else [])\<rparr>"

lemma one_addr_spec: "socks_addr_spec one_addr"
  by (auto simp: socks_addr_spec_def one_addr_def split: if_splits)


text \<open>
  The address is parsed from the whole buffer and not from the packet: a packet that ends before
  the address it starts is completed by old bytes of the buffer, and cutting the payload then panics.
\<close>

theorem socks5ReadFrom_truncated_panics:
  assumes "pending c = prw_bytes q @ rest" and "length q \<le> 0xFFFF" and "length q \<le> length buf"
    and "ParseBytesAddress L (q @ drop (length q) buf) = Inr (a, addr, port)"
    and "length q < length addr + 3"
  shows "socks5ReadFrom L buf c = Panic"
  using prw_Read_packet [OF assms(1-3)] assms(4,5) by (auto simp: socks5ReadFrom_def Let_def)

theorem socks5ReadFrom_truncated_panics_witness:
  "socks5ReadFrom one_addr (replicate 16 0) (conn_of [0, 1, 1]) = Panic"
  by (rule socks5ReadFrom_truncated_panics [where q = "[1]" and rest = "[]"])
     (simp_all add: one_addr_def prw_bytes_def be_bytes16_def)

text \<open>
  C19: a tunnel between two streams never panics, and under every interleaving of its two copies
  what has been written at each end is, in order, the front of what has been read at the other; while
  the tunnel runs nothing read is missing.
\<close>

theorem tunneling_integrity:
  assumes "te_kind dst = KStream" and "te_kind src = KStream"
  shows "\<exists>res dst' src' xs ys xs' ys'. tunneling sched dst src = Return (res, dst', src')
    \<and> pending (te_conn src) = xs @ ys @ pending (te_conn src')
    \<and> wr_data (te_conn dst') = wr_data (te_conn dst) @ xs
    \<and> pending (te_conn dst) = xs' @ ys' @ pending (te_conn dst')
    \<and> wr_data (te_conn src') = wr_data (te_conn src) @ xs'
    \<and> (res = None \<longrightarrow> ys = [] \<and> ys' = [])"
  using tunneling_streams [OF assms, of sched] unfolding moved_def by blast

theorem tunneling_integrity_witness:
  "\<exists>res dst' src' xs ys xs' ys'. tunneling [True, False]
      \<lparr>te_kind = KStream, te_conn = conn_of [3]\<rparr> \<lparr>te_kind = KStream, te_conn = conn_of [1, 2]\<rparr> = Return (res, dst', src')
    \<and> pending (conn_of [1, 2]) = xs @ ys @ pending (te_conn src')
    \<and> wr_data (te_conn dst') = wr_data (conn_of [3]) @ xs
    \<and> pending (conn_of [3]) = xs' @ ys' @ pending (te_conn dst')
    \<and> wr_data (te_conn src') = wr_data (conn_of [1, 2]) @ xs'
    \<and> (res = None \<longrightarrow> ys = [] \<and> ys' = [])"
  using tunneling_integrity [of "\<lparr>te_kind = KStream, te_conn = conn_of [3]\<rparr>"
      "\<lparr>te_kind = KStream, te_conn = conn_of [1, 2]\<rparr>" "[True, False]"] by simp

text \<open>
  C20: a tunnel between two streams returns once one of its inputs, either of the two, has ended and the schedule gives the copy that reads it
  enough rounds: more than the pieces and bytes the input still has.
\<close>

theorem tunneling_returns:
  assumes "te_kind dst = KStream" and "te_kind src = KStream"
    and "length (pending (te_conn src)) + length (rd_chunks (te_conn src)) < count_list sched True
      \<or> length (pending (te_conn dst)) + length (rd_chunks (te_conn dst)) < count_list sched False"
  shows "\<exists>err dst' src'. tunneling sched dst src = Return (Some err, dst', src')"
proof -
  obtain res dst' src' where t: "tunneling sched dst src = Return (res, dst', src')"
    using tunneling_streams [OF assms(1,2), of sched] by blast
  with tunneling_ends [OF assms(1,2) _ t] assms(3) show ?thesis by (auto simp: end_left_def)
qed

theorem tunneling_returns_witness:
  "(\<exists>err dst' src'. tunneling [True, False, True, True]
      \<lparr>te_kind = KStream, te_conn = conn_of [3]\<rparr> \<lparr>te_kind = KStream, te_conn = conn_of [1]\<rparr>
      = Return (Some err, dst', src'))
   \<and> (\<exists>err dst' src'. tunneling [False, True, False, False]
      \<lparr>te_kind = KStream, te_conn = conn_of [3]\<rparr> \<lparr>te_kind = KStream, te_conn = conn_of [1, 2, 4]\<rparr>
      = Return (Some err, dst', src'))"
  by (intro conjI tunneling_returns) (simp_all add: conn_of_def pending_def)

end
