(* ===== verification/SocksServer.thy ===== *)
theory SocksServer
  imports SocksFrame
begin

text \<open>
  \<open>socks5/server.go\<close>: the SOCKS service a gateway offers on a libp2p stream. The messages of the
  protocol are read and written by \<open>github.com/txthinking/socks5\<close> (\<open>socks_lib\<close>), the peer store is
  that of libp2p (\<open>peerstore_ops\<close>), and what the network answers to dialling is the environment
  (\<open>net_env\<close>); these are parameters.
\<close>

section \<open>Parameters\<close>

text \<open>The constants of RFC 1928 and RFC 1929 the code uses, and its two own commands.\<close>

abbreviation (input) MethodNone :: byte where "MethodNone \<equiv> 0x00"
abbreviation (input) MethodUsernamePassword :: byte where "MethodUsernamePassword \<equiv> 0x02"
abbreviation (input) UserPassStatusSuccess :: byte where "UserPassStatusSuccess \<equiv> 0x00"
abbreviation (input) UserPassStatusFailure :: byte where "UserPassStatusFailure \<equiv> 0x01"
abbreviation (input) CmdConnect :: byte where "CmdConnect \<equiv> 0x01"
abbreviation (input) CmdConnectUDP :: byte where "CmdConnectUDP \<equiv> 0x04"
abbreviation (input) CmdPacketConn :: byte where "CmdPacketConn \<equiv> 0x05"
abbreviation (input) ATYPIPv4 :: byte where "ATYPIPv4 \<equiv> 0x01"
abbreviation (input) ATYPDomain :: byte where "ATYPDomain \<equiv> 0x03"
abbreviation (input) ATYPIPv6 :: byte where "ATYPIPv6 \<equiv> 0x04"
abbreviation (input) RepSuccess :: byte where "RepSuccess \<equiv> 0x00"
abbreviation (input) RepHostUnreachable :: byte where "RepHostUnreachable \<equiv> 0x04"
abbreviation (input) RepCommandNotSupported :: byte where "RepCommandNotSupported \<equiv> 0x07"
abbreviation (input) RepAddressNotSupported :: byte where "RepAddressNotSupported \<equiv> 0x08"

record Request =
  rq_Cmd :: byte
  rq_Atyp :: byte
  rq_DstAddr :: "byte list"
  rq_DstPort :: "byte list"

record UserPassNegotiationRequest =
  up_Plen :: byte
  up_Passwd :: "byte list"

record socks_lib =
  sl_addr :: socks_addr
  NewNegotiationRequestFrom :: "byte conn \<Rightarrow> error option \<times> byte conn"
  NegotiationReply_WriteTo :: "byte \<Rightarrow> byte conn \<Rightarrow> error option \<times> byte conn"
  NewUserPassNegotiationRequestFrom ::
    "byte conn \<Rightarrow> (error + UserPassNegotiationRequest) \<times> byte conn"
  UserPassNegotiationReply_WriteTo :: "byte \<Rightarrow> byte conn \<Rightarrow> error option \<times> byte conn"
  NewRequestFrom :: "byte conn \<Rightarrow> (error + Request) \<times> byte conn"
  Request_Address :: "Request \<Rightarrow> string"
  Reply_WriteTo :: "byte \<Rightarrow> byte \<Rightarrow> byte list \<Rightarrow> byte list \<Rightarrow> byte conn \<Rightarrow> error option \<times> byte conn"
  ErrUserPassAuth :: error
  ErrUnsupportCmd :: error

text \<open>The peer store keeps one value per peer and key; the server only tells its own type apart.\<close>

datatype ps_value = SessionInfo | OtherValue

record 'ps peerstore_ops =
  ps_Get :: "'ps \<Rightarrow> string \<Rightarrow> string \<Rightarrow> ps_value option"
  ps_Put :: "'ps \<Rightarrow> string \<Rightarrow> string \<Rightarrow> ps_value \<Rightarrow> 'ps"

definition peerstore_spec :: "'ps peerstore_ops \<Rightarrow> bool" where
  "peerstore_spec P \<longleftrightarrow>
     (\<forall>s p k v p' k'. ps_Get P (ps_Put P s p k v) p' k' = (if p' = p \<and> k' = k then Some v else ps_Get P s p' k'))"

text \<open>
  An outbound connection is its local address and its bytes. A UDP socket has the datagrams that will
  arrive (and how reading ends), the datagrams sent, and what sending to an address fails with.
\<close>

record outconn =
  oc_local :: string
  oc_conn :: "byte conn"

record udpsock =
  us_local :: string
  us_in :: "(byte list \<times> string) list"
  us_in_err :: error
  us_out :: "(byte list \<times> string) list"
  us_send_err :: "string \<Rightarrow> error option"
  us_closed :: bool

record net_env =
  env_DialTimeout :: "string \<Rightarrow> string \<Rightarrow> error + outconn"
  env_ResolveUDPAddr :: "string \<Rightarrow> string \<Rightarrow> error + string"
  env_DialUDP :: "string \<Rightarrow> string \<Rightarrow> error + outconn"
  env_ListenUDP :: "string \<Rightarrow> string \<Rightarrow> error + udpsock"
  env_SocksDial :: "string \<times> string \<times> string \<Rightarrow> string \<Rightarrow> string \<Rightarrow> error + outconn"

section \<open>The outbound dialer\<close>

text \<open>\<open>obDialer\<close>: direct, or through the SOCKS server \<open>addr\<close> with \<open>user\<close> and \<open>pass\<close>.\<close>

datatype outboundDialer = DirectDialer | Socks5Dialer string string string

definition SetOutboundProxy :: "string \<Rightarrow> string \<Rightarrow> string \<Rightarrow> outboundDialer" where
  "SetOutboundProxy addr user pass =
     (if addr = [] then DirectDialer else Socks5Dialer addr user pass)"

definition ob_Dial :: "net_env \<Rightarrow> outboundDialer \<Rightarrow> string \<Rightarrow> string \<Rightarrow> error + outconn" where
  "ob_Dial env d network address =
     (case d of
        DirectDialer \<Rightarrow> env_DialTimeout env network address
      | Socks5Dialer a u p \<Rightarrow> env_SocksDial env (a, u, p) network address)"

definition ob_DialUDP :: "net_env \<Rightarrow> outboundDialer \<Rightarrow> string \<Rightarrow> string \<Rightarrow> error + outconn" where
  "ob_DialUDP env d network address =
     (case d of
        DirectDialer \<Rightarrow>
          (case env_ResolveUDPAddr env network address of
             Inl err \<Rightarrow> Inl err
           | Inr ra \<Rightarrow> env_DialUDP env network ra)
      | Socks5Dialer a u p \<Rightarrow> env_SocksDial env (a, u, p) network address)"

section \<open>Negotiation\<close>

abbreviation (input) socks5ConnectSessionKey :: string where
  "socks5ConnectSessionKey \<equiv> ''ss5csk''"

text \<open>\<open>socks5Precheck\<close>: does this peer have to authenticate?\<close>

definition socks5Precheck :: "'ps peerstore_ops \<Rightarrow> 'ps \<Rightarrow> string \<Rightarrow> bool" where
  "socks5Precheck P ps pid =
     (case ps_Get P ps pid socks5ConnectSessionKey of
        None \<Rightarrow> True
      | Some SessionInfo \<Rightarrow> False
      | Some OtherValue \<Rightarrow> True)"

definition socks5Auth ::
  "'ps peerstore_ops \<Rightarrow> (uint64 \<Rightarrow> bool) \<Rightarrow> string \<Rightarrow> UserPassNegotiationRequest \<Rightarrow> 'ps
     \<Rightarrow> (bool \<times> 'ps) outcome" where
  "socks5Auth P AuthFunc pid urq ps =
     (if up_Plen urq < 8 then Return (False, ps)
      else case le_uint64 (take 8 (up_Passwd urq)) of
        Panic \<Rightarrow> Panic
      | Return authID \<Rightarrow>
          if \<not> AuthFunc authID then Return (False, ps)
          else Return (True, ps_Put P ps pid socks5ConnectSessionKey SessionInfo))"

definition socks5Negotiate ::
  "socks_lib \<Rightarrow> 'ps peerstore_ops \<Rightarrow> (uint64 \<Rightarrow> bool) \<Rightarrow> string \<Rightarrow> bool \<Rightarrow> byte conn \<Rightarrow> 'ps
     \<Rightarrow> (error option \<times> byte conn \<times> 'ps) outcome" where
  "socks5Negotiate L P AuthFunc pid needAuth s ps =
     (case NewNegotiationRequestFrom L s of
        (Some err, s1) \<Rightarrow> Return (Some err, s1, ps)
      | (None, s1) \<Rightarrow>
          if needAuth then
            (case NegotiationReply_WriteTo L MethodUsernamePassword s1 of
               (Some err, s2) \<Rightarrow> Return (Some err, s2, ps)
             | (None, s2) \<Rightarrow>
                 (case NewUserPassNegotiationRequestFrom L s2 of
                    (Inl err, s3) \<Rightarrow> Return (Some err, s3, ps)
                  | (Inr urq, s3) \<Rightarrow>
                      (case socks5Auth P AuthFunc pid urq ps of
                         Panic \<Rightarrow> Panic
                       | Return (False, ps1) \<Rightarrow>
                           (case UserPassNegotiationReply_WriteTo L UserPassStatusFailure s3 of
                              (Some err, s4) \<Rightarrow> Return (Some err, s4, ps1)
                            | (None, s4) \<Rightarrow> Return (Some (ErrUserPassAuth L), s4, ps1))
                       | Return (True, ps1) \<Rightarrow>
                           (case UserPassNegotiationReply_WriteTo L UserPassStatusSuccess s3 of
                              (err, s4) \<Rightarrow> Return (err, s4, ps1)))))
          else (case NegotiationReply_WriteTo L MethodNone s1 of (err, s2) \<Rightarrow> Return (err, s2, ps)))"

section \<open>Requests\<close>

definition replyErr :: "socks_lib \<Rightarrow> Request \<Rightarrow> byte \<Rightarrow> byte conn \<Rightarrow> error option \<times> byte conn" where
  "replyErr L req rep rw =
     (if rq_Atyp req = ATYPIPv4 \<or> rq_Atyp req = ATYPDomain
      then Reply_WriteTo L rep ATYPIPv4 [0, 0, 0, 0] [0, 0] rw
      else Reply_WriteTo L rep ATYPIPv6 (replicate 16 0) [0, 0] rw)"

text \<open>Refuse a request: the error of writing the reply comes before the error that is reported.\<close>

definition refuse :: "socks_lib \<Rightarrow> Request \<Rightarrow> byte \<Rightarrow> error \<Rightarrow> byte conn \<Rightarrow> error option \<times> byte conn" where
  "refuse L req rep err rw =
     (case replyErr L req rep rw of
        (Some e, rw') \<Rightarrow> (Some e, rw')
      | (None, rw') \<Rightarrow> (Some err, rw'))"

text \<open>
  The two loops of \<open>handleUDPPackConnRequest\<close>. The goroutine reads datagrams off the stream and sends
  them; when reading fails it sets \<open>stopped\<close>. The main loop forwards what the socket receives, until
  \<open>stopped\<close>, an error of the socket (its read deadline included) or of the stream.
\<close>

record pack_state =
  pk_stream :: "byte conn"
  pk_sock :: udpsock
  pk_buf :: "byte list"
  pk_stopped :: bool

definition pack_to_udp :: "socks_lib \<Rightarrow> net_env \<Rightarrow> pack_state \<Rightarrow> pack_state outcome" where
  "pack_to_udp L env st =
     (if pk_stopped st then Return st
      else case socks5ReadFrom (sl_addr L) (pk_buf st) (pk_stream st) of
        Panic \<Rightarrow> Panic
      | Return (Inl err, buf, c) \<Rightarrow> Return (st\<lparr>pk_stream := c, pk_buf := buf, pk_stopped := True\<rparr>)
      | Return (Inr (payload, to), buf, c) \<Rightarrow>
          let st' = st\<lparr>pk_stream := c, pk_buf := buf\<rparr>
          in case env_ResolveUDPAddr env ''udp'' to of
               Inl err \<Rightarrow> Return st'
             | Inr ra \<Rightarrow>
                 (case us_send_err (pk_sock st') ra of
                    Some err \<Rightarrow> Return st'
                  | None \<Rightarrow>
                      Return (st'\<lparr>pk_sock := (pk_sock st')\<lparr>us_out := us_out (pk_sock st') @ [(payload, ra)]\<rparr>\<rparr>)))"

text \<open>One round of the main loop: \<open>True\<close> when the loop is left.\<close>

definition pack_from_udp :: "socks_lib \<Rightarrow> pack_state \<Rightarrow> bool \<times> pack_state" where
  "pack_from_udp L st =
     (if pk_stopped st then (True, st)
      else case us_in (pk_sock st) of
        [] \<Rightarrow> (True, st)
      | (d, ra) # ds \<Rightarrow>
          let st' = st\<lparr>pk_sock := (pk_sock st)\<lparr>us_in := ds\<rparr>\<rparr>
          in case socks5WriteTo (sl_addr L) (take (32 * 1024) d) ra (pk_stream st') of
               (Some err, c) \<Rightarrow> (True, st'\<lparr>pk_stream := c\<rparr>)
             | (None, c) \<Rightarrow> (False, st'\<lparr>pk_stream := c\<rparr>))"

fun pack_loop ::
  "socks_lib \<Rightarrow> net_env \<Rightarrow> bool list \<Rightarrow> pack_state \<Rightarrow> (bool \<times> pack_state) outcome" where
  "pack_loop L env [] st = Return (False, st)"
| "pack_loop L env (True # sched) st =
     (case pack_to_udp L env st of Panic \<Rightarrow> Panic | Return st' \<Rightarrow> pack_loop L env sched st')"
| "pack_loop L env (False # sched) st =
     (case pack_from_udp L st of
        (True, st') \<Rightarrow> Return (True, st')
      | (False, st') \<Rightarrow> pack_loop L env sched st')"

text \<open>
  What a request came to: \<open>rr_err = None\<close> while it is still being served (the schedule ended first),
  the stream, the outbound connection or socket it opened, and whom it asked for.
\<close>

record reqres =
  rr_err :: "error option option"
  rr_stream :: "byte conn"
  rr_target :: "outconn option"
  rr_sock :: "udpsock option"
  rr_dialed :: "(string \<times> string) list"

definition handleUDPPackConnRequest ::
  "socks_lib \<Rightarrow> net_env \<Rightarrow> bool list \<Rightarrow> Request \<Rightarrow> byte conn \<Rightarrow> reqres outcome" where
  "handleUDPPackConnRequest L env sched req rw =
     (case env_ResolveUDPAddr env ''udp'' (Request_Address L req) of
        Inl err \<Rightarrow>
          (case refuse L req RepAddressNotSupported err rw of
             (e, rw') \<Rightarrow> Return \<lparr>rr_err = Some e, rr_stream = rw', rr_target = None, rr_sock = None, rr_dialed = []\<rparr>)
      | Inr ua \<Rightarrow>
          (case env_ListenUDP env ''udp'' ua of
             Inl err \<Rightarrow>
               (case refuse L req RepHostUnreachable err rw of
                  (e, rw') \<Rightarrow> Return \<lparr>rr_err = Some e, rr_stream = rw', rr_target = None, rr_sock = None,
                                     rr_dialed = [(''udp'', ua)]\<rparr>)
           | Inr sock \<Rightarrow>
               (case ParseAddress (sl_addr L) (us_local sock) of
                  Inl err \<Rightarrow>
                    (case replyErr L req RepHostUnreachable rw of
                       (Some e, rw') \<Rightarrow>
                         Return \<lparr>rr_err = Some (Some e), rr_stream = rw', rr_target = None,
                                 rr_sock = Some (sock\<lparr>us_closed := True\<rparr>), rr_dialed = [(''udp'', ua)]\<rparr>
                     | (None, rw') \<Rightarrow>
                         (case Reply_WriteTo L RepSuccess 0 [] [] rw' of
                            (werr, rw'') \<Rightarrow>
                              Return \<lparr>rr_err = Some (Some (case werr of Some e \<Rightarrow> e | None \<Rightarrow> err)), rr_stream = rw'',
                                      rr_target = None, rr_sock = Some (sock\<lparr>us_closed := True\<rparr>),
                                      rr_dialed = [(''udp'', ua)]\<rparr>))
                | Inr _ \<Rightarrow>
                    (case pack_loop L env sched
                            \<lparr>pk_stream = rw, pk_sock = sock, pk_buf = replicate (32 * 1024) 0, pk_stopped = False\<rparr> of
                       Panic \<Rightarrow> Panic
                     | Return (ended, st) \<Rightarrow>
                         Return \<lparr>rr_err = (if ended then Some None else None), rr_stream = pk_stream st, rr_target = None,
                                 rr_sock = Some ((pk_sock st)\<lparr>us_closed := ended\<rparr>), rr_dialed = [(''udp'', ua)]\<rparr>))))"

text \<open>
  After a connection has been made: answer with its local address, then tunnel. The connection is
  closed when the request ends.
\<close>

definition serve_target ::
  "socks_lib \<Rightarrow> bool list \<Rightarrow> Request \<Rightarrow> end_kind \<Rightarrow> end_kind \<Rightarrow> (string \<times> string) \<Rightarrow> outconn \<Rightarrow> byte conn
     \<Rightarrow> reqres outcome" where
  "serve_target L sched req tkind skind dialed target rwc =
     (let fin = (\<lambda>err rw. Return \<lparr>rr_err = Some err, rr_stream = rw,
                    rr_target = Some (target\<lparr>oc_conn := conn_close (oc_conn target)\<rparr>), rr_sock = None,
                    rr_dialed = [dialed]\<rparr>)
      in case ParseAddress (sl_addr L) (oc_local target) of
           Inl err \<Rightarrow> (case refuse L req RepHostUnreachable err rwc of (e, rw') \<Rightarrow> fin e rw')
         | Inr (a, addr, port) \<Rightarrow>
             (case Reply_WriteTo L RepSuccess a addr port rwc of
                (Some err, rw') \<Rightarrow> fin (Some err) rw'
              | (None, rw') \<Rightarrow>
                  (case tunneling sched \<lparr>te_kind = tkind, te_conn = oc_conn target\<rparr> \<lparr>te_kind = skind, te_conn = rw'\<rparr> of
                     Panic \<Rightarrow> Panic
                   | Return (res, dst, src) \<Rightarrow>
                       Return \<lparr>rr_err = res, rr_stream = te_conn src,
                               rr_target = Some (target\<lparr>oc_conn := (if res = None then te_conn dst else conn_close (te_conn dst))\<rparr>),
                               rr_sock = None, rr_dialed = [dialed]\<rparr>)))"

text \<open>The deferred \<open>rwc.Close()\<close>, once the request has ended.\<close>

definition close_stream :: "reqres outcome \<Rightarrow> reqres outcome" where
  "close_stream r =
     (case r of
        Panic \<Rightarrow> Panic
      | Return res \<Rightarrow>
          Return (if rr_err res = None then res else res\<lparr>rr_stream := conn_close (rr_stream res)\<rparr>))"

definition socks5RequestConnect ::
  "socks_lib \<Rightarrow> net_env \<Rightarrow> outboundDialer \<Rightarrow> bool list \<Rightarrow> byte conn \<Rightarrow> reqres outcome" where
  "socks5RequestConnect L env ob sched rwc = close_stream
     (case NewRequestFrom L rwc of
        (Inl err, rw) \<Rightarrow>
          Return \<lparr>rr_err = Some (Some err), rr_stream = rw, rr_target = None, rr_sock = None, rr_dialed = []\<rparr>
      | (Inr req, rw) \<Rightarrow>
          let address = Request_Address L req;
              refused = (\<lambda>dialed rep err.
                (case refuse L req rep err rw of
                   (e, rw') \<Rightarrow> Return \<lparr>rr_err = Some e, rr_stream = rw', rr_target = None, rr_sock = None,
                                      rr_dialed = dialed\<rparr>))
          in if rq_Cmd req = CmdConnect then
               (case ob_Dial env ob ''tcp'' address of
                  Inl err \<Rightarrow> refused [(''tcp'', address)] RepHostUnreachable err
                | Inr target \<Rightarrow> serve_target L sched req KStream KStream (''tcp'', address) target rw)
             else if rq_Cmd req = CmdConnectUDP then
               (case ob_DialUDP env ob ''udp'' address of
                  Inl err \<Rightarrow> refused [(''udp'', address)] RepHostUnreachable err
                | Inr target \<Rightarrow> serve_target L sched req KDatagram KPacket (''udp'', address) target rw)
             else if rq_Cmd req = CmdPacketConn then handleUDPPackConnRequest L env sched req rw
             else refused [] RepCommandNotSupported (ErrUnsupportCmd L))"

section \<open>The stream handler\<close>

text \<open>\<open>strings.Contains\<close>, and the text of an error.\<close>

definition str_contains :: "string \<Rightarrow> string \<Rightarrow> bool" where
  "str_contains sub s = list_ex (\<lambda>k. take (length sub) (drop k s) = sub) [0..<Suc (length s)]"

definition err_Error :: "error \<Rightarrow> string" where
  "err_Error e = (case errText e of Some s \<Rightarrow> s | None \<Rightarrow> [])"

definition shouldLogError :: "error option \<Rightarrow> bool" where
  "shouldLogError err =
     (case err of
        None \<Rightarrow> False
      | Some e \<Rightarrow>
          e \<noteq> EOF \<and> e \<noteq> ErrUnexpectedEOF \<and> e \<noteq> ECONNRESET
          \<and> \<not> str_contains ''timeout'' (err_Error e)
          \<and> \<not> str_contains ''reset'' (err_Error e)
          \<and> \<not> str_contains ''closed'' (err_Error e))"

text \<open>
  What the handler does with a stream: \<open>Inl\<close> the stream as it is left when the negotiation ends it,
  \<open>Inr\<close> what the request came to; and the peer store.
\<close>

definition handler ::
  "socks_lib \<Rightarrow> 'ps peerstore_ops \<Rightarrow> net_env \<Rightarrow> (uint64 \<Rightarrow> bool) \<Rightarrow> outboundDialer \<Rightarrow> bool list
     \<Rightarrow> string \<Rightarrow> byte conn \<Rightarrow> 'ps \<Rightarrow> ((byte conn + reqres) \<times> 'ps) outcome" where
  "handler L P env AuthFunc ob sched pid s ps =
     (case socks5Negotiate L P AuthFunc pid (socks5Precheck P ps pid) s ps of
        Panic \<Rightarrow> Panic
      | Return (err, s', ps') \<Rightarrow>
          if shouldLogError err then Return (Inl s', ps')
          else case socks5RequestConnect L env ob sched s' of
                 Panic \<Rightarrow> Panic
               | Return res \<Rightarrow> Return (Inr res, ps'))"

text \<open>
  \<open>StartServe\<close> and \<open>StopServe\<close>: the service is the handler registered for \<open>/socks5/1.0.0\<close>, with the
  gateway's check of authorisation identifiers.
\<close>

record serve_state =
  sv_registered :: bool
  sv_AuthFunc :: "(uint64 \<Rightarrow> bool) option"

definition StartServe :: "(uint64 \<Rightarrow> bool) \<Rightarrow> serve_state \<Rightarrow> serve_state" where
  "StartServe af st = st\<lparr>sv_registered := True, sv_AuthFunc := Some af\<rparr>"

definition StopServe :: "serve_state \<Rightarrow> serve_state" where
  "StopServe st = st\<lparr>sv_registered := False\<rparr>"

section \<open>Who gets a session\<close>

text \<open>The identifier a stream presents as its password, if the negotiation gets that far.\<close>

definition presented_id :: "socks_lib \<Rightarrow> byte conn \<Rightarrow> uint64 option" where
  "presented_id L s =
     (case NewNegotiationRequestFrom L s of
        (Some err, s1) \<Rightarrow> None
      | (None, s1) \<Rightarrow>
          (case NegotiationReply_WriteTo L MethodUsernamePassword s1 of
             (Some err, s2) \<Rightarrow> None
           | (None, s2) \<Rightarrow>
               (case NewUserPassNegotiationRequestFrom L s2 of
                  (Inl err, s3) \<Rightarrow> None
                | (Inr urq, s3) \<Rightarrow>
                    if up_Plen urq < 8 then None
                    else (case le_uint64 (take 8 (up_Passwd urq)) of Panic \<Rightarrow> None | Return x \<Rightarrow> Some x))))"

definition authenticates :: "socks_lib \<Rightarrow> (uint64 \<Rightarrow> bool) \<Rightarrow> byte conn \<Rightarrow> bool" where
  "authenticates L AuthFunc s = (case presented_id L s of None \<Rightarrow> False | Some x \<Rightarrow> AuthFunc x)"

lemma authenticates_iff:
  "authenticates L AuthFunc s \<longleftrightarrow> (\<exists>x. presented_id L s = Some x \<and> AuthFunc x)"
  by (auto simp: authenticates_def split: option.splits)

lemmas negotiate_defs = socks5Negotiate_def socks5Auth_def authenticates_def presented_id_def

lemma negotiate_session:
  assumes "socks5Negotiate L P AuthFunc pid needAuth s ps = Return (err, s', ps')"
  shows "ps' = (if needAuth \<and> authenticates L AuthFunc s
                then ps_Put P ps pid socks5ConnectSessionKey SessionInfo else ps)"
  using assms
  by (auto simp: negotiate_defs
      split: prod.splits option.splits sum.splits outcome.splits if_splits bool.splits)

lemma negotiate_success:
  assumes "socks5Negotiate L P AuthFunc pid True s ps = Return (None, s', ps')"
  shows "authenticates L AuthFunc s"
  using assms
  by (auto simp: negotiate_defs
      split: prod.splits option.splits sum.splits outcome.splits if_splits bool.splits)

lemma precheck_put:
  assumes "peerstore_spec P"
  shows "socks5Precheck P (ps_Put P ps pid socks5ConnectSessionKey SessionInfo) pid' =
    (pid' \<noteq> pid \<and> socks5Precheck P ps pid')"
  using assms by (auto simp: peerstore_spec_def socks5Precheck_def)

lemma handler_session:
  assumes "handler L P env AuthFunc ob sched pid s ps = Return (r, ps')"
  shows "ps' = (if socks5Precheck P ps pid \<and> authenticates L AuthFunc s
                then ps_Put P ps pid socks5ConnectSessionKey SessionInfo else ps)"
  using assms negotiate_session [of L P AuthFunc pid "socks5Precheck P ps pid" s ps]
  by (auto simp: handler_def split: outcome.splits if_splits)

text \<open>The service over a history of streams: the peer, its stream and the interleaving of its copies.\<close>

fun serve_all ::
  "socks_lib \<Rightarrow> 'ps peerstore_ops \<Rightarrow> net_env \<Rightarrow> (uint64 \<Rightarrow> bool) \<Rightarrow> outboundDialer
     \<Rightarrow> (string \<times> byte conn \<times> bool list) list \<Rightarrow> 'ps \<Rightarrow> 'ps outcome" where
  "serve_all L P env AuthFunc ob [] ps = Return ps"
| "serve_all L P env AuthFunc ob ((pid, s, sched) # xs) ps =
     (case handler L P env AuthFunc ob sched pid s ps of
        Panic \<Rightarrow> Panic
      | Return (_, ps') \<Rightarrow> serve_all L P env AuthFunc ob xs ps')"

lemma serve_all_sessions:
  assumes "peerstore_spec P" and "serve_all L P env AuthFunc ob xs ps = Return ps'"
  shows "socks5Precheck P ps' pid \<longleftrightarrow>
    socks5Precheck P ps pid \<and> (\<forall>s sched. (pid, s, sched) \<in> set xs \<longrightarrow> \<not> authenticates L AuthFunc s)"
  using assms(2)
proof (induction xs arbitrary: ps)
  case Nil
  then show ?case by simp
next
  case (Cons x xs)
  obtain p s sched where x: "x = (p, s, sched)" by (cases x)
  with Cons.prems obtain r ps1 where h: "handler L P env AuthFunc ob sched p s ps = Return (r, ps1)"
    and rest: "serve_all L P env AuthFunc ob xs ps1 = Return ps'" by (auto split: outcome.splits)
  show ?case
    using Cons.IH [OF rest] handler_session [OF h] precheck_put [OF assms(1), of ps p pid] x
    by (auto split: if_splits)
qed

section \<open>What a packet connection writes\<close>

lemma read_full_keeps_writes: "read_full n c = (bs, err, c') \<Longrightarrow> wr_data c' = wr_data c"
proof (cases "n \<le> length (pending c)")
  case True
  then obtain chs where "read_full n c = (take n (pending c), None, c\<lparr>rd_chunks := chs\<rparr>)"
    using read_full_enough by blast
  then show "read_full n c = (bs, err, c') \<Longrightarrow> wr_data c' = wr_data c" by auto
next
  case False
  then show "read_full n c = (bs, err, c') \<Longrightarrow> wr_data c' = wr_data c"
    using read_full_short [of c n] by auto
qed

lemma socks5ReadFrom_keeps_writes:
  "socks5ReadFrom L p c = Return (r, p', c') \<Longrightarrow> wr_data c' = wr_data c"
  by (auto simp: socks5ReadFrom_def prw_Read_def Let_def dest!: read_full_keeps_writes
      split: outcome.splits option.splits sum.splits prod.splits if_splits)

lemma pack_to_udp_keeps:
  "pack_to_udp L env st = Return st' \<Longrightarrow>
     wr_data (pk_stream st') = wr_data (pk_stream st) \<and> us_in (pk_sock st') = us_in (pk_sock st)"
  by (auto simp: pack_to_udp_def Let_def dest!: socks5ReadFrom_keeps_writes
      split: outcome.splits option.splits sum.splits prod.splits if_splits)

lemma pack_loop_silent:
  assumes "pack_loop L env sched st = Return (ended, st')" and "us_in (pk_sock st) = []"
  shows "wr_data (pk_stream st') = wr_data (pk_stream st)"
  using assms
proof (induction sched arbitrary: st)
  case Nil
  then show ?case by simp
next
  case (Cons b sched)
  show ?case
  proof (cases b)
    case True
    with Cons.prems obtain st1 where "pack_to_udp L env st = Return st1"
      and "pack_loop L env sched st1 = Return (ended, st')" by (auto split: outcome.splits)
    with Cons.IH [of st1] Cons.prems(2) pack_to_udp_keeps show ?thesis by metis
  next
    case False
    with Cons.prems show ?thesis by (auto simp: pack_from_udp_def split: if_splits)
  qed
qed

section \<open>What a connect request does\<close>

lemma serve_target_streams:
  "\<exists>res. serve_target L sched req KStream KStream d target rw = Return res \<and> rr_dialed res = [d]"
proof -
  have no_panic: "tunneling sched \<lparr>te_kind = KStream, te_conn = oc_conn target\<rparr> \<lparr>te_kind = KStream, te_conn = c\<rparr> \<noteq> Panic"
    for c
    using tunneling_streams [of "\<lparr>te_kind = KStream, te_conn = oc_conn target\<rparr>" "\<lparr>te_kind = KStream, te_conn = c\<rparr>" sched]
    by auto
  show ?thesis
  proof (cases "serve_target L sched req KStream KStream d target rw")
    case (Return res)
    then have "rr_dialed res = [d]"
      by (auto simp: serve_target_def Let_def split: sum.splits prod.splits option.splits outcome.splits)
    with Return show ?thesis by blast
  next
    case Panic
    with no_panic show ?thesis
      by (auto simp: serve_target_def Let_def split: sum.splits prod.splits option.splits outcome.splits)
  qed
qed

lemma connect_dials:
  assumes "NewRequestFrom L s = (Inr req, rw)" and "rq_Cmd req = CmdConnect"
  shows "\<exists>res. socks5RequestConnect L env ob sched s = Return res
    \<and> rr_dialed res = [(''tcp'', Request_Address L req)]"
proof (cases "ob_Dial env ob ''tcp'' (Request_Address L req)")
  case (Inl err)
  with assms show ?thesis
    by (simp add: socks5RequestConnect_def close_stream_def Let_def split: prod.splits)
next
  case (Inr target)
  with assms serve_target_streams [of L sched req "(''tcp'', Request_Address L req)" target rw] show ?thesis
    by (auto simp: socks5RequestConnect_def close_stream_def Let_def)
qed

text \<open>The same over UDP, when the stream goes on with packets that fit into the buffer of the copy.\<close>

lemma serve_target_packets:
  assumes "packet_bytes (pending rw)" and "\<And>a addr port. pending (snd (Reply_WriteTo L RepSuccess a addr port rw)) = pending rw"
  shows "\<exists>res. serve_target L sched req KDatagram KPacket d target rw = Return res \<and> rr_dialed res = [d]"
proof -
  have no_panic: "tunneling sched \<lparr>te_kind = KDatagram, te_conn = oc_conn target\<rparr> \<lparr>te_kind = KPacket, te_conn = c\<rparr> \<noteq> Panic"
    if "Reply_WriteTo L RepSuccess a addr port rw = (err, c)" for a addr port err c
    using assms that by (intro tunneling_packets) (simp_all, metis snd_conv)
  show ?thesis
  proof (cases "serve_target L sched req KDatagram KPacket d target rw")
    case (Return res)
    then have "rr_dialed res = [d]"
      by (auto simp: serve_target_def Let_def split: sum.splits prod.splits option.splits outcome.splits)
    with Return show ?thesis by blast
  next
    case Panic
    with no_panic show ?thesis
      by (auto simp: serve_target_def Let_def split: sum.splits prod.splits option.splits outcome.splits)
  qed
qed

lemma connect_udp_dials:
  assumes "NewRequestFrom L s = (Inr req, rw)" and "rq_Cmd req = CmdConnectUDP" and "packet_bytes (pending rw)"
    and "\<And>a addr port. pending (snd (Reply_WriteTo L RepSuccess a addr port rw)) = pending rw"
  shows "\<exists>res. socks5RequestConnect L env ob sched s = Return res
    \<and> rr_dialed res = [(''udp'', Request_Address L req)]"
proof (cases "ob_DialUDP env ob ''udp'' (Request_Address L req)")
  case (Inl err)
  with assms show ?thesis
    by (simp add: socks5RequestConnect_def close_stream_def Let_def split: prod.splits)
next
  case (Inr target)
  with assms serve_target_packets [of rw L sched req "(''udp'', Request_Address L req)" target] show ?thesis
    by (auto simp: socks5RequestConnect_def close_stream_def Let_def)
qed

section \<open>Instances for evaluation\<close>

text \<open>
  The messages of RFC 1928 and 1929 restricted to one method, an empty user name with an eight-byte
  password, and IPv4 addresses; a peer store that is a function; a network that answers every dial.
\<close>

definition write_only :: "byte list \<Rightarrow> byte conn \<Rightarrow> error option \<times> byte conn" where
  "write_only bs c = (case conn_write bs c of (n, err, c') \<Rightarrow> (err, c'))"

definition mini_lib :: socks_lib where
  "mini_lib =
     \<lparr>sl_addr = one_addr,
      NewNegotiationRequestFrom = (\<lambda>c. case read_full 3 c of (bs, err, c') \<Rightarrow> (err, c')),
      NegotiationReply_WriteTo = (\<lambda>m. write_only [5, m]),
      NewUserPassNegotiationRequestFrom = (\<lambda>c.
        case read_full 11 c of
          (bs, Some err, c') \<Rightarrow> (Inl err, c')
        | (bs, None, c') \<Rightarrow> (Inr \<lparr>up_Plen = bs ! 2, up_Passwd = drop 3 bs\<rparr>, c')),
      UserPassNegotiationReply_WriteTo = (\<lambda>m. write_only [1, m]),
      NewRequestFrom = (\<lambda>c.
        case read_full 10 c of
          (bs, Some err, c') \<Rightarrow> (Inl err, c')
        | (bs, None, c') \<Rightarrow>
            (Inr \<lparr>rq_Cmd = bs ! 1, rq_Atyp = bs ! 3, rq_DstAddr = take 4 (drop 4 bs), rq_DstPort = drop 8 bs\<rparr>, c')),
      Request_Address = (\<lambda>r. ''0.0.0.0:53''),
      Reply_WriteTo = (\<lambda>rep a addr port. write_only ([5, rep, 0, a] @ addr @ port)),
      ErrUserPassAuth = ErrNew ''Invalid Username or Password for Auth'',
      ErrUnsupportCmd = ErrNew ''Unsupport Command''\<rparr>"

definition fun_store :: "(string \<times> string \<Rightarrow> ps_value option) peerstore_ops" where
  "fun_store = \<lparr>ps_Get = (\<lambda>s p k. s (p, k)), ps_Put = (\<lambda>s p k v. s((p, k) \<mapsto> v))\<rparr>"

lemma fun_store_spec: "peerstore_spec fun_store"
  by (simp add: peerstore_spec_def fun_store_def)

definition open_env :: net_env where
  "open_env =
     \<lparr>env_DialTimeout = (\<lambda>n a. Inr \<lparr>oc_local = ''0.0.0.0:53'', oc_conn = conn_of [7]\<rparr>),
      env_ResolveUDPAddr = (\<lambda>n a. Inr a),
      env_DialUDP = (\<lambda>n a. Inr \<lparr>oc_local = ''0.0.0.0:53'', oc_conn = conn_of []\<rparr>),
      env_ListenUDP = (\<lambda>n a. Inr \<lparr>us_local = ''0.0.0.0:53'', us_in = [], us_in_err = EOF, us_out = [],
                                   us_send_err = (\<lambda>_. None), us_closed = False\<rparr>),
      env_SocksDial = (\<lambda>c n a. Inl (ErrNew ''unreachable''))\<rparr>"

section \<open>Properties\<close>

text \<open>
  C2: a negotiation that demands authentication ends without an error only when the stream presented
  a password of at least eight bytes whose first eight, read as a little-endian number, the
  authorisation function accepts; and exactly then the peer's session is recorded.
\<close>

theorem socks5Negotiate_authenticates:
  assumes "socks5Negotiate L P AuthFunc pid True s ps = Return (err, s', ps')"
  shows "(err = None \<longrightarrow> (\<exists>authID. presented_id L s = Some authID \<and> AuthFunc authID))
    \<and> ps' = (case presented_id L s of
               None \<Rightarrow> ps
             | Some authID \<Rightarrow>
                 if AuthFunc authID then ps_Put P ps pid ''ss5csk'' SessionInfo else ps)"
  using negotiate_session [OF assms] negotiate_success [of L P AuthFunc pid s ps s' ps'] assms
  by (auto simp: authenticates_def split: option.splits)

theorem socks5Negotiate_authenticates_witness:
  "\<exists>err s' ps'. socks5Negotiate mini_lib fun_store (\<lambda>x. x = 1) ''peer'' True
        (conn_of ([5, 1, 2] @ [1, 0, 8] @ [1, 0, 0, 0, 0, 0, 0, 0])) Map.empty = Return (err, s', ps')
     \<and> err = None \<and> presented_id mini_lib (conn_of ([5, 1, 2] @ [1, 0, 8] @ [1, 0, 0, 0, 0, 0, 0, 0])) = Some 1
     \<and> ps' = ps_Put fun_store Map.empty ''peer'' ''ss5csk'' SessionInfo"
proof -
  let ?s = "conn_of ([5, 1, 2] @ [1, 0, 8] @ [1, 0, 0, 0, 0, 0, 0, 0]) :: byte conn"
  have i: "presented_id mini_lib ?s = Some 1" by code_simp
  have "case socks5Negotiate mini_lib fun_store (\<lambda>x. x = 1) ''peer'' True ?s Map.empty of
          Return (None, _) \<Rightarrow> True | _ \<Rightarrow> False" by code_simp
  then obtain s' ps' where n: "socks5Negotiate mini_lib fun_store (\<lambda>x. x = 1) ''peer'' True ?s Map.empty
      = Return (None, s', ps')" by (auto split: outcome.splits option.splits prod.splits)
  from socks5Negotiate_authenticates [OF n] n i show ?thesis by auto
qed

text \<open>
  Sessions over a whole history of streams. However the streams of any peers are served, a peer
  is let in without authentication afterwards exactly when it was before or one of its own streams in
  the history presented an accepted identifier; no peer gains or loses a session by another's streams.
\<close>

theorem serve_all_sessions_correct:
  assumes "peerstore_spec P" and "serve_all L P env AuthFunc ob xs ps = Return ps'"
  shows "\<not> socks5Precheck P ps' pid \<longleftrightarrow>
    \<not> socks5Precheck P ps pid
    \<or> (\<exists>s sched authID. (pid, s, sched) \<in> set xs \<and> presented_id L s = Some authID \<and> AuthFunc authID)"
  unfolding serve_all_sessions [OF assms] authenticates_iff by blast

theorem serve_all_sessions_correct_witness:
  "\<exists>ps'. serve_all mini_lib fun_store open_env (\<lambda>x. x = 1) DirectDialer
        [(''peer'', conn_of ([5, 1, 2] @ [1, 0, 8] @ [1, 0, 0, 0, 0, 0, 0, 0]), [])] Map.empty = Return ps'
     \<and> \<not> socks5Precheck fun_store ps' ''peer'' \<and> socks5Precheck fun_store ps' ''other''"
proof -
  let ?s = "conn_of ([5, 1, 2] @ [1, 0, 8] @ [1, 0, 0, 0, 0, 0, 0, 0]) :: byte conn"
  let ?xs = "[(''peer'', ?s, [])] :: (string \<times> byte conn \<times> bool list) list"
  have i: "presented_id mini_lib ?s = Some 1" by code_simp
  have "case serve_all mini_lib fun_store open_env (\<lambda>x. x = 1) DirectDialer ?xs Map.empty of
          Return _ \<Rightarrow> True | Panic \<Rightarrow> False" by code_simp
  then obtain ps' where r: "serve_all mini_lib fun_store open_env (\<lambda>x. x = 1) DirectDialer ?xs Map.empty
      = Return ps'" by (auto split: outcome.splits)
  note c = serve_all_sessions_correct [OF fun_store_spec r]
  show ?thesis using r c [of "''peer''"] c [of "''other''"] i
    by (auto simp: socks5Precheck_def fun_store_def)
qed

text \<open>
  C29: when the handler goes on to serve a request, the peer had a session, or the stream presented an
  accepted identifier, or the negotiation failed with an error that is not logged. The last case is
  the handler's own: it stops only at errors it logs.
\<close>

theorem handler_serves_only:
  assumes "handler L P env AuthFunc ob sched pid s ps = Return (Inr res, ps')"
  shows "\<not> socks5Precheck P ps pid
    \<or> (\<exists>authID. presented_id L s = Some authID \<and> AuthFunc authID)
    \<or> (\<exists>e s1. socks5Negotiate L P AuthFunc pid True s ps = Return (Some e, s1, ps') \<and> \<not> shouldLogError (Some e))"
proof (cases "socks5Precheck P ps pid")
  case True
  with assms obtain err s1 where n: "socks5Negotiate L P AuthFunc pid True s ps = Return (err, s1, ps')"
    and q: "\<not> shouldLogError err" by (auto simp: handler_def split: outcome.splits if_splits)
  show ?thesis
  proof (cases err)
    case None
    with negotiate_success n have "authenticates L AuthFunc s" by fastforce
    then show ?thesis by (auto simp: authenticates_def split: option.splits)
  next
    case (Some e)
    with n q show ?thesis by blast
  qed
qed simp

theorem handler_serves_only_witness:
  "\<exists>e s1 ps'. socks5Negotiate mini_lib fun_store (\<lambda>x. x = 1) ''peer'' True
      ((conn_of ([5, 1, 2] @ [5, 1, 0, 1, 0, 0, 0, 0, 0, 53]))\<lparr>wr_room := Some 0, wr_err := ErrNew ''stream reset''\<rparr>)
      Map.empty = Return (Some e, s1, ps') \<and> \<not> shouldLogError (Some e)"
proof -
  let ?s = "(conn_of ([5, 1, 2] @ [5, 1, 0, 1, 0, 0, 0, 0, 0, 53]))\<lparr>wr_room := Some 0, wr_err := ErrNew ''stream reset''\<rparr> :: byte conn"
  have i: "presented_id mini_lib ?s = None" and p: "socks5Precheck fun_store Map.empty ''peer''"
    by code_simp+
  have "case handler mini_lib fun_store open_env (\<lambda>x. x = 1) DirectDialer [] ''peer'' ?s Map.empty of
          Return (Inr _, _) \<Rightarrow> True | _ \<Rightarrow> False" by code_simp
  then obtain res ps' where
    "handler mini_lib fun_store open_env (\<lambda>x. x = 1) DirectDialer [] ''peer'' ?s Map.empty = Return (Inr res, ps')"
    by (auto split: outcome.splits sum.splits prod.splits)
  from handler_serves_only [OF this] i p show ?thesis by auto
qed

text \<open>
  C40: the gap this leaves. When the reply that demands a password cannot be written and the error's
  text speaks of a reset, a close or a timeout, the handler serves the request of an unauthenticated
  peer: a connect request is dialled although no identifier was ever presented.
\<close>

theorem handler_unauthenticated_connect:
  assumes "socks5Precheck P ps pid" and "NewNegotiationRequestFrom L s = (None, s1)"
    and "NegotiationReply_WriteTo L MethodUsernamePassword s1 = (Some e, s2)" and "\<not> shouldLogError (Some e)"
    and "NewRequestFrom L s2 = (Inr req, rw)" and "rq_Cmd req = CmdConnect"
  shows "presented_id L s = None
    \<and> (\<exists>res. handler L P env AuthFunc ob sched pid s ps = Return (Inr res, ps)
             \<and> rr_dialed res = [(''tcp'', Request_Address L req)])"
proof -
  have n: "socks5Negotiate L P AuthFunc pid True s ps = Return (Some e, s2, ps)"
    using assms(2,3) by (simp add: socks5Negotiate_def)
  obtain res where "socks5RequestConnect L env ob sched s2 = Return res"
    "rr_dialed res = [(''tcp'', Request_Address L req)]" using connect_dials [OF assms(5,6)] by blast
  with n assms(1,4) show ?thesis using assms(2,3) by (simp add: handler_def presented_id_def)
qed

theorem handler_unauthenticated_connect_witness:
  "\<exists>res. handler mini_lib fun_store open_env (\<lambda>_. False) DirectDialer [] ''peer''
      ((conn_of ([5, 1, 2] @ [5, 1, 0, 1, 0, 0, 0, 0, 0, 53]))\<lparr>wr_room := Some 0, wr_err := ErrNew ''stream reset''\<rparr>)
      Map.empty = Return (Inr res, Map.empty) \<and> rr_dialed res = [(''tcp'', ''0.0.0.0:53'')]"
proof -
  let ?s = "(conn_of ([5, 1, 2] @ [5, 1, 0, 1, 0, 0, 0, 0, 0, 53]))\<lparr>wr_room := Some 0, wr_err := ErrNew ''stream reset''\<rparr> :: byte conn"
  let ?r = "?s\<lparr>rd_chunks := [[5, 1, 0, 1, 0, 0, 0, 0, 0, 53]]\<rparr>"
  let ?req = "\<lparr>rq_Cmd = 1, rq_Atyp = 1, rq_DstAddr = [0, 0, 0, 0], rq_DstPort = [0, 53]\<rparr>"
  have h: "socks5Precheck fun_store Map.empty ''peer''"
    "NewNegotiationRequestFrom mini_lib ?s = (None, ?r)"
    "NegotiationReply_WriteTo mini_lib MethodUsernamePassword ?r = (Some (ErrNew ''stream reset''), ?r)"
    "\<not> shouldLogError (Some (ErrNew ''stream reset''))"
    "NewRequestFrom mini_lib ?r = (Inr ?req, ?r\<lparr>rd_chunks := []\<rparr>)"
    "rq_Cmd ?req = CmdConnect"
    by code_simp+
  from handler_unauthenticated_connect [OF h, of open_env "\<lambda>_. False" DirectDialer "[]"] show ?thesis
    by (simp add: mini_lib_def)
qed

text \<open>
  C28: a connect request that is dialled. The reply carries the local address of the connection; from
  then on the bytes that reach the target are, in order, those of the stream behind the request, and
  the bytes behind the reply on the stream are those of the target.
\<close>

theorem socks5_connect_relays:
  assumes "NewRequestFrom L s = (Inr req, rw)" and "rq_Cmd req = CmdConnect"
    and "ob_Dial env ob ''tcp'' (Request_Address L req) = Inr target"
    and "ParseAddress (sl_addr L) (oc_local target) = Inr (a, addr, port)"
    and "Reply_WriteTo L RepSuccess a addr port rw = (None, rw')"
  shows "\<exists>res target' xs ys xs' ys'. socks5RequestConnect L env ob sched s = Return res
    \<and> rr_target res = Some target'
    \<and> wr_data (oc_conn target') = wr_data (oc_conn target) @ xs \<and> pending rw' = xs @ ys @ pending (rr_stream res)
    \<and> wr_data (rr_stream res) = wr_data rw' @ xs' \<and> pending (oc_conn target) = xs' @ ys' @ pending (oc_conn target')
    \<and> (rr_err res = None \<longrightarrow> ys = [] \<and> ys' = [])
    \<and> (rr_err res \<noteq> None \<longrightarrow> is_closed (rr_stream res))"
proof -
  let ?d = "\<lparr>te_kind = KStream, te_conn = oc_conn target\<rparr>" and ?s = "\<lparr>te_kind = KStream, te_conn = rw'\<rparr>"
  obtain r dst' src' where t: "tunneling sched ?d ?s = Return (r, dst', src')"
    and m: "moved ?d ?s (r = None) dst' src'" "moved ?s ?d (r = None) src' dst'"
    using tunneling_streams [of ?d ?s sched] by auto
  let ?res = "\<lparr>rr_err = r, rr_stream = (if r = None then te_conn src' else conn_close (te_conn src')),
     rr_target = Some (target\<lparr>oc_conn := (if r = None then te_conn dst' else conn_close (te_conn dst'))\<rparr>),
     rr_sock = None, rr_dialed = [(''tcp'', Request_Address L req)]\<rparr>"
  have "socks5RequestConnect L env ob sched s = Return ?res"
    using assms t by (simp add: socks5RequestConnect_def close_stream_def serve_target_def Let_def)
  then show ?thesis
    using m by (intro exI [of _ ?res]) (auto simp: moved_def pending_def conn_close_def)
qed

theorem socks5_connect_relays_witness:
  "\<exists>res target'. socks5RequestConnect mini_lib open_env DirectDialer [True, False]
      (conn_of [5, 1, 0, 1, 0, 0, 0, 0, 0, 53, 8, 9]) = Return res \<and> rr_target res = Some target'
    \<and> (\<exists>xs ys. wr_data (oc_conn target') = xs \<and> [8, 9] = xs @ ys @ pending (rr_stream res))"
proof -
  let ?rw = "(conn_of [5, 1, 0, 1, 0, 0, 0, 0, 0, 53, 8, 9])\<lparr>rd_chunks := [[8, 9]]\<rparr> :: byte conn"
  let ?req = "\<lparr>rq_Cmd = 1, rq_Atyp = 1, rq_DstAddr = [0, 0, 0, 0], rq_DstPort = [0, 53]\<rparr>"
  let ?t = "\<lparr>oc_local = ''0.0.0.0:53'', oc_conn = conn_of [7]\<rparr>"
  let ?rw' = "?rw\<lparr>wr_data := [5, 0, 0, 1, 0, 0, 0, 0, 0, 53]\<rparr>"
  have h: "NewRequestFrom mini_lib (conn_of [5, 1, 0, 1, 0, 0, 0, 0, 0, 53, 8, 9]) = (Inr ?req, ?rw)"
    "rq_Cmd ?req = CmdConnect"
    "ob_Dial open_env DirectDialer ''tcp'' (Request_Address mini_lib ?req) = Inr ?t"
    "ParseAddress (sl_addr mini_lib) (oc_local ?t) = Inr (1, [0, 0, 0, 0], [0, 53])"
    "Reply_WriteTo mini_lib RepSuccess 1 [0, 0, 0, 0] [0, 53] ?rw = (None, ?rw')"
    by code_simp+
  have p: "pending ?rw' = [8, 9]" and w: "wr_data (oc_conn ?t) = []" by code_simp+
  from socks5_connect_relays [OF h, of "[True, False]"] show ?thesis unfolding p w by auto
qed

text \<open>
  A packet connection is never acknowledged. When the socket is open and its address can be
  parsed, the handler writes nothing on the stream but datagrams that arrive at the socket: while none
  arrives, a client that waits for the reply to its request waits for ever.
\<close>

theorem packet_conn_never_replies:
  assumes "env_ResolveUDPAddr env ''udp'' (Request_Address L req) = Inr ua"
    and "env_ListenUDP env ''udp'' ua = Inr sock" and "ParseAddress (sl_addr L) (us_local sock) = Inr x"
    and "us_in sock = []" and "handleUDPPackConnRequest L env sched req rw = Return res"
  shows "wr_data (rr_stream res) = wr_data rw"
  using assms
  by (auto simp: handleUDPPackConnRequest_def dest!: pack_loop_silent split: outcome.splits prod.splits)

theorem packet_conn_never_replies_witness:
  "\<exists>res. handleUDPPackConnRequest mini_lib open_env [] \<lparr>rq_Cmd = 5, rq_Atyp = 1, rq_DstAddr = [0, 0, 0, 0], rq_DstPort = [0, 53]\<rparr>
      (conn_of []) = Return res \<and> rr_err res = None \<and> wr_data (rr_stream res) = []"
proof -
  let ?req = "\<lparr>rq_Cmd = 5, rq_Atyp = 1, rq_DstAddr = [0, 0, 0, 0], rq_DstPort = [0, 53]\<rparr>"
  let ?sock = "\<lparr>us_local = ''0.0.0.0:53'', us_in = [], us_in_err = EOF, us_out = [],
                us_send_err = (\<lambda>_. None), us_closed = False\<rparr>"
  have d: "env_ResolveUDPAddr open_env ''udp'' (Request_Address mini_lib ?req) = Inr ''0.0.0.0:53''"
    "env_ListenUDP open_env ''udp'' ''0.0.0.0:53'' = Inr ?sock"
    "ParseAddress (sl_addr mini_lib) (us_local ?sock) = Inr (1, [0, 0, 0, 0], [0, 53])" "us_in ?sock = []"
    by (simp_all add: open_env_def mini_lib_def one_addr_def)
  let ?h = "handleUDPPackConnRequest mini_lib open_env [] ?req (conn_of [])"
  obtain res where r: "?h = Return res" "rr_err res = None"
    using d by (simp add: handleUDPPackConnRequest_def)
  from packet_conn_never_replies [OF d r(1)] r show ?thesis by (simp add: conn_of_def)
qed

end
