(* ===== verification/Totp.thy ===== *)
theory Totp
  imports GoIO
begin

text \<open>
  \<open>totp/totp.go\<close>: time-based codes. \<open>Gen\<close> authenticates the number of the time step with
  HMAC-SHA256 under the token; the two functions of the standard library are modelled after FIPS 180-4
  and RFC 2104.
\<close>

section \<open>SHA-256 and HMAC\<close>

text \<open>The round constants (fractions of the cube roots of the first primes) and the initial state (of square
  roots), in decimal.\<close>

definition sha_K :: "uint32 list" where
  "sha_K =
     [1116352408, 1899447441, 3049323471, 3921009573, 961987163, 1508970993,
      2453635748, 2870763221, 3624381080, 310598401, 607225278, 1426881987,
      1925078388, 2162078206, 2614888103, 3248222580, 3835390401, 4022224774,
      264347078, 604807628, 770255983, 1249150122, 1555081692, 1996064986,
      2554220882, 2821834349, 2952996808, 3210313671, 3336571891, 3584528711,
      113926993, 338241895, 666307205, 773529912, 1294757372, 1396182291,
      1695183700, 1986661051, 2177026350, 2456956037, 2730485921, 2820302411,
      3259730800, 3345764771, 3516065817, 3600352804, 4094571909, 275423344,
      430227734, 506948616, 659060556, 883997877, 958139571, 1322822218,
      1537002063, 1747873779, 1955562222, 2024104815, 2227730452, 2361852424,
      2428436474, 2756734187, 3204031479, 3329325298]"

definition sha_H0 :: "uint32 list" where
  "sha_H0 =
     [1779033703, 3144134277, 1013904242, 2773480762, 1359893119, 2600822924,
      528734635, 1541459225]"

definition be_word32 :: "byte list \<Rightarrow> uint32" where
  "be_word32 bs = foldl (\<lambda>acc b. push_bit 8 acc OR ucast b) 0 bs"

definition be_bytes_n :: "nat \<Rightarrow> nat \<Rightarrow> byte list" where
  "be_bytes_n n x = map (\<lambda>i. of_nat (x div 256 ^ (n - 1 - i))) [0..<n]"

fun chunks :: "nat \<Rightarrow> nat \<Rightarrow> 'a list \<Rightarrow> 'a list list" where
  "chunks 0 k xs = []"
| "chunks (Suc n) k xs = take k xs # chunks n k (drop k xs)"

text \<open>The sixteen words of a block, extended to the schedule of sixty-four; the newest word first.\<close>

fun sha_extend :: "nat \<Rightarrow> uint32 list \<Rightarrow> uint32 list" where
  "sha_extend 0 ws = ws"
| "sha_extend (Suc n) ws =
     (let w15 = ws ! 14; w2 = ws ! 1;
          s0 = word_rotr 7 w15 XOR word_rotr 18 w15 XOR drop_bit 3 w15;
          s1 = word_rotr 17 w2 XOR word_rotr 19 w2 XOR drop_bit 10 w2
      in sha_extend n ((ws ! 15 + s0 + ws ! 6 + s1) # ws))"

fun sha_round :: "uint32 \<times> uint32 \<Rightarrow> uint32 list \<Rightarrow> uint32 list" where
  "sha_round (k, w) [a, b, c, d, e, f, g, h] =
     (let S1 = word_rotr 6 e XOR word_rotr 11 e XOR word_rotr 25 e;
          ch = (e AND f) XOR (NOT e AND g);
          t1 = h + S1 + ch + k + w;
          S0 = word_rotr 2 a XOR word_rotr 13 a XOR word_rotr 22 a;
          maj = (a AND b) XOR (a AND c) XOR (b AND c);
          t2 = S0 + maj
      in [t1 + t2, a, b, c, d + t1, e, f, g])"
| "sha_round _ hs = hs"

definition sha_block :: "byte list \<Rightarrow> uint32 list \<Rightarrow> uint32 list" where
  "sha_block blk hs =
     (let ws = rev (sha_extend 48 (rev (map be_word32 (chunks 16 4 blk))))
      in map2 (+) hs (fold sha_round (zip sha_K ws) hs))"

definition sha_pad :: "byte list \<Rightarrow> byte list" where
  "sha_pad m = m @ [0x80] @ replicate ((119 - length m mod 64) mod 64) 0 @ be_bytes_n 8 (8 * length m)"

definition sha256 :: "byte list \<Rightarrow> byte list" where
  "sha256 m =
     (let p = sha_pad m
      in concat (map (\<lambda>w. be_bytes_n 4 (unat w)) (fold sha_block (chunks (length p div 64) 64 p) sha_H0)))"

definition hmac_sha256 :: "byte list \<Rightarrow> byte list \<Rightarrow> byte list" where
  "hmac_sha256 key m =
     (let k0 = (if 64 < length key then sha256 key else key);
          k = k0 @ replicate (64 - length k0) 0
      in sha256 (map ((XOR) 0x5c) k @ sha256 (map ((XOR) 0x36) k @ m)))"

section \<open>Codes\<close>

record TOTP =
  Step :: int64

text \<open>Go's division of two \<open>int64\<close>: towards zero, a panic for a zero divisor, and wrapping for the one
  quotient that does not fit.\<close>

definition int64_div :: "int64 \<Rightarrow> int64 \<Rightarrow> int64 outcome" where
  "int64_div a b =
     (if b = 0 then Panic
      else Return (word_of_int (sgn (sint a) * sgn (sint b) * (\<bar>sint a\<bar> div \<bar>sint b\<bar>))))"

definition Gen :: "TOTP \<Rightarrow> uint64 \<Rightarrow> int64 \<Rightarrow> uint64 outcome" where
  "Gen t token ts =
     (case int64_div ts (Step t) of
        Panic \<Rightarrow> Panic
      | Return step \<Rightarrow> le_uint64 (take 8 (hmac_sha256 (le_bytes64 token) (le_bytes64 step))))"

definition Verify :: "TOTP \<Rightarrow> uint64 \<Rightarrow> uint64 \<Rightarrow> int64 \<Rightarrow> bool outcome" where
  "Verify t code token ts =
     (if code = 0 then Return False
      else if code = token then Return True
      else case Gen t token ts of
        Panic \<Rightarrow> Panic
      | Return c1 \<Rightarrow>
          if code = c1 then Return True
          else case Gen t token (ts - Step t) of
            Panic \<Rightarrow> Panic
          | Return c2 \<Rightarrow>
              if code = c2 then Return True
              else case Gen t token (ts + Step t) of
                Panic \<Rightarrow> Panic
              | Return c3 \<Rightarrow> Return (code = c3))"

text \<open>A digest has 32 bytes, so the first eight are there.\<close>

lemma length_chunks [simp]: "length (chunks n k xs) = n"
  by (induction n arbitrary: xs) simp_all

lemma length_sha_round: "length (sha_round kw hs) = length hs"
  by (cases "(kw, hs)" rule: sha_round.cases) (simp_all add: Let_def)

lemma length_sha_rounds: "length (fold sha_round kws hs) = length hs"
  by (induction kws arbitrary: hs) (simp_all add: length_sha_round)

lemma length_sha_blocks: "length (fold sha_block bs hs) = length hs"
  by (induction bs arbitrary: hs) (simp_all add: sha_block_def Let_def length_sha_rounds)

lemma length_sha256: "length (sha256 m) = 32"
proof -
  have "length (concat (map (\<lambda>w. be_bytes_n 4 (f w)) ws)) = 4 * length ws" for f and ws :: "uint32 list"
    by (induction ws) (simp_all add: be_bytes_n_def)
  then show ?thesis by (simp add: sha256_def Let_def length_sha_blocks sha_H0_def)
qed

definition code_of :: "uint64 \<Rightarrow> int64 \<Rightarrow> uint64" where
  "code_of token step =
     (case le_uint64 (take 8 (hmac_sha256 (le_bytes64 token) (le_bytes64 step))) of Return c \<Rightarrow> c | Panic \<Rightarrow> 0)"

lemma Gen_pos:
  assumes "0 < sint (Step t)" and "0 \<le> sint ts"
  shows "Gen t token ts = Return (code_of token (word_of_int (sint ts div sint (Step t))))"
proof -
  have "Step t \<noteq> 0" using assms(1) by auto
  moreover have "sgn (sint ts) * sgn (sint (Step t)) * (\<bar>sint ts\<bar> div \<bar>sint (Step t)\<bar>) = sint ts div sint (Step t)"
    using assms by (cases "sint ts = 0") simp_all
  moreover have "le_uint64 (take 8 (hmac_sha256 k m)) \<noteq> Panic" for k m
    by (simp add: le_uint64_def hmac_sha256_def Let_def length_sha256)
  ultimately show ?thesis by (auto simp: Gen_def int64_div_def code_of_def split: outcome.splits)
qed

lemma sint_plus_small:
  "- (2 ^ 63) \<le> sint (a :: int64) + sint b \<Longrightarrow> sint a + sint b < 2 ^ 63 \<Longrightarrow> sint (a + b) = sint a + sint b"
  by (simp add: sint_word_ariths signed_take_bit_int_eq_self)

lemma sint_minus_small:
  "- (2 ^ 63) \<le> sint (a :: int64) - sint b \<Longrightarrow> sint a - sint b < 2 ^ 63 \<Longrightarrow> sint (a - b) = sint a - sint b"
  by (simp add: sint_word_ariths signed_take_bit_int_eq_self)

section \<open>Properties\<close>

text \<open>
  C34: with a positive step and a time at least one step away from both ends of the range, \<open>Verify\<close>
  accepts exactly the nonzero codes that are the token itself or that \<open>Gen\<close> makes at some time of the
  current, the previous or the next step.
\<close>

theorem Verify_window:
  assumes "0 < sint (Step t)" and "sint (Step t) \<le> sint ts" and "sint ts + sint (Step t) < 2 ^ 63"
  shows "Verify t code token ts =
    Return (code \<noteq> 0 \<and> (code = token
      \<or> (\<exists>ts'. 0 \<le> sint ts' \<and> \<bar>sint ts' div sint (Step t) - sint ts div sint (Step t)\<bar> \<le> 1
                 \<and> Gen t token ts' = Return code)))"
proof -
  let ?S = "sint (Step t)" and ?T = "sint ts"
  have lo: "sint (ts - Step t) = ?T - ?S" by (rule sint_minus_small) (use assms in simp_all)
  have hi: "sint (ts + Step t) = ?T + ?S" by (rule sint_plus_small) (use assms in simp_all)
  have dlo: "(?T - ?S) div ?S = ?T div ?S - 1" and dhi: "(?T + ?S) div ?S = ?T div ?S + 1"
    using assms(1) div_add_self2 [of ?S ?T] div_mult_self4 [of ?S "-1" ?T] by simp_all
  let ?G = "\<lambda>q. code_of token (word_of_int q)"
  have V: "Verify t code token ts = Return (code \<noteq> 0 \<and> (code = token
      \<or> code \<in> {?G (?T div ?S), ?G (?T div ?S - 1), ?G (?T div ?S + 1)}))"
    using assms lo hi dlo dhi by (simp add: Verify_def Gen_pos)
  have "code \<in> {?G (?T div ?S), ?G (?T div ?S - 1), ?G (?T div ?S + 1)}
    \<longleftrightarrow> (\<exists>ts'. 0 \<le> sint ts' \<and> \<bar>sint ts' div ?S - ?T div ?S\<bar> \<le> 1 \<and> Gen t token ts' = Return code)" (is "?L \<longleftrightarrow> ?R")
  proof
    assume ?L
    then consider "code = ?G (sint ts div ?S)" | "code = ?G (sint (ts - Step t) div ?S)" | "code = ?G (sint (ts + Step t) div ?S)"
      using lo hi dlo dhi by auto
    then show ?R
    proof cases
      case 1 then show ?thesis using assms by (intro exI [of _ ts]) (simp add: Gen_pos)
    next
      case 2 then show ?thesis using assms lo dlo by (intro exI [of _ "ts - Step t"]) (simp add: Gen_pos)
    next
      case 3 then show ?thesis using assms hi dhi by (intro exI [of _ "ts + Step t"]) (simp add: Gen_pos)
    qed
  next
    assume ?R
    then obtain ts' where t: "0 \<le> sint ts'" "\<bar>sint ts' div ?S - ?T div ?S\<bar> \<le> 1" "Gen t token ts' = Return code" by blast
    then have "code = ?G (sint ts' div ?S)" using assms(1) by (simp add: Gen_pos)
    moreover from t(2) have "sint ts' div ?S \<in> {?T div ?S, ?T div ?S - 1, ?T div ?S + 1}" by auto
    ultimately show ?L by auto
  qed
  with V show ?thesis by simp
qed

theorem Verify_window_witness:
  "Verify \<lparr>Step = 300\<rparr> 5 7 1000 =
    Return (\<exists>ts'. 0 \<le> sint ts' \<and> \<bar>sint ts' div 300 - 3\<bar> \<le> 1 \<and> Gen \<lparr>Step = 300\<rparr> 7 ts' = Return 5)"
  using Verify_window [of "\<lparr>Step = 300\<rparr>" 1000 5 7] by simp

end
