(* ===== verification/Json.thy ===== *)
theory Json
  imports GoText
begin

text \<open>
  \<open>encoding/json\<close> as the sources use it: the text of a value as \<open>json.Marshal\<close> prints it (compact, with
  the escapes that are safe in HTML), the parser of \<open>json.Unmarshal\<close> and \<open>json.Decoder\<close>, and how a
  value is stored into the fields of a struct. Numbers are kept as their text until a field of type
  \<open>int\<close> reads them. What is printed is parsed back (\<open>parse_print\<close>).
\<close>

datatype json =
    JNull | JBool bool | JNum string | JStr string
  | JArr "json list" | JObj "(string \<times> json) list"

section \<open>Printing\<close>

definition hex_char :: "nat \<Rightarrow> char" where
  "hex_char d = char_of (if d < 10 then 48 + d else 87 + d)"

definition esc_ascii :: "char \<Rightarrow> string" where
  "esc_ascii c =
     (let b = char_nat c in
      if b = 0x22 \<or> b = 0x5C then [CHR 0x5C, c]
      else if b = 8 then CHR 0x5C # ''b''
      else if b = 9 then CHR 0x5C # ''t''
      else if b = 10 then CHR 0x5C # ''n''
      else if b = 12 then CHR 0x5C # ''f''
      else if b = 13 then CHR 0x5C # ''r''
      else if b < 0x20 \<or> b = 0x3C \<or> b = 0x3E \<or> b = 0x26
        then CHR 0x5C # ''u00'' @ [hex_char (b div 16), hex_char (b mod 16)]
      else [c])"

text \<open>U+2028 and U+2029, which are escaped although they are well formed.\<close>

definition line_sep :: string where
  "line_sep = [CHR 0xE2, CHR 0x80, CHR 0xA8]"

definition para_sep :: string where
  "para_sep = [CHR 0xE2, CHR 0x80, CHR 0xA9]"

function quote :: "string \<Rightarrow> string" where
  "quote [] = []"
| "quote (c # cs) =
     (if char_nat c < 0x80 then esc_ascii c @ quote cs
      else if rune_len (c # cs) = 0 then CHR 0x5C # ''ufffd'' @ quote cs
      else let n = rune_len (c # cs) - 1; r = c # take n cs
           in (if r = line_sep then CHR 0x5C # ''u2028''
               else if r = para_sep then CHR 0x5C # ''u2029''
               else r) @ quote (drop n cs))"
  by pat_completeness auto
termination
  by (relation "measure length") (auto simp: less_Suc_eq_le)

declare quote.simps(2) [simp del]

definition jstring :: "string \<Rightarrow> string" where
  "jstring s = CHR 0x22 # quote s @ [CHR 0x22]"

fun jprint :: "json \<Rightarrow> string"
  and jelems :: "json list \<Rightarrow> string"
  and jmembers :: "(string \<times> json) list \<Rightarrow> string" where
  "jprint JNull = ''null''"
| "jprint (JBool b) = (if b then ''true'' else ''false'')"
| "jprint (JNum s) = s"
| "jprint (JStr s) = jstring s"
| "jprint (JArr []) = ''[]''"
| "jprint (JArr (x # xs)) = CHR ''['' # jprint x @ jelems xs"
| "jprint (JObj []) = ''{}''"
| "jprint (JObj ((k, v) # kvs)) = CHR ''{'' # jstring k @ CHR '':'' # jprint v @ jmembers kvs"
| "jelems [] = '']''"
| "jelems (x # xs) = CHR '','' # jprint x @ jelems xs"
| "jmembers [] = ''}''"
| "jmembers ((k, v) # kvs) = CHR '','' # jstring k @ CHR '':'' # jprint v @ jmembers kvs"

section \<open>Parsing\<close>

definition is_ws :: "char \<Rightarrow> bool" where
  "is_ws c \<longleftrightarrow> char_nat c \<in> {0x20, 0x09, 0x0A, 0x0D}"

definition skip_ws :: "string \<Rightarrow> string" where
  "skip_ws s = dropWhile is_ws s"

definition hex_val :: "char \<Rightarrow> nat option" where
  "hex_val c =
     (let b = char_nat c in
      if 48 \<le> b \<and> b \<le> 57 then Some (b - 48)
      else if 97 \<le> b \<and> b \<le> 102 then Some (b - 87)
      else if 65 \<le> b \<and> b \<le> 70 then Some (b - 55)
      else None)"

definition hex4 :: "string \<Rightarrow> nat option" where
  "hex4 s =
     (case s of
        a # b # c # d # _ \<Rightarrow>
          (case (hex_val a, hex_val b, hex_val c, hex_val d) of
             (Some w, Some x, Some y, Some z) \<Rightarrow> Some (w * 4096 + x * 256 + y * 16 + z)
           | _ \<Rightarrow> None)
      | _ \<Rightarrow> None)"

definition utf8_encode :: "nat \<Rightarrow> string" where
  "utf8_encode u =
     (if u < 0x80 then [char_of u]
      else if u < 0x800 then [char_of (0xC0 + u div 64), char_of (0x80 + u mod 64)]
      else if u < 0x10000 then
        [char_of (0xE0 + u div 4096), char_of (0x80 + u div 64 mod 64), char_of (0x80 + u mod 64)]
      else
        [char_of (0xF0 + u div 262144), char_of (0x80 + u div 4096 mod 64),
         char_of (0x80 + u div 64 mod 64), char_of (0x80 + u mod 64)])"

definition replacement :: string where
  "replacement = [CHR 0xEF, CHR 0xBF, CHR 0xBD]"

definition surrogate_rune :: "nat \<Rightarrow> nat \<Rightarrow> nat" where
  "surrogate_rune u v = (u - 0xD800) * 1024 + (v - 0xDC00) + 0x10000"

text \<open>The rune of \<open>\uXXXX\<close> and the characters used, a surrogate pair taking a second escape.\<close>

definition unicode_escape :: "string \<Rightarrow> (string \<times> nat) option" where
  "unicode_escape s =
     (case hex4 s of
        None \<Rightarrow> None
      | Some u \<Rightarrow>
          if 0xD800 \<le> u \<and> u < 0xE000 then
            (case (if take 2 (drop 4 s) = CHR 0x5C # ''u'' then hex4 (drop 6 s) else None) of
               Some v \<Rightarrow>
                 if u < 0xDC00 \<and> 0xDC00 \<le> v \<and> v < 0xE000
                 then Some (utf8_encode (surrogate_rune u v), 10)
                 else Some (replacement, 4)
             | None \<Rightarrow> Some (replacement, 4))
          else Some (utf8_encode u, 4))"

definition simple_escape :: "char \<Rightarrow> char option" where
  "simple_escape e =
     (if e = CHR 0x22 \<or> e = CHR 0x5C \<or> e = CHR ''/'' then Some e
      else if e = CHR ''b'' then Some (CHR 0x08)
      else if e = CHR ''f'' then Some (CHR 0x0C)
      else if e = CHR ''n'' then Some (CHR 0x0A)
      else if e = CHR ''r'' then Some (CHR 0x0D)
      else if e = CHR ''t'' then Some (CHR 0x09)
      else None)"

definition prepend :: "string \<Rightarrow> (string \<times> 'r) option \<Rightarrow> (string \<times> 'r) option" where
  "prepend p x = map_option (\<lambda>(s, r). (p @ s, r)) x"

text \<open>The rest of a string literal behind its opening quote, and what follows it.\<close>

function unquote :: "string \<Rightarrow> (string \<times> string) option" where
  "unquote [] = None"
| "unquote (c # cs) =
     (if c = CHR 0x22 then Some ([], cs)
      else if c = CHR 0x5C then
        (case cs of
           [] \<Rightarrow> None
         | e # r \<Rightarrow>
             if e = CHR ''u'' then
               (case unicode_escape r of
                  None \<Rightarrow> None
                | Some (t, n) \<Rightarrow> prepend t (unquote (drop n r)))
             else (case simple_escape e of None \<Rightarrow> None | Some d \<Rightarrow> prepend [d] (unquote r)))
      else if char_nat c < 0x20 then None
      else if char_nat c < 0x80 then prepend [c] (unquote cs)
      else if rune_len (c # cs) = 0 then prepend replacement (unquote cs)
      else let n = rune_len (c # cs) - 1 in prepend (c # take n cs) (unquote (drop n cs)))"
  by pat_completeness auto
termination
  by (relation "measure length") (auto simp: less_Suc_eq_le)

declare unquote.simps(2) [simp del]

text \<open>Numbers: sign, integer part without leading zeros, fraction, exponent.\<close>

definition digits1 :: "string \<Rightarrow> (string \<times> string) option" where
  "digits1 s = (if takeWhile is_digit s = [] then None else Some (takeWhile is_digit s, dropWhile is_digit s))"

definition num_int :: "string \<Rightarrow> (string \<times> string) option" where
  "num_int s = (case s of
      [] \<Rightarrow> None
    | c # cs \<Rightarrow> if c = CHR ''0'' then Some ([c], cs) else digits1 s)"

definition num_frac :: "string \<Rightarrow> (string \<times> string) option" where
  "num_frac s = (case s of
      [] \<Rightarrow> Some ([], [])
    | c # cs \<Rightarrow> if c = CHR ''.'' then prepend ''.'' (digits1 cs) else Some ([], s))"

definition num_exp :: "string \<Rightarrow> (string \<times> string) option" where
  "num_exp s = (case s of
      [] \<Rightarrow> Some ([], [])
    | c # cs \<Rightarrow>
        if c = CHR ''e'' \<or> c = CHR ''E'' then
          (case cs of
             [] \<Rightarrow> None
           | d # ds \<Rightarrow>
               if d = CHR ''+'' \<or> d = CHR ''-'' then prepend [c, d] (digits1 ds) else prepend [c] (digits1 cs))
        else Some ([], s))"

definition parse_num :: "string \<Rightarrow> (string \<times> string) option" where
  "parse_num s =
     (let (sg, body) = (case s of c # cs \<Rightarrow> if c = CHR ''-'' then ([c], cs) else ([], s) | [] \<Rightarrow> ([], s))
      in case num_int body of
           None \<Rightarrow> None
         | Some (i, r1) \<Rightarrow>
             (case num_frac r1 of
                None \<Rightarrow> None
              | Some (f, r2) \<Rightarrow> prepend (sg @ i @ f) (num_exp r2)))"

text \<open>
  Values. The first argument bounds the nesting of calls; the length of the text is always enough
  (\<open>jneed_le_length\<close>).
\<close>

fun pvalue :: "nat \<Rightarrow> string \<Rightarrow> (json \<times> string) option"
  and pelems :: "nat \<Rightarrow> string \<Rightarrow> (json list \<times> string) option"
  and pmembers :: "nat \<Rightarrow> string \<Rightarrow> ((string \<times> json) list \<times> string) option" where
  "pvalue 0 s = None"
| "pvalue (Suc f) s =
     (case skip_ws s of
        [] \<Rightarrow> None
      | c # cs \<Rightarrow>
          if c = CHR 0x22 then map_option (\<lambda>(x, r). (JStr x, r)) (unquote cs)
          else if c = CHR ''{'' then
            (case skip_ws cs of
               [] \<Rightarrow> None
             | d # ds \<Rightarrow>
                 if d = CHR ''}'' then Some (JObj [], ds)
                 else map_option (\<lambda>(x, r). (JObj x, r)) (pmembers f (d # ds)))
          else if c = CHR ''['' then
            (case skip_ws cs of
               [] \<Rightarrow> None
             | d # ds \<Rightarrow>
                 if d = CHR '']'' then Some (JArr [], ds)
                 else map_option (\<lambda>(x, r). (JArr x, r)) (pelems f (d # ds)))
          else if HasPrefix (c # cs) ''null'' then Some (JNull, drop 4 (c # cs))
          else if HasPrefix (c # cs) ''true'' then Some (JBool True, drop 4 (c # cs))
          else if HasPrefix (c # cs) ''false'' then Some (JBool False, drop 5 (c # cs))
          else map_option (\<lambda>(x, r). (JNum x, r)) (parse_num (c # cs)))"
| "pelems 0 s = None"
| "pelems (Suc f) s =
     (case pvalue f s of
        None \<Rightarrow> None
      | Some (v, r) \<Rightarrow>
          (case skip_ws r of
             [] \<Rightarrow> None
           | c # cs \<Rightarrow>
               if c = CHR '','' then map_option (\<lambda>(xs, t). (v # xs, t)) (pelems f cs)
               else if c = CHR '']'' then Some ([v], cs)
               else None))"
| "pmembers 0 s = None"
| "pmembers (Suc f) s =
     (case skip_ws s of
        [] \<Rightarrow> None
      | q # t \<Rightarrow>
          if q \<noteq> CHR 0x22 then None
          else (case unquote t of
                  None \<Rightarrow> None
                | Some (k, r) \<Rightarrow>
                    (case skip_ws r of
                       [] \<Rightarrow> None
                     | c # u \<Rightarrow>
                         if c \<noteq> CHR '':'' then None
                         else (case pvalue f u of
                                 None \<Rightarrow> None
                               | Some (v, w) \<Rightarrow>
                                   (case skip_ws w of
                                      [] \<Rightarrow> None
                                    | d # ds \<Rightarrow>
                                        if d = CHR '','' then map_option (\<lambda>(xs, x). ((k, v) # xs, x)) (pmembers f ds)
                                        else if d = CHR ''}'' then Some ([(k, v)], ds)
                                        else None)))))"

fun json_depth :: "json \<Rightarrow> nat" where
  "json_depth (JArr xs) = Suc (foldr max (map json_depth xs) 0)"
| "json_depth (JObj kvs) = Suc (foldr max (map (json_depth \<circ> snd) kvs) 0)"
| "json_depth _ = 0"

text \<open>
  The value of a whole text (\<open>json.Unmarshal\<close>), and the first value of a text, whatever follows
  (\<open>json.Decoder\<close>); nesting beyond 10000 is an error.
\<close>

definition parse_json :: "string \<Rightarrow> json option" where
  "parse_json s =
     (case pvalue (Suc (length s)) s of
        Some (v, r) \<Rightarrow> if skip_ws r = [] \<and> json_depth v \<le> 10000 then Some v else None
      | None \<Rightarrow> None)"

definition decode_json :: "string \<Rightarrow> json option" where
  "decode_json s =
     (case pvalue (Suc (length s)) s of
        Some (v, r) \<Rightarrow> if json_depth v \<le> 10000 then Some v else None
      | None \<Rightarrow> None)"

section \<open>What is printed is parsed back\<close>

lemma prepend_Some [simp]: "prepend p (Some (s, r)) = Some (p @ s, r)"
  by (simp add: prepend_def)

lemma char_ofI: "char_nat c = n \<Longrightarrow> char_of n = c"
  by (auto simp: char_nat_def)

lemma char_by_nat: "char_nat c = char_nat d \<Longrightarrow> c = d"
  by (simp add: char_nat_inj)

text \<open>One escaped character in front of any text.\<close>

lemma unquote_plain:
  assumes "char_nat c < 0x80" and "\<not> char_nat c < 0x20" and "c \<noteq> CHR 0x22" and "c \<noteq> CHR 0x5C"
  shows "unquote (c # cs) = prepend [c] (unquote cs)"
  using assms by (simp add: unquote.simps)

lemma unquote_simple:
  assumes "simple_escape e = Some d"
  shows "unquote (CHR 0x5C # e # cs) = prepend [d] (unquote cs)"
proof -
  have "e \<noteq> CHR ''u''" using assms by (auto simp: simple_escape_def split: if_splits)
  with assms show ?thesis by (simp add: unquote.simps)
qed

lemma unquote_hex:
  assumes "hex4 (t @ cs) = Some u" and "length t = 4" and "u < 0x80"
  shows "unquote (CHR 0x5C # CHR ''u'' # t @ cs) = prepend [char_of u] (unquote cs)"
  using assms by (simp add: unquote.simps unicode_escape_def utf8_encode_def)

lemma hex4_low:
  assumes "b < 128"
  shows "hex4 (''00'' @ [hex_char (b div 16), hex_char (b mod 16)] @ cs) = Some b"
proof -
  have "hex_val (hex_char d) = Some d" if "d < 16" for d
  proof -
    have "char_nat (hex_char d) = (if d < 10 then 48 + d else 87 + d)"
      using that by (simp add: char_nat_def hex_char_def)
    with that show ?thesis by (auto simp: hex_val_def)
  qed
  moreover have "b div 16 < 16" "b mod 16 < 16" using assms by auto
  moreover have "b div 16 * 16 + b mod 16 = b" by presburger
  moreover have "hex_val (CHR ''0'') = Some 0" by (simp add: hex_val_def char_nat_def)
  ultimately show ?thesis by (simp add: hex4_def)
qed

lemma unquote_esc_ascii:
  assumes "char_nat c < 0x80"
  shows "unquote (esc_ascii c @ cs) = prepend [c] (unquote cs)"
proof -
  let ?b = "char_nat c"
  have c: "c = char_of ?b" by (simp add: char_nat_def)
  consider "?b = 0x22 \<or> ?b = 0x5C" | "?b = 8 \<or> ?b = 9 \<or> ?b = 10 \<or> ?b = 12 \<or> ?b = 13"
    | "\<not> (?b = 0x22 \<or> ?b = 0x5C)" "\<not> (?b = 8 \<or> ?b = 9 \<or> ?b = 10 \<or> ?b = 12 \<or> ?b = 13)"
      "?b < 0x20 \<or> ?b = 0x3C \<or> ?b = 0x3E \<or> ?b = 0x26"
    | "\<not> (?b = 0x22 \<or> ?b = 0x5C)" "\<not> (?b = 8 \<or> ?b = 9 \<or> ?b = 10 \<or> ?b = 12 \<or> ?b = 13)"
      "\<not> (?b < 0x20 \<or> ?b = 0x3C \<or> ?b = 0x3E \<or> ?b = 0x26)" by blast
  then show ?thesis
  proof cases
    case 1
    then have "esc_ascii c = [CHR 0x5C, c]" by (simp add: esc_ascii_def)
    moreover have "c = CHR 0x22 \<or> c = CHR 0x5C"
      using 1 char_by_nat [of c "CHR 0x22"] char_by_nat [of c "CHR 0x5C"] by (auto simp: char_nat_def)
    then have "simple_escape c = Some c" by (auto simp: simple_escape_def)
    ultimately show ?thesis using unquote_simple by simp
  next
    case 2
    have "c = CHR 0x08" if "?b = 8" using that by (intro char_by_nat) (simp add: char_nat_def)
    moreover have "c = CHR 0x09" if "?b = 9" using that by (intro char_by_nat) (simp add: char_nat_def)
    moreover have "c = CHR 0x0A" if "?b = 10" using that by (intro char_by_nat) (simp add: char_nat_def)
    moreover have "c = CHR 0x0C" if "?b = 12" using that by (intro char_by_nat) (simp add: char_nat_def)
    moreover have "c = CHR 0x0D" if "?b = 13" using that by (intro char_by_nat) (simp add: char_nat_def)
    ultimately consider "c = CHR 0x08" | "c = CHR 0x09" | "c = CHR 0x0A" | "c = CHR 0x0C" | "c = CHR 0x0D"
      using 2 by blast
    then show ?thesis
      by cases (simp_all add: esc_ascii_def char_nat_def unquote_simple simple_escape_def)
  next
    case 3
    then have "esc_ascii c = CHR 0x5C # CHR ''u'' # ''00'' @ [hex_char (?b div 16), hex_char (?b mod 16)]"
      by (auto simp: esc_ascii_def Let_def)
    then show ?thesis
      using unquote_hex [of "''00'' @ [hex_char (?b div 16), hex_char (?b mod 16)]" cs ?b]
        hex4_low [of ?b cs] assms c by simp
  next
    case 4
    then have "esc_ascii c = [c]" by (simp add: esc_ascii_def)
    moreover have "c \<noteq> CHR 0x22" "c \<noteq> CHR 0x5C" using 4(1) by (auto simp: char_nat_def)
    ultimately show ?thesis using unquote_plain [OF assms] 4(3) by simp
  qed
qed

lemma unquote_rune:
  assumes "\<not> char_nat c < 0x80" and "0 < rune_len (c # cs)"
  defines "n \<equiv> rune_len (c # cs) - 1"
  shows "unquote (c # take n cs @ t) = prepend (c # take n cs) (unquote t)"
proof -
  have r: "rune_len (c # take n cs @ t) = Suc n"
    using rune_len_cut [OF assms(2), of t] assms(2) by (simp add: n_def)
  have "n \<le> length cs" using rune_len_le [of "c # cs"] by (simp add: n_def)
  moreover have "c \<noteq> CHR 0x22" "c \<noteq> CHR 0x5C" using assms(1) by (auto simp: char_nat_def)
  ultimately show ?thesis using assms(1) r by (simp add: unquote.simps)
qed

lemma unquote_seps:
  "unquote (CHR 0x5C # ''u2028'' @ t) = prepend line_sep (unquote t)"
  "unquote (CHR 0x5C # ''u2029'' @ t) = prepend para_sep (unquote t)"
proof -
  have v: "hex_val (CHR ''0'') = Some 0" "hex_val (CHR ''2'') = Some 2" "hex_val (CHR ''8'') = Some 8"
    "hex_val (CHR ''9'') = Some 9" by (simp_all add: hex_val_def char_nat_def)
  have "char_of (0xE2 :: nat) = CHR 0xE2" "char_of (0x80 :: nat) = CHR 0x80"
    "char_of (0xA8 :: nat) = CHR 0xA8" "char_of (0xA9 :: nat) = CHR 0xA9"
    by (rule char_ofI, simp add: char_nat_def)+
  then have "utf8_encode 0x2028 = line_sep" "utf8_encode 0x2029 = para_sep"
    by (simp_all add: utf8_encode_def line_sep_def para_sep_def)
  then show "unquote (CHR 0x5C # ''u2028'' @ t) = prepend line_sep (unquote t)"
    "unquote (CHR 0x5C # ''u2029'' @ t) = prepend para_sep (unquote t)"
    using v by (simp_all add: unquote.simps unicode_escape_def hex4_def)
qed

lemma para_not_line: "para_sep \<noteq> line_sep"
  by (simp add: para_sep_def line_sep_def)

lemma unquote_quote:
  "utf8_valid s \<Longrightarrow> unquote (quote s @ CHR 0x22 # t) = Some (s, t)"
proof (induction s rule: quote.induct)
  case 1
  then show ?case by (simp add: unquote.simps)
next
  case (2 c cs)
  have v: "0 < rune_len (c # cs)" "utf8_valid (drop (rune_len (c # cs) - 1) cs)" using "2.prems" by simp_all
  show ?case
  proof (cases "char_nat c < 0x80")
    case True
    with "2.IH"(1) v show ?thesis by (simp add: quote.simps unquote_esc_ascii)
  next
    case False
    let ?n = "rune_len (c # cs) - 1"
    have IH: "unquote (quote (drop ?n cs) @ CHR 0x22 # t) = Some (drop ?n cs, t)"
      using "2.IH"(3) [OF False _ refl refl] v by simp
    consider "c # take ?n cs = line_sep" | "c # take ?n cs = para_sep"
      | "c # take ?n cs \<noteq> line_sep" "c # take ?n cs \<noteq> para_sep" by blast
    then show ?thesis
    proof cases
      case 1
      then have "line_sep @ drop ?n cs = c # cs" by (metis append_Cons append_take_drop_id)
      moreover have "quote (c # cs) = CHR 0x5C # ''u2028'' @ quote (drop ?n cs)"
        using 1 False v(1) by (simp add: quote.simps Let_def)
      ultimately show ?thesis using IH unquote_seps(1) by simp
    next
      case 2
      then have "para_sep @ drop ?n cs = c # cs" by (metis append_Cons append_take_drop_id)
      moreover have "quote (c # cs) = CHR 0x5C # ''u2029'' @ quote (drop ?n cs)"
        using 2 False v(1) para_not_line by (simp add: quote.simps Let_def)
      ultimately show ?thesis using IH unquote_seps(2) by simp
    next
      case 3
      then have "quote (c # cs) = c # take ?n cs @ quote (drop ?n cs)"
        using False v(1) by (simp add: quote.simps Let_def)
      then show ?thesis using IH unquote_rune [OF False v(1)] by simp
    qed
  qed
qed

text \<open>Values the program prints: well-formed strings, and numbers that are integers.\<close>

fun wf_json :: "json \<Rightarrow> bool" where
  "wf_json JNull = True"
| "wf_json (JBool b) = True"
| "wf_json (JNum s) = (\<exists>i. s = Itoa i)"
| "wf_json (JStr s) = utf8_valid s"
| "wf_json (JArr xs) = list_all wf_json xs"
| "wf_json (JObj kvs) = list_all (\<lambda>(k, v). utf8_valid k \<and> wf_json v) kvs"

text \<open>The calls that reading a printed value back takes, bounded by the length of the text.\<close>

fun jneed :: "json \<Rightarrow> nat" where
  "jneed (JArr xs) = Suc (sum_list (map (\<lambda>x. Suc (jneed x)) xs))"
| "jneed (JObj kvs) = Suc (sum_list (map (\<lambda>(k, v). Suc (jneed v)) kvs))"
| "jneed _ = 1"

abbreviation elems_need :: "json list \<Rightarrow> nat" where
  "elems_need xs \<equiv> sum_list (map (\<lambda>x. Suc (jneed x)) xs)"

abbreviation members_need :: "(string \<times> json) list \<Rightarrow> nat" where
  "members_need kvs \<equiv> sum_list (map (\<lambda>(k, v). Suc (jneed v)) kvs)"

lemma Itoa_neq_Nil [simp]: "Itoa i \<noteq> []"
  by (simp add: Itoa_def)

lemma jneed_le_length:
  "wf_json v \<Longrightarrow> jneed v \<le> length (jprint v)"
  "list_all wf_json xs \<Longrightarrow> elems_need xs < length (jelems xs)"
  "list_all (\<lambda>(k, v). utf8_valid k \<and> wf_json v) kvs \<Longrightarrow> members_need kvs < length (jmembers kvs)"
proof (induction v and xs and kvs rule: jprint_jelems_jmembers.induct)
  case (3 s)
  then obtain i where "s = Itoa i" by auto
  then show ?case using Itoa_neq_Nil [of i] by (simp add: Suc_le_eq)
qed (auto simp: jstring_def)

definition num_end :: "string \<Rightarrow> bool" where
  "num_end r \<longleftrightarrow> r = [] \<or> \<not> (is_digit (hd r) \<or> hd r = CHR ''.'' \<or> hd r = CHR ''e'' \<or> hd r = CHR ''E'')"

lemma digits1_run:
  assumes "\<forall>c \<in> set ds. is_digit c" and "ds \<noteq> []" and "r = [] \<or> \<not> is_digit (hd r)"
  shows "digits1 (ds @ r) = Some (ds, r)"
proof -
  have "takeWhile is_digit (ds @ r) = ds" "dropWhile is_digit (ds @ r) = r"
    using assms(1,3) by (cases r; auto simp: takeWhile_append dropWhile_append)+
  with assms(2) show ?thesis by (simp add: digits1_def)
qed

lemma num_int_digits:
  assumes "r = [] \<or> \<not> is_digit (hd r)"
  shows "num_int (nat_digits n @ r) = Some (nat_digits n, r)"
proof (cases "n = 0")
  case True
  then show ?thesis by (simp add: nat_digits.simps [of 0] num_int_def digit_char_def char_ofI char_nat_def)
next
  case False
  obtain c cs where n: "nat_digits n = c # cs" by (cases "nat_digits n") auto
  with False nat_digits_zero [of n] have "c \<noteq> CHR ''0''" by simp
  moreover have "digits1 (nat_digits n @ r) = Some (nat_digits n, r)"
    by (rule digits1_run) (use assms nat_digits_all in auto)
  ultimately show ?thesis using n by (simp add: num_int_def)
qed

lemma parse_num_Itoa:
  assumes "num_end r" shows "parse_num (Itoa i @ r) = Some (Itoa i, r)"
proof -
  have e: "num_frac r = Some ([], r)" "num_exp r = Some ([], r)"
    using assms by (auto simp: num_end_def num_frac_def num_exp_def split: list.splits)
  have d: "r = [] \<or> \<not> is_digit (hd r)" using assms by (auto simp: num_end_def)
  show ?thesis
  proof (cases "i < 0")
    case True
    then show ?thesis using e num_int_digits [OF d] by (simp add: parse_num_def Itoa_def)
  next
    case False
    obtain c cs where n: "nat_digits (nat i) = c # cs" by (cases "nat_digits (nat i)") auto
    then have "c \<noteq> CHR ''-''" using nat_digits_no_sign by blast
    with False n e num_int_digits [OF d, of "nat i"] show ?thesis by (simp add: parse_num_def Itoa_def)
  qed
qed

lemma skip_ws_Cons: "\<not> is_ws c \<Longrightarrow> skip_ws (c # cs) = c # cs"
  by (simp add: skip_ws_def)

lemma ws_consts [simp]:
  "\<not> is_ws (CHR 0x22)" "\<not> is_ws (CHR ''{'')" "\<not> is_ws (CHR ''['')" "\<not> is_ws (CHR ''}'')" "\<not> is_ws (CHR '']'')"
  "\<not> is_ws (CHR '','')" "\<not> is_ws (CHR '':'')" "\<not> is_ws (CHR ''n'')" "\<not> is_ws (CHR ''t'')" "\<not> is_ws (CHR ''f'')"
  by (simp_all add: is_ws_def char_nat_def)

lemma Itoa_head:
  obtains c cs where "Itoa i = c # cs" and "c = CHR ''-'' \<or> is_digit c"
proof -
  obtain c cs where n: "nat_digits (nat i) = c # cs" by (cases "nat_digits (nat i)") auto
  then have "is_digit c" using nat_digits_all [of c "nat i"] by simp
  with n that show thesis by (cases "i < 0") (auto simp: Itoa_def)
qed

lemma num_head:
  assumes "c = CHR ''-'' \<or> is_digit c"
  shows "\<not> is_ws c" "c \<noteq> CHR 0x22" "c \<noteq> CHR ''{''" "c \<noteq> CHR ''[''" "c \<noteq> CHR ''n''" "c \<noteq> CHR ''t''"
    "c \<noteq> CHR ''f''" "c \<noteq> CHR '']''" "c \<noteq> CHR ''}''"
  using assms by (auto simp: is_ws_def is_digit_def char_nat_def)

lemma jprint_head:
  assumes "wf_json v" obtains c cs where "jprint v = c # cs" and "\<not> is_ws c" and "c \<noteq> CHR '']''" and "c \<noteq> CHR ''}''"
proof (cases v)
  case (JNum s)
  with assms obtain i where s: "s = Itoa i" by auto
  obtain c cs where "Itoa i = c # cs" "c = CHR ''-'' \<or> is_digit c" by (rule Itoa_head)
  with JNum s num_head that show thesis by auto
next
  case (JBool b)
  then show thesis using that by (cases b) auto
next
  case (JArr xs)
  then show thesis using that by (cases xs) auto
next
  case (JObj kvs)
  then show thesis using that by (cases kvs) auto
qed (use that in \<open>auto simp: jstring_def\<close>)

lemma pvalue_string: "utf8_valid s \<Longrightarrow> pvalue (Suc f) (jstring s @ r) = Some (JStr s, r)"
  by (simp add: jstring_def skip_ws_Cons unquote_quote)

lemma pvalue_num:
  assumes "num_end r" shows "pvalue (Suc f) (Itoa i @ r) = Some (JNum (Itoa i), r)"
proof -
  obtain c cs where i: "Itoa i = c # cs" and c: "c = CHR ''-'' \<or> is_digit c" by (rule Itoa_head)
  note h = num_head [OF c]
  have "\<not> HasPrefix (c # cs @ r) ''null''" "\<not> HasPrefix (c # cs @ r) ''true''" "\<not> HasPrefix (c # cs @ r) ''false''"
    using h by (auto simp: HasPrefix_def)
  moreover have "parse_num (c # cs @ r) = Some (c # cs, r)" using parse_num_Itoa [OF assms, of i] i by simp
  ultimately show ?thesis using h i by (simp add: skip_ws_Cons)
qed

lemma pvalue_const:
  "pvalue (Suc f) (''null'' @ r) = Some (JNull, r)"
  "pvalue (Suc f) (''true'' @ r) = Some (JBool True, r)"
  "pvalue (Suc f) (''false'' @ r) = Some (JBool False, r)"
  by (simp_all add: skip_ws_Cons HasPrefix_def)

lemma num_end_delim [simp]: "num_end (CHR '','' # r)" "num_end (CHR '']'' # r)" "num_end (CHR ''}'' # r)"
  by (simp_all add: num_end_def is_digit_def char_nat_def)

lemma jelems_num_end: "num_end (jelems xs @ r)" "num_end (jmembers kvs @ r)"
  by (cases xs; simp) (cases kvs; auto)

abbreviation wf_members :: "(string \<times> json) list \<Rightarrow> bool" where
  "wf_members kvs \<equiv> list_all (\<lambda>(k, v). utf8_valid k \<and> wf_json v) kvs"

lemma pvalue_array:
  assumes "wf_json x" and "pelems f (jprint x @ jelems xs @ r) = Some (x # xs, r)"
  shows "pvalue (Suc f) (jprint (JArr (x # xs)) @ r) = Some (JArr (x # xs), r)"
proof -
  obtain c cs where c: "jprint x = c # cs" "\<not> is_ws c" "c \<noteq> CHR '']''" using jprint_head [OF assms(1)] .
  with assms(2) show ?thesis by (simp add: skip_ws_Cons)
qed

lemma pvalue_object:
  assumes "pmembers f (jstring k @ CHR '':'' # jprint y @ jmembers kvs @ r) = Some ((k, y) # kvs, r)"
  shows "pvalue (Suc f) (jprint (JObj ((k, y) # kvs)) @ r) = Some (JObj ((k, y) # kvs), r)"
  using assms by (simp add: skip_ws_Cons jstring_def)

lemma pelems_step:
  assumes "\<And>r. num_end r \<Longrightarrow> pvalue f (jprint x @ r) = Some (x, r)"
    and "\<And>y ys. xs = y # ys \<Longrightarrow> pelems f (jprint y @ jelems ys @ r) = Some (y # ys, r)"
  shows "pelems (Suc f) (jprint x @ jelems xs @ r) = Some (x # xs, r)"
proof (cases xs)
  case Nil
  with assms(1) [of "CHR '']'' # r"] show ?thesis by (simp add: skip_ws_Cons)
next
  case (Cons y ys)
  with assms(1) [of "jelems xs @ r"] assms(2) jelems_num_end(1) show ?thesis by (simp add: skip_ws_Cons)
qed

lemma pmembers_step:
  assumes "utf8_valid k" and "\<And>r. num_end r \<Longrightarrow> pvalue f (jprint y @ r) = Some (y, r)"
    and "\<And>k' v' kvs'. kvs = (k', v') # kvs' \<Longrightarrow>
      pmembers f (jstring k' @ CHR '':'' # jprint v' @ jmembers kvs' @ r) = Some ((k', v') # kvs', r)"
  shows "pmembers (Suc f) (jstring k @ CHR '':'' # jprint y @ jmembers kvs @ r) = Some ((k, y) # kvs, r)"
proof -
  have k: "unquote (quote k @ CHR 0x22 # CHR '':'' # jprint y @ jmembers kvs @ r)
      = Some (k, CHR '':'' # jprint y @ jmembers kvs @ r)"
    using unquote_quote [OF assms(1)] .
  show ?thesis
  proof (cases kvs)
    case Nil
    with k assms(2) [of "CHR ''}'' # r"] show ?thesis by (simp add: skip_ws_Cons jstring_def)
  next
    case (Cons kv kvs')
    obtain k' v' where "kv = (k', v')" by (cases kv)
    with Cons k assms(2) [of "jmembers kvs @ r"] assms(3) [of k' v' kvs'] jelems_num_end(2) [of kvs r]
    show ?thesis by (simp add: skip_ws_Cons jstring_def)
  qed
qed

lemma parse_print_gen:
  "(\<forall>v r. wf_json v \<longrightarrow> jneed v \<le> f \<longrightarrow> num_end r \<longrightarrow> pvalue f (jprint v @ r) = Some (v, r))
   \<and> (\<forall>x xs r. list_all wf_json xs \<longrightarrow> wf_json x \<longrightarrow> Suc (jneed x) + elems_need xs \<le> f \<longrightarrow>
       pelems f (jprint x @ jelems xs @ r) = Some (x # xs, r))
   \<and> (\<forall>k y kvs r. wf_members kvs \<longrightarrow> utf8_valid k \<longrightarrow> wf_json y \<longrightarrow>
       Suc (jneed y) + members_need kvs \<le> f \<longrightarrow>
       pmembers f (jstring k @ CHR '':'' # jprint y @ jmembers kvs @ r) = Some ((k, y) # kvs, r))"
proof (induction f)
  case 0
  have "\<not> jneed v \<le> 0" for v by (cases v) auto
  then show ?case by (intro conjI allI impI) (blast, simp_all)
next
  case (Suc f)
  then have V: "\<And>v r. wf_json v \<Longrightarrow> jneed v \<le> f \<Longrightarrow> num_end r \<Longrightarrow> pvalue f (jprint v @ r) = Some (v, r)"
    and E: "\<And>x xs r. list_all wf_json xs \<Longrightarrow> wf_json x \<Longrightarrow> Suc (jneed x) + elems_need xs \<le> f \<Longrightarrow>
      pelems f (jprint x @ jelems xs @ r) = Some (x # xs, r)"
    and M: "\<And>k y kvs r. wf_members kvs \<Longrightarrow> utf8_valid k \<Longrightarrow> wf_json y \<Longrightarrow> Suc (jneed y) + members_need kvs \<le> f \<Longrightarrow>
      pmembers f (jstring k @ CHR '':'' # jprint y @ jmembers kvs @ r) = Some ((k, y) # kvs, r)" by blast+
  have "pvalue (Suc f) (jprint v @ r) = Some (v, r)" if "wf_json v" "jneed v \<le> Suc f" "num_end r" for v r
  proof (cases v)
    case (JBool b)
    then show ?thesis using pvalue_const [of f r] by (cases b) simp_all
  next
    case (JNum s)
    with that obtain i where "s = Itoa i" by auto
    with JNum that(3) show ?thesis using pvalue_num by simp
  next
    case (JArr xs)
    show ?thesis
    proof (cases xs)
      case Nil
      with JArr show ?thesis by (simp add: skip_ws_Cons)
    next
      case (Cons y ys)
      with that JArr have "pelems f (jprint y @ jelems ys @ r) = Some (y # ys, r)" by (intro E) auto
      with Cons JArr that(1) show ?thesis using pvalue_array by simp
    qed
  next
    case (JObj kvs)
    show ?thesis
    proof (cases kvs)
      case Nil
      with JObj show ?thesis by (simp add: skip_ws_Cons)
    next
      case (Cons kv kvs')
      obtain k y where "kv = (k, y)" by (cases kv)
      with that JObj Cons show ?thesis
        using pvalue_object [OF M, of kvs' k y r] by auto
    qed
  qed (use pvalue_const(1) that pvalue_string in simp_all)
  moreover have "pelems (Suc f) (jprint x @ jelems xs @ r) = Some (x # xs, r)"
    if "list_all wf_json xs" "wf_json x" "Suc (jneed x) + elems_need xs \<le> Suc f" for x xs r
    by (rule pelems_step) (use that V E in auto)
  moreover have "pmembers (Suc f) (jstring k @ CHR '':'' # jprint y @ jmembers kvs @ r) = Some ((k, y) # kvs, r)"
    if "wf_members kvs" "utf8_valid k" "wf_json y" "Suc (jneed y) + members_need kvs \<le> Suc f" for k y kvs r
    by (rule pmembers_step) (use that V M in auto)
  ultimately show ?case by blast
qed

lemma parse_print:
  assumes "wf_json v" and "json_depth v \<le> 10000"
  shows "parse_json (jprint v) = Some v"
proof -
  have "jneed v \<le> Suc (length (jprint v))" using jneed_le_length(1) [OF assms(1)] by simp
  with parse_print_gen [of "Suc (length (jprint v))"] assms(1)
  have "pvalue (Suc (length (jprint v))) (jprint v @ []) = Some (v, [])"
    by (auto simp: num_end_def)
  with assms(2) show ?thesis by (simp add: parse_json_def skip_ws_def)
qed

interpretation jc: codec jprint parse_json "\<lambda>v. wf_json v \<and> json_depth v \<le> 10000"
  by unfold_locales (simp add: parse_print)

section \<open>Parsed strings are well formed\<close>

lemma utf8_valid_append: "utf8_valid s \<Longrightarrow> utf8_valid t \<Longrightarrow> utf8_valid (s @ t)"
proof (induction s rule: utf8_valid.induct)
  case (2 c cs)
  then have "0 < rune_len (c # cs)" by simp
  moreover have "rune_len (c # cs) - 1 \<le> length cs" using rune_len_le [of "c # cs"] by simp
  ultimately show ?case using 2 by (simp add: rune_len_append)
qed simp

lemma utf8_valid_rune:
  assumes "0 < rune_len (c # cs)" shows "utf8_valid (c # take (rune_len (c # cs) - 1) cs)"
  using rune_len_cut [OF assms, of "[]"] rune_len_le [of "c # cs"] assms by simp

lemma char_nat_of [simp]: "char_nat (char_of n) = n mod 256"
  by (simp add: char_nat_def)

lemma utf8_valid_chars:
  assumes "rune_need b = Suc (length ns)" and "b < 256" and "conts_ok b (map char_of ns)"
  shows "utf8_valid (char_of b # map char_of ns)"
  using assms by (simp add: rune_len_def)

lemma utf8_encode_valid:
  assumes "u < 0x110000" and "\<not> (0xD800 \<le> u \<and> u < 0xE000)"
  shows "utf8_valid (utf8_encode u)"
proof -
  consider "u < 0x80" | "0x80 \<le> u" "u < 0x800" | "0x800 \<le> u" "u < 0x10000" | "0x10000 \<le> u" by linarith
  then show ?thesis
  proof cases
    case 1
    then show ?thesis by (simp add: utf8_encode_def)
  next
    case 2
    let ?b = "0xC0 + u div 64"
    have "2 \<le> u div 64" "u div 64 < 32" using 2 by (auto simp: less_mult_imp_div_less)
    then have "rune_need ?b = Suc (length [0x80 + u mod 64])" "?b < 256"
      "conts_ok ?b (map char_of [0x80 + u mod 64])"
      by (auto simp: rune_need_def conts_ok_def second_ok_def cont_in_def)
    from utf8_valid_chars [OF this] 2 show ?thesis by (simp add: utf8_encode_def del: utf8_valid.simps)
  next
    case 3
    let ?b = "0xE0 + u div 4096" and ?ns = "[0x80 + u div 64 mod 64, 0x80 + u mod 64]"
    have d: "u div 4096 < 16" using 3 by (simp add: less_mult_imp_div_less)
    define w where "w = u div 64"
    have w: "w = 64 * (u div 4096) + w mod 64"
      unfolding w_def by (simp add: div_mult2_eq [of u 64 64, simplified])
    have lo: "32 \<le> w" and mid: "w < 864 \<or> 896 \<le> w"
      using div_le_mono [OF 3(1), of 64] div_le_mono [of "0xE000" u 64] less_mult_imp_div_less [of u 864 64] assms(2)
      by (auto simp: w_def)
    have "0x20 \<le> w mod 64" if "u div 4096 = 0" using that w lo by simp
    moreover have "w mod 64 < 0x20" if "u div 4096 = 13" using that w mid by linarith
    ultimately have "second_ok ?b (char_of (0x80 + u div 64 mod 64))"
      using d by (auto simp: second_ok_def cont_in_def w_def [symmetric])
    with d have "rune_need ?b = Suc (length ?ns)" "?b < 256" "conts_ok ?b (map char_of ?ns)"
      by (auto simp: rune_need_def conts_ok_def cont_in_def)
    from utf8_valid_chars [OF this] 3 show ?thesis by (simp add: utf8_encode_def del: utf8_valid.simps)
  next
    case 4
    let ?b = "0xF0 + u div 262144"
      and ?ns = "[0x80 + u div 4096 mod 64, 0x80 + u div 64 mod 64, 0x80 + u mod 64]"
    have d: "u div 262144 < 5" using assms(1) by (simp add: less_mult_imp_div_less)
    define w where "w = u div 4096"
    have w: "w = 64 * (u div 262144) + w mod 64"
      unfolding w_def by (simp add: div_mult2_eq [of u 4096 64, simplified])
    have "16 \<le> w" and "w < 272"
      using div_le_mono [OF 4, of 4096] less_mult_imp_div_less [of u 272 4096] assms(1) by (auto simp: w_def)
    with w have "0x10 \<le> w mod 64" if "u div 262144 = 0" using that by simp
    moreover have "w mod 64 < 0x10" if "u div 262144 = 4" using that w \<open>w < 272\<close> by linarith
    ultimately have "second_ok ?b (char_of (0x80 + u div 4096 mod 64))"
      by (auto simp: second_ok_def cont_in_def w_def [symmetric])
    with d have "rune_need ?b = Suc (length ?ns)" "?b < 256" "conts_ok ?b (map char_of ?ns)"
      by (auto simp: rune_need_def conts_ok_def cont_in_def)
    from utf8_valid_chars [OF this] 4 show ?thesis by (simp add: utf8_encode_def del: utf8_valid.simps)
  qed
qed

lemma replacement_valid: "utf8_valid replacement"
proof -
  have "char_of (0xEF :: nat) = CHR 0xEF" "char_of (0xBF :: nat) = CHR 0xBF" "char_of (0xBD :: nat) = CHR 0xBD"
    by (rule char_ofI, simp add: char_nat_def)+
  then have "replacement = utf8_encode 0xFFFD" by (simp add: replacement_def utf8_encode_def)
  moreover have "utf8_valid (utf8_encode 0xFFFD)" by (rule utf8_encode_valid) simp_all
  ultimately show ?thesis by (simp only:)
qed

lemma hex4_bound: "hex4 s = Some u \<Longrightarrow> u < 0x10000"
proof -
  have "d < 16" if "hex_val c = Some d" for c d
    using that by (auto simp: hex_val_def Let_def split: if_splits)
  moreover assume "hex4 s = Some u"
  then obtain a b c d w x y z where "hex_val a = Some w" "hex_val b = Some x" "hex_val c = Some y"
    "hex_val d = Some z" "u = w * 4096 + x * 256 + y * 16 + z"
    by (auto simp: hex4_def split: list.splits option.splits)
  ultimately have "w < 16" "x < 16" "y < 16" "z < 16" "u = w * 4096 + x * 256 + y * 16 + z" by blast+
  then show "u < 0x10000" by linarith
qed

lemma unicode_escape_valid:
  assumes "unicode_escape s = Some (t, n)" shows "utf8_valid t"
proof -
  obtain u where u: "hex4 s = Some u" using assms by (auto simp: unicode_escape_def split: option.splits)
  have "utf8_valid (utf8_encode (surrogate_rune u v))" if "u < 0xDC00" "v < 0xE000" for v
    using that unfolding surrogate_rune_def by (intro utf8_encode_valid) linarith+
  moreover have "utf8_valid (utf8_encode u)" if "\<not> (0xD800 \<le> u \<and> u < 0xE000)"
    using that hex4_bound [OF u] by (intro utf8_encode_valid) simp_all
  ultimately show ?thesis
    using assms u replacement_valid by (auto simp: unicode_escape_def split: option.splits if_splits)
qed

lemma simple_escape_valid: "simple_escape e = Some d \<Longrightarrow> utf8_valid [d]"
  by (auto simp: simple_escape_def char_nat_def intro!: utf8_valid_ascii split: if_splits)

lemma prepend_valid:
  "prepend p x = Some (s, r) \<Longrightarrow> utf8_valid p \<Longrightarrow> (\<And>s' r'. x = Some (s', r') \<Longrightarrow> utf8_valid s') \<Longrightarrow> utf8_valid s"
  by (cases x) (auto simp: prepend_def utf8_valid_append)

lemma unquote_valid: "unquote s = Some (x, r) \<Longrightarrow> utf8_valid x"
proof (induction s arbitrary: x r rule: unquote.induct)
  case (2 c cs)
  let ?n = "rune_len (c # cs) - 1"
  consider "c = CHR 0x22" | "c = CHR 0x5C" | "c \<noteq> CHR 0x22" "c \<noteq> CHR 0x5C" "\<not> char_nat c < 0x20" "char_nat c < 0x80"
    | "c \<noteq> CHR 0x22" "c \<noteq> CHR 0x5C" "\<not> char_nat c < 0x80" "rune_len (c # cs) = 0"
    | "c \<noteq> CHR 0x22" "c \<noteq> CHR 0x5C" "\<not> char_nat c < 0x80" "0 < rune_len (c # cs)"
    using "2.prems" by (force simp: unquote.simps split: if_splits)
  then show ?case
  proof cases
    case 1
    with "2.prems" show ?thesis by (simp add: unquote.simps)
  next
    case 2
    then obtain e t where cs: "cs = e # t" using "2.prems" by (cases cs) (auto simp: unquote.simps)
    show ?thesis
    proof (cases "e = CHR ''u''")
      case True
      then obtain p n where p: "unicode_escape t = Some (p, n)" "prepend p (unquote (drop n t)) = Some (x, r)"
        using "2.prems" 2 cs by (auto simp: unquote.simps split: option.splits)
      show ?thesis
        by (rule prepend_valid [OF p(2) unicode_escape_valid [OF p(1)]])
          (use "2.IH"(1) [OF _ _ cs True p(1) refl] 2 in auto)
    next
      case False
      then obtain d where d: "simple_escape e = Some d" "prepend [d] (unquote t) = Some (x, r)"
        using "2.prems" 2 cs by (auto simp: unquote.simps split: option.splits)
      show ?thesis
        by (rule prepend_valid [OF d(2) simple_escape_valid [OF d(1)]])
          (use "2.IH"(2) [OF _ _ cs False d(1)] 2 in auto)
    qed
  next
    case 3
    then have "prepend [c] (unquote cs) = Some (x, r)" using "2.prems" by (simp add: unquote.simps)
    then show ?thesis by (rule prepend_valid) (use 3 "2.IH"(3) in \<open>auto simp: utf8_valid_ascii\<close>)
  next
    case 4
    then have "prepend replacement (unquote cs) = Some (x, r)" using "2.prems" by (auto simp: unquote.simps)
    then show ?thesis by (rule prepend_valid [OF _ replacement_valid]) (use 4 "2.IH"(4) in auto)
  next
    case 5
    then have "prepend (c # take ?n cs) (unquote (drop ?n cs)) = Some (x, r)"
      using "2.prems" by (auto simp: unquote.simps Let_def)
    then show ?thesis by (rule prepend_valid [OF _ utf8_valid_rune [OF 5(4)]]) (use 5 "2.IH"(5) in auto)
  qed
qed simp

text \<open>All strings of a value, names included, are well formed.\<close>

fun json_utf8 :: "json \<Rightarrow> bool" where
  "json_utf8 (JStr s) = utf8_valid s"
| "json_utf8 (JArr xs) = list_all json_utf8 xs"
| "json_utf8 (JObj kvs) = list_all (\<lambda>(k, v). utf8_valid k \<and> json_utf8 v) kvs"
| "json_utf8 _ = True"

lemma pvalue_valid:
  "(\<forall>s v r. pvalue f s = Some (v, r) \<longrightarrow> json_utf8 v)
   \<and> (\<forall>s xs r. pelems f s = Some (xs, r) \<longrightarrow> list_all json_utf8 xs)
   \<and> (\<forall>s kvs r. pmembers f s = Some (kvs, r) \<longrightarrow> list_all (\<lambda>(k, v). utf8_valid k \<and> json_utf8 v) kvs)"
proof (induction f)
  case 0
  then show ?case by simp
next
  case (Suc f)
  then have V: "\<And>s v r. pvalue f s = Some (v, r) \<Longrightarrow> json_utf8 v"
    and E: "\<And>s xs r. pelems f s = Some (xs, r) \<Longrightarrow> list_all json_utf8 xs"
    and M: "\<And>s kvs r. pmembers f s = Some (kvs, r) \<Longrightarrow> list_all (\<lambda>(k, v). utf8_valid k \<and> json_utf8 v) kvs"
    by blast+
  have "json_utf8 v" if "pvalue (Suc f) s = Some (v, r)" for s v r
    using that by (auto split: list.splits if_splits intro: unquote_valid E M)
  moreover have "list_all json_utf8 xs" if "pelems (Suc f) s = Some (xs, r)" for s xs r
  proof -
    from that obtain a b where a: "pvalue f s = Some (a, b)" by (auto split: option.splits)
    with that obtain c cs where c: "skip_ws b = c # cs" by (auto split: list.splits)
    have "xs = [a] \<or> (\<exists>ys. pelems f cs = Some (ys, r) \<and> xs = a # ys)"
      using that a c by (auto split: if_splits)
    with V [OF a] E show ?thesis by fastforce
  qed
  moreover have "list_all (\<lambda>(k, v). utf8_valid k \<and> json_utf8 v) kvs" if "pmembers (Suc f) s = Some (kvs, r)" for s kvs r
  proof -
    from that obtain q t where q: "skip_ws s = q # t" by (auto split: list.splits)
    with that obtain k b where k: "unquote t = Some (k, b)" by (auto split: option.splits if_splits)
    with that q obtain c u where c: "skip_ws b = c # u" by (auto split: list.splits if_splits)
    with that q k obtain a w where a: "pvalue f u = Some (a, w)" by (auto split: option.splits if_splits)
    with that q k c obtain d ds where d: "skip_ws w = d # ds" by (auto split: list.splits if_splits)
    have "kvs = [(k, a)] \<or> (\<exists>ys. pmembers f ds = Some (ys, r) \<and> kvs = (k, a) # ys)"
      using that q k c a d by (auto split: if_splits)
    with V [OF a] unquote_valid [OF k] M show ?thesis by fastforce
  qed
  ultimately show ?case by blast
qed

lemma parse_json_valid: "parse_json s = Some v \<Longrightarrow> json_utf8 v"
  using pvalue_valid [THEN conjunct1, rule_format, of "Suc (length s)" s v]
  by (auto simp: parse_json_def simp del: pvalue.simps split: option.splits if_splits)

lemma decode_json_valid: "decode_json s = Some v \<Longrightarrow> json_utf8 v"
  using pvalue_valid [THEN conjunct1, rule_format, of "Suc (length s)" s v]
  by (auto simp: decode_json_def simp del: pvalue.simps split: option.splits if_splits)

end
