(* ===== verification/GoStruct.thy ===== *)
theory GoStruct
  imports Json
begin

text \<open>
  How \<open>encoding/json\<close> stores a value into Go data: the fields of a struct are found by their name,
  exactly or else under case folding; \<open>null\<close> leaves a string, a number or a boolean alone; a name that
  no field has is skipped. A value of the wrong type makes the whole call fail, and the callers of
  this program look at nothing else then.
\<close>

section \<open>Fields\<close>

text \<open>
  The folding of names: ASCII letters to lower case, and the two letters outside ASCII that fold to
  one, U+017F to \<open>s\<close> and U+212A to \<open>k\<close>.
\<close>

definition lower_char :: "char \<Rightarrow> char" where
  "lower_char c = (if 65 \<le> char_nat c \<and> char_nat c \<le> 90 then char_of (char_nat c + 32) else c)"

function fold_name :: "string \<Rightarrow> string" where
  "fold_name [] = []"
| "fold_name (c # cs) =
     (if HasPrefix (c # cs) [CHR 0xC5, CHR 0xBF] then CHR ''s'' # fold_name (drop 1 cs)
      else if HasPrefix (c # cs) [CHR 0xE2, CHR 0x84, CHR 0xAA] then CHR ''k'' # fold_name (drop 2 cs)
      else lower_char c # fold_name cs)"
  by pat_completeness auto
termination
  by (relation "measure length") auto

text \<open>A field: its name and how a value is stored (\<open>None\<close>: the value has the wrong type).\<close>

type_synonym 's field = "string \<times> (json \<Rightarrow> 's \<Rightarrow> 's option)"

definition find_field :: "'s field list \<Rightarrow> string \<Rightarrow> 's field option" where
  "find_field fs k =
     (case List.find (\<lambda>f. fst f = k) fs of
        Some f \<Rightarrow> Some f
      | None \<Rightarrow> List.find (\<lambda>f. fold_name (fst f) = fold_name k) fs)"

fun store_fields :: "'s field list \<Rightarrow> (string \<times> json) list \<Rightarrow> 's \<Rightarrow> 's option" where
  "store_fields fs [] s = Some s"
| "store_fields fs ((k, v) # kvs) s =
     (case find_field fs k of
        None \<Rightarrow> store_fields fs kvs s
      | Some (_, put) \<Rightarrow> (case put v s of None \<Rightarrow> None | Some s' \<Rightarrow> store_fields fs kvs s'))"

definition decode_struct :: "'s field list \<Rightarrow> json \<Rightarrow> 's \<Rightarrow> 's option" where
  "decode_struct fs j s =
     (case j of JNull \<Rightarrow> Some s | JObj kvs \<Rightarrow> store_fields fs kvs s | _ \<Rightarrow> None)"

definition str_field :: "((string \<Rightarrow> string) \<Rightarrow> 's \<Rightarrow> 's) \<Rightarrow> json \<Rightarrow> 's \<Rightarrow> 's option" where
  "str_field upd j s =
     (case j of JNull \<Rightarrow> Some s | JStr x \<Rightarrow> Some (upd (\<lambda>_. x) s) | _ \<Rightarrow> None)"

definition bool_field :: "((bool \<Rightarrow> bool) \<Rightarrow> 's \<Rightarrow> 's) \<Rightarrow> json \<Rightarrow> 's \<Rightarrow> 's option" where
  "bool_field upd j s =
     (case j of JNull \<Rightarrow> Some s | JBool x \<Rightarrow> Some (upd (\<lambda>_. x) s) | _ \<Rightarrow> None)"

text \<open>A number goes into an \<open>int\<close> when its text is an integer of 64 bits.\<close>

definition int_field :: "((int \<Rightarrow> int) \<Rightarrow> 's \<Rightarrow> 's) \<Rightarrow> json \<Rightarrow> 's \<Rightarrow> 's option" where
  "int_field upd j s =
     (case j of
        JNull \<Rightarrow> Some s
      | JNum x \<Rightarrow> (case ParseInt x of (i, None) \<Rightarrow> Some (upd (\<lambda>_. i) s) | _ \<Rightarrow> None)
      | _ \<Rightarrow> None)"

text \<open>A pointer to a struct: \<open>null\<close> clears it, an object is stored into the struct it points to.\<close>

definition ptr_field ::
  "'t \<Rightarrow> 't field list \<Rightarrow> ('s \<Rightarrow> 't option) \<Rightarrow> (('t option \<Rightarrow> 't option) \<Rightarrow> 's \<Rightarrow> 's) \<Rightarrow> json \<Rightarrow> 's \<Rightarrow> 's option" where
  "ptr_field zero fs get upd j s =
     (case j of
        JNull \<Rightarrow> Some (upd (\<lambda>_. None) s)
      | _ \<Rightarrow>
          (case decode_struct fs j (case get s of None \<Rightarrow> zero | Some t \<Rightarrow> t) of
             None \<Rightarrow> None
           | Some t \<Rightarrow> Some (upd (\<lambda>_. Some t) s)))"

lemmas field_defs = str_field_def bool_field_def int_field_def ptr_field_def decode_struct_def find_field_def

section \<open>Maps under numbers\<close>

text \<open>
  A Go map keyed by 64-bit numbers, \<open>None\<close> the nil map. \<open>json.Marshal\<close> prints it as an object with the
  keys in decimal, sorted as strings; \<open>json.Unmarshal\<close> adds the members to the map.
\<close>

definition encode_map :: "('v \<Rightarrow> json) \<Rightarrow> (uint64, 'v) gomap option \<Rightarrow> json" where
  "encode_map enc m =
     (case m of
        None \<Rightarrow> JNull
      | Some kvs \<Rightarrow> JObj (sort_key fst (map (\<lambda>(k, v). (FormatUint k, enc v)) kvs)))"

fun store_entries ::
  "(json \<Rightarrow> 'v option) \<Rightarrow> (string \<times> json) list \<Rightarrow> (uint64, 'v) gomap \<Rightarrow> (uint64, 'v) gomap option" where
  "store_entries dec [] m = Some m"
| "store_entries dec ((k, j) # kvs) m =
     (case (ParseUint k, dec j) of
        ((n, None), Some v) \<Rightarrow> store_entries dec kvs (AList.update (of_nat n) v m)
      | _ \<Rightarrow> None)"

definition decode_map ::
  "(json \<Rightarrow> 'v option) \<Rightarrow> json \<Rightarrow> (uint64, 'v) gomap option \<Rightarrow> (uint64, 'v) gomap option option" where
  "decode_map dec j m =
     (case j of
        JNull \<Rightarrow> Some None
      | JObj kvs \<Rightarrow> map_option Some (store_entries dec kvs (case m of None \<Rightarrow> [] | Some kvs \<Rightarrow> kvs))
      | _ \<Rightarrow> None)"

text \<open>What \<open>json.Unmarshal\<close> makes of a text, given how its value is stored.\<close>

definition unmarshal :: "(json \<Rightarrow> 'a option) \<Rightarrow> string \<Rightarrow> 'a option" where
  "unmarshal dec s = (case parse_json s of None \<Rightarrow> None | Some j \<Rightarrow> dec j)"

lemma unmarshal_jprint [simp]:
  "wf_json v \<Longrightarrow> json_depth v \<le> 10000 \<Longrightarrow> unmarshal dec (jprint v) = dec v"
  by (simp add: unmarshal_def parse_print)

lemma store_entries_enc:
  assumes "\<And>v. (\<exists>k. (k, v) \<in> set kvs) \<Longrightarrow> dec (enc v) = Some v"
  shows "\<exists>m'. store_entries dec (map (\<lambda>(k, v). (FormatUint k, enc v)) kvs) m = Some m'
    \<and> map_of m' = map_of m ++ map_of (rev kvs) \<and> (wf_gomap m \<longrightarrow> wf_gomap m')"
  using assms
proof (induction kvs arbitrary: m)
  case Nil
  then show ?case by simp
next
  case (Cons kv kvs)
  obtain k v where kv: "kv = (k, v)" by (cases kv)
  have "dec (enc v) = Some v" using Cons.prems [of v] kv by auto
  moreover obtain m' where "store_entries dec (map (\<lambda>(k, v). (FormatUint k, enc v)) kvs) (AList.update k v m) = Some m'"
    "map_of m' = map_of (AList.update k v m) ++ map_of (rev kvs)" "wf_gomap (AList.update k v m) \<longrightarrow> wf_gomap m'"
    using Cons.IH [of "AList.update k v m"] Cons.prems by fastforce
  ultimately show ?case using kv by (auto simp: map_add_assoc)
qed

lemma sort_key_map_FormatUint:
  "\<exists>xs. mset xs = mset kvs \<and>
     sort_key fst (map (\<lambda>(k, v). (FormatUint k, enc v)) kvs) = map (\<lambda>(k, v). (FormatUint k, enc v)) xs"
proof (intro exI [of _ "sort_key (\<lambda>x. FormatUint (fst x)) kvs"] conjI)
  show "sort_key fst (map (\<lambda>(k, v). (FormatUint k, enc v)) kvs)
      = map (\<lambda>(k, v). (FormatUint k, enc v)) (sort_key (\<lambda>x. FormatUint (fst x)) kvs)"
  proof (induction kvs)
    case (Cons kv kvs)
    have "insort_key fst ((\<lambda>(k, v). (FormatUint k, enc v)) x) (map (\<lambda>(k, v). (FormatUint k, enc v)) ys)
      = map (\<lambda>(k, v). (FormatUint k, enc v)) (insort_key (\<lambda>x. FormatUint (fst x)) x ys)" for x ys
      by (induction ys) (auto split: prod.splits)
    with Cons show ?case by simp
  qed simp
qed simp

text \<open>A map that is printed and read into a nil map has the same entries.\<close>

lemma decode_encode_map:
  assumes "wf_gomap kvs" and "\<And>k v. (k, v) \<in> set kvs \<Longrightarrow> dec (enc v) = Some v"
  shows "\<exists>m. decode_map dec (encode_map enc (Some kvs)) None = Some (Some m)
    \<and> map_of m = map_of kvs \<and> wf_gomap m"
proof -
  obtain xs where xs: "mset xs = mset kvs"
    and s: "sort_key fst (map (\<lambda>(k, v). (FormatUint k, enc v)) kvs) = map (\<lambda>(k, v). (FormatUint k, enc v)) xs"
    using sort_key_map_FormatUint by blast
  have st: "set xs = set kvs" using xs by (rule mset_eq_setD)
  obtain m where m: "store_entries dec (map (\<lambda>(k, v). (FormatUint k, enc v)) xs) [] = Some m"
    "map_of m = map_of (rev xs)" "wf_gomap m"
    using store_entries_enc [of xs dec enc "[]"] assms(2) st by auto
  have "map_of (rev xs) = map_of kvs"
    using assms(1) xs by (intro ranges_map_of) (simp_all add: ranges_def)
  with m s show ?thesis by (simp add: decode_map_def encode_map_def)
qed

lemma wf_json_encode_map:
  assumes "\<And>k v. (k, v) \<in> set kvs \<Longrightarrow> wf_json (enc v) \<and> json_depth (enc v) \<le> d"
  shows "wf_json (encode_map enc (Some kvs)) \<and> json_depth (encode_map enc (Some kvs)) \<le> Suc d"
proof -
  have u: "utf8_valid (FormatUint k)" for k
    by (rule utf8_valid_ascii) (auto simp: FormatUint_def is_digit_def dest!: nat_digits_all)
  have "foldr max ns 0 \<le> d" if "\<forall>n \<in> set ns. n \<le> d" for ns :: "nat list"
    using that by (induction ns) auto
  moreover have "\<forall>n \<in> set (map (json_depth \<circ> snd) (sort_key fst (map (\<lambda>(k, v). (FormatUint k, enc v)) kvs))). n \<le> d"
    using assms by auto
  ultimately have "json_depth (encode_map enc (Some kvs)) \<le> Suc d" by (simp add: encode_map_def)
  then show ?thesis
    using assms u by (auto simp: encode_map_def list_all_iff)
qed

text \<open>A whole map through its text.\<close>

lemma unmarshal_map:
  assumes "wf_gomap kvs"
    and "\<And>k v. (k, v) \<in> set kvs \<Longrightarrow> dec (enc v) = Some v \<and> wf_json (enc v) \<and> json_depth (enc v) \<le> 9999"
  shows "\<exists>m. unmarshal (\<lambda>j. decode_map dec j None) (jprint (encode_map enc (Some kvs))) = Some (Some m)
    \<and> map_of m = map_of kvs \<and> wf_gomap m"
proof -
  have "wf_json (encode_map enc (Some kvs)) \<and> json_depth (encode_map enc (Some kvs)) \<le> Suc 9999"
    using assms(2) by (intro wf_json_encode_map) blast
  with decode_encode_map [OF assms(1), of dec enc] assms(2) show ?thesis by simp
qed

section \<open>What decoding guarantees\<close>

text \<open>A predicate that every field keeps holds of the struct that is filled.\<close>

lemma store_fields_inv:
  assumes "\<And>n put v s s'. (n, put) \<in> set fs \<Longrightarrow> json_utf8 v \<Longrightarrow> P s \<Longrightarrow> put v s = Some s' \<Longrightarrow> P s'"
    and "list_all (\<lambda>(k, v). utf8_valid k \<and> json_utf8 v) kvs" and "P s" and "store_fields fs kvs s = Some s'"
  shows "P s'"
  using assms(2-)
proof (induction kvs arbitrary: s)
  case (Cons kv kvs)
  obtain k v where kv: "kv = (k, v)" by (cases kv)
  show ?case
  proof (cases "find_field fs k")
    case None
    with Cons kv show ?thesis by simp
  next
    case (Some f)
    obtain n put where f: "f = (n, put)" by (cases f)
    have mem: "(n, put) \<in> set fs"
      using Some f by (auto simp: find_field_def dest: find_Some_in split: option.splits)
    obtain s1 where s1: "put v s = Some s1" "store_fields fs kvs s1 = Some s'"
      using Cons.prems Some f kv by (auto split: option.splits)
    have "P s1" using assms(1) [OF mem _ Cons.prems(2) s1(1)] Cons.prems(1) kv by simp
    with Cons.IH [of s1] Cons.prems(1) s1(2) kv show ?thesis by simp
  qed
qed simp

lemma decode_struct_inv:
  assumes "\<And>n put v s s'. (n, put) \<in> set fs \<Longrightarrow> json_utf8 v \<Longrightarrow> P s \<Longrightarrow> put v s = Some s' \<Longrightarrow> P s'"
    and "json_utf8 j" and "P s" and "decode_struct fs j s = Some s'"
  shows "P s'"
proof (cases j)
  case (JObj kvs)
  have kvs: "list_all (\<lambda>(k, v). utf8_valid k \<and> json_utf8 v) kvs" using assms(2) JObj by simp
  have st: "store_fields fs kvs s = Some s'" using assms(4) JObj by (simp add: decode_struct_def)
  show ?thesis by (rule store_fields_inv [where P = P, OF assms(1) kvs assms(3) st])
qed (use assms(3,4) in \<open>auto simp: decode_struct_def\<close>)

lemma ParseInt_ok:
  assumes "ParseInt s = (i, None)" shows "int64_ok i"
proof -
  obtain neg body where b: "(case s of
               c # cs \<Rightarrow> if c = CHR ''+'' then (False, cs) else if c = CHR ''-'' then (True, cs) else (False, s)
             | [] \<Rightarrow> (False, s)) = (neg, body)" by fastforce
  obtain un err where u: "ParseUint body = (un, err)" by fastforce
  show ?thesis
    using assms unfolding ParseInt_def b by (auto simp: u int64_ok_def split: if_splits)
qed

lemma str_field_cases: "str_field upd j s = Some s' \<Longrightarrow> json_utf8 j \<Longrightarrow> s' = s \<or> (\<exists>x. utf8_valid x \<and> s' = upd (\<lambda>_. x) s)"
  by (auto simp: str_field_def split: json.splits)

lemma int_field_cases: "int_field upd j s = Some s' \<Longrightarrow> s' = s \<or> (\<exists>x. int64_ok x \<and> s' = upd (\<lambda>_. x) s)"
  by (auto simp: int_field_def dest: ParseInt_ok split: json.splits prod.splits option.splits)

lemma bool_field_cases: "bool_field upd j s = Some s' \<Longrightarrow> s' = s \<or> (\<exists>x. s' = upd (\<lambda>_. x) s)"
  by (auto simp: bool_field_def split: json.splits)

lemma int64_small [simp]: "int64_ok 0"
  by (simp add: int64_ok_def)

end
