(* ===== verification/ApiUtil.thy ===== *)
theory ApiUtil
  imports GoStruct
begin

text \<open>
  HTTP as the gateway's handlers see it, and \<open>apiutil.go/api.go\<close>: the JSON envelope of every answer
  and its reader on the client's side.
\<close>

section \<open>Requests and answers\<close>

text \<open>
  What the handlers read of a request: the method, the path, two headers (empty when missing), the cookie
  \<open>auth_token\<close>, the body as \<open>io.ReadAll\<close> returns it and the path parameter \<open>id\<close> of the router.
\<close>

record http_request =
  hq_Method :: string
  hq_Path :: string
  hq_Authorization :: string
  hq_Accept :: string
  hq_Cookie :: "string option"
  hq_Body :: "error + string"
  hq_id :: string

text \<open>
  What they write. A cookie is its value and the second it expires; \<open>Redirect\<close> keeps the target and not
  the short page that \<open>net/http\<close> adds.
\<close>

record http_response =
  hs_Status :: nat
  hs_ContentType :: string
  hs_Cookie :: "(string \<times> nat) option"
  hs_Location :: "string option"
  hs_Body :: string

definition http_write :: "string \<Rightarrow> http_response" where
  "http_write body = \<lparr>hs_Status = 200, hs_ContentType = [], hs_Cookie = None, hs_Location = None, hs_Body = body\<rparr>"

definition http_Error :: "string \<Rightarrow> nat \<Rightarrow> http_response" where
  "http_Error text code =
     \<lparr>hs_Status = code, hs_ContentType = ''text/plain; charset=utf-8'', hs_Cookie = None, hs_Location = None,
      hs_Body = text @ [CHR 0x0A]\<rparr>"

definition http_Redirect :: "string \<Rightarrow> nat \<Rightarrow> http_response" where
  "http_Redirect url code =
     \<lparr>hs_Status = code, hs_ContentType = ''text/html; charset=utf-8'', hs_Cookie = None, hs_Location = Some url, hs_Body = []\<rparr>"

section \<open>The envelope\<close>

text \<open>\<open>Data\<close> is what \<open>json.Marshal\<close> makes of it; \<open>None\<close> is the nil interface, left out by \<open>omitempty\<close>.\<close>

record ApiResponse =
  api_Code :: int
  api_Message :: string
  api_Data :: "json option"

definition enc_ApiResponse :: "ApiResponse \<Rightarrow> json" where
  "enc_ApiResponse r = JObj
     ([(''code'', JNum (Itoa (api_Code r))), (''message'', JStr (api_Message r))]
      @ (case api_Data r of None \<Rightarrow> [] | Some d \<Rightarrow> [(''data'', d)]))"

definition SendAPIRespWithOk :: "ApiResponse \<Rightarrow> http_response" where
  "SendAPIRespWithOk body =
     (let body' = (if api_Code body = 0 \<and> api_Message body = [] then body\<lparr>api_Message := ''ok''\<rparr> else body)
      in \<lparr>hs_Status = 200, hs_ContentType = ''application/json'', hs_Cookie = None, hs_Location = None,
          hs_Body = jprint (enc_ApiResponse body')\<rparr>)"

definition api_msg :: "int \<Rightarrow> string \<Rightarrow> http_response" where
  "api_msg code text = SendAPIRespWithOk \<lparr>api_Code = code, api_Message = text, api_Data = None\<rparr>"

definition api_data :: "string \<Rightarrow> json \<Rightarrow> http_response" where
  "api_data text d = SendAPIRespWithOk \<lparr>api_Code = 0, api_Message = text, api_Data = Some d\<rparr>"

text \<open>
  \<open>ParseHttpResponse\<close>: \<open>v\<close> is what the caller's pointer points to and \<open>put\<close> how a JSON value is stored
  there. The status line of an answer is its code and reason, here the text \<open>reason\<close>. The code of the
  envelope is decoded and not looked at.
\<close>

definition ParseHttpResponse ::
  "string \<Rightarrow> http_response \<Rightarrow> (json \<Rightarrow> 'v \<Rightarrow> 'v option) \<Rightarrow> 'v \<Rightarrow> error option \<times> 'v" where
  "ParseHttpResponse reason rsp put v =
     (if hs_Status rsp \<noteq> 200 then (Some (ErrNew reason), v)
      else case decode_json (hs_Body rsp) of
        None \<Rightarrow> (Some ErrJSON, v)
      | Some j \<Rightarrow>
          (case decode_struct
                  [(''code'', int_field (\<lambda>f (c, m, d). (f c, m, d))),
                   (''message'', str_field (\<lambda>f (c, m, d). (c, f m, d))),
                   (''data'', \<lambda>j (c, m, d). map_option (\<lambda>d'. (c, m, d')) (put j d))] j (0 :: int, [] :: string, v) of
             None \<Rightarrow> (Some ErrJSON, v)
           | Some (_, _, v') \<Rightarrow> (None, v')))"

lemma decode_json_jprint:
  assumes "wf_json v" and "json_depth v \<le> 10000"
  shows "decode_json (jprint v) = Some v"
  using parse_print [OF assms] assms(2)
  by (auto simp: parse_json_def decode_json_def split: option.splits if_splits)

lemma http_status [simp]:
  "hs_Status (http_write b) = 200" "hs_Status (http_Error t c) = c" "hs_Status (http_Redirect u c) = c"
  "hs_Status (SendAPIRespWithOk r) = 200" "hs_Status (api_msg k t) = 200" "hs_Status (api_data t d) = 200"
  by (simp_all add: http_write_def http_Error_def http_Redirect_def SendAPIRespWithOk_def api_msg_def api_data_def Let_def)

text \<open>Two messages are the same answer only if they are the same.\<close>

lemma api_msg_inj:
  assumes "int64_ok k" and "int64_ok k'" and "utf8_valid m" and "utf8_valid m'" and "m \<noteq> []" and "m' \<noteq> []"
  shows "api_msg k m = api_msg k' m' \<longleftrightarrow> k = k' \<and> m = m'"
proof
  let ?e = "\<lambda>k m. enc_ApiResponse \<lparr>api_Code = k, api_Message = m, api_Data = None\<rparr>"
  assume "api_msg k m = api_msg k' m'"
  then have "jprint (?e k m) = jprint (?e k' m')" using assms(5,6) by (simp add: api_msg_def SendAPIRespWithOk_def Let_def)
  moreover have "wf_json (?e k m)" "json_depth (?e k m) \<le> 10000" "wf_json (?e k' m')" "json_depth (?e k' m') \<le> 10000"
    using assms by (auto simp: enc_ApiResponse_def)
  ultimately have "?e k m = ?e k' m'" using parse_print by (metis option.inject)
  then have "Itoa k = Itoa k'" "m = m'" by (simp_all add: enc_ApiResponse_def)
  then show "k = k' \<and> m = m'" by (metis ParseInt_Itoa assms(1,2) fst_conv)
qed simp

lemma api_msg_write: "api_msg k m \<noteq> http_write b"
  by (simp add: api_msg_def SendAPIRespWithOk_def http_write_def Let_def)

section \<open>Properties\<close>

text \<open>
  What \<open>SendAPIRespWithOk\<close> sends, \<open>ParseHttpResponse\<close> reads: the data reaches the caller's value when
  there is some, and without data the value is left as it was. A failure the server reports in the
  envelope's code is not an error of the reader.
\<close>

theorem api_roundtrip:
  assumes "int64_ok (api_Code r)" and "utf8_valid (api_Message r)"
    and "case api_Data r of None \<Rightarrow> v' = v | Some d \<Rightarrow> wf_json d \<and> json_depth d \<le> 9999 \<and> put d v = Some v'"
  shows "ParseHttpResponse reason (SendAPIRespWithOk r) put v = (None, v')"
proof -
  let ?r = "if api_Code r = 0 \<and> api_Message r = [] then r\<lparr>api_Message := ''ok''\<rparr> else r"
  have wf: "wf_json (enc_ApiResponse ?r)" and d: "json_depth (enc_ApiResponse ?r) \<le> 10000"
    using assms by (auto simp: enc_ApiResponse_def split: option.splits)
  have "decode_json (hs_Body (SendAPIRespWithOk r)) = Some (enc_ApiResponse ?r)"
    using decode_json_jprint [OF wf d] by (simp add: SendAPIRespWithOk_def Let_def)
  with assms show ?thesis
    by (auto simp: ParseHttpResponse_def enc_ApiResponse_def decode_struct_def find_field_def str_field_def int_field_def
        split: option.splits)
qed

theorem api_roundtrip_witness:
  "ParseHttpResponse ''200 OK'' (SendAPIRespWithOk \<lparr>api_Code = 500, api_Message = ''no'', api_Data = Some (JBool True)\<rparr>)
     (\<lambda>j v. case j of JBool b \<Rightarrow> Some b | _ \<Rightarrow> None) False = (None, True)"
  by (rule api_roundtrip) (simp_all add: int64_ok_def)

end
