(* ===== verification/TypesID.thy ===== *)
theory TypesID
  imports GoStruct
begin

text \<open>
  \<open>types/id.go\<close>: identifiers are 64-bit numbers that travel as JSON strings. They are printed in
  decimal and read with \<open>fmt.Sscanf(s, "%d", &v)\<close>, which skips leading space and stops at the first
  character that is no digit.
\<close>

section \<open>Sscanf\<close>

text \<open>The runes \<open>fmt\<close> counts as space, other than the newline, which is an error here.\<close>

definition space_runes :: "string list" where
  "space_runes =
     [[CHR 0x09], [CHR 0x0B], [CHR 0x0C], [CHR 0x0D], [CHR 0x20],
      [CHR 0xC2, CHR 0x85], [CHR 0xC2, CHR 0xA0], [CHR 0xE1, CHR 0x9A, CHR 0x80],
      [CHR 0xE2, CHR 0x80, CHR 0x80], [CHR 0xE2, CHR 0x80, CHR 0x81], [CHR 0xE2, CHR 0x80, CHR 0x82],
      [CHR 0xE2, CHR 0x80, CHR 0x83], [CHR 0xE2, CHR 0x80, CHR 0x84], [CHR 0xE2, CHR 0x80, CHR 0x85],
      [CHR 0xE2, CHR 0x80, CHR 0x86], [CHR 0xE2, CHR 0x80, CHR 0x87], [CHR 0xE2, CHR 0x80, CHR 0x88],
      [CHR 0xE2, CHR 0x80, CHR 0x89], [CHR 0xE2, CHR 0x80, CHR 0x8A], [CHR 0xE2, CHR 0x80, CHR 0xA8],
      [CHR 0xE2, CHR 0x80, CHR 0xA9], [CHR 0xE2, CHR 0x80, CHR 0xAF], [CHR 0xE2, CHR 0x81, CHR 0x9F],
      [CHR 0xE3, CHR 0x80, CHR 0x80]]"

definition space_width :: "string \<Rightarrow> nat" where
  "space_width s = (case List.find (HasPrefix s) space_runes of None \<Rightarrow> 0 | Some p \<Rightarrow> length p)"

function skip_space :: "string \<Rightarrow> string option" where
  "skip_space [] = Some []"
| "skip_space (c # cs) =
     (if c = CHR 0x0A then None
      else if space_width (c # cs) = 0 then Some (c # cs)
      else skip_space (drop (space_width (c # cs) - 1) cs))"
  by pat_completeness auto
termination
  by (relation "measure length") (auto simp: less_Suc_eq_le)

definition Sscanf_d :: "string \<Rightarrow> error + uint64" where
  "Sscanf_d s =
     (case skip_space s of
        None \<Rightarrow> Inl (ErrNew ''unexpected newline'')
      | Some t \<Rightarrow>
          if t = [] then Inl ErrUnexpectedEOF
          else if takeWhile is_digit t = [] then Inl (ErrNew ''expected integer'')
          else (case ParseUint (takeWhile is_digit t) of
                  (n, None) \<Rightarrow> Inr (of_nat n)
                | (n, Some e) \<Rightarrow> Inl e))"

section \<open>Identifiers\<close>

type_synonym ID = uint64

definition ID_String :: "ID \<Rightarrow> string" where
  "ID_String i = FormatUint i"

definition ID_Uint64 :: "ID \<Rightarrow> uint64" where
  "ID_Uint64 i = i"

definition ID_MarshalJSON :: "ID \<Rightarrow> json" where
  "ID_MarshalJSON i = JStr (ID_String i)"

text \<open>
  \<open>UnmarshalJSON\<close> on the value of the text it is given; \<open>null\<close> leaves the empty string, which \<open>Sscanf\<close>
  refuses.
\<close>

definition ID_UnmarshalJSON :: "json \<Rightarrow> ID option" where
  "ID_UnmarshalJSON j =
     (case (case j of JStr s \<Rightarrow> Some s | JNull \<Rightarrow> Some [] | _ \<Rightarrow> None) of
        None \<Rightarrow> None
      | Some s \<Rightarrow> (case Sscanf_d s of Inl e \<Rightarrow> None | Inr v \<Rightarrow> Some v))"

definition id_field :: "((ID \<Rightarrow> ID) \<Rightarrow> 's \<Rightarrow> 's) \<Rightarrow> json \<Rightarrow> 's \<Rightarrow> 's option" where
  "id_field upd j s = (case ID_UnmarshalJSON j of None \<Rightarrow> None | Some v \<Rightarrow> Some (upd (\<lambda>_. v) s))"

lemma space_runes_head: "p \<in> set space_runes \<Longrightarrow> \<exists>c cs. p = c # cs \<and> \<not> is_digit c"
proof -
  have "list_all (\<lambda>p. p \<noteq> [] \<and> \<not> is_digit (hd p)) space_runes" by code_simp
  then show "p \<in> set space_runes \<Longrightarrow> ?thesis" by (cases p) (auto simp: list_all_iff)
qed

lemma space_width_digit: "is_digit c \<Longrightarrow> space_width (c # cs) = 0"
  using space_runes_head
  by (fastforce simp: space_width_def HasPrefix_def dest: find_Some_in split: option.splits)

lemma skip_space_digit: "is_digit c \<Longrightarrow> skip_space (c # cs) = Some (c # cs)"
  using space_width_digit [of c cs] by (auto simp: is_digit_def char_nat_def)

lemma Sscanf_digits:
  assumes "r = [] \<or> \<not> is_digit (hd r)"
  shows "Sscanf_d (FormatUint i @ r) = Inr i"
proof -
  obtain c cs where f: "FormatUint i = c # cs" by (cases "FormatUint i") (auto simp: FormatUint_def)
  have d: "\<forall>x \<in> set (FormatUint i). is_digit x" using nat_digits_all by (auto simp: FormatUint_def)
  then have "takeWhile is_digit (FormatUint i @ r) = FormatUint i"
    using assms by (cases r) (auto simp: takeWhile_append)
  moreover have "skip_space (FormatUint i @ r) = Some (FormatUint i @ r)"
    using d f skip_space_digit [of c "cs @ r"] by simp
  moreover have "FormatUint i \<noteq> []" using f by simp
  ultimately show ?thesis by (simp add: Sscanf_d_def del: skip_space.simps)
qed

lemma ID_decode_encode [simp]: "ID_UnmarshalJSON (ID_MarshalJSON i) = Some i"
  using Sscanf_digits [of "[]" i] by (simp add: ID_UnmarshalJSON_def ID_MarshalJSON_def ID_String_def)

lemma utf8_FormatUint [simp]: "utf8_valid (FormatUint i)"
  by (rule utf8_valid_ascii) (auto simp: FormatUint_def is_digit_def dest!: nat_digits_all)

lemma wf_json_ID [simp]: "wf_json (ID_MarshalJSON i)" "json_depth (ID_MarshalJSON i) = 0"
  by (simp_all add: ID_MarshalJSON_def ID_String_def)

lemma id_field_cases: "id_field upd j s = Some s' \<Longrightarrow> \<exists>x. s' = upd (\<lambda>_. x) s"
  by (auto simp: id_field_def split: option.splits)

lemmas field_cases = str_field_cases int_field_cases bool_field_cases id_field_cases

text \<open>An identifier and its JSON text.\<close>

definition ID_text :: "ID \<Rightarrow> string" where
  "ID_text i = jprint (ID_MarshalJSON i)"

interpretation idc: codec ID_text "unmarshal ID_UnmarshalJSON" "\<lambda>_. True"
  by unfold_locales (simp add: ID_text_def)

section \<open>Properties\<close>

text \<open>
  An identifier that is marshalled and unmarshalled again is the same number, over the whole
  64-bit range, where a JSON number would lose digits; and two identifiers with the same text are
  equal.
\<close>

theorem ID_roundtrip:
  "unmarshal ID_UnmarshalJSON (jprint (ID_MarshalJSON i)) = Some i
   \<and> (jprint (ID_MarshalJSON i) = jprint (ID_MarshalJSON j) \<longleftrightarrow> i = j)"
  using idc.decode_encode [of i] idc.encode_inj [of i j] by (auto simp: ID_text_def)

text \<open>
  The reader stops at the first character that is no digit, so a string with anything behind the
  digits is accepted as the number in front of it.
\<close>

theorem ID_accepts_trailing_text:
  assumes "r \<noteq> []" and "\<not> is_digit (hd r)"
  shows "ID_UnmarshalJSON (JStr (ID_String i @ r)) = Some i"
  using Sscanf_digits [of r i] assms by (simp add: ID_UnmarshalJSON_def ID_String_def)

theorem ID_accepts_trailing_text_witness:
  "ID_UnmarshalJSON (JStr (ID_String 12 @ ''abc'')) = Some 12"
  by (rule ID_accepts_trailing_text) (simp_all add: is_digit_def char_nat_def)

end
