(* ===== verification/Store.thy ===== *)
theory Store
  imports GoStruct
begin

text \<open>
  The database of the gateway, \<open>github.com/syndtr/goleveldb\<close>, as its clients see it: its operations are
  a parameter, and \<open>leveldb_spec\<close> states what the code relies on. A write either takes effect or fails
  and changes nothing; \<open>ErrNotFound\<close> is the error of a missing key.
\<close>

record 'db leveldb =
  db_Get :: "'db \<Rightarrow> string \<Rightarrow> error + string"
  db_Put :: "'db \<Rightarrow> string \<Rightarrow> string \<Rightarrow> error option \<times> 'db"
  db_Delete :: "'db \<Rightarrow> string \<Rightarrow> error option \<times> 'db"

definition leveldb_spec :: "'db leveldb \<Rightarrow> bool" where
  "leveldb_spec D \<longleftrightarrow>
     (\<forall>db k v e db'. db_Put D db k v = (e, db') \<longrightarrow>
        (\<forall>k'. db_Get D db' k' = (if e = None \<and> k' = k then Inr v else db_Get D db k')))
     \<and> (\<forall>db k e db'. db_Delete D db k = (e, db') \<longrightarrow>
        (\<forall>k'. db_Get D db' k' = (if e = None \<and> k' = k then Inl ErrNotFound else db_Get D db k')))"

text \<open>Writing never fails.\<close>

definition leveldb_writable :: "'db leveldb \<Rightarrow> bool" where
  "leveldb_writable D \<longleftrightarrow> (\<forall>db k v. fst (db_Put D db k v) = None)"

lemma put_get:
  assumes "leveldb_spec D" and "db_Put D db k v = (e, db')"
  shows "db_Get D db' k' = (if e = None \<and> k' = k then Inr v else db_Get D db k')"
  using assms unfolding leveldb_spec_def by blast

lemma writable_put: "leveldb_writable D \<Longrightarrow> \<exists>db'. db_Put D db k v = (None, db')"
  unfolding leveldb_writable_def by (metis prod.collapse)

lemma put_writes:
  assumes "leveldb_spec D" and "leveldb_writable D"
  shows "\<exists>db'. db_Put D db k v = (None, db')
    \<and> (\<forall>k'. db_Get D db' k' = (if k' = k then Inr v else db_Get D db k'))"
proof -
  obtain e db' where p: "db_Put D db k v = (e, db')" by (cases "db_Put D db k v")
  with assms(2) have "e = None" unfolding leveldb_writable_def by (metis fst_conv)
  with p put_get [OF assms(1)] show ?thesis by auto
qed

text \<open>The entries of a map that may be nil, and \<open>make\<close> where the code makes one.\<close>

definition made :: "('k, 'v) gomap option \<Rightarrow> ('k, 'v) gomap" where
  "made m = (case m of None \<Rightarrow> [] | Some kvs \<Rightarrow> kvs)"

lemma made_Some [simp]: "made (Some m) = m" and made_None [simp]: "made None = []"
  by (simp_all add: made_def)

text \<open>
  A map that is in order, written as JSON, is read back from the database with the same entries; no
  other key is touched.
\<close>

lemma saved_map:
  assumes "leveldb_spec D" and "leveldb_writable D" and w: "wf_gomap m"
    and e: "\<And>k v. (k, v) \<in> set m \<Longrightarrow> dec (enc v) = Some v \<and> wf_json (enc v) \<and> json_depth (enc v) \<le> 9999"
  shows "\<exists>db' m'. db_Put D db key (jprint (encode_map enc (Some m))) = (None, db')
    \<and> (\<forall>k'. db_Get D db' k' = (if k' = key then Inr (jprint (encode_map enc (Some m))) else db_Get D db k'))
    \<and> unmarshal (\<lambda>j. decode_map dec j None) (jprint (encode_map enc (Some m))) = Some (Some m')
    \<and> map_of m' = map_of m \<and> wf_gomap m' \<and> set m' = set m"
proof -
  obtain m' where "unmarshal (\<lambda>j. decode_map dec j None) (jprint (encode_map enc (Some m))) = Some (Some m')"
    "map_of m' = map_of m" "wf_gomap m'" using unmarshal_map [OF w, of dec enc] e by blast
  moreover from this have "set m' = set m" using w by (intro wf_gomap_set_eq)
  ultimately show ?thesis using put_writes [OF assms(1,2), of db key] by blast
qed

text \<open>A database for evaluation: an association list.\<close>

definition list_db :: "(string \<times> string) list leveldb" where
  "list_db =
     \<lparr>db_Get = (\<lambda>db k. case map_of db k of None \<Rightarrow> Inl ErrNotFound | Some v \<Rightarrow> Inr v),
      db_Put = (\<lambda>db k v. (None, AList.update k v db)),
      db_Delete = (\<lambda>db k. (None, AList.delete k db))\<rparr>"

lemma list_db_spec: "leveldb_spec list_db" "leveldb_writable list_db"
  by (auto simp: leveldb_spec_def leveldb_writable_def list_db_def)

lemma list_db_empty: "db_Get list_db [] k = Inl ErrNotFound"
  by (simp add: list_db_def)

text \<open>A database that refuses every write.\<close>

definition readonly_db :: "(string \<times> string) list leveldb" where
  "readonly_db = list_db\<lparr>db_Put := (\<lambda>db k v. (Some (ErrNew ''leveldb: read-only mode''), db)),
                        db_Delete := (\<lambda>db k. (Some (ErrNew ''leveldb: read-only mode''), db))\<rparr>"

lemma readonly_db_spec: "leveldb_spec readonly_db"
  by (simp add: leveldb_spec_def readonly_db_def list_db_def)

end
