(* ===== verification/PortmapRes.thy ===== *)
theory PortmapRes
  imports TypesID Store
begin

text \<open>
  \<open>gateway/portmap_resource.go\<close>: the resources a gateway offers for port mapping, kept in memory under
  their identifiers and written to the database as one JSON object after every change.
\<close>

section \<open>Resources\<close>

record PortmapResource =
  pr_ID :: ID
  pr_Name :: string
  pr_Type :: int
  pr_Network :: string
  pr_TargetAddr :: string
  pr_TargetPort :: int
  pr_LocalIP :: string
  pr_LocalPort :: int

definition zero_PortmapResource :: PortmapResource where
  "zero_PortmapResource =
     \<lparr>pr_ID = 0, pr_Name = [], pr_Type = 0, pr_Network = [], pr_TargetAddr = [], pr_TargetPort = 0,
      pr_LocalIP = [], pr_LocalPort = 0\<rparr>"

definition enc_PortmapResource :: "PortmapResource \<Rightarrow> json" where
  "enc_PortmapResource r = JObj
     [(''id'', ID_MarshalJSON (pr_ID r)), (''name'', JStr (pr_Name r)), (''type'', JNum (Itoa (pr_Type r))),
      (''network'', JStr (pr_Network r)), (''target_addr'', JStr (pr_TargetAddr r)),
      (''target_port'', JNum (Itoa (pr_TargetPort r))), (''local_ip'', JStr (pr_LocalIP r)),
      (''local_port'', JNum (Itoa (pr_LocalPort r)))]"

definition PortmapResource_fields :: "PortmapResource field list" where
  "PortmapResource_fields =
     [(''id'', id_field pr_ID_update), (''name'', str_field pr_Name_update), (''type'', int_field pr_Type_update),
      (''network'', str_field pr_Network_update), (''target_addr'', str_field pr_TargetAddr_update),
      (''target_port'', int_field pr_TargetPort_update), (''local_ip'', str_field pr_LocalIP_update),
      (''local_port'', int_field pr_LocalPort_update)]"

definition dec_PortmapResource :: "json \<Rightarrow> PortmapResource option" where
  "dec_PortmapResource j = decode_struct PortmapResource_fields j zero_PortmapResource"

definition valid_resource :: "PortmapResource \<Rightarrow> bool" where
  "valid_resource r \<longleftrightarrow>
     utf8_valid (pr_Name r) \<and> utf8_valid (pr_Network r) \<and> utf8_valid (pr_TargetAddr r) \<and> utf8_valid (pr_LocalIP r)
     \<and> int64_ok (pr_Type r) \<and> int64_ok (pr_TargetPort r) \<and> int64_ok (pr_LocalPort r)"

lemma dec_enc_PortmapResource:
  "valid_resource r \<Longrightarrow> dec_PortmapResource (enc_PortmapResource r) = Some r"
  by (simp add: valid_resource_def dec_PortmapResource_def enc_PortmapResource_def PortmapResource_fields_def
      decode_struct_def find_field_def str_field_def int_field_def id_field_def zero_PortmapResource_def)

lemma wf_enc_PortmapResource:
  "valid_resource r \<Longrightarrow> wf_json (enc_PortmapResource r) \<and> json_depth (enc_PortmapResource r) \<le> 1"
  by (auto simp: valid_resource_def enc_PortmapResource_def)

lemma dec_PortmapResource_valid:
  assumes "dec_PortmapResource j = Some r" and "json_utf8 j" shows "valid_resource r"
  by (rule decode_struct_inv [OF _ assms(2) _ assms(1) [unfolded dec_PortmapResource_def]])
    (auto simp: PortmapResource_fields_def valid_resource_def zero_PortmapResource_def dest!: field_cases)

section \<open>The manager\<close>

text \<open>The map of a \<open>PortmapResMgr\<close> (\<open>None\<close>: nil) with the database it writes to.\<close>

type_synonym 'db PortmapResMgr = "(ID, PortmapResource) gomap option \<times> 'db"

definition keyPortmapRes :: string where
  "keyPortmapRes = ''portmap_resources''"

definition prm_savePortmap :: "'db leveldb \<Rightarrow> 'db PortmapResMgr \<Rightarrow> error option \<times> 'db PortmapResMgr" where
  "prm_savePortmap D m =
     (case m of
        (None, db) \<Rightarrow> (None, m)
      | (Some rs, db) \<Rightarrow>
          (case db_Put D db keyPortmapRes (jprint (encode_map enc_PortmapResource (Some rs))) of
             (err, db') \<Rightarrow> (err, Some rs, db')))"

definition prm_loadRes :: "'db leveldb \<Rightarrow> 'db PortmapResMgr \<Rightarrow> error + 'db PortmapResMgr" where
  "prm_loadRes D m =
     (case db_Get D (snd m) keyPortmapRes of
        Inl err \<Rightarrow> if err \<noteq> ErrNotFound then Inl err else Inr m
      | Inr v \<Rightarrow>
          (case unmarshal (\<lambda>j. decode_map dec_PortmapResource j (fst m)) v of
             None \<Rightarrow> Inl ErrJSON
           | Some rs \<Rightarrow> Inr (rs, snd m)))"

definition NewPortmapResMgr :: "'db leveldb \<Rightarrow> 'db \<Rightarrow> error + 'db PortmapResMgr" where
  "NewPortmapResMgr D db = prm_loadRes D (None, db)"

definition AddPortmapRes ::
  "'db leveldb \<Rightarrow> PortmapResource \<Rightarrow> 'db PortmapResMgr \<Rightarrow> error option \<times> 'db PortmapResMgr" where
  "AddPortmapRes D res m = prm_savePortmap D (Some (AList.update (pr_ID res) res (made (fst m))), snd m)"

definition UpdatePortmapRes ::
  "'db leveldb \<Rightarrow> PortmapResource \<Rightarrow> 'db PortmapResMgr \<Rightarrow> error option \<times> 'db PortmapResMgr" where
  "UpdatePortmapRes D res m = prm_savePortmap D (Some (AList.update (pr_ID res) res (made (fst m))), snd m)"

definition prm_DelPortmapApp ::
  "'db leveldb \<Rightarrow> ID \<Rightarrow> 'db PortmapResMgr \<Rightarrow> error option \<times> 'db PortmapResMgr" where
  "prm_DelPortmapApp D resID m =
     (case fst m of
        None \<Rightarrow> (None, m)
      | Some rs \<Rightarrow> prm_savePortmap D (Some (AList.delete resID rs), snd m))"

text \<open>A missing key reads as the zero value; a nil map is made on the way.\<close>

definition GetAppByID :: "ID \<Rightarrow> 'db PortmapResMgr \<Rightarrow> PortmapResource \<times> 'db PortmapResMgr" where
  "GetAppByID resID m =
     ((case map_of (made (fst m)) resID of None \<Rightarrow> zero_PortmapResource | Some r \<Rightarrow> r),
      Some (made (fst m)), snd m)"

text \<open>The resources in the order \<open>visit\<close> in which the runtime ranges over the map.\<close>

definition GetResources ::
  "((ID, PortmapResource) gomap \<Rightarrow> (ID, PortmapResource) gomap) \<Rightarrow> 'db PortmapResMgr \<Rightarrow> PortmapResource list" where
  "GetResources visit m = map snd (visit (made (fst m)))"

section \<open>The manager as a durable table\<close>

definition prm_present :: "'db PortmapResMgr \<Rightarrow> ID \<Rightarrow> PortmapResource option" where
  "prm_present m = map_of (made (fst m))"

definition resources_ok :: "(ID, PortmapResource) gomap option \<Rightarrow> bool" where
  "resources_ok rs \<longleftrightarrow> wf_gomap (made rs) \<and> (\<forall>(k, r) \<in> set (made rs). valid_resource r \<and> pr_ID r = k)"

text \<open>The database holds what the memory holds.\<close>

definition prm_stored :: "'db leveldb \<Rightarrow> 'db PortmapResMgr \<Rightarrow> bool" where
  "prm_stored D m \<longleftrightarrow>
     (\<exists>rs. NewPortmapResMgr D (snd m) = Inr (rs, snd m) \<and> map_of (made rs) = prm_present m \<and> resources_ok rs)"

definition prm_wf :: "'db leveldb \<Rightarrow> 'db PortmapResMgr \<Rightarrow> bool" where
  "prm_wf D m \<longleftrightarrow> leveldb_spec D \<and> leveldb_writable D \<and> resources_ok (fst m) \<and> prm_stored D m"

definition prm_restart :: "'db leveldb \<Rightarrow> 'db PortmapResMgr \<Rightarrow> 'db PortmapResMgr option" where
  "prm_restart D m = (case NewPortmapResMgr D (snd m) of Inl _ \<Rightarrow> None | Inr m' \<Rightarrow> Some m')"

text \<open>Saving a map that is in order leaves it in memory and in the database.\<close>

lemma prm_save_ok:
  assumes "leveldb_spec D" and "leveldb_writable D" and ok: "resources_ok (Some rs)"
  obtains db' where "prm_savePortmap D (Some rs, db) = (None, Some rs, db')" and "prm_stored D (Some rs, db')"
proof -
  have w: "wf_gomap rs" and v: "\<And>k r. (k, r) \<in> set rs \<Longrightarrow> valid_resource r" using ok by (auto simp: resources_ok_def)
  have "dec_PortmapResource (enc_PortmapResource r) = Some r \<and> wf_json (enc_PortmapResource r)
    \<and> json_depth (enc_PortmapResource r) \<le> 9999" if "(k, r) \<in> set rs" for k r
    using v [OF that] dec_enc_PortmapResource [of r] wf_enc_PortmapResource [of r] by auto
  then obtain db' m where s: "db_Put D db keyPortmapRes (jprint (encode_map enc_PortmapResource (Some rs))) = (None, db')"
    "db_Get D db' keyPortmapRes = Inr (jprint (encode_map enc_PortmapResource (Some rs)))"
    "unmarshal (\<lambda>j. decode_map dec_PortmapResource j None) (jprint (encode_map enc_PortmapResource (Some rs))) = Some (Some m)"
    "map_of m = map_of rs" "wf_gomap m" "set m = set rs"
    using saved_map [OF assms(1,2) w, of dec_PortmapResource enc_PortmapResource db keyPortmapRes] by auto
  moreover from s have "resources_ok (Some m)" using ok by (simp add: resources_ok_def)
  ultimately show thesis
    using that [of db']
    by (auto simp: prm_savePortmap_def prm_stored_def prm_present_def NewPortmapResMgr_def prm_loadRes_def)
qed

lemma resources_ok_update:
  assumes "resources_ok rs" and "valid_resource r"
  shows "resources_ok (Some (AList.update (pr_ID r) r (made rs)))"
proof -
  have "(k, x) \<in> set (AList.update (pr_ID r) r (made rs)) \<Longrightarrow> (k, x) = (pr_ID r, r) \<or> (k, x) \<in> set (made rs)" for k x
    using assms(1) by (auto simp: wf_gomap_mem resources_ok_def split: if_splits)
  with assms show ?thesis by (fastforce simp: resources_ok_def)
qed

lemma resources_ok_delete: "resources_ok rs \<Longrightarrow> resources_ok (Some (AList.delete k (made rs)))"
  by (auto simp: resources_ok_def AList.delete_eq wf_gomap_def intro: distinct_map_filter)

lemma prm_put_ok:
  assumes wf: "prm_wf D m" and v: "valid_resource r"
  shows "prm_present (snd (AddPortmapRes D r m)) = (prm_present m)(pr_ID r \<mapsto> r)"
    and "prm_wf D (snd (AddPortmapRes D r m))"
    and "fst (AddPortmapRes D r m) = None"
proof -
  let ?rs = "AList.update (pr_ID r) r (made (fst m))"
  have ok: "resources_ok (Some ?rs)" using wf v by (intro resources_ok_update) (simp_all add: prm_wf_def)
  from wf have D: "leveldb_spec D" "leveldb_writable D" by (simp_all add: prm_wf_def)
  obtain db' where "prm_savePortmap D (Some ?rs, snd m) = (None, Some ?rs, db')" "prm_stored D (Some ?rs, db')"
    using prm_save_ok [OF D ok] .
  with D ok show "prm_present (snd (AddPortmapRes D r m)) = (prm_present m)(pr_ID r \<mapsto> r)"
    "prm_wf D (snd (AddPortmapRes D r m))" "fst (AddPortmapRes D r m) = None"
    by (simp_all add: AddPortmapRes_def prm_present_def prm_wf_def)
qed

lemma prm_del_ok:
  assumes wf: "prm_wf D m"
  shows "prm_present (snd (prm_DelPortmapApp D k m)) = (prm_present m)(k := None)"
    and "prm_wf D (snd (prm_DelPortmapApp D k m))"
    and "fst (prm_DelPortmapApp D k m) = None"
proof -
  from wf have D: "leveldb_spec D" "leveldb_writable D" by (simp_all add: prm_wf_def)
  have "prm_present (snd (prm_DelPortmapApp D k m)) = (prm_present m)(k := None)
    \<and> prm_wf D (snd (prm_DelPortmapApp D k m)) \<and> fst (prm_DelPortmapApp D k m) = None"
  proof (cases "fst m")
    case None
    with wf show ?thesis by (auto simp: prm_DelPortmapApp_def prm_present_def)
  next
    case (Some rs)
    have ok: "resources_ok (Some (AList.delete k rs))"
      using wf Some resources_ok_delete [of "fst m" k] by (simp add: prm_wf_def)
    obtain db' where "prm_savePortmap D (Some (AList.delete k rs), snd m) = (None, Some (AList.delete k rs), db')"
      "prm_stored D (Some (AList.delete k rs), db')" using prm_save_ok [OF D ok] .
    with D ok Some show ?thesis by (simp add: prm_DelPortmapApp_def prm_present_def prm_wf_def)
  qed
  then show "prm_present (snd (prm_DelPortmapApp D k m)) = (prm_present m)(k := None)"
    "prm_wf D (snd (prm_DelPortmapApp D k m))" "fst (prm_DelPortmapApp D k m) = None" by blast+
qed

lemma prm_restart_ok:
  assumes wf: "prm_wf D m"
  shows "\<exists>m'. prm_restart D m = Some m' \<and> prm_present m' = prm_present m \<and> prm_wf D m'"
proof -
  from wf obtain rs where "NewPortmapResMgr D (snd m) = Inr (rs, snd m)" "map_of (made rs) = prm_present m"
    "resources_ok rs" by (auto simp: prm_wf_def prm_stored_def)
  with wf show ?thesis by (auto simp: prm_restart_def prm_present_def prm_wf_def prm_stored_def)
qed

interpretation prm: durable_table prm_present pr_ID "\<lambda>r m. snd (AddPortmapRes D r m)"
  "\<lambda>k m. snd (prm_DelPortmapApp D k m)" valid_resource "prm_wf D" "prm_restart D" for D
  by unfold_locales (simp_all add: prm_put_ok prm_del_ok prm_restart_ok del: split_paired_Ex)

section \<open>Properties\<close>

lemma prm_fresh:
  "leveldb_spec D \<Longrightarrow> leveldb_writable D \<Longrightarrow> db_Get D db keyPortmapRes = Inl ErrNotFound \<Longrightarrow> prm_wf D (None, db)"
  by (simp add: prm_wf_def prm_stored_def resources_ok_def prm_present_def NewPortmapResMgr_def prm_loadRes_def)

text \<open>
  C3: started on a database without resources, the manager does what a map does through every history
  of additions, updates, deletions and restarts of the process: afterwards a resource is found under
  its identifier exactly when the history leaves it there, and a listing, in whatever order the
  runtime visits the map, names each of them once.
\<close>

theorem resources_durable:
  assumes "leveldb_spec D" and "leveldb_writable D" and "db_Get D db keyPortmapRes = Inl ErrNotFound"
    and "list_all (op_valid valid_resource) ops" and "\<And>xs. ranges (visit xs) xs"
  shows "\<exists>m. run_ops (\<lambda>r m. snd (AddPortmapRes D r m)) (\<lambda>k m. snd (prm_DelPortmapApp D k m)) (prm_restart D) ops (None, db) = Some m
    \<and> (\<forall>k. fst (GetAppByID k m) =
             (case fold (map_op pr_ID) ops Map.empty k of None \<Rightarrow> zero_PortmapResource | Some r \<Rightarrow> r))
    \<and> distinct (GetResources visit m) \<and> set (GetResources visit m) = ran (fold (map_op pr_ID) ops Map.empty)"
proof -
  obtain m where m: "run_ops (\<lambda>r m. snd (AddPortmapRes D r m)) (\<lambda>k m. snd (prm_DelPortmapApp D k m)) (prm_restart D) ops (None, db) = Some m"
    "prm_wf D m" "prm_present m = fold (map_op pr_ID) ops (prm_present (None, db))"
    using prm.run_ops_refines [OF prm_fresh [OF assms(1-3)] assms(4)] by blast
  then have p: "map_of (made (fst m)) = fold (map_op pr_ID) ops Map.empty" by (simp add: prm_present_def)
  from m(2) have ok: "wf_gomap (made (fst m))" "\<And>k r. (k, r) \<in> set (made (fst m)) \<Longrightarrow> pr_ID r = k"
    by (auto simp: prm_wf_def resources_ok_def)
  show ?thesis
    using m(1) p ranges_values [OF assms(5) ok(1)] ranges_distinct [OF assms(5) ok]
    by (intro exI [of _ m]) (simp add: GetAppByID_def GetResources_def)
qed

definition web_resource :: PortmapResource where
  "web_resource = zero_PortmapResource\<lparr>pr_ID := 7, pr_Name := ''web'', pr_Network := ''tcp'',
     pr_TargetAddr := ''10.0.0.1'', pr_TargetPort := 80\<rparr>"

lemma valid_web_resource: "valid_resource web_resource"
  by (simp add: valid_resource_def web_resource_def zero_PortmapResource_def int64_ok_def)

theorem resources_durable_witness:
  "\<exists>m. run_ops (\<lambda>r m. snd (AddPortmapRes list_db r m)) (\<lambda>k m. snd (prm_DelPortmapApp list_db k m)) (prm_restart list_db)
     [TPut web_resource, TRestart, TDel 8] (None, []) = Some m
   \<and> fst (GetAppByID 7 m) = web_resource \<and> fst (GetAppByID 8 m) = zero_PortmapResource
   \<and> set (GetResources (\<lambda>xs. xs) m) = {web_resource}"
proof -
  let ?run = "run_ops (\<lambda>r m. snd (AddPortmapRes list_db r m)) (\<lambda>k m. snd (prm_DelPortmapApp list_db k m)) (prm_restart list_db)
     [TPut web_resource, TRestart, TDel 8] (None, [])"
  let ?f = "fold (map_op pr_ID) [TPut web_resource, TRestart, TDel 8] Map.empty"
  have f: "?f = [7 \<mapsto> web_resource]" by (auto simp: web_resource_def)
  have ops: "list_all (op_valid valid_resource) [TPut web_resource, TRestart, TDel 8]" by (simp add: valid_web_resource)
  obtain m where "?run = Some m" and g: "\<And>k. fst (GetAppByID k m) = (case ?f k of None \<Rightarrow> zero_PortmapResource | Some r \<Rightarrow> r)"
    and "set (GetResources (\<lambda>xs. xs) m) = ran ?f"
    using resources_durable [where visit = "\<lambda>xs. xs", OF list_db_spec list_db_empty ops ranges_refl] by blast
  with g [of 7] g [of 8] show ?thesis unfolding f by auto
qed

text \<open>
  A failing write does not take the resource back. \<open>AddPortmapRes\<close> reports the error, but the
  resource is served from then on, while the database, and so the next start, does not know it.
\<close>

theorem resource_served_despite_error:
  assumes "leveldb_spec D" and "AddPortmapRes D r m = (Some e, m')"
  shows "fst (GetAppByID (pr_ID r) m') = r
    \<and> NewPortmapResMgr D (snd m') =
        (case NewPortmapResMgr D (snd m) of Inl err \<Rightarrow> Inl err | Inr (rs, _) \<Rightarrow> Inr (rs, snd m'))"
proof -
  let ?rs = "AList.update (pr_ID r) r (made (fst m))"
  obtain db' where p: "db_Put D (snd m) keyPortmapRes (jprint (encode_map enc_PortmapResource (Some ?rs))) = (Some e, db')"
    and m': "m' = (Some ?rs, db')"
    using assms(2) by (auto simp: AddPortmapRes_def prm_savePortmap_def split: prod.splits)
  from put_get [OF assms(1) p] have "db_Get D db' k = db_Get D (snd m) k" for k by simp
  with m' show ?thesis
    by (auto simp: GetAppByID_def NewPortmapResMgr_def prm_loadRes_def split: sum.splits option.splits)
qed

theorem resource_served_despite_error_witness:
  "let m' = snd (AddPortmapRes readonly_db web_resource (None, []))
   in fst (GetAppByID 7 m') = web_resource \<and> NewPortmapResMgr readonly_db (snd m') = Inr (None, [])"
proof -
  let ?rs = "AList.update 7 web_resource []"
  have "AddPortmapRes readonly_db web_resource (None, []) = (Some (ErrNew ''leveldb: read-only mode''), Some ?rs, [])"
    by (simp add: AddPortmapRes_def prm_savePortmap_def readonly_db_def web_resource_def)
  from resource_served_despite_error [OF readonly_db_spec this] this show ?thesis
    by (simp add: web_resource_def NewPortmapResMgr_def prm_loadRes_def readonly_db_def list_db_def)
qed

end
