(* ===== verification/PortmapApps.thy ===== *)
theory PortmapApps
  imports TypesID Store
begin

text \<open>
  \<open>gateway/portmap_app.go\<close>: the port mappings a gateway runs towards other gateways. The map is made
  when the manager is created; it can only become nil by loading \<open>null\<close>, after which storing into it
  panics.
\<close>

section \<open>Applications\<close>

record PortmapApp =
  pa_ID :: ID
  pa_Name :: string
  pa_PeerID :: string
  pa_ResID :: ID
  pa_Network :: string
  pa_LocalIP :: string
  pa_LocalPort :: int
  pa_TargetAddr :: string
  pa_TargetPort :: int
  pa_Running :: bool
  pa_PeerName :: string
  pa_Err :: string

definition zero_PortmapApp :: PortmapApp where
  "zero_PortmapApp =
     \<lparr>pa_ID = 0, pa_Name = [], pa_PeerID = [], pa_ResID = 0, pa_Network = [], pa_LocalIP = [], pa_LocalPort = 0,
      pa_TargetAddr = [], pa_TargetPort = 0, pa_Running = False, pa_PeerName = [], pa_Err = []\<rparr>"

text \<open>\<open>Err\<close> is tagged \<open>json:"-"\<close>: it is neither written nor read.\<close>

definition enc_PortmapApp :: "PortmapApp \<Rightarrow> json" where
  "enc_PortmapApp a = JObj
     [(''id'', ID_MarshalJSON (pa_ID a)), (''name'', JStr (pa_Name a)), (''peer_id'', JStr (pa_PeerID a)),
      (''res_id'', ID_MarshalJSON (pa_ResID a)), (''network'', JStr (pa_Network a)), (''local_ip'', JStr (pa_LocalIP a)),
      (''local_port'', JNum (Itoa (pa_LocalPort a))), (''target_addr'', JStr (pa_TargetAddr a)),
      (''target_port'', JNum (Itoa (pa_TargetPort a))), (''running'', JBool (pa_Running a)),
      (''peer_name'', JStr (pa_PeerName a))]"

definition PortmapApp_fields :: "PortmapApp field list" where
  "PortmapApp_fields =
     [(''id'', id_field pa_ID_update), (''name'', str_field pa_Name_update), (''peer_id'', str_field pa_PeerID_update),
      (''res_id'', id_field pa_ResID_update), (''network'', str_field pa_Network_update),
      (''local_ip'', str_field pa_LocalIP_update), (''local_port'', int_field pa_LocalPort_update),
      (''target_addr'', str_field pa_TargetAddr_update), (''target_port'', int_field pa_TargetPort_update),
      (''running'', bool_field pa_Running_update), (''peer_name'', str_field pa_PeerName_update)]"

definition dec_PortmapApp :: "json \<Rightarrow> PortmapApp option" where
  "dec_PortmapApp j = decode_struct PortmapApp_fields j zero_PortmapApp"

definition valid_app :: "PortmapApp \<Rightarrow> bool" where
  "valid_app a \<longleftrightarrow>
     utf8_valid (pa_Name a) \<and> utf8_valid (pa_PeerID a) \<and> utf8_valid (pa_Network a) \<and> utf8_valid (pa_LocalIP a)
     \<and> utf8_valid (pa_TargetAddr a) \<and> utf8_valid (pa_PeerName a)
     \<and> int64_ok (pa_LocalPort a) \<and> int64_ok (pa_TargetPort a) \<and> pa_Err a = []"

lemma dec_enc_PortmapApp: "valid_app a \<Longrightarrow> dec_PortmapApp (enc_PortmapApp a) = Some a"
  by (simp add: valid_app_def dec_PortmapApp_def enc_PortmapApp_def PortmapApp_fields_def
      decode_struct_def find_field_def str_field_def int_field_def bool_field_def id_field_def zero_PortmapApp_def)

lemma wf_enc_PortmapApp: "valid_app a \<Longrightarrow> wf_json (enc_PortmapApp a) \<and> json_depth (enc_PortmapApp a) \<le> 1"
  by (auto simp: valid_app_def enc_PortmapApp_def)

lemma dec_PortmapApp_valid:
  assumes "dec_PortmapApp j = Some a" and "json_utf8 j" shows "valid_app a"
  by (rule decode_struct_inv [OF _ assms(2) _ assms(1) [unfolded dec_PortmapApp_def]])
    (auto simp: PortmapApp_fields_def valid_app_def zero_PortmapApp_def dest!: field_cases)

section \<open>The manager\<close>

type_synonym 'db PortmapAppMgr = "(uint64, PortmapApp) gomap option \<times> 'db"

definition keyPortmapApps :: string where
  "keyPortmapApps = ''portmap_apps''"

definition NewPortmapAppMgr :: "'db \<Rightarrow> 'db PortmapAppMgr" where
  "NewPortmapAppMgr db = (Some [], db)"

definition GetPortmapApps ::
  "((uint64, PortmapApp) gomap \<Rightarrow> (uint64, PortmapApp) gomap) \<Rightarrow> 'db PortmapAppMgr \<Rightarrow> PortmapApp list" where
  "GetPortmapApps visit m = map snd (visit (made (fst m)))"

definition LoadPortmapApps ::
  "'db leveldb \<Rightarrow> ((uint64, PortmapApp) gomap \<Rightarrow> (uint64, PortmapApp) gomap) \<Rightarrow> 'db PortmapAppMgr
     \<Rightarrow> error + PortmapApp list \<times> 'db PortmapAppMgr" where
  "LoadPortmapApps D visit m =
     (case db_Get D (snd m) keyPortmapApps of
        Inl err \<Rightarrow> if err \<noteq> ErrNotFound then Inl err else Inr ([], m)
      | Inr v \<Rightarrow>
          (case unmarshal (\<lambda>j. decode_map dec_PortmapApp j (fst m)) v of
             None \<Rightarrow> Inl ErrJSON
           | Some as \<Rightarrow> Inr (GetPortmapApps visit (as, snd m), as, snd m)))"

definition GetPortmapApp :: "uint64 \<Rightarrow> 'db PortmapAppMgr \<Rightarrow> PortmapApp option" where
  "GetPortmapApp i m = map_of (made (fst m)) i"

definition pam_savePortmap :: "'db leveldb \<Rightarrow> 'db PortmapAppMgr \<Rightarrow> error option \<times> 'db PortmapAppMgr" where
  "pam_savePortmap D m =
     (case m of
        (None, db) \<Rightarrow> (case db_Delete D db keyPortmapApps of (err, db') \<Rightarrow> (err, None, db'))
      | (Some as, db) \<Rightarrow>
          (case db_Put D db keyPortmapApps (jprint (encode_map enc_PortmapApp (Some as))) of
             (err, db') \<Rightarrow> (err, Some as, db')))"

definition UpdatePortmapApp ::
  "'db leveldb \<Rightarrow> PortmapApp \<Rightarrow> 'db PortmapAppMgr \<Rightarrow> (error option \<times> 'db PortmapAppMgr) outcome" where
  "UpdatePortmapApp D a m =
     (case fst m of
        None \<Rightarrow> Panic
      | Some as \<Rightarrow> Return (pam_savePortmap D (Some (AList.update (ID_Uint64 (pa_ID a)) a as), snd m)))"

definition pam_DelPortmapApp ::
  "'db leveldb \<Rightarrow> uint64 \<Rightarrow> 'db PortmapAppMgr \<Rightarrow> error option \<times> 'db PortmapAppMgr" where
  "pam_DelPortmapApp D i m = pam_savePortmap D (map_option (AList.delete i) (fst m), snd m)"

text \<open>The first application on the port, in the order the runtime ranges over the map.\<close>

definition FindAppWithPort ::
  "((uint64, PortmapApp) gomap \<Rightarrow> (uint64, PortmapApp) gomap) \<Rightarrow> string \<Rightarrow> int \<Rightarrow> 'db PortmapAppMgr \<Rightarrow> PortmapApp" where
  "FindAppWithPort visit network port m =
     (case List.find (\<lambda>r. pa_LocalPort r = port \<and> pa_Network r = network) (map snd (visit (made (fst m)))) of
        Some r \<Rightarrow> r
      | None \<Rightarrow> zero_PortmapApp)"

section \<open>The manager as a durable table\<close>

definition pam_present :: "'db PortmapAppMgr \<Rightarrow> uint64 \<Rightarrow> PortmapApp option" where
  "pam_present m = map_of (made (fst m))"

definition apps_ok :: "(uint64, PortmapApp) gomap \<Rightarrow> bool" where
  "apps_ok as \<longleftrightarrow> wf_gomap as \<and> (\<forall>(k, a) \<in> set as. valid_app a \<and> pa_ID a = k)"

definition pam_reload :: "'db leveldb \<Rightarrow> 'db PortmapAppMgr \<Rightarrow> 'db PortmapAppMgr option" where
  "pam_reload D m =
     (case LoadPortmapApps D (\<lambda>as. as) (NewPortmapAppMgr (snd m)) of Inl _ \<Rightarrow> None | Inr (_, m') \<Rightarrow> Some m')"

definition pam_wf :: "'db leveldb \<Rightarrow> 'db PortmapAppMgr \<Rightarrow> bool" where
  "pam_wf D m \<longleftrightarrow> leveldb_spec D \<and> leveldb_writable D
     \<and> (\<exists>as. fst m = Some as \<and> apps_ok as
          \<and> (\<exists>as'. pam_reload D m = Some (Some as', snd m) \<and> map_of as' = map_of as \<and> apps_ok as'))"

definition pam_put :: "'db leveldb \<Rightarrow> PortmapApp \<Rightarrow> 'db PortmapAppMgr \<Rightarrow> 'db PortmapAppMgr" where
  "pam_put D a m = (case UpdatePortmapApp D a m of Panic \<Rightarrow> m | Return (_, m') \<Rightarrow> m')"

lemma pam_save_ok:
  assumes "leveldb_spec D" and "leveldb_writable D" and ok: "apps_ok as"
  shows "\<exists>db'. pam_savePortmap D (Some as, db) = (None, Some as, db') \<and> pam_wf D (Some as, db')"
proof -
  have w: "wf_gomap as" and v: "\<And>k a. (k, a) \<in> set as \<Longrightarrow> valid_app a" using ok by (auto simp: apps_ok_def)
  have "dec_PortmapApp (enc_PortmapApp a) = Some a \<and> wf_json (enc_PortmapApp a)
    \<and> json_depth (enc_PortmapApp a) \<le> 9999" if "(k, a) \<in> set as" for k a
    using v [OF that] dec_enc_PortmapApp [of a] wf_enc_PortmapApp [of a] by auto
  then obtain db' m where s: "db_Put D db keyPortmapApps (jprint (encode_map enc_PortmapApp (Some as))) = (None, db')"
    "db_Get D db' keyPortmapApps = Inr (jprint (encode_map enc_PortmapApp (Some as)))"
    "unmarshal (\<lambda>j. decode_map dec_PortmapApp j None) (jprint (encode_map enc_PortmapApp (Some as))) = Some (Some m)"
    "map_of m = map_of as" "wf_gomap m" "set m = set as"
    using saved_map [OF assms(1,2) w, of dec_PortmapApp enc_PortmapApp db keyPortmapApps] by auto
  have "decode_map dec_PortmapApp j (Some []) = decode_map dec_PortmapApp j None" for j
    by (simp add: decode_map_def split: json.splits)
  with s have "pam_reload D (Some as, db') = Some (Some m, db')"
    by (simp add: pam_reload_def LoadPortmapApps_def NewPortmapAppMgr_def)
  moreover from s have "apps_ok m" using ok by (simp add: apps_ok_def)
  ultimately show ?thesis using s assms by (simp add: pam_savePortmap_def pam_wf_def)
qed

lemma apps_ok_update: "apps_ok as \<Longrightarrow> valid_app a \<Longrightarrow> apps_ok (AList.update (pa_ID a) a as)"
proof -
  assume ok: "apps_ok as" and v: "valid_app a"
  have "(k, x) \<in> set (AList.update (pa_ID a) a as) \<Longrightarrow> (k, x) = (pa_ID a, a) \<or> (k, x) \<in> set as" for k x
    using ok by (auto simp: wf_gomap_mem apps_ok_def split: if_splits)
  with ok v show ?thesis by (fastforce simp: apps_ok_def)
qed

lemma apps_ok_delete: "apps_ok as \<Longrightarrow> apps_ok (AList.delete k as)"
  by (auto simp: apps_ok_def AList.delete_eq wf_gomap_def intro: distinct_map_filter)

lemma pam_put_ok:
  assumes "pam_wf D m" and "valid_app a"
  shows "pam_present (pam_put D a m) = (pam_present m)(pa_ID a \<mapsto> a)" and "pam_wf D (pam_put D a m)"
proof -
  obtain as where as: "fst m = Some as" "apps_ok as" and D: "leveldb_spec D" "leveldb_writable D"
    using assms(1) by (auto simp: pam_wf_def)
  obtain db' where "pam_savePortmap D (Some (AList.update (pa_ID a) a as), snd m) = (None, Some (AList.update (pa_ID a) a as), db')"
    "pam_wf D (Some (AList.update (pa_ID a) a as), db')"
    using pam_save_ok [OF D apps_ok_update [OF as(2) assms(2)]] by blast
  with as show "pam_present (pam_put D a m) = (pam_present m)(pa_ID a \<mapsto> a)" "pam_wf D (pam_put D a m)"
    by (simp_all add: pam_put_def UpdatePortmapApp_def pam_present_def ID_Uint64_def)
qed

lemma pam_del_ok:
  assumes "pam_wf D m"
  shows "pam_present (snd (pam_DelPortmapApp D k m)) = (pam_present m)(k := None)"
    and "pam_wf D (snd (pam_DelPortmapApp D k m))"
proof -
  obtain as where as: "fst m = Some as" "apps_ok as" and D: "leveldb_spec D" "leveldb_writable D"
    using assms(1) by (auto simp: pam_wf_def)
  obtain db' where "pam_savePortmap D (Some (AList.delete k as), snd m) = (None, Some (AList.delete k as), db')"
    "pam_wf D (Some (AList.delete k as), db')"
    using pam_save_ok [OF D apps_ok_delete [OF as(2)]] by blast
  with as show "pam_present (snd (pam_DelPortmapApp D k m)) = (pam_present m)(k := None)"
    "pam_wf D (snd (pam_DelPortmapApp D k m))"
    by (simp_all add: pam_DelPortmapApp_def pam_present_def)
qed

lemma pam_reload_ok:
  assumes "pam_wf D m"
  shows "\<exists>m'. pam_reload D m = Some m' \<and> pam_present m' = pam_present m \<and> pam_wf D m'"
proof -
  obtain as as' where "fst m = Some as" "pam_reload D m = Some (Some as', snd m)" "map_of as' = map_of as" "apps_ok as'"
    using assms by (auto simp: pam_wf_def)
  moreover from this have "pam_reload D (Some as', snd m) = Some (Some as', snd m)" by (simp add: pam_reload_def)
  ultimately show ?thesis using assms by (auto simp: pam_present_def pam_wf_def)
qed

interpretation pam: durable_table pam_present pa_ID "pam_put D" "\<lambda>k m. snd (pam_DelPortmapApp D k m)"
  valid_app "pam_wf D" "pam_reload D" for D
  by unfold_locales (simp_all add: pam_put_ok pam_del_ok pam_reload_ok del: split_paired_Ex)

text \<open>What \<open>LoadPortmapApps\<close> finds in the database of a manager that is in order.\<close>

lemma pam_load:
  assumes "pam_wf D m" and "\<And>xs. ranges (visit xs) xs"
  obtains xs where "LoadPortmapApps D visit (NewPortmapAppMgr (snd m)) = Inr (map snd (visit xs), Some xs, snd m)"
    and "map_of xs = pam_present m" and "apps_ok xs" and "pam_wf D (Some xs, snd m)"
proof -
  obtain as xs where as: "fst m = Some as" and xs: "pam_reload D m = Some (Some xs, snd m)" "map_of xs = map_of as" "apps_ok xs"
    using assms(1) by (auto simp: pam_wf_def)
  have "pam_reload D (Some xs, snd m) = Some (Some xs, snd m)" using xs(1) by (simp add: pam_reload_def)
  with assms(1) xs(3) have wf: "pam_wf D (Some xs, snd m)" by (auto simp: pam_wf_def)
  have e: "visit [] = []" using assms(2) [of "[]"] by (simp add: ranges_def)
  have "LoadPortmapApps D visit (NewPortmapAppMgr (snd m)) = Inr (map snd (visit xs), Some xs, snd m)"
    using xs(1) e
    by (auto simp: pam_reload_def LoadPortmapApps_def NewPortmapAppMgr_def GetPortmapApps_def split: sum.splits option.splits if_splits)
  with that as xs wf show thesis by (simp add: pam_present_def)
qed

section \<open>Properties\<close>

lemma pam_fresh:
  "leveldb_spec D \<Longrightarrow> leveldb_writable D \<Longrightarrow> db_Get D db keyPortmapApps = Inl ErrNotFound \<Longrightarrow>
   pam_wf D (NewPortmapAppMgr db)"
  by (simp add: pam_wf_def NewPortmapAppMgr_def apps_ok_def pam_reload_def LoadPortmapApps_def)

text \<open>
  C25: started on a database without applications, the manager does what a map does through every
  history of updates, deletions and restarts. An application is found under its identifier exactly
  when the history leaves it there, none of the calls panics, and a restart loads, in some order,
  each of them once.
\<close>

theorem apps_durable:
  assumes "leveldb_spec D" and "leveldb_writable D" and "db_Get D db keyPortmapApps = Inl ErrNotFound"
    and "list_all (op_valid valid_app) ops" and "\<And>xs. ranges (visit xs) xs"
  shows "\<exists>m as. run_ops (pam_put D) (\<lambda>k m. snd (pam_DelPortmapApp D k m)) (pam_reload D) ops (NewPortmapAppMgr db) = Some m
    \<and> (\<forall>i. GetPortmapApp i m = fold (map_op pa_ID) ops Map.empty i)
    \<and> (\<forall>a. UpdatePortmapApp D a m \<noteq> Panic)
    \<and> (\<exists>m'. LoadPortmapApps D visit (NewPortmapAppMgr (snd m)) = Inr (as, m'))
    \<and> distinct as \<and> set as = ran (fold (map_op pa_ID) ops Map.empty)"
proof -
  obtain m where m: "run_ops (pam_put D) (\<lambda>k m. snd (pam_DelPortmapApp D k m)) (pam_reload D) ops (NewPortmapAppMgr db) = Some m"
    "pam_wf D m" "pam_present m = fold (map_op pa_ID) ops (pam_present (NewPortmapAppMgr db))"
    using pam.run_ops_refines [OF pam_fresh [OF assms(1-3)] assms(4)] by blast
  then have p: "pam_present m = fold (map_op pa_ID) ops Map.empty" by (simp add: pam_present_def NewPortmapAppMgr_def)
  from m(2) obtain xs where xs: "fst m = Some xs" by (auto simp: pam_wf_def)
  obtain xs' where l: "LoadPortmapApps D visit (NewPortmapAppMgr (snd m)) = Inr (map snd (visit xs'), Some xs', snd m)"
    and xs': "map_of xs' = pam_present m" "apps_ok xs'"
    using pam_load [where visit = visit, OF m(2) assms(5)] by blast
  have ok: "wf_gomap xs'" "\<And>k a. (k, a) \<in> set xs' \<Longrightarrow> pa_ID a = k" using xs'(2) by (auto simp: apps_ok_def)
  have "distinct (map snd (visit xs'))" by (rule ranges_distinct [OF assms(5) ok])
  moreover have "set (map snd (visit xs')) = ran (fold (map_op pa_ID) ops Map.empty)"
    using ranges_values [OF assms(5) ok(1)] p xs'(1) by simp
  moreover have "UpdatePortmapApp D a m \<noteq> Panic" for a using xs by (simp add: UpdatePortmapApp_def)
  ultimately show ?thesis using m(1) p l unfolding GetPortmapApp_def pam_present_def by (metis (no_types, lifting))
qed

definition ssh_app :: PortmapApp where
  "ssh_app = zero_PortmapApp\<lparr>pa_ID := 5, pa_PeerID := ''peer'', pa_ResID := 7, pa_Network := ''tcp'', pa_LocalPort := 2222\<rparr>"

lemma valid_ssh_app: "valid_app ssh_app"
  by (simp add: valid_app_def ssh_app_def zero_PortmapApp_def int64_ok_def)

theorem apps_durable_witness:
  "\<exists>m as. run_ops (pam_put list_db) (\<lambda>k m. snd (pam_DelPortmapApp list_db k m)) (pam_reload list_db)
     [TPut ssh_app, TRestart] (NewPortmapAppMgr []) = Some m
   \<and> GetPortmapApp 5 m = Some ssh_app
   \<and> (\<exists>m'. LoadPortmapApps list_db rev (NewPortmapAppMgr (snd m)) = Inr (as, m')) \<and> set as = {ssh_app}"
proof -
  have ops: "list_all (op_valid valid_app) [TPut ssh_app, TRestart]" by (simp add: valid_ssh_app)
  have v: "\<And>xs :: (uint64, PortmapApp) gomap. ranges (rev xs) xs" by (simp add: ranges_def)
  have f: "fold (map_op pa_ID) [TPut ssh_app, TRestart] Map.empty = [5 \<mapsto> ssh_app]" by (simp add: ssh_app_def)
  from apps_durable [OF list_db_spec list_db_empty ops v, unfolded f] show ?thesis by fastforce
qed

text \<open>
  \<open>FindAppWithPort\<close> returns an application of the manager on that network and port whenever there
  is one, and the zero application otherwise, in whatever order the runtime visits the map.
\<close>

theorem FindAppWithPort_correct:
  assumes "pam_wf D m" and "\<And>xs. ranges (visit xs) xs"
  shows "if \<exists>i a. GetPortmapApp i m = Some a \<and> pa_LocalPort a = port \<and> pa_Network a = network
    then \<exists>i a. FindAppWithPort visit network port m = a \<and> GetPortmapApp i m = Some a
               \<and> pa_LocalPort a = port \<and> pa_Network a = network
    else FindAppWithPort visit network port m = zero_PortmapApp"
proof -
  let ?P = "\<lambda>a. pa_LocalPort a = port \<and> pa_Network a = network" and ?vs = "map snd (visit (made (fst m)))"
  have w: "wf_gomap (made (fst m))" using assms(1) by (auto simp: pam_wf_def apps_ok_def)
  have mem: "a \<in> set ?vs \<longleftrightarrow> (\<exists>i. GetPortmapApp i m = Some a)" for a
    using ranges_values [OF assms(2) w] by (simp add: GetPortmapApp_def ran_def)
  show ?thesis
  proof (cases "List.find ?P ?vs")
    case None
    then have "\<forall>a \<in> set ?vs. \<not> ?P a" unfolding find_None_all .
    with mem have "\<not> (\<exists>i a. GetPortmapApp i m = Some a \<and> ?P a)" by blast
    with None show ?thesis by (simp add: FindAppWithPort_def) blast
  next
    case (Some a)
    then have "a \<in> set ?vs" "?P a" using find_Some_in [OF Some] by auto
    moreover from this mem obtain i where "GetPortmapApp i m = Some a" by blast
    ultimately show ?thesis using Some by (auto simp: FindAppWithPort_def)
  qed
qed

theorem FindAppWithPort_correct_witness:
  "FindAppWithPort rev ''tcp'' 2222 (pam_put list_db ssh_app (NewPortmapAppMgr [])) = ssh_app"
proof -
  let ?m = "pam_put list_db ssh_app (NewPortmapAppMgr [])"
  have fresh: "pam_wf list_db (NewPortmapAppMgr [])" by (rule pam_fresh [OF list_db_spec list_db_empty])
  have wf: "pam_wf list_db ?m" by (rule pam_put_ok(2) [OF fresh valid_ssh_app])
  have v: "\<And>xs :: (uint64, PortmapApp) gomap. ranges (rev xs) xs" by (simp add: ranges_def)
  have g: "GetPortmapApp i ?m = (if i = 5 then Some ssh_app else None)" for i
    using fun_cong [OF pam_put_ok(1) [OF fresh valid_ssh_app], of i]
    by (simp add: GetPortmapApp_def pam_present_def NewPortmapAppMgr_def ssh_app_def)
  have "pa_LocalPort ssh_app = 2222" "pa_Network ssh_app = ''tcp''" by (simp_all add: ssh_app_def)
  with FindAppWithPort_correct [OF wf v, of 2222 "''tcp''"] show ?thesis
    by (auto simp: g split: if_splits)
qed

end
