(* ===== verification/ProxyService.thy ===== *)
theory ProxyService
  imports TypesID Store
begin

text \<open>
  \<open>gateway/proxy_service.go\<close>: the configuration of the SOCKS service a gateway offers, one JSON object
  in the database.
\<close>

record proxyServiceConfig =
  psc_Route :: string
  psc_DNS :: string
  psc_ProxyAddr :: string
  psc_ProxyUser :: string
  psc_ProxyPass :: string

definition zero_proxyServiceConfig :: proxyServiceConfig where
  "zero_proxyServiceConfig =
     \<lparr>psc_Route = [], psc_DNS = [], psc_ProxyAddr = [], psc_ProxyUser = [], psc_ProxyPass = []\<rparr>"

definition enc_proxyServiceConfig :: "proxyServiceConfig \<Rightarrow> json" where
  "enc_proxyServiceConfig c = JObj
     [(''route'', JStr (psc_Route c)), (''dns'', JStr (psc_DNS c)), (''proxy_addr'', JStr (psc_ProxyAddr c)),
      (''proxy_user'', JStr (psc_ProxyUser c)), (''proxy_pass'', JStr (psc_ProxyPass c))]"

definition proxyServiceConfig_fields :: "proxyServiceConfig field list" where
  "proxyServiceConfig_fields =
     [(''route'', str_field psc_Route_update), (''dns'', str_field psc_DNS_update),
      (''proxy_addr'', str_field psc_ProxyAddr_update), (''proxy_user'', str_field psc_ProxyUser_update),
      (''proxy_pass'', str_field psc_ProxyPass_update)]"

type_synonym 'db proxyService = "proxyServiceConfig \<times> 'db"

definition keyProxyServiceConfig :: string where
  "keyProxyServiceConfig = ''proxy_service_config''"

text \<open>\<open>loadConfig\<close> stores into the configuration at hand.\<close>

definition loadConfig :: "'db leveldb \<Rightarrow> 'db proxyService \<Rightarrow> error + 'db proxyService" where
  "loadConfig D ps =
     (case db_Get D (snd ps) keyProxyServiceConfig of
        Inl err \<Rightarrow> if err \<noteq> ErrNotFound then Inl err else Inr ps
      | Inr v \<Rightarrow>
          (case unmarshal (\<lambda>j. decode_struct proxyServiceConfig_fields j (fst ps)) v of
             None \<Rightarrow> Inl ErrJSON
           | Some c \<Rightarrow> Inr (c, snd ps)))"

definition saveConfig :: "'db leveldb \<Rightarrow> 'db proxyService \<Rightarrow> error option \<times> 'db proxyService" where
  "saveConfig D ps =
     (case db_Put D (snd ps) keyProxyServiceConfig (jprint (enc_proxyServiceConfig (fst ps))) of
        (err, db') \<Rightarrow> (err, fst ps, db'))"

definition getConfig :: "'db proxyService \<Rightarrow> proxyServiceConfig" where
  "getConfig ps = fst ps"

definition ps_set :: "'db leveldb \<Rightarrow> proxyServiceConfig \<Rightarrow> 'db proxyService \<Rightarrow> error option \<times> 'db proxyService" where
  "ps_set D config ps = saveConfig D (config, snd ps)"

definition setDNS :: "'db leveldb \<Rightarrow> string \<Rightarrow> 'db proxyService \<Rightarrow> error option \<times> 'db proxyService" where
  "setDNS D dns ps = saveConfig D ((fst ps)\<lparr>psc_DNS := dns\<rparr>, snd ps)"

definition setProxy ::
  "'db leveldb \<Rightarrow> string \<Rightarrow> string \<Rightarrow> string \<Rightarrow> 'db proxyService \<Rightarrow> error option \<times> 'db proxyService" where
  "setProxy D addr user pass ps =
     saveConfig D ((fst ps)\<lparr>psc_ProxyAddr := addr, psc_ProxyUser := user, psc_ProxyPass := pass\<rparr>, snd ps)"

definition valid_config :: "proxyServiceConfig \<Rightarrow> bool" where
  "valid_config c \<longleftrightarrow>
     utf8_valid (psc_Route c) \<and> utf8_valid (psc_DNS c) \<and> utf8_valid (psc_ProxyAddr c)
     \<and> utf8_valid (psc_ProxyUser c) \<and> utf8_valid (psc_ProxyPass c)"

lemma dec_enc_config:
  "decode_struct proxyServiceConfig_fields (enc_proxyServiceConfig c) c0 = Some c"
  by (simp add: enc_proxyServiceConfig_def proxyServiceConfig_fields_def decode_struct_def find_field_def str_field_def)

lemma wf_enc_config: "valid_config c \<Longrightarrow> wf_json (enc_proxyServiceConfig c) \<and> json_depth (enc_proxyServiceConfig c) \<le> 1"
  by (simp add: valid_config_def enc_proxyServiceConfig_def)

lemma dec_config_valid:
  assumes "decode_struct proxyServiceConfig_fields j c = Some c'" and "json_utf8 j" and "valid_config c"
  shows "valid_config c'"
  by (rule decode_struct_inv [where P = valid_config, OF _ assms(2,3,1)])
    (auto simp: proxyServiceConfig_fields_def valid_config_def dest!: field_cases)

section \<open>Properties\<close>

text \<open>
  A configuration that has been set without an error is what the service starts with the next
  time, whatever configuration it had before; the other keys of the database are untouched.
\<close>

theorem proxy_config_survives_restart:
  assumes "leveldb_spec D" and "valid_config c" and "ps_set D c ps = (None, c', db')"
  shows "c' = c \<and> loadConfig D (c0, db') = Inr (c, db')
    \<and> (\<forall>k. k \<noteq> keyProxyServiceConfig \<longrightarrow> db_Get D db' k = db_Get D (snd ps) k)"
proof -
  have p: "db_Put D (snd ps) keyProxyServiceConfig (jprint (enc_proxyServiceConfig c)) = (None, db')" and "c' = c"
    using assms(3) by (auto simp: ps_set_def saveConfig_def split: prod.splits)
  note g = put_get [OF assms(1) p]
  show ?thesis
    using g \<open>c' = c\<close> wf_enc_config [OF assms(2)] by (simp add: loadConfig_def dec_enc_config)
qed

theorem proxy_config_survives_restart_witness:
  "let c = zero_proxyServiceConfig\<lparr>psc_DNS := ''1.1.1.1''\<rparr>;
       db' = snd (snd (ps_set list_db c (zero_proxyServiceConfig, [])))
   in loadConfig list_db (zero_proxyServiceConfig, db') = Inr (c, db')"
proof -
  let ?c = "zero_proxyServiceConfig\<lparr>psc_DNS := ''1.1.1.1''\<rparr>"
  have v: "valid_config ?c" by (simp add: valid_config_def zero_proxyServiceConfig_def)
  obtain db' where p: "ps_set list_db ?c (zero_proxyServiceConfig, []) = (None, ?c, db')"
    by (simp add: ps_set_def saveConfig_def list_db_def)
  from proxy_config_survives_restart [OF list_db_spec(1) v p, of zero_proxyServiceConfig] p show ?thesis by simp
qed

end
