(* ===== verification/AuthMessages.thy ===== *)
theory AuthMessages
  imports TypesID GoIO
begin

text \<open>
  The messages of \<open>gateway/authorize.go\<close> and its client side, \<open>ResourceAuthorize\<close>: one JSON object in
  each direction over a stream of protocol \<open>/resource/authorize/1.0.0\<close>, each read with a single
  \<open>Read\<close> into 1024 bytes. A pointer is an option; \<open>omitempty\<close> leaves a nil pointer out.
\<close>

abbreviation (input) AuthorizeTypePortmap :: int where "AuthorizeTypePortmap \<equiv> 1"
abbreviation (input) AuthorizeTypeProxy :: int where "AuthorizeTypeProxy \<equiv> 2"

record AuthorizePortmapInfo =
  ai_ResourceID :: ID

record AuthorizeProxyInfo =
  ai_Token :: ID
  ai_Route :: string
  ai_Dns :: string

record AuthorizeReq =
  aq_Type :: int
  aq_Portmap :: "AuthorizePortmapInfo option"
  aq_Proxy :: "AuthorizeProxyInfo option"

record AuthorizePortmapResp =
  ap_IsTrial :: bool

record AuthorizeProxyResp =
  ap_Route :: string
  ap_Dns :: string

record AuthorizeResp =
  as_NodeName :: string
  as_Err :: string
  as_Portmap :: "AuthorizePortmapResp option"
  as_Proxy :: "AuthorizeProxyResp option"

definition omit_nil :: "string \<Rightarrow> ('a \<Rightarrow> json) \<Rightarrow> 'a option \<Rightarrow> (string \<times> json) list" where
  "omit_nil k enc x = (case x of None \<Rightarrow> [] | Some v \<Rightarrow> [(k, enc v)])"

definition enc_AuthorizeReq :: "AuthorizeReq \<Rightarrow> json" where
  "enc_AuthorizeReq r = JObj
     ([(''type'', JNum (Itoa (aq_Type r)))]
      @ omit_nil ''portmap'' (\<lambda>p. JObj [(''resource_id'', ID_MarshalJSON (ai_ResourceID p))]) (aq_Portmap r)
      @ omit_nil ''proxy'' (\<lambda>p. JObj [(''token'', ID_MarshalJSON (ai_Token p)), (''route'', JStr (ai_Route p)),
                                       (''dns'', JStr (ai_Dns p))]) (aq_Proxy r))"

definition AuthorizeReq_fields :: "AuthorizeReq field list" where
  "AuthorizeReq_fields =
     [(''type'', int_field aq_Type_update),
      (''portmap'', ptr_field \<lparr>ai_ResourceID = 0\<rparr> [(''resource_id'', id_field ai_ResourceID_update)]
                     aq_Portmap aq_Portmap_update),
      (''proxy'', ptr_field \<lparr>ai_Token = 0, ai_Route = [], ai_Dns = []\<rparr>
                   [(''token'', id_field ai_Token_update), (''route'', str_field ai_Route_update),
                    (''dns'', str_field ai_Dns_update)] aq_Proxy aq_Proxy_update)]"

definition dec_AuthorizeReq :: "json \<Rightarrow> AuthorizeReq option" where
  "dec_AuthorizeReq j = decode_struct AuthorizeReq_fields j \<lparr>aq_Type = 0, aq_Portmap = None, aq_Proxy = None\<rparr>"

definition enc_AuthorizeResp :: "AuthorizeResp \<Rightarrow> json" where
  "enc_AuthorizeResp r = JObj
     ([(''node_name'', JStr (as_NodeName r)), (''err'', JStr (as_Err r))]
      @ omit_nil ''portmap'' (\<lambda>p. JObj [(''is_trial'', JBool (ap_IsTrial p))]) (as_Portmap r)
      @ omit_nil ''proxy'' (\<lambda>p. JObj [(''route'', JStr (ap_Route p)), (''dns'', JStr (ap_Dns p))]) (as_Proxy r))"

definition AuthorizeResp_fields :: "AuthorizeResp field list" where
  "AuthorizeResp_fields =
     [(''node_name'', str_field as_NodeName_update), (''err'', str_field as_Err_update),
      (''portmap'', ptr_field \<lparr>ap_IsTrial = False\<rparr> [(''is_trial'', bool_field ap_IsTrial_update)]
                     as_Portmap as_Portmap_update),
      (''proxy'', ptr_field \<lparr>ap_Route = [], ap_Dns = []\<rparr>
                   [(''route'', str_field ap_Route_update), (''dns'', str_field ap_Dns_update)]
                   as_Proxy as_Proxy_update)]"

definition zero_AuthorizeResp :: AuthorizeResp where
  "zero_AuthorizeResp = \<lparr>as_NodeName = [], as_Err = [], as_Portmap = None, as_Proxy = None\<rparr>"

definition dec_AuthorizeResp :: "json \<Rightarrow> AuthorizeResp option" where
  "dec_AuthorizeResp j = decode_struct AuthorizeResp_fields j zero_AuthorizeResp"

section \<open>The client\<close>

text \<open>
  What libp2p does is a parameter: decoding a peer identifier and opening a stream to it. Errors of
  writing are ignored; the stream is closed on the way out. The result carries the stream as it is
  left, when one was opened.
\<close>

record p2p_env =
  peer_Decode :: "string \<Rightarrow> error + string"
  host_NewStream :: "string \<Rightarrow> error + char conn"

definition ResourceAuthorize ::
  "p2p_env \<Rightarrow> string \<Rightarrow> AuthorizeReq \<Rightarrow> (error + AuthorizeResp) \<times> char conn option" where
  "ResourceAuthorize h peerID req =
     (case peer_Decode h peerID of
        Inl err \<Rightarrow> (Inl err, None)
      | Inr pid \<Rightarrow>
          (case host_NewStream h pid of
             Inl err \<Rightarrow> (Inl err, None)
           | Inr s \<Rightarrow>
               (case conn_write (jprint (enc_AuthorizeReq req)) s of
                  (_, _, s1) \<Rightarrow>
                    (case conn_read 1024 s1 of
                       (buf, Some err, s2) \<Rightarrow> (Inl err, Some (conn_close s2))
                     | (buf, None, s2) \<Rightarrow>
                         (case unmarshal dec_AuthorizeResp buf of
                            None \<Rightarrow> (Inl ErrJSON, Some (conn_close s2))
                          | Some resp \<Rightarrow> (Inr resp, Some (conn_close s2)))))))"

section \<open>Messages through their text\<close>

definition valid_req :: "AuthorizeReq \<Rightarrow> bool" where
  "valid_req r \<longleftrightarrow> int64_ok (aq_Type r)
     \<and> (case aq_Proxy r of None \<Rightarrow> True | Some p \<Rightarrow> utf8_valid (ai_Route p) \<and> utf8_valid (ai_Dns p))"

definition valid_resp :: "AuthorizeResp \<Rightarrow> bool" where
  "valid_resp r \<longleftrightarrow> utf8_valid (as_NodeName r) \<and> utf8_valid (as_Err r)
     \<and> (case as_Proxy r of None \<Rightarrow> True | Some p \<Rightarrow> utf8_valid (ap_Route p) \<and> utf8_valid (ap_Dns p))"

lemmas msg_defs = decode_struct_def find_field_def str_field_def int_field_def bool_field_def id_field_def
  ptr_field_def omit_nil_def

lemma dec_enc_AuthorizeReq: "valid_req r \<Longrightarrow> dec_AuthorizeReq (enc_AuthorizeReq r) = Some r"
  by (cases "aq_Portmap r"; cases "aq_Proxy r")
    (simp_all add: valid_req_def dec_AuthorizeReq_def enc_AuthorizeReq_def AuthorizeReq_fields_def msg_defs
      ID_MarshalJSON_def [symmetric])

lemma wf_enc_AuthorizeReq: "valid_req r \<Longrightarrow> wf_json (enc_AuthorizeReq r) \<and> json_depth (enc_AuthorizeReq r) \<le> 2"
  by (cases "aq_Portmap r"; cases "aq_Proxy r")
    (auto simp: valid_req_def enc_AuthorizeReq_def omit_nil_def)

lemma dec_enc_AuthorizeResp: "dec_AuthorizeResp (enc_AuthorizeResp r) = Some r"
  by (cases "as_Portmap r"; cases "as_Proxy r")
    (simp_all add: dec_AuthorizeResp_def enc_AuthorizeResp_def AuthorizeResp_fields_def zero_AuthorizeResp_def msg_defs)

lemma wf_enc_AuthorizeResp: "valid_resp r \<Longrightarrow> wf_json (enc_AuthorizeResp r) \<and> json_depth (enc_AuthorizeResp r) \<le> 2"
  by (cases "as_Portmap r"; cases "as_Proxy r")
    (auto simp: valid_resp_def enc_AuthorizeResp_def omit_nil_def)

interpretation reqc: codec "\<lambda>r. jprint (enc_AuthorizeReq r)" "unmarshal dec_AuthorizeReq" valid_req
  by unfold_locales (use wf_enc_AuthorizeReq dec_enc_AuthorizeReq in fastforce)

interpretation respc: codec "\<lambda>r. jprint (enc_AuthorizeResp r)" "unmarshal dec_AuthorizeResp" valid_resp
  by unfold_locales (use wf_enc_AuthorizeResp dec_enc_AuthorizeResp in fastforce)

end
