(* ===== verification/Outbounds.thy ===== *)
theory Outbounds
  imports AuthMessages ProxyRouter Store
begin

text \<open>
  \<open>gateway/proxy_client.go\<close>: the outbounds of a gateway (networks it reaches through the SOCKS service
  of another gateway), their storage, the routes they have in the router and in the operating
  system, and the dial decision. The tun stack, netlink and libp2p are the environment.
\<close>

section \<open>Outbounds\<close>

record PeerWithAuth =
  pw_ID :: string
  pw_UserName :: "byte list"
  pw_Password :: "byte list"

record socksOutbound =
  so_ID :: ID
  so_Remark :: string
  so_Open :: bool
  so_Peer :: string
  so_PeerName :: string
  so_Token :: ID
  so_Route :: string
  so_routeNet :: "IPNet option"
  so_socks5Peer :: PeerWithAuth

definition zero_peer :: PeerWithAuth where
  "zero_peer = \<lparr>pw_ID = [], pw_UserName = [], pw_Password = []\<rparr>"

definition zero_socksOutbound :: socksOutbound where
  "zero_socksOutbound =
     \<lparr>so_ID = 0, so_Remark = [], so_Open = False, so_Peer = [], so_PeerName = [], so_Token = 0, so_Route = [],
      so_routeNet = None, so_socks5Peer = zero_peer\<rparr>"

text \<open>The two unexported fields are not part of the JSON.\<close>

definition enc_socksOutbound :: "socksOutbound \<Rightarrow> json" where
  "enc_socksOutbound ob = JObj
     [(''id'', ID_MarshalJSON (so_ID ob)), (''remark'', JStr (so_Remark ob)), (''open'', JBool (so_Open ob)),
      (''peer'', JStr (so_Peer ob)), (''peer_name'', JStr (so_PeerName ob)), (''token'', ID_MarshalJSON (so_Token ob)),
      (''route'', JStr (so_Route ob))]"

definition socksOutbound_fields :: "socksOutbound field list" where
  "socksOutbound_fields =
     [(''id'', id_field so_ID_update), (''remark'', str_field so_Remark_update), (''open'', bool_field so_Open_update),
      (''peer'', str_field so_Peer_update), (''peer_name'', str_field so_PeerName_update),
      (''token'', id_field so_Token_update), (''route'', str_field so_Route_update)]"

definition dec_socksOutbound :: "json \<Rightarrow> socksOutbound option" where
  "dec_socksOutbound j = decode_struct socksOutbound_fields j zero_socksOutbound"

definition socks5OutboundFillRunningInfo :: "p2p_env \<Rightarrow> socksOutbound \<Rightarrow> error option \<times> socksOutbound" where
  "socks5OutboundFillRunningInfo h ob =
     (case peer_Decode h (so_Peer ob) of
        Inl err \<Rightarrow> (Some err, ob)
      | Inr pid \<Rightarrow>
          (case ParseCIDR (so_Route ob) of
             None \<Rightarrow> (Some (ErrNew (''invalid CIDR address: '' @ so_Route ob)), ob)
           | Some n \<Rightarrow>
               let tokenBytes = le_bytes64 (ID_Uint64 (so_Token ob))
               in (None, ob\<lparr>so_routeNet := Some n,
                            so_socks5Peer := \<lparr>pw_ID = pid, pw_UserName = tokenBytes, pw_Password = tokenBytes\<rparr>\<rparr>)))"

section \<open>The manager\<close>

type_synonym 'db socks5ProxyManager = "(ID, socksOutbound) gomap option \<times> 'db"

definition keySocksOutbound :: string where
  "keySocksOutbound = ''socks_outbound''"

definition saveOutbounds :: "'db leveldb \<Rightarrow> 'db socks5ProxyManager \<Rightarrow> error option \<times> 'db socks5ProxyManager" where
  "saveOutbounds D m =
     (case m of
        (None, db) \<Rightarrow> (None, m)
      | (Some obs, db) \<Rightarrow>
          (case db_Put D db keySocksOutbound (jprint (encode_map enc_socksOutbound (Some obs))) of
             (err, db') \<Rightarrow> (err, Some obs, db')))"

text \<open>
  Loading decodes pointers: a \<open>null\<close> entry is a nil pointer, on which filling in the running
  information panics; errors of filling in are ignored.
\<close>

definition dec_outbound_ptr :: "json \<Rightarrow> socksOutbound option option" where
  "dec_outbound_ptr j = (case j of JNull \<Rightarrow> Some None | _ \<Rightarrow> map_option Some (dec_socksOutbound j))"

definition loadOutbounds ::
  "'db leveldb \<Rightarrow> p2p_env \<Rightarrow> 'db socks5ProxyManager \<Rightarrow> (error + 'db socks5ProxyManager) outcome" where
  "loadOutbounds D h m =
     (case db_Get D (snd m) keySocksOutbound of
        Inl err \<Rightarrow> Return (if err \<noteq> ErrNotFound then Inl err else Inr m)
      | Inr v \<Rightarrow>
          (case unmarshal (\<lambda>j. decode_map dec_outbound_ptr j (map_option (map (\<lambda>(k, ob). (k, Some ob))) (fst m))) v of
             None \<Rightarrow> Return (Inl ErrJSON)
           | Some None \<Rightarrow> Return (Inr (None, snd m))
           | Some (Some obs) \<Rightarrow>
               if list_ex (\<lambda>(k, p). p = None) obs then Panic
               else Return (Inr (Some (map (\<lambda>(k, p). (k, snd (socks5OutboundFillRunningInfo h (the p)))) obs), snd m))))"

definition NewSocksOutboundsManager ::
  "'db leveldb \<Rightarrow> p2p_env \<Rightarrow> 'db \<Rightarrow> (error + 'db socks5ProxyManager) outcome" where
  "NewSocksOutboundsManager D h db = loadOutbounds D h (None, db)"

definition mgr_AddOutbound ::
  "'db leveldb \<Rightarrow> p2p_env \<Rightarrow> socksOutbound \<Rightarrow> 'db socks5ProxyManager
     \<Rightarrow> error option \<times> socksOutbound \<times> 'db socks5ProxyManager" where
  "mgr_AddOutbound D h ob m =
     (case socks5OutboundFillRunningInfo h ob of
        (Some err, ob') \<Rightarrow> (Some err, ob', m)
      | (None, ob') \<Rightarrow>
          (case saveOutbounds D (Some (AList.update (so_ID ob') ob' (made (fst m))), snd m) of
             (err, m') \<Rightarrow> (err, ob', m')))"

definition mgr_UpdateOutbound ::
  "'db leveldb \<Rightarrow> p2p_env \<Rightarrow> socksOutbound \<Rightarrow> 'db socks5ProxyManager
     \<Rightarrow> error option \<times> socksOutbound \<times> 'db socks5ProxyManager" where
  "mgr_UpdateOutbound D h ob m =
     (case socks5OutboundFillRunningInfo h ob of
        (Some err, ob') \<Rightarrow> (Some err, ob', m)
      | (None, ob') \<Rightarrow>
          (case saveOutbounds D (Some (AList.update (so_ID ob') ob' (made (fst m))), snd m) of
             (err, m') \<Rightarrow> (err, ob', m')))"

definition mgr_DeleteOutbound ::
  "'db leveldb \<Rightarrow> ID \<Rightarrow> 'db socks5ProxyManager
     \<Rightarrow> (socksOutbound option \<times> error option) \<times> 'db socks5ProxyManager" where
  "mgr_DeleteOutbound D i m =
     (case fst m of
        None \<Rightarrow> ((None, None), m)
      | Some obs \<Rightarrow>
          (case map_of obs i of
             None \<Rightarrow> ((None, None), m)
           | Some ob \<Rightarrow>
               (case saveOutbounds D (Some (AList.delete i obs), snd m) of
                  (err, m') \<Rightarrow> ((Some ob, err), m'))))"

text \<open>A missing key is a nil pointer.\<close>

definition GetOutbound :: "ID \<Rightarrow> 'db socks5ProxyManager \<Rightarrow> socksOutbound option \<times> 'db socks5ProxyManager" where
  "GetOutbound i m = (map_of (made (fst m)) i, Some (made (fst m)), snd m)"

definition ListOutbounds ::
  "((ID, socksOutbound) gomap \<Rightarrow> (ID, socksOutbound) gomap) \<Rightarrow> 'db socks5ProxyManager \<Rightarrow> socksOutbound list" where
  "ListOutbounds visit m = map snd (visit (made (fst m)))"

section \<open>The client\<close>

text \<open>A dialer is the peer it dials through, with its credentials.\<close>

type_synonym dialer = PeerWithAuth

record client_env =
  ce_p2p :: p2p_env
  ce_avl :: "dialer avltree"
  ce_tunStart :: "error option"
  ce_setTunAddr :: "error option"
  ce_tunStop :: "error option"
  ce_RouteAdd :: "IPNet \<Rightarrow> error option"
  ce_RouteDel :: "IPNet \<Rightarrow> error option"

record 'db proxyClient =
  pc_mgr :: "'db socks5ProxyManager"
  pc_router :: "dialer proxyRouter"
  pc_tunStackRunning :: bool
  pc_osRoutes :: "IPNet list"

definition newProxyClient ::
  "'db leveldb \<Rightarrow> client_env \<Rightarrow> 'db \<Rightarrow> (error + 'db proxyClient) outcome" where
  "newProxyClient D env db =
     (case NewSocksOutboundsManager D (ce_p2p env) db of
        Panic \<Rightarrow> Panic
      | Return (Inl err) \<Rightarrow> Return (Inl err)
      | Return (Inr m) \<Rightarrow>
          Return (Inr \<lparr>pc_mgr = m, pc_router = newProxyRouter (ce_avl env), pc_tunStackRunning = False, pc_osRoutes = []\<rparr>))"

text \<open>\<open>addRoute\<close> and \<open>delRoute\<close> of \<open>sys_linux.go\<close>: the route goes to the kernel.\<close>

definition sys_addRoute :: "client_env \<Rightarrow> string \<Rightarrow> IPNet list \<Rightarrow> error option \<times> IPNet list" where
  "sys_addRoute env dst rs =
     (case ParseCIDR dst of
        None \<Rightarrow> (Some (ErrNew (''invalid CIDR address: '' @ dst)), rs)
      | Some n \<Rightarrow> (case ce_RouteAdd env n of Some err \<Rightarrow> (Some err, rs) | None \<Rightarrow> (None, n # rs)))"

definition sys_delRoute :: "client_env \<Rightarrow> string \<Rightarrow> IPNet list \<Rightarrow> error option \<times> IPNet list" where
  "sys_delRoute env dst rs =
     (case ParseCIDR dst of
        None \<Rightarrow> (Some (ErrNew (''invalid CIDR address: '' @ dst)), rs)
      | Some n \<Rightarrow> (case ce_RouteDel env n of Some err \<Rightarrow> (Some err, rs) | None \<Rightarrow> (None, remove1 n rs)))"

definition addOutboundRoute ::
  "client_env \<Rightarrow> socksOutbound \<Rightarrow> dialer \<Rightarrow> 'db proxyClient \<Rightarrow> (error option \<times> 'db proxyClient) outcome" where
  "addOutboundRoute env ob d pc =
     (case addRoute (ce_avl env) (so_routeNet ob) d (pc_router pc) of
        Panic \<Rightarrow> Panic
      | Return (_, r) \<Rightarrow>
          (case sys_addRoute env (so_Route ob) (pc_osRoutes pc) of
             (err, rs) \<Rightarrow> Return (err, pc\<lparr>pc_router := r, pc_osRoutes := rs\<rparr>)))"

definition DeleteOutboundRoute ::
  "client_env \<Rightarrow> socksOutbound \<Rightarrow> 'db proxyClient \<Rightarrow> (error option \<times> 'db proxyClient) outcome" where
  "DeleteOutboundRoute env ob pc =
     (case delRoute (ce_avl env) (so_routeNet ob) (pc_router pc) of
        Panic \<Rightarrow> Panic
      | Return r \<Rightarrow>
          (case sys_delRoute env (so_Route ob) (pc_osRoutes pc) of
             (err, rs) \<Rightarrow> Return (err, pc\<lparr>pc_router := r, pc_osRoutes := rs\<rparr>)))"

definition startTunStack :: "client_env \<Rightarrow> 'db proxyClient \<Rightarrow> error option \<times> 'db proxyClient" where
  "startTunStack env pc =
     (if pc_tunStackRunning pc then (None, pc)
      else case ce_tunStart env of
        Some err \<Rightarrow> (Some err, pc)
      | None \<Rightarrow>
          (case ce_setTunAddr env of
             Some err \<Rightarrow> (Some err, pc)
           | None \<Rightarrow> (None, pc\<lparr>pc_tunStackRunning := True\<rparr>)))"

definition stopTunStack :: "client_env \<Rightarrow> 'db proxyClient \<Rightarrow> error option \<times> 'db proxyClient" where
  "stopTunStack env pc =
     (if \<not> pc_tunStackRunning pc then (None, pc)
      else case ce_tunStop env of
        Some err \<Rightarrow> (Some err, pc)
      | None \<Rightarrow> (None, pc\<lparr>pc_tunStackRunning := False\<rparr>))"

definition CheckPeer :: "client_env \<Rightarrow> string \<Rightarrow> ID \<Rightarrow> error + string" where
  "CheckPeer env peer token =
     (case fst (ResourceAuthorize (ce_p2p env) peer
             \<lparr>aq_Type = AuthorizeTypeProxy, aq_Portmap = None,
              aq_Proxy = Some \<lparr>ai_Token = token, ai_Route = [], ai_Dns = []\<rparr>\<rparr>) of
        Inl err \<Rightarrow> Inl err
      | Inr rsp \<Rightarrow> if as_Err rsp \<noteq> [] then Inl (ErrNew (as_Err rsp)) else Inr (as_NodeName rsp))"

text \<open>The dialer is made and routed; an error of the operating system's route is only logged.\<close>

definition route_open ::
  "client_env \<Rightarrow> socksOutbound \<Rightarrow> 'db proxyClient \<Rightarrow> 'db proxyClient outcome" where
  "route_open env ob pc =
     (case addOutboundRoute env ob (so_socks5Peer ob) pc of Panic \<Rightarrow> Panic | Return (_, pc') \<Rightarrow> Return pc')"

definition pc_AddOutbound ::
  "'db leveldb \<Rightarrow> client_env \<Rightarrow> socksOutbound \<Rightarrow> 'db proxyClient \<Rightarrow> (error option \<times> 'db proxyClient) outcome" where
  "pc_AddOutbound D env ob pc =
     (case CheckPeer env (so_Peer ob) (so_Token ob) of
        Inl err \<Rightarrow> Return (Some err, pc)
      | Inr peerName \<Rightarrow>
          (case mgr_AddOutbound D (ce_p2p env) (ob\<lparr>so_PeerName := peerName\<rparr>) (pc_mgr pc) of
             (Some err, ob', m) \<Rightarrow> Return (Some err, pc\<lparr>pc_mgr := m\<rparr>)
           | (None, ob', m) \<Rightarrow>
               let pc1 = pc\<lparr>pc_mgr := m\<rparr>
               in if \<not> so_Open ob' then Return (None, pc1)
                  else (case startTunStack env pc1 of
                          (Some err, pc2) \<Rightarrow> Return (Some err, pc2)
                        | (None, pc2) \<Rightarrow>
                            (case route_open env ob' pc2 of Panic \<Rightarrow> Panic | Return pc3 \<Rightarrow> Return (None, pc3)))))"

definition pc_UpdateOutbound ::
  "'db leveldb \<Rightarrow> client_env \<Rightarrow> socksOutbound \<Rightarrow> 'db proxyClient \<Rightarrow> (error option \<times> 'db proxyClient) outcome" where
  "pc_UpdateOutbound D env ob pc =
     (case CheckPeer env (so_Peer ob) (so_Token ob) of
        Inl err \<Rightarrow> Return (Some err, pc)
      | Inr peerName \<Rightarrow>
          (case mgr_UpdateOutbound D (ce_p2p env) (ob\<lparr>so_PeerName := peerName\<rparr>) (pc_mgr pc) of
             (Some err, ob', m) \<Rightarrow> Return (Some err, pc\<lparr>pc_mgr := m\<rparr>)
           | (None, ob', m) \<Rightarrow>
               (case startTunStack env (pc\<lparr>pc_mgr := m\<rparr>) of
                  (Some err, pc2) \<Rightarrow> Return (Some err, pc2)
                | (None, pc2) \<Rightarrow>
                    if so_Open ob'
                    then (case route_open env ob' pc2 of Panic \<Rightarrow> Panic | Return pc3 \<Rightarrow> Return (None, pc3))
                    else Return (None, pc2))))"

definition pc_DeleteOutbound ::
  "'db leveldb \<Rightarrow> client_env \<Rightarrow> ID \<Rightarrow> 'db proxyClient \<Rightarrow> (error option \<times> 'db proxyClient) outcome" where
  "pc_DeleteOutbound D env i pc =
     (case mgr_DeleteOutbound D i (pc_mgr pc) of
        ((ob, Some err), m) \<Rightarrow> Return (Some err, pc\<lparr>pc_mgr := m\<rparr>)
      | ((None, None), m) \<Rightarrow> Return (None, pc\<lparr>pc_mgr := m\<rparr>)
      | ((Some ob, None), m) \<Rightarrow>
          (case delRoute (ce_avl env) (so_routeNet ob) (pc_router pc) of
             Panic \<Rightarrow> Panic
           | Return r \<Rightarrow> Return (None, pc\<lparr>pc_mgr := m, pc_router := r\<rparr>)))"

text \<open>The loops of \<open>Start\<close> and \<open>Stop\<close> over the listed outbounds.\<close>

fun start_loop ::
  "'db leveldb \<Rightarrow> client_env \<Rightarrow> socksOutbound list \<Rightarrow> 'db proxyClient \<Rightarrow> 'db proxyClient outcome" where
  "start_loop D env [] pc = Return pc"
| "start_loop D env (ob # obs) pc =
     (if \<not> so_Open ob then start_loop D env obs pc
      else case startTunStack env pc of
        (Some err, pc1) \<Rightarrow>
          (case mgr_UpdateOutbound D (ce_p2p env) (ob\<lparr>so_Open := False\<rparr>) (pc_mgr pc1) of
             (_, _, m) \<Rightarrow> start_loop D env obs (pc1\<lparr>pc_mgr := m\<rparr>))
      | (None, pc1) \<Rightarrow>
          (case route_open env ob pc1 of Panic \<Rightarrow> Panic | Return pc2 \<Rightarrow> start_loop D env obs pc2))"

definition pc_Start ::
  "'db leveldb \<Rightarrow> client_env \<Rightarrow> ((ID, socksOutbound) gomap \<Rightarrow> (ID, socksOutbound) gomap) \<Rightarrow> 'db proxyClient
     \<Rightarrow> 'db proxyClient outcome" where
  "pc_Start D env visit pc = start_loop D env (ListOutbounds visit (pc_mgr pc)) pc"

fun stop_loop :: "client_env \<Rightarrow> socksOutbound list \<Rightarrow> 'db proxyClient \<Rightarrow> 'db proxyClient outcome" where
  "stop_loop env [] pc = Return pc"
| "stop_loop env (ob # obs) pc =
     (if \<not> so_Open ob then stop_loop env obs pc
      else case DeleteOutboundRoute env ob pc of
             Panic \<Rightarrow> Panic
           | Return (_, pc1) \<Rightarrow> stop_loop env obs pc1)"

definition pc_Stop ::
  "client_env \<Rightarrow> ((ID, socksOutbound) gomap \<Rightarrow> (ID, socksOutbound) gomap) \<Rightarrow> 'db proxyClient
     \<Rightarrow> 'db proxyClient outcome" where
  "pc_Stop env visit pc =
     (case stop_loop env (ListOutbounds visit (pc_mgr pc)) pc of
        Panic \<Rightarrow> Panic
      | Return pc1 \<Rightarrow> Return (snd (stopTunStack env pc1)))"

text \<open>
  \<open>DialContext\<close> on the destination of a flow (four or sixteen bytes, port, network name): the dialer
  that is asked, and for what.
\<close>

definition pc_DialContext ::
  "byte list \<Rightarrow> uint16 \<Rightarrow> string \<Rightarrow> 'db proxyClient \<Rightarrow> error + dialer \<times> string \<times> string" where
  "pc_DialContext dstIP dstPort network pc =
     (if length dstIP = 16 then Inl (ErrNew ''not support v6'')
      else let uip = ucast (dstIP ! 3) OR push_bit 8 (ucast (dstIP ! 2)) OR push_bit 16 (ucast (dstIP ! 1))
                 OR push_bit 24 (ucast (dstIP ! 0))
        in case router_get uip (pc_router pc) of
             None \<Rightarrow> Inl (ErrNew ''no route found'')
           | Some d \<Rightarrow>
               Inr (d, network,
                 Join (CHR ''.'') (map (\<lambda>b. nat_digits (unat b)) dstIP) @ CHR '':'' # nat_digits (unat dstPort)))"

definition pc_DialUDP :: "'db proxyClient \<Rightarrow> error" where
  "pc_DialUDP pc = ErrNew ''unsuport''"

section \<open>The manager as a durable table\<close>

text \<open>An outbound that has been filled in, and what of it is written.\<close>

definition valid_outbound :: "p2p_env \<Rightarrow> socksOutbound \<Rightarrow> bool" where
  "valid_outbound h ob \<longleftrightarrow>
     socks5OutboundFillRunningInfo h ob = (None, ob) \<and> utf8_valid (so_Remark ob) \<and> utf8_valid (so_Peer ob)
     \<and> utf8_valid (so_PeerName ob) \<and> utf8_valid (so_Route ob)"

definition strip :: "socksOutbound \<Rightarrow> socksOutbound" where
  "strip ob = ob\<lparr>so_routeNet := None, so_socks5Peer := zero_peer\<rparr>"

lemma dec_enc_outbound: "dec_outbound_ptr (enc_socksOutbound ob) = Some (Some (strip ob))"
  by (simp add: dec_outbound_ptr_def dec_socksOutbound_def enc_socksOutbound_def socksOutbound_fields_def
      zero_socksOutbound_def strip_def msg_defs)

lemma enc_strip [simp]: "enc_socksOutbound (strip ob) = enc_socksOutbound ob"
  by (simp add: enc_socksOutbound_def strip_def)

lemma wf_enc_outbound:
  "valid_outbound h ob \<Longrightarrow> wf_json (enc_socksOutbound ob) \<and> json_depth (enc_socksOutbound ob) \<le> 1"
  by (simp add: valid_outbound_def enc_socksOutbound_def)

lemma fill_strip:
  assumes "socks5OutboundFillRunningInfo h ob = (None, ob)"
  shows "socks5OutboundFillRunningInfo h (strip ob) = (None, ob)"
proof -
  obtain pid n where "peer_Decode h (so_Peer ob) = Inr pid" "ParseCIDR (so_Route ob) = Some n"
    using assms by (auto simp: socks5OutboundFillRunningInfo_def split: sum.splits option.splits)
  with assms show ?thesis
    by (cases ob) (auto simp: socks5OutboundFillRunningInfo_def strip_def)
qed

definition obm_present :: "'db socks5ProxyManager \<Rightarrow> ID \<Rightarrow> socksOutbound option" where
  "obm_present m = map_of (made (fst m))"

definition outbounds_ok :: "p2p_env \<Rightarrow> (ID, socksOutbound) gomap option \<Rightarrow> bool" where
  "outbounds_ok h obs \<longleftrightarrow> wf_gomap (made obs) \<and> (\<forall>(k, ob) \<in> set (made obs). valid_outbound h ob \<and> so_ID ob = k)"

definition obm_restart :: "'db leveldb \<Rightarrow> p2p_env \<Rightarrow> 'db socks5ProxyManager \<Rightarrow> 'db socks5ProxyManager option" where
  "obm_restart D h m =
     (case NewSocksOutboundsManager D h (snd m) of Return (Inr m') \<Rightarrow> Some m' | _ \<Rightarrow> None)"

definition obm_wf :: "'db leveldb \<Rightarrow> p2p_env \<Rightarrow> 'db socks5ProxyManager \<Rightarrow> bool" where
  "obm_wf D h m \<longleftrightarrow> leveldb_spec D \<and> leveldb_writable D \<and> outbounds_ok h (fst m)
     \<and> (\<exists>obs. obm_restart D h m = Some (obs, snd m) \<and> map_of (made obs) = obm_present m \<and> outbounds_ok h obs)"

lemma map_of_map_snd: "map_of (map (\<lambda>(k, v). (k, f v)) xs) = (\<lambda>k. map_option f (map_of xs k))"
  by (induction xs) auto

lemma obm_save_ok:
  assumes D: "leveldb_spec D" "leveldb_writable D" and ok: "outbounds_ok h (Some obs)"
  shows "\<exists>db'. saveOutbounds D (Some obs, db) = (None, Some obs, db') \<and> obm_wf D h (Some obs, db')"
proof -
  let ?m = "map (\<lambda>(k, ob). (k, Some (strip ob))) obs" and ?enc = "\<lambda>p. enc_socksOutbound (the p)"
  let ?re = "\<lambda>p. snd (socks5OutboundFillRunningInfo h (the p))"
  have w: "wf_gomap obs" and v: "\<And>k ob. (k, ob) \<in> set obs \<Longrightarrow> valid_outbound h ob" using ok by (auto simp: outbounds_ok_def)
  have same: "encode_map ?enc (Some ?m) = encode_map enc_socksOutbound (Some obs)"
    by (simp add: encode_map_def comp_def case_prod_unfold)
  have "wf_gomap ?m" using w by (simp add: wf_gomap_def comp_def case_prod_unfold)
  moreover have "dec_outbound_ptr (?enc p) = Some p \<and> wf_json (?enc p) \<and> json_depth (?enc p) \<le> 9999"
    if mem: "(k, p) \<in> set ?m" for k p
  proof -
    from mem obtain ob where o: "(k, ob) \<in> set obs" and p: "p = Some (strip ob)" by auto
    show ?thesis using dec_enc_outbound [of ob] wf_enc_outbound [OF v [OF o]] by (simp add: p)
  qed
  ultimately obtain db' m' where s: "db_Put D db keySocksOutbound (jprint (encode_map enc_socksOutbound (Some obs))) = (None, db')"
    "db_Get D db' keySocksOutbound = Inr (jprint (encode_map enc_socksOutbound (Some obs)))"
    "unmarshal (\<lambda>j. decode_map dec_outbound_ptr j None) (jprint (encode_map enc_socksOutbound (Some obs))) = Some (Some m')"
    "map_of m' = map_of ?m" "wf_gomap m'" "set m' = set ?m"
    using saved_map [OF D, of ?m dec_outbound_ptr ?enc db keySocksOutbound] unfolding same by auto
  let ?new = "map (\<lambda>(k, p). (k, ?re p)) m'"
  have "\<not> list_ex (\<lambda>(k, p). p = None) m'" using s(6) by (auto simp: list_ex_iff)
  with s have r: "obm_restart D h (Some obs, db') = Some (Some ?new, db')"
    by (simp add: obm_restart_def NewSocksOutboundsManager_def loadOutbounds_def)
  have re: "?re (Some (strip ob)) = ob" if "(k, ob) \<in> set obs" for k ob
    using v [OF that] fill_strip by (simp add: valid_outbound_def)
  have "map_of ?new k = map_of obs k" for k
    using re by (cases "map_of obs k") (auto simp: map_of_map_snd s(4) dest: map_of_SomeD)
  then have new: "map_of ?new = map_of obs" by blast
  have w': "wf_gomap ?new"
    using s(5) by (simp add: wf_gomap_def comp_def case_prod_unfold)
  have "set ?new = set obs" by (rule wf_gomap_set_eq [OF new w' w])
  with ok w' have "outbounds_ok h (Some ?new)" by (simp add: outbounds_ok_def)
  with s(1) r new D ok show ?thesis by (simp add: saveOutbounds_def obm_wf_def obm_present_def)
qed

lemma outbounds_ok_update:
  assumes "outbounds_ok h obs" and "valid_outbound h ob"
  shows "outbounds_ok h (Some (AList.update (so_ID ob) ob (made obs)))"
proof -
  have "(k, x) \<in> set (AList.update (so_ID ob) ob (made obs)) \<Longrightarrow> (k, x) = (so_ID ob, ob) \<or> (k, x) \<in> set (made obs)" for k x
    using assms(1) by (auto simp: wf_gomap_mem outbounds_ok_def split: if_splits)
  with assms show ?thesis by (fastforce simp: outbounds_ok_def)
qed

lemma outbounds_ok_delete: "outbounds_ok h obs \<Longrightarrow> outbounds_ok h (Some (AList.delete k (made obs)))"
  by (auto simp: outbounds_ok_def AList.delete_eq wf_gomap_def intro: distinct_map_filter)

definition obm_put :: "'db leveldb \<Rightarrow> p2p_env \<Rightarrow> socksOutbound \<Rightarrow> 'db socks5ProxyManager \<Rightarrow> 'db socks5ProxyManager" where
  "obm_put D h ob m = snd (snd (mgr_AddOutbound D h ob m))"

definition obm_del :: "'db leveldb \<Rightarrow> ID \<Rightarrow> 'db socks5ProxyManager \<Rightarrow> 'db socks5ProxyManager" where
  "obm_del D i m = snd (mgr_DeleteOutbound D i m)"

lemma obm_put_ok:
  assumes "obm_wf D h m" and "valid_outbound h ob"
  shows "obm_present (obm_put D h ob m) = (obm_present m)(so_ID ob \<mapsto> ob)" and "obm_wf D h (obm_put D h ob m)"
proof -
  have D: "leveldb_spec D" "leveldb_writable D" and ok: "outbounds_ok h (fst m)" using assms(1) by (auto simp: obm_wf_def)
  let ?obs = "AList.update (so_ID ob) ob (made (fst m))"
  obtain db' where "saveOutbounds D (Some ?obs, snd m) = (None, Some ?obs, db')" "obm_wf D h (Some ?obs, db')"
    using obm_save_ok [OF D outbounds_ok_update [OF ok assms(2)]] by blast
  moreover have "socks5OutboundFillRunningInfo h ob = (None, ob)" using assms(2) by (simp add: valid_outbound_def)
  ultimately show "obm_present (obm_put D h ob m) = (obm_present m)(so_ID ob \<mapsto> ob)" "obm_wf D h (obm_put D h ob m)"
    by (simp_all add: obm_put_def mgr_AddOutbound_def obm_present_def)
qed

lemma obm_del_ok:
  assumes "obm_wf D h m"
  shows "obm_present (obm_del D k m) = (obm_present m)(k := None)" and "obm_wf D h (obm_del D k m)"
proof -
  have D: "leveldb_spec D" "leveldb_writable D" and ok: "outbounds_ok h (fst m)" using assms by (auto simp: obm_wf_def)
  have "obm_present (obm_del D k m) = (obm_present m)(k := None) \<and> obm_wf D h (obm_del D k m)"
  proof (cases "map_of (made (fst m)) k")
    case None
    then have "obm_del D k m = m" by (auto simp: obm_del_def mgr_DeleteOutbound_def split: option.splits)
    with None assms show ?thesis by (auto simp: obm_present_def)
  next
    case (Some ob)
    then obtain obs where obs: "fst m = Some obs" by (cases "fst m") auto
    obtain db' where "saveOutbounds D (Some (AList.delete k obs), snd m) = (None, Some (AList.delete k obs), db')"
      "obm_wf D h (Some (AList.delete k obs), db')"
      using obm_save_ok [OF D outbounds_ok_delete [OF ok, of k]] obs by auto
    with Some obs show ?thesis by (simp add: obm_del_def mgr_DeleteOutbound_def obm_present_def)
  qed
  then show "obm_present (obm_del D k m) = (obm_present m)(k := None)" "obm_wf D h (obm_del D k m)" by blast+
qed

lemma obm_restart_ok:
  assumes "obm_wf D h m"
  shows "\<exists>m'. obm_restart D h m = Some m' \<and> obm_present m' = obm_present m \<and> obm_wf D h m'"
proof -
  obtain obs where "obm_restart D h m = Some (obs, snd m)" "map_of (made obs) = obm_present m" "outbounds_ok h obs"
    using assms by (auto simp: obm_wf_def)
  moreover from this have "obm_restart D h (obs, snd m) = Some (obs, snd m)" by (simp add: obm_restart_def)
  ultimately show ?thesis using assms by (auto simp: obm_present_def obm_wf_def)
qed

interpretation obm: durable_table obm_present so_ID "obm_put D h" "obm_del D" "valid_outbound h" "obm_wf D h"
  "obm_restart D h" for D h
  by unfold_locales (simp_all add: obm_put_ok obm_del_ok obm_restart_ok del: split_paired_Ex)

section \<open>Effects of the client's operations\<close>

lemma uip_of_bytes:
  "ucast (be_bytes32 ip ! 3) OR push_bit 8 (ucast (be_bytes32 ip ! 2)) OR push_bit 16 (ucast (be_bytes32 ip ! 1))
     OR push_bit 24 (ucast (be_bytes32 ip ! 0)) = (ip :: uint32)"
proof -
  have "be_uint32 (be_bytes32 ip) = ip" by simp
  then show ?thesis
    unfolding be_uint32_def be_bytes32_def by (simp add: push_bit_or ac_simps)
qed

lemma length_be_bytes32: "length (be_bytes32 ip) = 4"
  by (simp add: be_bytes32_def)

lemma DialContext_v4:
  "pc_DialContext (be_bytes32 ip) port network pc =
     (case router_get ip (pc_router pc) of
        None \<Rightarrow> Inl (ErrNew ''no route found'')
      | Some d \<Rightarrow> Inr (d, network, IPv4_String ip @ CHR '':'' # nat_digits (unat port)))"
  by (simp only: pc_DialContext_def Let_def uip_of_bytes length_be_bytes32 IPv4_String_def) simp

lemma add_routes:
  assumes "avltree_spec A" and "router_inv t" and "getCidrIntRange (Some net) = Return (lo, hi)"
    and "addRoute A (Some net) d (Some t) = Return (b, r)"
  shows "router_get ip r = (if admits lo hi t \<and> lo \<le> ip \<and> ip \<le> hi then Some d else router_get ip (Some t))"
proof -
  obtain t' where "addRoute A (Some net) d (Some t) = Return (admits lo hi t, Some t')"
    "get_walk ip t' = (if admits lo hi t \<and> lo \<le> ip \<and> ip \<le> hi then Some d else get_walk ip t)"
    using add_effect [OF assms(1-3), of d] by blast
  moreover from this assms(4) have "r = Some t'" by simp
  ultimately show ?thesis by (simp add: router_get_def)
qed

text \<open>What an addition that reports success did.\<close>

lemma AddOutbound_success:
  assumes "pc_AddOutbound D env ob pc = Return (None, pc')"
  obtains pid net ob' where "peer_Decode (ce_p2p env) (so_Peer ob) = Inr pid" and "ParseCIDR (so_Route ob) = Some net"
    and "so_socks5Peer ob' = \<lparr>pw_ID = pid, pw_UserName = le_bytes64 (so_Token ob), pw_Password = le_bytes64 (so_Token ob)\<rparr>"
    and "map_of (made (fst (pc_mgr pc'))) (so_ID ob) = Some ob'"
    and "if so_Open ob then \<exists>b r. addRoute (ce_avl env) (Some net) (so_socks5Peer ob') (pc_router pc) = Return (b, r) \<and> pc_router pc' = r
         else pc_router pc' = pc_router pc"
proof -
  obtain peerName where c: "CheckPeer env (so_Peer ob) (so_Token ob) = Inr peerName"
    using assms by (auto simp: pc_AddOutbound_def split: sum.splits)
  let ?ob = "ob\<lparr>so_PeerName := peerName\<rparr>"
  obtain ob' m where a: "mgr_AddOutbound D (ce_p2p env) ?ob (pc_mgr pc) = (None, ob', m)"
    using assms c by (auto simp: pc_AddOutbound_def split: prod.splits option.splits)
  obtain pid net where p: "peer_Decode (ce_p2p env) (so_Peer ob) = Inr pid" "ParseCIDR (so_Route ob) = Some net"
    and f: "socks5OutboundFillRunningInfo (ce_p2p env) ?ob = (None, ob')"
    using a by (auto simp: mgr_AddOutbound_def socks5OutboundFillRunningInfo_def Let_def split: sum.splits option.splits prod.splits)
  then have ob': "ob' = ob\<lparr>so_PeerName := peerName, so_routeNet := Some net,
      so_socks5Peer := \<lparr>pw_ID = pid, pw_UserName = le_bytes64 (so_Token ob), pw_Password = le_bytes64 (so_Token ob)\<rparr>\<rparr>"
    by (auto simp: socks5OutboundFillRunningInfo_def Let_def ID_Uint64_def)
  have m: "fst m = Some (AList.update (so_ID ob) ob' (made (fst (pc_mgr pc))))"
    using a f ob' by (auto simp: mgr_AddOutbound_def saveOutbounds_def split: prod.splits)
  have r: "if so_Open ob then \<exists>b r. addRoute (ce_avl env) (Some net) (so_socks5Peer ob') (pc_router pc) = Return (b, r) \<and> pc_router pc' = r
         else pc_router pc' = pc_router pc" and m': "pc_mgr pc' = m"
    using assms c a ob'
    by (auto simp: pc_AddOutbound_def Let_def startTunStack_def route_open_def addOutboundRoute_def
        split: prod.splits option.splits outcome.splits if_splits)
  show thesis by (rule that [of pid net ob']) (use p ob' m m' r in simp_all)
qed

section \<open>Properties\<close>

lemma obm_fresh:
  "leveldb_spec D \<Longrightarrow> leveldb_writable D \<Longrightarrow> db_Get D db keySocksOutbound = Inl ErrNotFound \<Longrightarrow> obm_wf D h (None, db)"
  by (simp add: obm_wf_def obm_restart_def NewSocksOutboundsManager_def loadOutbounds_def outbounds_ok_def obm_present_def)

text \<open>
  C26: started on a database without outbounds, the manager does what a map does through every history
  of additions, deletions and restarts; what is read back after a restart has its network and its
  credentials filled in again.
\<close>

theorem outbounds_durable:
  assumes "leveldb_spec D" and "leveldb_writable D" and "db_Get D db keySocksOutbound = Inl ErrNotFound"
    and "list_all (op_valid (valid_outbound h)) ops" and "\<And>xs. ranges (visit xs) xs"
  shows "\<exists>m. run_ops (obm_put D h) (obm_del D) (obm_restart D h) ops (None, db) = Some m
    \<and> (\<forall>k. fst (GetOutbound k m) = fold (map_op so_ID) ops Map.empty k)
    \<and> distinct (ListOutbounds visit m) \<and> set (ListOutbounds visit m) = ran (fold (map_op so_ID) ops Map.empty)"
proof -
  obtain m where m: "run_ops (obm_put D h) (obm_del D) (obm_restart D h) ops (None, db) = Some m"
    "obm_wf D h m" "obm_present m = fold (map_op so_ID) ops (obm_present (None, db))"
    using obm.run_ops_refines [OF obm_fresh [OF assms(1-3)] assms(4)] by blast
  then have p: "map_of (made (fst m)) = fold (map_op so_ID) ops Map.empty" by (simp add: obm_present_def)
  from m(2) have ok: "wf_gomap (made (fst m))" "\<And>k ob. (k, ob) \<in> set (made (fst m)) \<Longrightarrow> so_ID ob = k"
    by (auto simp: obm_wf_def outbounds_ok_def)
  show ?thesis
    using m(1) p ranges_values [OF assms(5) ok(1)] ranges_distinct [OF assms(5) ok]
    by (intro exI [of _ m]) (simp add: GetOutbound_def ListOutbounds_def)
qed

text \<open>A gateway that answers, to evaluate on.\<close>

definition ok_resp :: AuthorizeResp where
  "ok_resp = zero_AuthorizeResp\<lparr>as_NodeName := ''home'', as_Proxy := Some \<lparr>ap_Route = ''0.0.0.0/0'', ap_Dns = ''8.8.8.8''\<rparr>\<rparr>"

definition answering_p2p :: p2p_env where
  "answering_p2p = \<lparr>peer_Decode = (\<lambda>s. if s = [] then Inl (ErrNew ''invalid cid'') else Inr s),
                    host_NewStream = (\<lambda>_. Inr (conn_of (jprint (enc_AuthorizeResp ok_resp))))\<rparr>"

definition answering_env :: client_env where
  "answering_env = \<lparr>ce_p2p = answering_p2p, ce_avl = spine_tree, ce_tunStart = None, ce_setTunAddr = None,
                    ce_tunStop = None, ce_RouteAdd = (\<lambda>_. None), ce_RouteDel = (\<lambda>_. None)\<rparr>"

definition office :: socksOutbound where
  "office = zero_socksOutbound\<lparr>so_ID := 3, so_Open := True, so_Peer := ''peer'', so_Token := 9, so_Route := ''10.0.0.0/8''\<rparr>"

definition empty_client :: "(string \<times> string) list proxyClient" where
  "empty_client = \<lparr>pc_mgr = (None, []), pc_router = Some Leaf, pc_tunStackRunning = False, pc_osRoutes = []\<rparr>"

lemma CheckPeer_answering: "so_Peer ob \<noteq> [] \<Longrightarrow> CheckPeer answering_env (so_Peer ob) token = Inr ''home''"
proof -
  have v: "valid_resp ok_resp" by (simp add: valid_resp_def ok_resp_def zero_AuthorizeResp_def)
  have n: "length (jprint (enc_AuthorizeResp ok_resp)) \<le> 1024" "jprint (enc_AuthorizeResp ok_resp) \<noteq> []" by code_simp+
  assume "so_Peer ob \<noteq> []"
  with n respc.decode_encode [OF v] show ?thesis
    by (simp add: CheckPeer_def ResourceAuthorize_def answering_env_def answering_p2p_def conn_of_def
        conn_write_def conn_read_def) (simp add: ok_resp_def zero_AuthorizeResp_def)
qed

lemma office_cidr: "so_Route office = IPv4_String 0x0a000000 @ CHR ''/'' # nat_digits 8"
  by code_simp

lemma AddOutbound_answering:
  assumes "so_Peer ob \<noteq> []" and "ParseCIDR (so_Route ob) = Some net" and "pc_router pc = Some t"
  shows "\<exists>pc'. pc_AddOutbound list_db answering_env ob pc = Return (None, pc')"
proof -
  obtain lo hi where "getCidrIntRange (Some net) = Return (lo, hi)" using range_total by blast
  then have r: "\<exists>b r. addRoute (ce_avl answering_env) (Some net) d (Some t) = Return (b, r)" for d
    by (auto simp: range_no_panic split: option.splits prod.splits)
  let ?ob = "ob\<lparr>so_PeerName := ''home'', so_routeNet := Some net,
      so_socks5Peer := \<lparr>pw_ID = so_Peer ob, pw_UserName = le_bytes64 (so_Token ob), pw_Password = le_bytes64 (so_Token ob)\<rparr>\<rparr>"
  have "socks5OutboundFillRunningInfo (ce_p2p answering_env) (ob\<lparr>so_PeerName := ''home''\<rparr>) = (None, ?ob)"
    using assms by (simp add: socks5OutboundFillRunningInfo_def Let_def ID_Uint64_def answering_env_def answering_p2p_def)
  then obtain m where m: "mgr_AddOutbound list_db (ce_p2p answering_env) (ob\<lparr>so_PeerName := ''home''\<rparr>) (pc_mgr pc) = (None, ?ob, m)"
    by (simp add: mgr_AddOutbound_def saveOutbounds_def list_db_def)
  have s: "\<exists>b. startTunStack answering_env q = (None, q\<lparr>pc_tunStackRunning := b\<rparr>)" for q :: "(string \<times> string) list proxyClient"
    by (cases "pc_tunStackRunning q") (auto simp: startTunStack_def answering_env_def intro: exI [of _ True])
  obtain b where "startTunStack answering_env (pc\<lparr>pc_mgr := m\<rparr>) = (None, pc\<lparr>pc_mgr := m, pc_tunStackRunning := b\<rparr>)"
    using s [of "pc\<lparr>pc_mgr := m\<rparr>"] by auto
  with m r [of "so_socks5Peer ?ob"] assms show ?thesis
    by (auto simp: pc_AddOutbound_def CheckPeer_answering Let_def route_open_def addOutboundRoute_def split: prod.splits)
qed

theorem outbounds_durable_witness:
  "let ob = snd (socks5OutboundFillRunningInfo answering_p2p office)
   in \<exists>m. run_ops (obm_put list_db answering_p2p) (obm_del list_db) (obm_restart list_db answering_p2p)
            [TPut ob, TRestart] (None, []) = Some m
          \<and> fst (GetOutbound 3 m) = Some ob \<and> set (ListOutbounds rev m) = {ob}"
proof -
  let ?ob = "snd (socks5OutboundFillRunningInfo answering_p2p office)"
  have c: "ParseCIDR (so_Route office) = Some (v4_net 0x0a000000 8)" unfolding office_cidr by (rule ParseCIDR_v4) simp
  then have ob: "?ob = office\<lparr>so_routeNet := Some (v4_net 0x0a000000 8),
      so_socks5Peer := \<lparr>pw_ID = ''peer'', pw_UserName = le_bytes64 9, pw_Password = le_bytes64 9\<rparr>\<rparr>"
    by (simp add: socks5OutboundFillRunningInfo_def answering_p2p_def Let_def ID_Uint64_def) (simp add: office_def zero_socksOutbound_def)
  have "socks5OutboundFillRunningInfo answering_p2p ?ob = (None, ?ob)"
    unfolding ob using c by (simp add: socks5OutboundFillRunningInfo_def answering_p2p_def Let_def ID_Uint64_def)
      (simp add: office_def zero_socksOutbound_def)
  then have "valid_outbound answering_p2p ?ob"
    unfolding valid_outbound_def by (simp add: ob) (simp add: office_def zero_socksOutbound_def)
  then have ops: "list_all (op_valid (valid_outbound answering_p2p)) [TPut ?ob, TRestart]" by simp
  have v: "\<And>xs :: (ID, socksOutbound) gomap. ranges (rev xs) xs" by (simp add: ranges_def)
  have "so_ID ?ob = 3" unfolding ob by (simp add: office_def)
  then have f: "fold (map_op so_ID) [TPut ?ob, TRestart] Map.empty = [3 \<mapsto> ?ob]" by simp
  from outbounds_durable [OF list_db_spec list_db_empty ops v, unfolded f] show ?thesis by (auto simp: Let_def)
qed

text \<open>
  C17: once an open outbound for an IPv4 network has been added and no route met that network before, a
  flow to an address of the network is dialled through the outbound's peer with the outbound's token
  as its credentials, to that very address and port; flows to other addresses go where they went.
\<close>

theorem outbound_routes_traffic:
  assumes "avltree_spec (ce_avl env)" and "pc_router pc = Some t" and "router_inv t" and "n \<le> 32"
    and "so_Route ob = IPv4_String a @ CHR ''/'' # nat_digits n" and "so_Open ob"
    and "\<And>ip. drop_bit (32 - n) ip = drop_bit (32 - n) a \<Longrightarrow> router_get ip (pc_router pc) = None"
    and "pc_AddOutbound D env ob pc = Return (None, pc')"
  shows "\<exists>pid. peer_Decode (ce_p2p env) (so_Peer ob) = Inr pid
    \<and> (\<forall>ip port network. pc_DialContext (be_bytes32 ip) port network pc' =
        (if drop_bit (32 - n) ip = drop_bit (32 - n) a
         then Inr (\<lparr>pw_ID = pid, pw_UserName = le_bytes64 (so_Token ob), pw_Password = le_bytes64 (so_Token ob)\<rparr>,
                   network, IPv4_String ip @ CHR '':'' # nat_digits (unat port))
         else pc_DialContext (be_bytes32 ip) port network pc))"
proof -
  let ?lo = "a AND NOT (mask (32 - n))" and ?hi = "a OR mask (32 - n)"
  obtain pid net ob' where pid: "peer_Decode (ce_p2p env) (so_Peer ob) = Inr pid" and net: "ParseCIDR (so_Route ob) = Some net"
    and peer: "so_socks5Peer ob' = \<lparr>pw_ID = pid, pw_UserName = le_bytes64 (so_Token ob), pw_Password = le_bytes64 (so_Token ob)\<rparr>"
    and "map_of (made (fst (pc_mgr pc'))) (so_ID ob) = Some ob'"
    and add: "\<exists>b r. addRoute (ce_avl env) (Some net) (so_socks5Peer ob') (Some t) = Return (b, r) \<and> pc_router pc' = r"
    using AddOutbound_success [OF assms(8)] unfolding assms(2) if_P [OF assms(6)] .
  have "net = v4_net a n" using net ParseCIDR_v4 [OF assms(4), of a] assms(5) by simp
  then have r: "getCidrIntRange (Some net) = Return (?lo, ?hi)" using range_v4 [OF assms(4)] by simp
  have mem: "?lo \<le> ip \<and> ip \<le> ?hi \<longleftrightarrow> drop_bit (32 - n) ip = drop_bit (32 - n) a" for ip
    using cidr_drop_bit [OF assms(4)] .
  have le: "?lo \<le> ?hi" using mem [of a] by (auto intro: order_trans)
  have "meets_none ?lo ?hi t"
    by (rule no_route_meets [OF assms(3) _ le]) (use assms(2,7) mem in \<open>auto simp: router_get_def\<close>)
  with le have "admits ?lo ?hi t" by (simp add: admits_def)
  with add have "router_get ip (pc_router pc') = (if ?lo \<le> ip \<and> ip \<le> ?hi then Some (so_socks5Peer ob') else router_get ip (pc_router pc))" for ip
    using add_routes [OF assms(1,3) r, of "so_socks5Peer ob'"] assms(2) by auto
  with pid peer mem show ?thesis by (auto simp: DialContext_v4)
qed

lemma empty_client_routes: "pc_router empty_client = Some Leaf" "router_inv (Leaf :: dialer route_tree)"
  by (simp_all add: empty_client_def router_inv_def disjoint_ranges_def)

lemma spine_env: "avltree_spec (ce_avl answering_env)"
  by (simp add: answering_env_def spine_tree_spec)

lemma office_added: "\<exists>pc'. pc_AddOutbound list_db answering_env office empty_client = Return (None, pc')"
proof (rule AddOutbound_answering [OF _ _ empty_client_routes(1)])
  show "so_Peer office \<noteq> []" by (simp add: office_def)
  show "ParseCIDR (so_Route office) = Some (v4_net 0x0a000000 8)" unfolding office_cidr by (rule ParseCIDR_v4) simp
qed

theorem outbound_routes_traffic_witness:
  "\<exists>pc'. pc_AddOutbound list_db answering_env office empty_client = Return (None, pc')
    \<and> pc_DialContext (be_bytes32 0x0a010203) 443 ''tcp'' pc' =
        Inr (\<lparr>pw_ID = ''peer'', pw_UserName = le_bytes64 9, pw_Password = le_bytes64 9\<rparr>, ''tcp'',
             IPv4_String 0x0a010203 @ '':443'')"
proof -
  obtain pc' where pc': "pc_AddOutbound list_db answering_env office empty_client = Return (None, pc')"
    using office_added by blast
  have o: "so_Open office" "so_Token office = 9" "so_Peer office = ''peer''" by (simp_all add: office_def)
  have e: "router_get ip (pc_router empty_client) = None" for ip by (simp add: empty_client_def router_get_def)
  have d: "nat_digits 443 = ''443''" by code_simp
  have "peer_Decode (ce_p2p answering_env) ''peer'' = Inr ''peer''" by (simp add: answering_env_def answering_p2p_def)
  moreover obtain pid where "peer_Decode (ce_p2p answering_env) (so_Peer office) = Inr pid"
    and "\<forall>ip port network. pc_DialContext (be_bytes32 ip) port network pc' =
        (if drop_bit (32 - 8) ip = drop_bit (32 - 8) (0x0a000000 :: uint32)
         then Inr (\<lparr>pw_ID = pid, pw_UserName = le_bytes64 (so_Token office), pw_Password = le_bytes64 (so_Token office)\<rparr>,
                   network, IPv4_String ip @ CHR '':'' # nat_digits (unat port))
         else pc_DialContext (be_bytes32 ip) port network empty_client)"
    using outbound_routes_traffic [OF spine_env empty_client_routes _ office_cidr o(1) e pc'] by auto
  ultimately show ?thesis
    using pc' by (intro exI [of _ pc']) (simp add: o d)
qed

text \<open>
  The result of \<open>addRoute\<close> is not looked at. An outbound whose network overlaps a route of the
  router without being equal to it is stored, and adding it reports success, but nothing is routed
  through it: every flow is dialled as before.
\<close>

theorem overlapping_outbound_not_routed:
  assumes "avltree_spec (ce_avl env)" and "pc_router pc = Some t" and "router_inv t"
    and "ParseCIDR (so_Route ob) = Some net" and "getCidrIntRange (Some net) = Return (lo, hi)"
    and "entries t k = Some i" and "k \<le> hi" and "lo \<le> ri_max i" and "k \<noteq> lo"
    and "pc_AddOutbound D env ob pc = Return (None, pc')"
  shows "(\<exists>ob'. fst (GetOutbound (so_ID ob) (pc_mgr pc')) = Some ob')
    \<and> pc_DialContext (be_bytes32 ip) port network pc' = pc_DialContext (be_bytes32 ip) port network pc"
proof -
  obtain pid net' ob' where n: "peer_Decode (ce_p2p env) (so_Peer ob) = Inr pid" "ParseCIDR (so_Route ob) = Some net'"
    "so_socks5Peer ob' = \<lparr>pw_ID = pid, pw_UserName = le_bytes64 (so_Token ob), pw_Password = le_bytes64 (so_Token ob)\<rparr>"
    and g: "map_of (made (fst (pc_mgr pc'))) (so_ID ob) = Some ob'"
    and add: "if so_Open ob then \<exists>b r. addRoute (ce_avl env) (Some net') (so_socks5Peer ob') (pc_router pc) = Return (b, r) \<and> pc_router pc' = r
         else pc_router pc' = pc_router pc"
    using AddOutbound_success [OF assms(10)] .
  have "\<not> meets_none lo hi t" using assms(6-8) by (auto simp: meets_none_def not_less)
  moreover have "\<not> (\<exists>j. entries t lo = Some j \<and> ri_max j = hi)"
  proof
    assume "\<exists>j. entries t lo = Some j \<and> ri_max j = hi"
    then obtain j where j: "entries t lo = Some j" "ri_max j = hi" by blast
    have le: "k \<le> ri_max i" "lo \<le> ri_max j" using assms(3,6) j(1) by (auto simp: router_inv_def disjoint_ranges_def)
    have "k \<le> max k lo" "max k lo \<le> ri_max i" "lo \<le> max k lo" "max k lo \<le> ri_max j" using le assms(7,8) j(2) by auto
    then have "k = lo" using covering_unique [of "entries t" k i "max k lo" lo j] assms(3,6) j(1) by (simp add: router_inv_def)
    with assms(9) show False by contradiction
  qed
  ultimately have na: "\<not> admits lo hi t" by (simp add: admits_def)
  have "router_get ip (pc_router pc') = router_get ip (pc_router pc)" for ip
  proof (cases "so_Open ob")
    case False
    with add show ?thesis by simp
  next
    case True
    with add n(2) assms(2,4) have "\<exists>b r. addRoute (ce_avl env) (Some net) (so_socks5Peer ob') (Some t) = Return (b, r) \<and> pc_router pc' = r" by simp
    with add_routes [OF assms(1,3,5), of "so_socks5Peer ob'"] na assms(2) show ?thesis by auto
  qed
  with g show ?thesis by (simp add: GetOutbound_def DialContext_v4)
qed

theorem overlapping_outbound_not_routed_witness:
  "let pc = empty_client\<lparr>pc_router := Some (Node Leaf (0x0a010000, \<lparr>ri_max = 0x0a01ffff, ri_dialer = zero_peer\<rparr>) Leaf)\<rparr>
   in \<exists>pc'. pc_AddOutbound list_db answering_env office pc = Return (None, pc')
        \<and> pc_DialContext (be_bytes32 0x0a020203) 443 ''tcp'' pc' = pc_DialContext (be_bytes32 0x0a020203) 443 ''tcp'' pc"
proof -
  let ?i = "\<lparr>ri_max = 0x0a01ffff, ri_dialer = zero_peer\<rparr>"
  let ?t = "Node Leaf (0x0a010000, ?i) Leaf" and ?pc = "empty_client\<lparr>pc_router := Some (Node Leaf (0x0a010000, \<lparr>ri_max = 0x0a01ffff, ri_dialer = zero_peer\<rparr>) Leaf)\<rparr>"
  have t: "router_inv ?t" "entries ?t 0x0a010000 = Some ?i"
    by (auto simp: router_inv_def ordered_def disjoint_ranges_def entries_def split: if_splits)
  have c: "ParseCIDR (so_Route office) = Some (v4_net 0x0a000000 8)" unfolding office_cidr by (rule ParseCIDR_v4) simp
  have r: "getCidrIntRange (Some (v4_net 0x0a000000 8)) = Return (0x0a000000, 0x0affffff)"
    using range_v4 [of 8 "0x0a000000"] by (simp add: mask_eq_exp_minus_1)
  have p: "pc_router ?pc = Some ?t" by simp
  obtain pc' where pc': "pc_AddOutbound list_db answering_env office ?pc = Return (None, pc')"
    using AddOutbound_answering [OF _ c p] by (auto simp: office_def)
  have "pc_DialContext (be_bytes32 0x0a020203) 443 ''tcp'' pc' = pc_DialContext (be_bytes32 0x0a020203) 443 ''tcp'' ?pc"
    using overlapping_outbound_not_routed [OF spine_env p t(1) c r t(2) _ _ _ pc'] by simp
  with pc' show ?thesis unfolding Let_def by blast
qed

text \<open>
  Deleting an outbound takes the route away that starts at the first address of its network,
  whoever added it. So deleting a closed outbound, which never had a route, unroutes an open one on
  the same network; and the route of the operating system stays.
\<close>

theorem delete_closed_outbound_unroutes:
  assumes "avltree_spec (ce_avl env)" and "leveldb_writable D" and "pc_mgr pc = (Some obs, db)"
    and "map_of obs i = Some ob" and "\<not> so_Open ob" and "so_routeNet ob = Some net"
    and "getCidrIntRange (Some net) = Return (lo, hi)"
    and "pc_router pc = Some t" and "router_inv t" and "entries t lo = Some item"
  shows "\<exists>pc'. pc_DeleteOutbound D env i pc = Return (None, pc') \<and> pc_osRoutes pc' = pc_osRoutes pc
    \<and> fst (GetOutbound i (pc_mgr pc')) = None
    \<and> (\<forall>ip. lo \<le> ip \<and> ip \<le> ri_max item \<longrightarrow> (\<exists>e. pc_DialContext (be_bytes32 ip) port network pc' = Inl e))"
proof -
  obtain t' where t': "delRoute (ce_avl env) (Some net) (Some t) = Return (Some t')"
    "\<And>ip. lo \<le> ip \<and> ip \<le> ri_max item \<Longrightarrow> get_walk ip t' = None"
    using del_effect [OF assms(1,9,7)] assms(10) by auto
  obtain db' where "saveOutbounds D (Some (AList.delete i obs), db) = (None, Some (AList.delete i obs), db')"
    using writable_put [OF assms(2), of db keySocksOutbound "jprint (encode_map enc_socksOutbound (Some (AList.delete i obs)))"]
    by (auto simp: saveOutbounds_def)
  with t' assms(3,4,6,8) show ?thesis
    by (simp add: pc_DeleteOutbound_def mgr_DeleteOutbound_def DialContext_v4 router_get_def GetOutbound_def)
qed

theorem delete_closed_outbound_unroutes_witness:
  "let ob = office\<lparr>so_Open := False, so_routeNet := Some (v4_net 0x0a000000 8)\<rparr>;
       t = Node Leaf (0x0a000000, \<lparr>ri_max = 0x0affffff, ri_dialer = zero_peer\<rparr>) Leaf;
       pc = empty_client\<lparr>pc_mgr := (Some [(3, ob)], []), pc_router := Some t\<rparr>
   in pc_DialContext (be_bytes32 0x0a010203) 443 ''tcp'' pc = Inr (zero_peer, ''tcp'', ''10.1.2.3:443'')
    \<and> (\<exists>pc' e. pc_DeleteOutbound list_db answering_env 3 pc = Return (None, pc')
        \<and> pc_DialContext (be_bytes32 0x0a010203) 443 ''tcp'' pc' = Inl e)"
proof -
  let ?ob = "office\<lparr>so_Open := False, so_routeNet := Some (v4_net 0x0a000000 8)\<rparr>"
  let ?i = "\<lparr>ri_max = 0x0affffff, ri_dialer = zero_peer\<rparr>"
  let ?t = "Node Leaf (0x0a000000, ?i) Leaf"
  let ?pc = "empty_client\<lparr>pc_mgr := (Some [(3, ?ob)], []), pc_router := Some ?t\<rparr>"
  have t: "router_inv ?t" "entries ?t 0x0a000000 = Some ?i"
    by (auto simp: router_inv_def ordered_def disjoint_ranges_def entries_def split: if_splits)
  have r: "getCidrIntRange (Some (v4_net 0x0a000000 8)) = Return (0x0a000000, 0x0affffff)"
    using range_v4 [of 8 "0x0a000000"] by (simp add: mask_eq_exp_minus_1)
  have a: "IPv4_String 0x0a010203 = ''10.1.2.3''" "nat_digits 443 = ''443''" by code_simp+
  have "\<exists>pc'. pc_DeleteOutbound list_db answering_env 3 ?pc = Return (None, pc') \<and> pc_osRoutes pc' = pc_osRoutes ?pc
    \<and> fst (GetOutbound 3 (pc_mgr pc')) = None
    \<and> (\<forall>ip. 0x0a000000 \<le> ip \<and> ip \<le> ri_max ?i \<longrightarrow> (\<exists>e. pc_DialContext (be_bytes32 ip) 443 ''tcp'' pc' = Inl e))"
    by (rule delete_closed_outbound_unroutes [OF spine_env list_db_spec(2) _ _ _ _ r _ t, of ?pc "[(3, ?ob)]" "[]" 3 ?ob]) simp_all
  then obtain pc' where "pc_DeleteOutbound list_db answering_env 3 ?pc = Return (None, pc')"
    and d: "\<forall>ip. 0x0a000000 \<le> ip \<and> ip \<le> ri_max ?i \<longrightarrow> (\<exists>e. pc_DialContext (be_bytes32 ip) 443 ''tcp'' pc' = Inl e)" by blast
  moreover obtain e where "pc_DialContext (be_bytes32 0x0a010203) 443 ''tcp'' pc' = Inl e" using spec [OF d, of "0x0a010203"] by auto
  moreover have "pc_DialContext (be_bytes32 0x0a010203) 443 ''tcp'' ?pc = Inr (zero_peer, ''tcp'', ''10.1.2.3:443'')"
    by (simp add: DialContext_v4 router_get_def a)
  ultimately show ?thesis unfolding Let_def by blast
qed

end
