(* ===== verification/Portmap.thy ===== *)
theory Portmap
  imports GoIO GoStruct
begin

text \<open>
  \<open>portmap/portmap.go\<close>: local listeners whose connections are carried over a libp2p stream to a port
  of another node. Sockets, nbio and libp2p are the environment; connections carry characters, the
  bytes of both the JSON handshake and the data behind it.
\<close>

section \<open>Listeners\<close>

text \<open>A listener is its kind, its local address as text, and whether it has been closed.\<close>

datatype lkind = TCP | UDP

record relayListener =
  rl_kind :: lkind
  rl_addr :: string

definition getPort :: "relayListener \<Rightarrow> int" where
  "getPort l =
     (case Split (CHR '':'') (rl_addr l) of
        [_, p] \<Rightarrow> fst (Atoi p)
      | _ \<Rightarrow> 0)"

definition convertIndex :: "string \<Rightarrow> string \<Rightarrow> int \<Rightarrow> string" where
  "convertIndex network ip port = network @ ''://'' @ ip @ CHR '':'' # Itoa port"

text \<open>
  What binding an address comes to: the local address, or an error. For UDP the address is resolved,
  bound and handed to nbio; the socket is closed again when that fails.
\<close>

record listen_env =
  le_ListenTCP :: "string \<Rightarrow> error + string"
  le_ResolveUDPAddr :: "string \<Rightarrow> error + string"
  le_ListenUDP :: "string \<Rightarrow> error + string"
  le_AddConn :: "error option"

record Portmap =
  pm_listeners :: "(string, relayListener) gomap"
  pm_closed :: "relayListener list"

definition host_port :: "string \<Rightarrow> int \<Rightarrow> string" where
  "host_port ip port = ip @ CHR '':'' # Itoa port"

definition addTCPListener :: "listen_env \<Rightarrow> string \<Rightarrow> int \<Rightarrow> error + relayListener" where
  "addTCPListener env ip port =
     (case le_ListenTCP env (host_port ip port) of
        Inl err \<Rightarrow> Inl err
      | Inr a \<Rightarrow> Inr \<lparr>rl_kind = TCP, rl_addr = a\<rparr>)"

definition addUDPListener :: "listen_env \<Rightarrow> string \<Rightarrow> int \<Rightarrow> error + relayListener" where
  "addUDPListener env ip port =
     (case le_ResolveUDPAddr env (host_port ip port) of
        Inl err \<Rightarrow> Inl err
      | Inr la \<Rightarrow>
          (case le_ListenUDP env la of
             Inl err \<Rightarrow> Inl err
           | Inr a \<Rightarrow> (case le_AddConn env of Some err \<Rightarrow> Inl err | None \<Rightarrow> Inr \<lparr>rl_kind = UDP, rl_addr = a\<rparr>)))"

definition AddListener ::
  "listen_env \<Rightarrow> string \<Rightarrow> string \<Rightarrow> int \<Rightarrow> Portmap \<Rightarrow> (int \<times> error option) \<times> Portmap" where
  "AddListener env network ip port pm =
     (case (case map_of (pm_listeners pm) (convertIndex network ip port) of
              Some l \<Rightarrow> Inr l
            | None \<Rightarrow> if Contains network ''tcp'' then addTCPListener env ip port else addUDPListener env ip port) of
        Inl err \<Rightarrow> ((0, Some err), pm)
      | Inr l \<Rightarrow>
          ((getPort l, None),
           pm\<lparr>pm_listeners := AList.update (convertIndex network ip (getPort l)) l (pm_listeners pm)\<rparr>))"

definition DeleteListener :: "string \<Rightarrow> string \<Rightarrow> int \<Rightarrow> Portmap \<Rightarrow> Portmap" where
  "DeleteListener network ip port pm =
     (case map_of (pm_listeners pm) (convertIndex network ip port) of
        None \<Rightarrow> pm
      | Some l \<Rightarrow> pm\<lparr>pm_listeners := AList.delete (convertIndex network ip port) (pm_listeners pm),
                     pm_closed := pm_closed pm @ [l]\<rparr>)"

text \<open>\<open>Close\<close> of the whole component: every listener, in the order the runtime visits the map.\<close>

definition pm_Close ::
  "((string, relayListener) gomap \<Rightarrow> (string, relayListener) gomap) \<Rightarrow> Portmap \<Rightarrow> Portmap" where
  "pm_Close visit pm =
     pm\<lparr>pm_closed := pm_closed pm @ map snd (visit (pm_listeners pm)), pm_listeners := []\<rparr>"

section \<open>The handshake\<close>

record handshakeRsp =
  hr_Code :: int
  hr_Msg :: string

definition enc_handshakeRsp :: "handshakeRsp \<Rightarrow> json" where
  "enc_handshakeRsp r = JObj [(''code'', JNum (Itoa (hr_Code r))), (''msg'', JStr (hr_Msg r))]"

definition dec_handshakeRsp :: "json \<Rightarrow> handshakeRsp option" where
  "dec_handshakeRsp j =
     decode_struct [(''code'', int_field hr_Code_update), (''msg'', str_field hr_Msg_update)] j
       \<lparr>hr_Code = 0, hr_Msg = []\<rparr>"

definition valid_handshakeRsp :: "handshakeRsp \<Rightarrow> bool" where
  "valid_handshakeRsp r \<longleftrightarrow> int64_ok (hr_Code r) \<and> utf8_valid (hr_Msg r)"

lemma dec_enc_handshakeRsp: "valid_handshakeRsp r \<Longrightarrow> dec_handshakeRsp (enc_handshakeRsp r) = Some r"
  by (simp add: valid_handshakeRsp_def dec_handshakeRsp_def enc_handshakeRsp_def decode_struct_def find_field_def
      str_field_def int_field_def)

lemma wf_enc_handshakeRsp: "valid_handshakeRsp r \<Longrightarrow> wf_json (enc_handshakeRsp r) \<and> json_depth (enc_handshakeRsp r) \<le> 1"
  by (auto simp: valid_handshakeRsp_def enc_handshakeRsp_def)

interpretation hsc: codec "\<lambda>r. jprint (enc_handshakeRsp r)" "unmarshal dec_handshakeRsp" valid_handshakeRsp
  by unfold_locales (use wf_enc_handshakeRsp dec_enc_handshakeRsp in fastforce)

text \<open>
  \<open>relayHandshake\<close>, the side that opens the stream. On a named result the deferred \<open>Reset\<close> looks at
  what is returned: the branches that return \<open>nil, err\<close> leave the stream alone. The result carries the
  stream as it is left, when one was opened.
\<close>

record relay_env =
  re_peerDecode :: "string \<Rightarrow> error + string"
  re_NewStream :: "string \<Rightarrow> error + char conn"

definition relayHandshake ::
  "relay_env \<Rightarrow> string \<Rightarrow> string \<Rightarrow> (error + unit) \<times> char conn option" where
  "relayHandshake env peerID hs =
     (case re_peerDecode env peerID of
        Inl err \<Rightarrow> (Inl err, None)
      | Inr pid \<Rightarrow>
          (case re_NewStream env pid of
             Inl err \<Rightarrow> (Inl err, None)
           | Inr s \<Rightarrow>
               (case conn_write hs s of
                  (_, Some err, s1) \<Rightarrow> (Inl err, Some s1)
                | (_, None, s1) \<Rightarrow>
                    (case conn_read 100 s1 of
                       (buf, Some err, s2) \<Rightarrow> (Inl err, Some s2)
                     | (buf, None, s2) \<Rightarrow>
                         (case unmarshal dec_handshakeRsp buf of
                            None \<Rightarrow> (Inl ErrJSON, Some (conn_reset s2))
                          | Some r \<Rightarrow>
                              if hr_Code r \<noteq> 0
                              then (Inl (ErrNew (''handshak response: '' @ hr_Msg r)), Some (conn_reset s2))
                              else (Inr (), Some s2))))))"

section \<open>Connections of the listeners\<close>

text \<open>An nbio connection: its session (nothing, a stream, or something else) and its bytes.\<close>

datatype session = NoSession | StreamSession | OtherSession

record nbconn =
  nc_session :: session
  nc_conn :: "char conn"

definition nc_Close :: "nbconn \<Rightarrow> nbconn" where
  "nc_Close c = c\<lparr>nc_conn := conn_close (nc_conn c)\<rparr>"

text \<open>Data from the local side goes to the stream.\<close>

definition onConnData :: "string \<Rightarrow> nbconn \<Rightarrow> char conn \<Rightarrow> nbconn \<times> char conn" where
  "onConnData data c stream =
     (case nc_session c of
        NoSession \<Rightarrow> (nc_Close c, stream)
      | OtherSession \<Rightarrow> (nc_Close (c\<lparr>nc_session := NoSession\<rparr>), stream)
      | StreamSession \<Rightarrow>
          (case conn_write data stream of
             (_, None, s') \<Rightarrow> (c, s')
           | (_, Some _, s') \<Rightarrow> (nc_Close (c\<lparr>nc_session := NoSession\<rparr>), s')))"

definition onConnClose :: "nbconn \<Rightarrow> char conn \<Rightarrow> char conn" where
  "onConnClose c stream = (if nc_session c = StreamSession then conn_close stream else stream)"

text \<open>
  A new local connection: ask for the handshake of its port, open the stream, then copy the stream
  to the connection until it ends. \<open>prot\<close> is the name of the local address's network, at least three
  characters long; \<open>None\<close> for the stream when none was opened.
\<close>

definition onConnOpen ::
  "relay_env \<Rightarrow> (string \<Rightarrow> string \<Rightarrow> int \<Rightarrow> string \<times> string option) \<Rightarrow> string \<Rightarrow> string \<Rightarrow> int \<Rightarrow> nbconn
     \<Rightarrow> (nbconn \<times> char conn option) outcome" where
  "onConnOpen env getHandshake prot ip port c =
     (case nc_session c of
        StreamSession \<Rightarrow> Return (c, None)
      | OtherSession \<Rightarrow> Return (nc_Close c, None)
      | NoSession \<Rightarrow>
          if length prot < 3 then Panic
          else if take 3 prot \<noteq> ''tcp'' \<and> take 3 prot \<noteq> ''udp'' then Return (nc_Close c, None)
          else case getHandshake (take 3 prot) ip port of
            (pid, None) \<Rightarrow> Return (nc_Close c, None)
          | (pid, Some hs) \<Rightarrow>
              if pid = [] then Return (nc_Close c, None)
              else case relayHandshake env pid hs of
                (Inl err, s) \<Rightarrow> Return (nc_Close c, s)
              | (Inr (), None) \<Rightarrow> Panic
              | (Inr (), Some s) \<Rightarrow>
                  (case io_Copy (nc_conn c) s of
                     (_, dst, s') \<Rightarrow>
                       Return (nc_Close (c\<lparr>nc_session := NoSession, nc_conn := dst\<rparr>), Some (conn_close s'))))"

section \<open>Streams from other nodes\<close>

text \<open>
  Dialling the target, nbio taking the connection over, and the text of a JSON error, which is sent to
  the peer.
\<close>

record target_env =
  tg_DialTCP :: "string \<Rightarrow> error + char conn"
  tg_ResolveUDPAddr :: "string \<Rightarrow> error + string"
  tg_DialUDP :: "string \<Rightarrow> error + char conn"
  tg_NBConn :: "error option"
  tg_jsonErr :: string

definition refuse_stream :: "string \<Rightarrow> char conn \<Rightarrow> char conn" where
  "refuse_stream errMsg s =
     (if errMsg = [] then s
      else case conn_write (jprint (enc_handshakeRsp \<lparr>hr_Code = 1, hr_Msg = errMsg\<rparr>)) s of
             (_, _, s') \<Rightarrow> conn_close s')"

definition error_text :: "target_env \<Rightarrow> error \<Rightarrow> string" where
  "error_text env e = (case errText e of Some t \<Rightarrow> t | None \<Rightarrow> tg_jsonErr env)"

text \<open>
  \<open>handleUptpStream\<close>: the stream as it is left, the target dialled (network and address) and the
  connection to it, if there was one. \<open>handle\<close> is the function that decides on the handshake.
\<close>

definition handleUptpStream ::
  "target_env \<Rightarrow> (string \<Rightarrow> error + string \<times> string \<times> int) \<Rightarrow> char conn
     \<Rightarrow> char conn \<times> (string \<times> string) option \<times> char conn option" where
  "handleUptpStream env handle s =
     (case conn_read 1024 s of
        (buf, Some err, s1) \<Rightarrow> (conn_close s1, None, None)
      | (buf, None, s1) \<Rightarrow>
          (case handle buf of
             Inl err \<Rightarrow> (refuse_stream (error_text env err) s1, None, None)
           | Inr (network, addr, port) \<Rightarrow>
               let target = host_port addr port;
                   dialed = (if network = ''tcp'' then
                               (case tg_DialTCP env target of
                                  Inl _ \<Rightarrow> Inl ''connect target addr failed'' | Inr c \<Rightarrow> Inr c)
                             else
                               (case tg_ResolveUDPAddr env target of
                                  Inl _ \<Rightarrow> Inl ''resolve target addr failed''
                                | Inr ua \<Rightarrow>
                                    (case tg_DialUDP env ua of
                                       Inl _ \<Rightarrow> Inl ''connect target addr failed'' | Inr c \<Rightarrow> Inr c)))
               in case dialed of
                    Inl msg \<Rightarrow> (refuse_stream msg s1, Some (network, target), None)
                  | Inr conn \<Rightarrow>
                      (case tg_NBConn env of
                         Some err \<Rightarrow>
                           (refuse_stream ''unexpected connection failed'' s1, Some (network, target), Some (conn_close conn))
                       | None \<Rightarrow>
                           (case conn_write (jprint (enc_handshakeRsp \<lparr>hr_Code = 0, hr_Msg = ''ok''\<rparr>)) s1 of
                              (_, Some err, s2) \<Rightarrow> (conn_close s2, Some (network, target), Some (conn_close conn))
                            | (_, None, s2) \<Rightarrow>
                                (case io_Copy conn s2 of
                                   (_, conn', s3) \<Rightarrow>
                                     (conn_close s3, Some (network, target), Some (conn_close conn')))))))"

section \<open>The two sides of a stream\<close>

text \<open>The answer to a handshake that is accepted.\<close>

definition handshake_ok :: string where
  "handshake_ok = jprint (enc_handshakeRsp \<lparr>hr_Code = 0, hr_Msg = ''ok''\<rparr>)"

lemma handshake_ok_text: "length handshake_ok \<le> 100" "handshake_ok \<noteq> []"
  by code_simp+

lemma unmarshal_handshake_ok: "unmarshal dec_handshakeRsp handshake_ok = Some \<lparr>hr_Code = 0, hr_Msg = ''ok''\<rparr>"
  unfolding handshake_ok_def by (rule hsc.decode_encode) (simp add: valid_handshakeRsp_def int64_ok_def)

lemma handleUptpStream_tcp:
  assumes "rd_chunks s = hs # data" and "length hs \<le> 1024" and "wr_room s = None"
    and "handle hs = Inr (''tcp'', addr, port)" and "tg_DialTCP env (host_port addr port) = Inr conn"
    and "wr_room conn = None" and "tg_NBConn env = None"
  shows "handleUptpStream env handle s =
      (conn_close (s\<lparr>wr_data := wr_data s @ handshake_ok, rd_chunks := []\<rparr>), Some (''tcp'', host_port addr port),
       Some (conn_close (conn\<lparr>wr_data := wr_data conn @ concat data\<rparr>)))"
proof -
  have "conn_read 1024 s = (hs, None, s\<lparr>rd_chunks := data\<rparr>)" using assms(1,2) by (simp add: conn_read_def)
  with assms(3-7) show ?thesis
    by (simp add: handleUptpStream_def Let_def conn_write_def io_Copy_all pending_def handshake_ok_def)
qed

lemma relayHandshake_accepts:
  assumes "re_peerDecode env pid = Inr q" and "re_NewStream env q = Inr s"
    and "rd_chunks s = handshake_ok # reply" and "wr_room s = None"
  shows "relayHandshake env pid hs = (Inr (), Some (s\<lparr>wr_data := wr_data s @ hs, rd_chunks := reply\<rparr>))"
  using assms handshake_ok_text unmarshal_handshake_ok
  by (simp add: relayHandshake_def conn_write_def conn_read_def)

section \<open>Properties\<close>

text \<open>
  A listener that has been added is found again under the port it reports: adding it there a
  second time binds nothing and changes nothing, and deleting it there closes it and forgets it,
  leaving every other listener alone.
\<close>

theorem listener_lifecycle:
  assumes "AddListener env network ip port pm = ((p, None), pm')"
  shows "AddListener env' network ip p pm' = ((p, None), pm')
    \<and> (\<exists>l. getPort l = p
         \<and> pm_closed (DeleteListener network ip p pm') = pm_closed pm @ [l]
         \<and> map_of (pm_listeners (DeleteListener network ip p pm')) =
             (map_of (pm_listeners pm))(convertIndex network ip p := None))"
proof -
  obtain l where l: "p = getPort l" "pm' = pm\<lparr>pm_listeners := AList.update (convertIndex network ip (getPort l)) l (pm_listeners pm)\<rparr>"
    using assms by (auto simp: AddListener_def split: sum.splits)
  show ?thesis
    unfolding l by (simp add: AddListener_def DeleteListener_def)
qed

definition any_port_env :: listen_env where
  "any_port_env = \<lparr>le_ListenTCP = (\<lambda>a. Inr ''127.0.0.1:99''), le_ResolveUDPAddr = (\<lambda>a. Inr a),
                   le_ListenUDP = (\<lambda>a. Inr a), le_AddConn = None\<rparr>"

definition no_listeners :: Portmap where
  "no_listeners = \<lparr>pm_listeners = [], pm_closed = []\<rparr>"

theorem listener_lifecycle_witness:
  "let r = AddListener any_port_env ''tcp'' ''127.0.0.1'' 0 no_listeners
   in fst r = (99, None) \<and> AddListener any_port_env ''tcp'' ''127.0.0.1'' 99 (snd r) = r
      \<and> DeleteListener ''tcp'' ''127.0.0.1'' 0 (snd r) = snd r
      \<and> map_of (pm_listeners (DeleteListener ''tcp'' ''127.0.0.1'' 99 (snd r))) = Map.empty"
proof -
  let ?r = "AddListener any_port_env ''tcp'' ''127.0.0.1'' 0 no_listeners"
  have c: "Contains ''tcp'' ''tcp''" by code_simp
  have k: "convertIndex ''tcp'' ''127.0.0.1'' 0 \<noteq> convertIndex ''tcp'' ''127.0.0.1'' 99" by code_simp
  have "Split (CHR '':'') ''127.0.0.1:99'' = [''127.0.0.1'', Itoa 99]" by code_simp
  then have "getPort \<lparr>rl_kind = TCP, rl_addr = ''127.0.0.1:99''\<rparr> = 99"
    by (simp add: getPort_def Atoi_def int64_ok_def del: Split.simps)
  then obtain pm' where r: "?r = ((99, None), pm')"
    and "map_of (pm_listeners pm') (convertIndex ''tcp'' ''127.0.0.1'' 0) = None"
    using c k by (simp add: AddListener_def addTCPListener_def any_port_env_def no_listeners_def)
  then have "map_of (pm_listeners (snd ?r)) (convertIndex ''tcp'' ''127.0.0.1'' 0) = None" by simp
  then have "DeleteListener ''tcp'' ''127.0.0.1'' 0 (snd ?r) = snd ?r" by (simp add: DeleteListener_def)
  with listener_lifecycle [OF r, of any_port_env] show ?thesis
    unfolding Let_def r by (auto simp: no_listeners_def)
qed

text \<open>
  When the handshake names a TCP target that can be dialled, \<open>handleUptpStream\<close> dials exactly that
  address, everything the peer sends behind the handshake reaches the target in order and nothing
  else does, and both ends are closed at the end. What it writes to the stream is an answer that
  \<open>relayHandshake\<close> on the other side accepts.
\<close>

theorem uptp_stream_relays:
  assumes "rd_chunks s = hs # data" and "length hs \<le> 1024" and "wr_room s = None"
    and "handle hs = Inr (''tcp'', addr, port)" and "tg_DialTCP env (host_port addr port) = Inr conn"
    and "wr_room conn = None" and "tg_NBConn env = None"
  shows "\<exists>s' c' answer. handleUptpStream env handle s = (s', Some (''tcp'', host_port addr port), Some c')
    \<and> wr_data c' = wr_data conn @ concat data \<and> is_closed s' \<and> is_closed c'
    \<and> wr_data s' = wr_data s @ answer
    \<and> (\<forall>renv pid q. re_peerDecode renv pid = Inr q \<longrightarrow> re_NewStream renv q = Inr (conn_of answer)
         \<longrightarrow> fst (relayHandshake renv pid hs) = Inr ())"
proof -
  have "fst (relayHandshake renv pid hs) = Inr ()"
    if "re_peerDecode renv pid = Inr q" "re_NewStream renv q = Inr (conn_of handshake_ok)" for renv pid q
    using relayHandshake_accepts [OF that, of "[]" hs] handshake_ok_text(2) by (simp add: conn_of_def)
  then show ?thesis
    using handleUptpStream_tcp [where handle = handle, OF assms] by (intro exI conjI) (auto simp: conn_close_def)
qed

definition one_target :: target_env where
  "one_target = \<lparr>tg_DialTCP = (\<lambda>a. if a = ''10.0.0.1:80'' then Inr (conn_of []) else Inl (ErrNew ''connection refused'')),
                 tg_ResolveUDPAddr = (\<lambda>a. Inr a), tg_DialUDP = (\<lambda>a. Inr (conn_of [])), tg_NBConn = None, tg_jsonErr = []\<rparr>"

theorem uptp_stream_relays_witness:
  "\<exists>s' c'. handleUptpStream one_target (\<lambda>_. Inr (''tcp'', ''10.0.0.1'', 80))
        ((conn_of [])\<lparr>rd_chunks := [''{}'', ''GET /'', '' HTTP/1.0'']\<rparr>)
      = (s', Some (''tcp'', ''10.0.0.1:80''), Some c') \<and> wr_data c' = ''GET / HTTP/1.0''"
proof -
  let ?s = "(conn_of [])\<lparr>rd_chunks := [''{}'', ''GET /'', '' HTTP/1.0'']\<rparr>" and ?h = "\<lambda>_ :: string. Inr (''tcp'', ''10.0.0.1'', 80)"
  have t: "host_port ''10.0.0.1'' 80 = ''10.0.0.1:80''" by code_simp
  have "\<exists>s' c' answer. handleUptpStream one_target ?h ?s = (s', Some (''tcp'', host_port ''10.0.0.1'' 80), Some c')
    \<and> wr_data c' = wr_data (conn_of []) @ concat [''GET /'', '' HTTP/1.0''] \<and> is_closed s' \<and> is_closed c'
    \<and> wr_data s' = wr_data ?s @ answer
    \<and> (\<forall>renv pid q. re_peerDecode renv pid = Inr q \<longrightarrow> re_NewStream renv q = Inr (conn_of answer)
         \<longrightarrow> fst (relayHandshake renv pid ''{}'') = Inr ())"
    by (rule uptp_stream_relays) (simp_all add: conn_of_def one_target_def t)
  then show ?thesis unfolding t by (auto simp: conn_of_def)
qed

text \<open>
  When writing the handshake or reading its answer fails, \<open>relayHandshake\<close> returns the error and
  drops the stream, which is then neither reset nor closed by anyone.
\<close>

theorem relayHandshake_leaks_stream:
  assumes "re_peerDecode env pid = Inr q" and "re_NewStream env q = Inr s"
    and "(\<exists>k. wr_room s = Some k \<and> k < length hs) \<or> rd_chunks s = []"
  shows "\<exists>err s'. relayHandshake env pid hs = (Inl err, Some s')
    \<and> is_reset s' = is_reset s \<and> is_closed s' = is_closed s"
  using assms
  by (auto simp: relayHandshake_def conn_write_def conn_read_def split: option.splits)

theorem relayHandshake_leaks_stream_witness:
  "\<exists>err s'. relayHandshake \<lparr>re_peerDecode = Inr, re_NewStream = (\<lambda>_. Inr (conn_of []))\<rparr> ''p'' ''{}'' = (Inl err, Some s')
    \<and> \<not> is_reset s' \<and> \<not> is_closed s'"
  using relayHandshake_leaks_stream [of "\<lparr>re_peerDecode = Inr, re_NewStream = (\<lambda>_. Inr (conn_of []))\<rparr>" "''p''" "''p''" "conn_of []" "''{}''"]
  by (simp add: conn_of_def)

end
