(* ===== verification/Version.thy ===== *)
theory Version
  imports GoText
begin

text \<open>\<open>common/version.go\<close>: comparing two versions, the numbers between dots in turn.\<close>

abbreviation (input) EQUAL :: int where "EQUAL \<equiv> 0"
abbreviation (input) GREATER :: int where "GREATER \<equiv> 1"
abbreviation (input) LESS :: int where "LESS \<equiv> -1"

definition GatewayVersion :: string where
  "GatewayVersion = ''0.3.10''"

text \<open>The loop over the parts of the first version. Parts that are not numbers count as zero.\<close>

fun compare_loop :: "string list \<Rightarrow> string list \<Rightarrow> int" where
  "compare_loop [] v2Arr = LESS"
| "compare_loop (subVer # v1Arr) [] = GREATER"
| "compare_loop (subVer # v1Arr) (subVer2 # v2Arr) =
     (let subv1 = fst (Atoi subVer); subv2 = fst (Atoi subVer2)
      in if subv2 < subv1 then GREATER else if subv1 < subv2 then LESS else compare_loop v1Arr v2Arr)"

definition CompareVersion :: "string \<Rightarrow> string \<Rightarrow> int" where
  "CompareVersion v1 v2 =
     (if v1 = v2 then EQUAL else compare_loop (Split (CHR ''.'') v1) (Split (CHR ''.'') v2))"

declare nat_digits.simps [simp del]

definition version_text :: "nat list \<Rightarrow> string" where
  "version_text ns = Join (CHR ''.'') (map nat_digits ns)"

lemma digits_no_dot: "CHR ''.'' \<notin> set (nat_digits n)"
  using nat_digits_all [of "CHR ''.''" n] by (auto simp: is_digit_def)

lemma Atoi_digits: "n < 2 ^ 63 \<Longrightarrow> fst (Atoi (nat_digits n)) = int n"
  using ParseInt_Itoa [of "int n"] by (simp add: Atoi_def Itoa_def int64_ok_def)

lemma compare_loop_lex:
  "\<forall>n \<in> set xs \<union> set ys. n < 2 ^ 63 \<Longrightarrow> xs \<noteq> ys \<Longrightarrow>
   compare_loop (map nat_digits xs) (map nat_digits ys) = (if xs < ys then LESS else GREATER)"
proof (induction xs ys rule: list_induct2')
  case (4 x xs y ys)
  then have "fst (Atoi (nat_digits x)) = int x" "fst (Atoi (nat_digits y)) = int y" by (simp_all add: Atoi_digits)
  with 4 show ?case by (cases x y rule: linorder_cases) simp_all
qed simp_all

lemma split_version_text: "zs \<noteq> [] \<Longrightarrow> Split (CHR ''.'') (version_text zs) = map nat_digits zs"
  unfolding version_text_def by (rule Split_Join) (auto simp: digits_no_dot)

lemma version_text_inj:
  assumes "xs \<noteq> []" and "ys \<noteq> []" and "\<forall>n \<in> set xs \<union> set ys. n < 2 ^ 63" and "version_text xs = version_text ys"
  shows "xs = ys"
proof (rule ccontr)
  assume "xs \<noteq> ys"
  have "map nat_digits xs = map nat_digits ys"
    by (metis split_version_text assms(1,2,4))
  moreover have "inj_on nat_digits (set xs \<union> set ys)"
  proof (rule inj_onI)
    fix x y assume "x \<in> set xs \<union> set ys" "y \<in> set xs \<union> set ys" and eq: "nat_digits x = nat_digits y"
    with assms(3) have "x < 2 ^ 63" "y < 2 ^ 63" by blast+
    from Atoi_digits [OF this(1)] Atoi_digits [OF this(2)] eq show "x = y" by (metis of_nat_eq_iff)
  qed
  ultimately have "xs = ys" by (simp add: inj_on_map_eq_map)
  with \<open>xs \<noteq> ys\<close> show False by contradiction
qed

section \<open>Properties\<close>

text \<open>
  C35: on the texts of number sequences \<open>CompareVersion\<close> is the lexicographic order of the sequences,
  a proper prefix being the older version.
\<close>

theorem CompareVersion_lexicographic:
  assumes "xs \<noteq> []" and "ys \<noteq> []" and "\<forall>n \<in> set xs \<union> set ys. n < 2 ^ 63"
  shows "CompareVersion (version_text xs) (version_text ys) =
    (if xs = ys then EQUAL else if xs < ys then LESS else GREATER)"
  using version_text_inj [OF assms] compare_loop_lex [OF assms(3)] assms(1,2)
  by (cases "xs = ys") (auto simp: CompareVersion_def split_version_text)

theorem CompareVersion_lexicographic_witness:
  "version_text [0, 3, 10] = GatewayVersion \<and> CompareVersion ''0.3.9'' GatewayVersion = LESS"
proof -
  have t: "version_text [0, 3, 10] = GatewayVersion" "version_text [0, 3, 9] = ''0.3.9''" by code_simp+
  have "\<not> [0, 3, 10] < [0, 3, 9 :: nat]" "[0, 3, 9] < [0, 3, 10 :: nat]" by simp_all
  with CompareVersion_lexicographic [of "[0, 3, 9]" "[0, 3, 10]"] t show ?thesis by simp
qed

end
