(* ===== verification/Gateway.thy ===== *)
theory Gateway
  imports ApiUtil PortmapRes PortmapApps ProxyService Outbounds Portmap SocksServer Version
begin

text \<open>
  \<open>gateway/gateway.go\<close>, first part: the state of a gateway, the settings it keeps in the database (token,
  name, port, bootstrap nodes) and the sessions of its web interface.
\<close>

section \<open>State\<close>

text \<open>
  The managers share one database, kept once; their tables and the parts of the proxy client are fields
  of their own. \<open>gw_sessions = None\<close> is the nil map. \<open>gw_timers\<close> are the calls of \<open>time.AfterFunc\<close> still to
  come (second, token), \<open>gw_now\<close> the clock in seconds, \<open>gw_obDialer\<close> the dialer of the package \<open>socks5\<close>.
\<close>

record 'db Gateway =
  gw_db :: 'db
  gw_prm :: "(ID, PortmapResource) gomap option"
  gw_pam :: "(uint64, PortmapApp) gomap option"
  gw_proxySvc :: "proxyServiceConfig option"
  gw_obs :: "(ID, socksOutbound) gomap option"
  gw_router :: "dialer proxyRouter"
  gw_tunStackRunning :: bool
  gw_osRoutes :: "IPNet list"
  gw_pm :: Portmap
  gw_trial :: bool
  gw_sessions :: "(string, bool) gomap option"
  gw_timers :: "(nat \<times> string) list"
  gw_now :: nat
  gw_obDialer :: outboundDialer

text \<open>
  What is outside: the database's operations, the proxy client's and the listeners' environments, the
  order in which maps are visited, the text of an error that is not its own text, the host's name and
  what libp2p says of itself.
\<close>

record 'db gw_env =
  ge_D :: "'db leveldb"
  ge_cli :: client_env
  ge_listen :: listen_env
  ge_visitRes :: "(ID, PortmapResource) gomap \<Rightarrow> (ID, PortmapResource) gomap"
  ge_visitApps :: "(uint64, PortmapApp) gomap \<Rightarrow> (uint64, PortmapApp) gomap"
  ge_visitObs :: "(ID, socksOutbound) gomap \<Rightarrow> (ID, socksOutbound) gomap"
  ge_Error :: "error \<Rightarrow> string"
  ge_Hostname :: "error + string"
  ge_p2pID :: string
  ge_listenPort :: int

definition gw_Error :: "'db gw_env \<Rightarrow> error \<Rightarrow> string" where
  "gw_Error E err = (case err of ErrNew s \<Rightarrow> s | _ \<Rightarrow> ge_Error E err)"

text \<open>The managers as they see the state, and the state after they have run.\<close>

definition prm_of :: "'db Gateway \<Rightarrow> 'db PortmapResMgr" where
  "prm_of g = (gw_prm g, gw_db g)"

definition set_prm :: "'db PortmapResMgr \<Rightarrow> 'db Gateway \<Rightarrow> 'db Gateway" where
  "set_prm m g = g\<lparr>gw_prm := fst m, gw_db := snd m\<rparr>"

definition pam_of :: "'db Gateway \<Rightarrow> 'db PortmapAppMgr" where
  "pam_of g = (gw_pam g, gw_db g)"

definition set_pam :: "'db PortmapAppMgr \<Rightarrow> 'db Gateway \<Rightarrow> 'db Gateway" where
  "set_pam m g = g\<lparr>gw_pam := fst m, gw_db := snd m\<rparr>"

definition cli_of :: "'db Gateway \<Rightarrow> 'db proxyClient" where
  "cli_of g = \<lparr>pc_mgr = (gw_obs g, gw_db g), pc_router = gw_router g, pc_tunStackRunning = gw_tunStackRunning g,
               pc_osRoutes = gw_osRoutes g\<rparr>"

definition set_cli :: "'db proxyClient \<Rightarrow> 'db Gateway \<Rightarrow> 'db Gateway" where
  "set_cli pc g = g\<lparr>gw_obs := fst (pc_mgr pc), gw_db := snd (pc_mgr pc), gw_router := pc_router pc,
                    gw_tunStackRunning := pc_tunStackRunning pc, gw_osRoutes := pc_osRoutes pc\<rparr>"

named_theorems gw_views

lemmas [gw_views] = prm_of_def set_prm_def pam_of_def set_pam_def cli_of_def set_cli_def

section \<open>Settings\<close>

definition dbKeyToken :: string where "dbKeyToken = ''token''"
definition dbKeyBootstraps :: string where "dbKeyBootstraps = ''bootstraps''"
definition dbKeyGatewayName :: string where "dbKeyGatewayName = ''gateway_name''"
definition dbKeyListenPort :: string where "dbKeyListenPort = ''listen_port''"
definition dbKeyAdminPassword :: string where "dbKeyAdminPassword = ''admin_password''"

lemmas db_keys = dbKeyToken_def dbKeyBootstraps_def dbKeyGatewayName_def dbKeyListenPort_def dbKeyAdminPassword_def
  keyPortmapRes_def keyPortmapApps_def keySocksOutbound_def keyProxyServiceConfig_def

definition db_put :: "'db gw_env \<Rightarrow> string \<Rightarrow> string \<Rightarrow> 'db Gateway \<Rightarrow> error option \<times> 'db Gateway" where
  "db_put E k v g = (case db_Put (ge_D E) (gw_db g) k v of (err, db') \<Rightarrow> (err, g\<lparr>gw_db := db'\<rparr>))"

definition setToken :: "'db gw_env \<Rightarrow> uint64 \<Rightarrow> 'db Gateway \<Rightarrow> error option \<times> 'db Gateway" where
  "setToken E t g = db_put E dbKeyToken (FormatUint t) g"

text \<open>\<open>rnd\<close> is what \<open>rand.Uint64\<close> returns if it is called.\<close>

definition getToken :: "'db gw_env \<Rightarrow> uint64 \<Rightarrow> 'db Gateway \<Rightarrow> (error + uint64) \<times> 'db Gateway" where
  "getToken E rnd g =
     (case db_Get (ge_D E) (gw_db g) dbKeyToken of
        Inl err \<Rightarrow>
          if err \<noteq> ErrNotFound then (Inl err, g)
          else (case setToken E rnd g of
                  (Some err, g') \<Rightarrow> (Inl err, g')
                | (None, g') \<Rightarrow> (Inr rnd, g'))
      | Inr v \<Rightarrow>
          (case ParseUint v of
             (n, Some err) \<Rightarrow> (Inl err, g)
           | (n, None) \<Rightarrow> (Inr (of_nat n), g)))"

definition proxyAuth :: "'db gw_env \<Rightarrow> uint64 \<Rightarrow> uint64 \<Rightarrow> 'db Gateway \<Rightarrow> bool \<times> 'db Gateway" where
  "proxyAuth E rnd authToken g =
     (case getToken E rnd g of
        (Inl err, g') \<Rightarrow> (False, g')
      | (Inr token, g') \<Rightarrow> (token = authToken, g'))"

definition getGatewayName :: "'db gw_env \<Rightarrow> 'db Gateway \<Rightarrow> error + string" where
  "getGatewayName E g =
     (case db_Get (ge_D E) (gw_db g) dbKeyGatewayName of
        Inl err \<Rightarrow> if err = ErrNotFound then ge_Hostname E else Inl err
      | Inr v \<Rightarrow> Inr v)"

definition setGatewayName :: "'db gw_env \<Rightarrow> string \<Rightarrow> 'db Gateway \<Rightarrow> error option \<times> 'db Gateway" where
  "setGatewayName E name g = db_put E dbKeyGatewayName name g"

definition getListenPort :: "'db gw_env \<Rightarrow> 'db Gateway \<Rightarrow> error + int" where
  "getListenPort E g =
     (case db_Get (ge_D E) (gw_db g) dbKeyListenPort of
        Inl err \<Rightarrow> if err = ErrNotFound then Inr 0 else Inl err
      | Inr v \<Rightarrow> (case Atoi v of (i, Some err) \<Rightarrow> Inl err | (i, None) \<Rightarrow> Inr i))"

definition setListenPort :: "'db gw_env \<Rightarrow> int \<Rightarrow> 'db Gateway \<Rightarrow> error option \<times> 'db Gateway" where
  "setListenPort E port g = db_put E dbKeyListenPort (Itoa port) g"

text \<open>A list of strings; \<open>null\<close> is the nil slice and a \<open>null\<close> element the empty string.\<close>

fun dec_strings :: "json list \<Rightarrow> string list option" where
  "dec_strings [] = Some []"
| "dec_strings (j # js) =
     (case (j, dec_strings js) of
        (JStr s, Some ss) \<Rightarrow> Some (s # ss)
      | (JNull, Some ss) \<Rightarrow> Some ([] # ss)
      | _ \<Rightarrow> None)"

definition dec_string_list :: "json \<Rightarrow> string list option option" where
  "dec_string_list j =
     (case j of JNull \<Rightarrow> Some None | JArr js \<Rightarrow> map_option Some (dec_strings js) | _ \<Rightarrow> None)"

definition loadBootstraps :: "'db gw_env \<Rightarrow> 'db Gateway \<Rightarrow> string list option" where
  "loadBootstraps E g =
     (case db_Get (ge_D E) (gw_db g) dbKeyBootstraps of
        Inl err \<Rightarrow> None
      | Inr data \<Rightarrow> (case unmarshal dec_string_list data of None \<Rightarrow> None | Some r \<Rightarrow> r))"

definition getBootstraps :: "'db gw_env \<Rightarrow> 'db Gateway \<Rightarrow> string list" where
  "getBootstraps E g =
     (case loadBootstraps E g of
        None \<Rightarrow> [''/dns6/bootstrap.isletnet.cn/tcp/2025/p2p/12D3KooWPqvupWVWbcjwKkvfBwPi19KerGwEfmWxdyrqRd7AtCaa'']
      | Some bts \<Rightarrow> bts)"

section \<open>Sessions\<close>

text \<open>\<open>json.NewDecoder(r.Body).Decode\<close> takes the first value of the body; a body that cannot be read is an error.\<close>

definition decode_body :: "(json \<Rightarrow> 'a option) \<Rightarrow> http_request \<Rightarrow> 'a option" where
  "decode_body dec q =
     (case hq_Body q of
        Inl err \<Rightarrow> None
      | Inr b \<Rightarrow> (case decode_json b of None \<Rightarrow> None | Some j \<Rightarrow> dec j))"

record login_req =
  lr_Username :: string
  lr_Password :: string

definition dec_login :: "json \<Rightarrow> login_req option" where
  "dec_login j =
     decode_struct [(''username'', str_field lr_Username_update), (''password'', str_field lr_Password_update)] j
       \<lparr>lr_Username = [], lr_Password = []\<rparr>"

record change_req =
  cr_Current :: string
  cr_New :: string

definition dec_change :: "json \<Rightarrow> change_req option" where
  "dec_change j =
     decode_struct [(''current_password'', str_field cr_Current_update), (''new_password'', str_field cr_New_update)] j
       \<lparr>cr_Current = [], cr_New = []\<rparr>"

definition success_body :: string where
  "success_body = jprint (JObj [(''success'', JBool True)])"

definition handleChangePassword ::
  "'db gw_env \<Rightarrow> http_request \<Rightarrow> 'db Gateway \<Rightarrow> http_response \<times> 'db Gateway" where
  "handleChangePassword E q g =
     (case decode_body dec_change q of
        None \<Rightarrow> (http_Error ''Invalid request'' 400, g)
      | Some req \<Rightarrow>
          (case db_Get (ge_D E) (gw_db g) dbKeyAdminPassword of
             Inl err \<Rightarrow> (http_Error ''Invalid current password'' 401, g)
           | Inr storedPass \<Rightarrow>
               if cr_Current req \<noteq> storedPass then (http_Error ''Invalid current password'' 401, g)
               else (case db_put E dbKeyAdminPassword (cr_New req) g of
                       (Some err, g') \<Rightarrow> (http_Error ''Failed to update password'' 500, g')
                     | (None, g') \<Rightarrow> (http_write success_body, g'))))"

text \<open>The cookie that takes the old one away expires at the epoch.\<close>

definition handleLogout :: "http_request \<Rightarrow> 'db Gateway \<Rightarrow> http_response \<times> 'db Gateway" where
  "handleLogout q g =
     ((http_write success_body)\<lparr>hs_Cookie := Some ([], 0)\<rparr>,
      (if hq_Authorization q \<noteq> []
       then g\<lparr>gw_sessions := map_option (AList.delete (hq_Authorization q)) (gw_sessions g)\<rparr> else g))"

text \<open>\<open>token\<close> is the random UUID of the session. It ends by itself after fifteen minutes.\<close>

definition session_seconds :: nat where "session_seconds = 60 * 15"

definition handleLogin ::
  "'db gw_env \<Rightarrow> string \<Rightarrow> http_request \<Rightarrow> 'db Gateway \<Rightarrow> http_response \<times> 'db Gateway" where
  "handleLogin E token q g =
     (case decode_body dec_login q of
        None \<Rightarrow> (http_Error ''Invalid request'' 400, g)
      | Some req \<Rightarrow>
          (case db_Get (ge_D E) (gw_db g) dbKeyAdminPassword of
             Inl err \<Rightarrow> (http_Error ''Internal server error'' 500, g)
           | Inr storedPass \<Rightarrow>
               if lr_Username req \<noteq> ''admin'' \<or> lr_Password req \<noteq> storedPass
               then (http_Error ''Invalid credentials'' 401, g)
               else (\<lparr>hs_Status = 200, hs_ContentType = ''application/json'', hs_Cookie = Some (token, gw_now g + 3600),
                      hs_Location = None,
                      hs_Body = jprint (JObj [(''success'', JBool True), (''token'', JStr token)]) @ [CHR 0x0A]\<rparr>,
                     g\<lparr>gw_sessions := Some (AList.update token True (made (gw_sessions g))),
                       gw_timers := (gw_now g + session_seconds, token) # gw_timers g\<rparr>)))"

text \<open>Time passes to \<open>t\<close>: the timers that are due delete their sessions.\<close>

definition advance :: "nat \<Rightarrow> 'db Gateway \<Rightarrow> 'db Gateway" where
  "advance t g =
     (let due = map snd (filter (\<lambda>(d, tok). d \<le> t) (gw_timers g))
      in g\<lparr>gw_now := t, gw_timers := filter (\<lambda>(d, tok). t < d) (gw_timers g),
           gw_sessions := map_option (\<lambda>m. fold AList.delete due m) (gw_sessions g)\<rparr>)"

text \<open>The middleware: \<open>None\<close> when the request goes on to its handler.\<close>

definition open_path :: "string \<Rightarrow> bool" where
  "open_path p \<longleftrightarrow>
     p = ''/js/login.js'' \<or> p = ''/css/login.css'' \<or> p = ''/css/style.css'' \<or> p = ''/favicon.ico''
     \<or> HasPrefix p ''/login'' \<or> HasPrefix p ''/static/'' \<or> HasPrefix p ''/api/''"

definition request_token :: "http_request \<Rightarrow> string" where
  "request_token q =
     (if hq_Authorization q = [] then (case hq_Cookie q of None \<Rightarrow> [] | Some v \<Rightarrow> v) else hq_Authorization q)"

definition authMiddleware :: "http_request \<Rightarrow> 'db Gateway \<Rightarrow> http_response option" where
  "authMiddleware q g =
     (if open_path (hq_Path q) then None
      else let token = request_token q;
               validSession = (token \<noteq> [] \<and> map_of (made (gw_sessions g)) token = Some True)
           in if validSession then None
              else if Contains (hq_Accept q) ''text/html'' then Some (http_Redirect ''/login.html'' 302)
              else Some (http_Error ''Unauthorized'' 401))"

end
