(* ===== verification/GatewayApi.thy ===== *)
theory GatewayApi
  imports Gateway
begin

text \<open>
  \<open>gateway/gateway.go\<close>, second part: the handlers of the web interface. A handler takes the request and
  the state and gives the answer and the state it leaves; \<open>Panic\<close> is a nil dereference or a store into a
  nil map. \<open>rnd\<close> stands for the results of \<open>rand.Uint64\<close>.
\<close>

type_synonym 'db handled = "(http_response \<times> 'db Gateway) outcome"

text \<open>How most handlers start: read the body and unmarshal it.\<close>

definition with_body ::
  "'db gw_env \<Rightarrow> (json \<Rightarrow> 'a option) \<Rightarrow> http_request \<Rightarrow> 'db Gateway \<Rightarrow> ('a \<Rightarrow> 'db handled) \<Rightarrow> 'db handled" where
  "with_body E dec q g k =
     (case hq_Body q of
        Inl err \<Rightarrow> Return (api_msg 500 (gw_Error E err), g)
      | Inr body \<Rightarrow>
          (case unmarshal dec body of
             None \<Rightarrow> Return (api_msg 400 (gw_Error E ErrJSON), g)
           | Some x \<Rightarrow> k x))"

text \<open>How they end: an error of the last call is the answer, or else \<open>ok\<close>.\<close>

definition finish :: "'db gw_env \<Rightarrow> error option \<Rightarrow> http_response \<Rightarrow> http_response" where
  "finish E err ok = (case err of Some e \<Rightarrow> api_msg 500 (gw_Error E e) | None \<Rightarrow> ok)"

definition dec_id :: "json \<Rightarrow> ID option" where
  "dec_id j = decode_struct [(''id'', id_field (\<lambda>f i. f i))] j 0"

definition not_initialized :: http_response where
  "not_initialized = api_msg 500 ''proxy service not initialized''"

section \<open>The SOCKS service\<close>

definition getProxyConfig :: "'db Gateway \<Rightarrow> 'db handled" where
  "getProxyConfig g =
     (case gw_proxySvc g of
        None \<Rightarrow> Return (not_initialized, g)
      | Some config \<Rightarrow> Return (api_data [] (enc_proxyServiceConfig config), g))"

definition updateProxyConfig :: "'db gw_env \<Rightarrow> http_request \<Rightarrow> 'db Gateway \<Rightarrow> 'db handled" where
  "updateProxyConfig E q g =
     (case gw_proxySvc g of
        None \<Rightarrow> Return (not_initialized, g)
      | Some config \<Rightarrow>
          with_body E (\<lambda>j. decode_struct proxyServiceConfig_fields j zero_proxyServiceConfig) q g (\<lambda>req.
            case ps_set (ge_D E) req (config, gw_db g) of
              (Some err, config', db') \<Rightarrow>
                Return (api_msg 500 (gw_Error E err), g\<lparr>gw_proxySvc := Some config', gw_db := db'\<rparr>)
            | (None, config', db') \<Rightarrow>
                Return (api_msg 0 ''ok'',
                  g\<lparr>gw_proxySvc := Some config', gw_db := db',
                    gw_obDialer := SetOutboundProxy (psc_ProxyAddr req) (psc_ProxyUser req) (psc_ProxyPass req)\<rparr>)))"

section \<open>Applications\<close>

definition authorize_app :: "'db gw_env \<Rightarrow> PortmapApp \<Rightarrow> string + string" where
  "authorize_app E app =
     (case fst (ResourceAuthorize (ce_p2p (ge_cli E)) (pa_PeerID app)
             \<lparr>aq_Type = AuthorizeTypePortmap, aq_Portmap = Some \<lparr>ai_ResourceID = pa_ResID app\<rparr>, aq_Proxy = None\<rparr>) of
        Inl err \<Rightarrow> Inl (gw_Error E err)
      | Inr authRsp \<Rightarrow> if as_Err authRsp \<noteq> [] then Inl (as_Err authRsp) else Inr (as_NodeName authRsp))"

text \<open>Listening for an application that is to run; a failure is noted in it.\<close>

definition listen_app :: "'db gw_env \<Rightarrow> PortmapApp \<Rightarrow> Portmap \<Rightarrow> PortmapApp \<times> Portmap" where
  "listen_app E app pm =
     (if \<not> pa_Running app then (app, pm)
      else case AddListener (ge_listen E) (pa_Network app) (pa_LocalIP app) (pa_LocalPort app) pm of
        ((_, None), pm') \<Rightarrow> (app, pm')
      | ((_, Some err), pm') \<Rightarrow> (app\<lparr>pa_Running := False, pa_Err := gw_Error E err\<rparr>, pm'))"

definition save_app :: "'db gw_env \<Rightarrow> PortmapApp \<Rightarrow> 'db Gateway \<Rightarrow> 'db handled" where
  "save_app E app g =
     (case UpdatePortmapApp (ge_D E) app (pam_of g) of
        Panic \<Rightarrow> Panic
      | Return (err, m) \<Rightarrow> Return (finish E err (api_msg 0 ''ok''), set_pam m g))"

definition addApp :: "'db gw_env \<Rightarrow> uint64 \<Rightarrow> http_request \<Rightarrow> 'db Gateway \<Rightarrow> 'db handled" where
  "addApp E rnd q g =
     with_body E dec_PortmapApp q g (\<lambda>app.
       case authorize_app E app of
         Inl text \<Rightarrow> Return (api_msg 400 text, g)
       | Inr name \<Rightarrow>
           (case listen_app E (app\<lparr>pa_PeerName := name, pa_ID := rnd\<rparr>) (gw_pm g) of
              (app', pm') \<Rightarrow> save_app E app' (g\<lparr>gw_pm := pm'\<rparr>)))"

definition updateApp :: "'db gw_env \<Rightarrow> http_request \<Rightarrow> 'db Gateway \<Rightarrow> 'db handled" where
  "updateApp E q g =
     with_body E dec_PortmapApp q g (\<lambda>app.
       if pa_ID app = 0 then Return (api_msg 400 ''app id is empty'', g)
       else case GetPortmapApp (ID_Uint64 (pa_ID app)) (pam_of g) of
         None \<Rightarrow> Return (api_msg 404 ''app not found'', g)
       | Some oldApp \<Rightarrow>
           (case (if pa_PeerID app \<noteq> pa_PeerID oldApp \<or> pa_ResID app \<noteq> pa_ResID oldApp
                  then authorize_app E app else Inr (pa_PeerName oldApp)) of
              Inl text \<Rightarrow> Return (api_msg 400 text, g)
            | Inr name \<Rightarrow>
                let pm1 = (if pa_Running oldApp
                           then DeleteListener (pa_Network oldApp) (pa_LocalIP oldApp) (pa_LocalPort oldApp) (gw_pm g)
                           else gw_pm g)
                in case listen_app E (app\<lparr>pa_PeerName := name\<rparr>) pm1 of
                     (app', pm') \<Rightarrow> save_app E app' (g\<lparr>gw_pm := pm'\<rparr>)))"

definition deleteApp :: "'db gw_env \<Rightarrow> http_request \<Rightarrow> 'db Gateway \<Rightarrow> 'db handled" where
  "deleteApp E q g =
     with_body E dec_id q g (\<lambda>i.
       let pm1 = (case GetPortmapApp (ID_Uint64 i) (pam_of g) of
                    Some app \<Rightarrow> if pa_Running app
                                then DeleteListener (pa_Network app) (pa_LocalIP app) (pa_LocalPort app) (gw_pm g)
                                else gw_pm g
                  | None \<Rightarrow> gw_pm g)
       in case pam_DelPortmapApp (ge_D E) (ID_Uint64 i) (pam_of g) of
            (err, m) \<Rightarrow> Return (finish E err (api_msg 0 ''ok''), set_pam m (g\<lparr>gw_pm := pm1\<rparr>)))"

definition listApps :: "'db gw_env \<Rightarrow> 'db Gateway \<Rightarrow> 'db handled" where
  "listApps E g = Return (api_data [] (JArr (map enc_PortmapApp (GetPortmapApps (ge_visitApps E) (pam_of g)))), g)"

definition getApp :: "http_request \<Rightarrow> 'db Gateway \<Rightarrow> 'db handled" where
  "getApp q g =
     (case ParseUint (hq_id q) of
        (n, Some err) \<Rightarrow> Return (http_Error ''Invalid ID'' 400, g)
      | (n, None) \<Rightarrow>
          (case GetPortmapApp (of_nat n) (pam_of g) of
             None \<Rightarrow> Return (api_msg 404 ''app not found'', g)
           | Some app \<Rightarrow> Return (api_data [] (enc_PortmapApp app), g)))"

section \<open>Resources\<close>

text \<open>A nil slice prints as \<open>null\<close>.\<close>

definition enc_slice :: "('a \<Rightarrow> json) \<Rightarrow> 'a list \<Rightarrow> json" where
  "enc_slice enc xs = (if xs = [] then JNull else JArr (map enc xs))"

definition listResources :: "'db gw_env \<Rightarrow> 'db Gateway \<Rightarrow> 'db handled" where
  "listResources E g =
     Return (api_data ''ok'' (enc_slice enc_PortmapResource (GetResources (ge_visitRes E) (prm_of g))), g)"

definition getResource :: "http_request \<Rightarrow> 'db Gateway \<Rightarrow> 'db handled" where
  "getResource q g =
     (case ParseUint (hq_id q) of
        (n, Some err) \<Rightarrow> Return (http_Error ''Invalid ID'' 400, g)
      | (n, None) \<Rightarrow>
          (case GetAppByID (of_nat n) (prm_of g) of
             (resource, m) \<Rightarrow>
               if pr_ID resource = 0 then Return (api_msg 404 ''resource not found'', set_prm m g)
               else Return (api_data [] (enc_PortmapResource resource), set_prm m g)))"

definition validatePortmapResource :: "PortmapResource \<Rightarrow> error option" where
  "validatePortmapResource res =
     (if pr_Name res = [] then Some (ErrNew ''resource name is required'')
      else if pr_Network res \<noteq> ''tcp'' \<and> pr_Network res \<noteq> ''udp''
      then Some (ErrNew ''invalid network type, must be tcp or udp'')
      else if pr_TargetAddr res = [] then Some (ErrNew ''target address is required'')
      else if pr_TargetPort res \<le> 0 \<or> 65535 < pr_TargetPort res then Some (ErrNew ''invalid target port'')
      else if 0 < pr_LocalPort res \<and> 65535 < pr_LocalPort res then Some (ErrNew ''invalid local port'')
      else None)"

definition addResource :: "'db gw_env \<Rightarrow> uint64 \<Rightarrow> http_request \<Rightarrow> 'db Gateway \<Rightarrow> 'db handled" where
  "addResource E rnd q g =
     with_body E dec_PortmapResource q g (\<lambda>pa.
       case AddPortmapRes (ge_D E) (pa\<lparr>pr_ID := rnd\<rparr>) (prm_of g) of
         (err, m) \<Rightarrow> Return (finish E err (api_data ''ok'' (ID_MarshalJSON rnd)), set_prm m g))"

definition updateResource :: "'db gw_env \<Rightarrow> http_request \<Rightarrow> 'db Gateway \<Rightarrow> 'db handled" where
  "updateResource E q g =
     with_body E dec_PortmapResource q g (\<lambda>pa.
       if pr_ID pa = 0 then Return (api_msg 400 ''resource id is required'', g)
       else case GetAppByID (pr_ID pa) (prm_of g) of
         (existing, m) \<Rightarrow>
           if pr_ID existing = 0 then Return (api_msg 404 ''resource not found'', set_prm m g)
           else case validatePortmapResource pa of
             Some err \<Rightarrow> Return (api_msg 400 (gw_Error E err), set_prm m g)
           | None \<Rightarrow>
               (case UpdatePortmapRes (ge_D E) pa m of
                  (err, m') \<Rightarrow> Return (finish E err (api_msg 0 ''ok''), set_prm m' g)))"

definition deleteResource :: "'db gw_env \<Rightarrow> http_request \<Rightarrow> 'db Gateway \<Rightarrow> 'db handled" where
  "deleteResource E q g =
     with_body E dec_id q g (\<lambda>i.
       if i = 0 then Return (api_msg 400 ''resource id is required'', g)
       else case GetAppByID i (prm_of g) of
         (existing, m) \<Rightarrow>
           if pr_ID existing = 0 then Return (api_msg 404 ''resource not found'', set_prm m g)
           else (case prm_DelPortmapApp (ge_D E) i m of
                   (err, m') \<Rightarrow> Return (finish E err (api_msg 0 ''ok''), set_prm m' g)))"

section \<open>The gateway itself\<close>

record GatewayInfo =
  gi_P2PID :: string
  gi_Token :: ID
  gi_Name :: string
  gi_Port :: int
  gi_Version :: string

definition enc_GatewayInfo :: "GatewayInfo \<Rightarrow> json" where
  "enc_GatewayInfo i = JObj
     [(''p2p_id'', JStr (gi_P2PID i)), (''token'', ID_MarshalJSON (gi_Token i)), (''name'', JStr (gi_Name i)),
      (''running_port'', JNum (Itoa (gi_Port i))), (''version'', JStr (gi_Version i))]"

definition getGatewayInfo :: "'db gw_env \<Rightarrow> uint64 \<Rightarrow> uint64 \<Rightarrow> 'db Gateway \<Rightarrow> 'db handled" where
  "getGatewayInfo E rnd rnd2 g =
     (case getGatewayName E g of
        Inl err \<Rightarrow> Return (api_msg 500 (gw_Error E err), g)
      | Inr name \<Rightarrow>
          (case getToken E rnd g of
             (Inl err, g1) \<Rightarrow> Return (api_msg 500 (gw_Error E err), g1)
           | (Inr token, g1) \<Rightarrow>
               let info = (\<lambda>t. api_data [] (enc_GatewayInfo
                     \<lparr>gi_P2PID = ge_p2pID E, gi_Token = t, gi_Name = name, gi_Port = ge_listenPort E, gi_Version = GatewayVersion\<rparr>))
               in if token \<noteq> 0 then Return (info token, g1)
                  else (case setToken E rnd2 g1 of
                          (Some err, g2) \<Rightarrow> Return (api_msg 500 (gw_Error E err), g2)
                        | (None, g2) \<Rightarrow> Return (info rnd2, g2))))"

definition dec_name :: "json \<Rightarrow> string option" where
  "dec_name j = decode_struct [(''name'', str_field (\<lambda>f s. f s))] j []"

definition updateGatewayName :: "'db gw_env \<Rightarrow> http_request \<Rightarrow> 'db Gateway \<Rightarrow> 'db handled" where
  "updateGatewayName E q g =
     with_body E dec_name q g (\<lambda>name.
       if name = [] then Return (api_msg 400 ''name is required'', g)
       else case setGatewayName E name g of (err, g') \<Rightarrow> Return (finish E err (api_msg 0 ''ok''), g'))"

section \<open>Outbounds\<close>

definition listOutbounds :: "'db gw_env \<Rightarrow> 'db Gateway \<Rightarrow> 'db handled" where
  "listOutbounds E g =
     (case gw_proxySvc g of
        None \<Rightarrow> Return (not_initialized, g)
      | Some _ \<Rightarrow> Return (api_data ''ok'' (enc_slice enc_socksOutbound (ListOutbounds (ge_visitObs E) (pc_mgr (cli_of g)))), g))"

text \<open>The nil pointer of a missing outbound is dereferenced.\<close>

definition find_outbound :: "ID \<Rightarrow> 'db Gateway \<Rightarrow> (socksOutbound \<Rightarrow> 'db Gateway \<Rightarrow> 'db handled) \<Rightarrow> 'db handled" where
  "find_outbound i g k =
     (case GetOutbound i (pc_mgr (cli_of g)) of
        (None, m) \<Rightarrow> Panic
      | (Some ob, m) \<Rightarrow>
          let g' = set_cli ((cli_of g)\<lparr>pc_mgr := m\<rparr>) g
          in if so_ID ob = 0 then Return (api_msg 404 ''outbound not found'', g') else k ob g')"

definition getOutbound :: "http_request \<Rightarrow> 'db Gateway \<Rightarrow> 'db handled" where
  "getOutbound q g =
     (case ParseUint (hq_id q) of
        (n, Some err) \<Rightarrow> Return (http_Error ''Invalid ID'' 400, g)
      | (n, None) \<Rightarrow>
          (case gw_proxySvc g of
             None \<Rightarrow> Return (not_initialized, g)
           | Some _ \<Rightarrow> find_outbound (of_nat n) g (\<lambda>ob g'. Return (api_data [] (enc_socksOutbound ob), g'))))"

definition client_call ::
  "'db gw_env \<Rightarrow> (error option \<times> 'db proxyClient) outcome \<Rightarrow> http_response \<Rightarrow> 'db Gateway \<Rightarrow> 'db handled" where
  "client_call E r ok g =
     (case r of Panic \<Rightarrow> Panic | Return (err, pc) \<Rightarrow> Return (finish E err ok, set_cli pc g))"

definition addOutbound :: "'db gw_env \<Rightarrow> uint64 \<Rightarrow> http_request \<Rightarrow> 'db Gateway \<Rightarrow> 'db handled" where
  "addOutbound E rnd q g =
     with_body E dec_socksOutbound q g (\<lambda>ob.
       client_call E (pc_AddOutbound (ge_D E) (ge_cli E) (ob\<lparr>so_ID := rnd\<rparr>) (cli_of g))
         (api_data ''ok'' (ID_MarshalJSON rnd)) g)"

definition updateOutbound :: "'db gw_env \<Rightarrow> http_request \<Rightarrow> 'db Gateway \<Rightarrow> 'db handled" where
  "updateOutbound E q g =
     with_body E dec_socksOutbound q g (\<lambda>ob.
       if so_ID ob = 0 then Return (api_msg 400 ''outbound id is required'', g)
       else find_outbound (so_ID ob) g (\<lambda>existing g1.
         case (if so_Open existing then DeleteOutboundRoute (ge_cli E) existing (cli_of g1)
               else Return (None, cli_of g1)) of
           Panic \<Rightarrow> Panic
         | Return (_, pc) \<Rightarrow>
             client_call E (pc_UpdateOutbound (ge_D E) (ge_cli E) ob pc) (api_msg 0 ''ok'') g1))"

definition deleteOutbound :: "'db gw_env \<Rightarrow> http_request \<Rightarrow> 'db Gateway \<Rightarrow> 'db handled" where
  "deleteOutbound E q g =
     with_body E dec_id q g (\<lambda>i.
       if i = 0 then Return (api_msg 400 ''outbound id is required'', g)
       else find_outbound i g (\<lambda>existing g1.
         client_call E (pc_DeleteOutbound (ge_D E) (ge_cli E) i (cli_of g1)) (api_msg 0 ''ok'') g1))"

section \<open>Port mapping\<close>

record PortmapAppHandshake =
  ph_ResID :: ID
  ph_Network :: string
  ph_TargetAddr :: string
  ph_TargetPort :: int

definition enc_PortmapAppHandshake :: "PortmapAppHandshake \<Rightarrow> json" where
  "enc_PortmapAppHandshake h = JObj
     [(''res_id'', ID_MarshalJSON (ph_ResID h)), (''network'', JStr (ph_Network h)),
      (''target_addr'', JStr (ph_TargetAddr h)), (''target_port'', JNum (Itoa (ph_TargetPort h)))]"

definition dec_PortmapAppHandshake :: "json \<Rightarrow> PortmapAppHandshake option" where
  "dec_PortmapAppHandshake j =
     decode_struct
       [(''res_id'', id_field ph_ResID_update), (''network'', str_field ph_Network_update),
        (''target_addr'', str_field ph_TargetAddr_update), (''target_port'', int_field ph_TargetPort_update)] j
       \<lparr>ph_ResID = 0, ph_Network = [], ph_TargetAddr = [], ph_TargetPort = 0\<rparr>"

text \<open>The function given to \<open>SetGetHandshakeFunc\<close>: peer and handshake, or none.\<close>

definition getHandshake ::
  "((uint64, PortmapApp) gomap \<Rightarrow> (uint64, PortmapApp) gomap) \<Rightarrow> string \<Rightarrow> string \<Rightarrow> int \<Rightarrow> 'db PortmapAppMgr
     \<Rightarrow> string \<times> string option" where
  "getHandshake visit network ip port m =
     (let app = FindAppWithPort visit network port m
      in if pa_ResID app = 0 then ([], None)
         else (pa_PeerID app,
               Some (jprint (enc_PortmapAppHandshake
                 \<lparr>ph_ResID = pa_ResID app, ph_Network = pa_Network app, ph_TargetAddr = pa_TargetAddr app,
                  ph_TargetPort = pa_TargetPort app\<rparr>))))"

definition trialResource :: ID where "trialResource = 666666"

definition handlePortmapHandshake ::
  "string \<Rightarrow> 'db Gateway \<Rightarrow> (error + string \<times> string \<times> int) \<times> 'db Gateway" where
  "handlePortmapHandshake handshake g =
     (case unmarshal dec_PortmapAppHandshake handshake of
        None \<Rightarrow> (Inl ErrJSON, g)
      | Some pmhs \<Rightarrow>
          if gw_trial g \<and> ph_ResID pmhs = trialResource
          then (Inr (ph_Network pmhs, ph_TargetAddr pmhs, ph_TargetPort pmhs), g)
          else (case GetAppByID (ph_ResID pmhs) (prm_of g) of
                  (pa, m) \<Rightarrow>
                    if pr_ID pa = 0 then (Inl (ErrNew ''portmap app not found''), set_prm m g)
                    else (Inr (pr_Network pa, pr_TargetAddr pa, pr_TargetPort pa), set_prm m g)))"

section \<open>A gateway to evaluate on\<close>

definition sample_env :: "(string \<times> string) list gw_env" where
  "sample_env = \<lparr>ge_D = list_db, ge_cli = answering_env, ge_listen = any_port_env, ge_visitRes = (\<lambda>m. m), ge_visitApps = (\<lambda>m. m),
     ge_visitObs = (\<lambda>m. m), ge_Error = (\<lambda>_. ''error''), ge_Hostname = Inr ''host'', ge_p2pID = ''peer'', ge_listenPort = 4001\<rparr>"

definition sample_gateway :: "(string \<times> string) list Gateway" where
  "sample_gateway = \<lparr>gw_db = [(''token'', ''9''), (''admin_password'', ''admin123'')], gw_prm = None, gw_pam = Some [],
     gw_proxySvc = Some zero_proxyServiceConfig, gw_obs = None, gw_router = Some Leaf, gw_tunStackRunning = False,
     gw_osRoutes = [], gw_pm = no_listeners, gw_trial = False, gw_sessions = None, gw_timers = [], gw_now = 0,
     gw_obDialer = DirectDialer\<rparr>"

end
