(* ===== verification/PortForward.thy ===== *)
theory PortForward
  imports GatewayApi
begin

text \<open>
  Port forwarding across components: a local connection to the port of an application
  (\<open>portmap/portmap.go\<close>) asks the gateway for its handshake, the handshake travels on a stream, and the
  gateway at the other end looks the resource up and connects to its target (\<open>gateway/gateway.go\<close>).
\<close>

section \<open>The handshake\<close>

definition valid_handshake :: "PortmapAppHandshake \<Rightarrow> bool" where
  "valid_handshake h \<longleftrightarrow> utf8_valid (ph_Network h) \<and> utf8_valid (ph_TargetAddr h) \<and> int64_ok (ph_TargetPort h)"

lemma dec_enc_handshake: "valid_handshake h \<Longrightarrow> dec_PortmapAppHandshake (enc_PortmapAppHandshake h) = Some h"
  by (simp add: valid_handshake_def dec_PortmapAppHandshake_def enc_PortmapAppHandshake_def decode_struct_def find_field_def
      str_field_def int_field_def id_field_def)

lemma wf_enc_handshake: "valid_handshake h \<Longrightarrow> wf_json (enc_PortmapAppHandshake h) \<and> json_depth (enc_PortmapAppHandshake h) \<le> 1"
  by (auto simp: valid_handshake_def enc_PortmapAppHandshake_def)

interpretation phc: codec "\<lambda>h. jprint (enc_PortmapAppHandshake h)" "unmarshal dec_PortmapAppHandshake" valid_handshake
  by unfold_locales (use wf_enc_handshake dec_enc_handshake in fastforce)

lemma handshake_of_app:
  assumes "FindAppWithPort visit network port m = app" and "pa_ResID app \<noteq> 0"
    and "utf8_valid (pa_Network app)" and "utf8_valid (pa_TargetAddr app)" and "int64_ok (pa_TargetPort app)"
  obtains hs where "getHandshake visit network ip port m = (pa_PeerID app, Some hs)"
    and "unmarshal dec_PortmapAppHandshake hs =
      Some \<lparr>ph_ResID = pa_ResID app, ph_Network = pa_Network app, ph_TargetAddr = pa_TargetAddr app, ph_TargetPort = pa_TargetPort app\<rparr>"
proof
  let ?h = "\<lparr>ph_ResID = pa_ResID app, ph_Network = pa_Network app, ph_TargetAddr = pa_TargetAddr app, ph_TargetPort = pa_TargetPort app\<rparr>"
  show "getHandshake visit network ip port m = (pa_PeerID app, Some (jprint (enc_PortmapAppHandshake ?h)))"
    using assms(1,2) by (simp add: getHandshake_def Let_def)
  show "unmarshal dec_PortmapAppHandshake (jprint (enc_PortmapAppHandshake ?h)) = Some ?h"
    by (rule phc.decode_encode) (simp add: valid_handshake_def assms(3-5))
qed

lemma handshake_finds_resource:
  assumes "unmarshal dec_PortmapAppHandshake hs = Some h" and "\<not> (gw_trial g \<and> ph_ResID h = trialResource)"
    and "map_of (made (gw_prm g)) (ph_ResID h) = Some r" and "pr_ID r \<noteq> 0"
  shows "fst (handlePortmapHandshake hs g) = Inr (pr_Network r, pr_TargetAddr r, pr_TargetPort r)"
  using assms by (auto simp: handlePortmapHandshake_def GetAppByID_def prm_of_def split: prod.splits)

lemma handshake_target_stored:
  assumes "\<not> gw_trial g" and "fst (handlePortmapHandshake hs g) = Inr (network, addr, port)"
  shows "\<exists>i r. map_of (made (gw_prm g)) i = Some r \<and> network = pr_Network r \<and> addr = pr_TargetAddr r \<and> port = pr_TargetPort r"
proof -
  obtain h where h: "unmarshal dec_PortmapAppHandshake hs = Some h"
    using assms(2) by (auto simp: handlePortmapHandshake_def split: option.splits)
  obtain pa m where pa: "GetAppByID (ph_ResID h) (prm_of g) = (pa, m)" by (cases "GetAppByID (ph_ResID h) (prm_of g)")
  have r: "pr_ID pa \<noteq> 0" "network = pr_Network pa" "addr = pr_TargetAddr pa" "port = pr_TargetPort pa"
    using assms h pa by (auto simp: handlePortmapHandshake_def split: if_splits)
  have "map_of (made (gw_prm g)) (ph_ResID h) = Some pa"
    using pa r(1) by (auto simp: GetAppByID_def prm_of_def zero_PortmapResource_def split: option.splits)
  with r show ?thesis by blast
qed

section \<open>Instances for evaluation\<close>

definition web_gateway :: "(string \<times> string) list Gateway" where
  "web_gateway = sample_gateway\<lparr>gw_prm := Some [(7, web_resource)]\<rparr>"

definition ssh_manager :: "(string \<times> string) list PortmapAppMgr" where
  "ssh_manager = (Some [(5, ssh_app)], [])"

definition ssh_handshake :: string where
  "ssh_handshake = jprint (enc_PortmapAppHandshake \<lparr>ph_ResID = 7, ph_Network = ''tcp'', ph_TargetAddr = [], ph_TargetPort = 0\<rparr>)"

definition ssh_stream :: "char conn" where
  "ssh_stream = (conn_of [])\<lparr>rd_chunks := [ssh_handshake, ''GET /'', '' HTTP/1.0'']\<rparr>"

section \<open>Properties\<close>

text \<open>
  C7: a gateway that is not in trial mode connects other nodes to its resources and to nothing else.
  Whatever a stream sends as its handshake, when the gateway dials, it dials the target of a resource
  it has, on that resource's network.
\<close>

theorem portmap_dials_only_resources:
  assumes "\<not> gw_trial g"
    and "handleUptpStream env (\<lambda>hs. fst (handlePortmapHandshake hs g)) s = (s', Some (network, target), c)"
  shows "\<exists>i r. map_of (made (gw_prm g)) i = Some r \<and> network = pr_Network r
    \<and> target = host_port (pr_TargetAddr r) (pr_TargetPort r)"
proof -
  obtain hs addr port where h: "fst (handlePortmapHandshake hs g) = Inr (network, addr, port)" "target = host_port addr port"
    using assms(2) by (fastforce simp: handleUptpStream_def Let_def split: prod.splits option.splits sum.splits if_splits)
  with handshake_target_stored [OF assms(1) h(1)] show ?thesis by blast
qed

theorem portmap_dials_only_resources_witness:
  "\<exists>s' network target c. handleUptpStream one_target (\<lambda>hs. fst (handlePortmapHandshake hs web_gateway)) ssh_stream
      = (s', Some (network, target), c)
    \<and> (\<exists>i r. map_of (made (gw_prm web_gateway)) i = Some r \<and> network = pr_Network r
          \<and> target = host_port (pr_TargetAddr r) (pr_TargetPort r))"
proof -
  have "fst (handlePortmapHandshake ssh_handshake web_gateway) = Inr (''tcp'', ''10.0.0.1'', 80)"
    using handshake_finds_resource [OF phc.decode_encode, of "\<lparr>ph_ResID = 7, ph_Network = ''tcp'', ph_TargetAddr = [], ph_TargetPort = 0\<rparr>"
        web_gateway web_resource]
    by (simp add: ssh_handshake_def valid_handshake_def int64_ok_def web_gateway_def sample_gateway_def web_resource_def made_def)
  moreover have "length ssh_handshake \<le> 1024" by code_simp
  ultimately have "\<exists>s' c. handleUptpStream one_target (\<lambda>hs. fst (handlePortmapHandshake hs web_gateway)) ssh_stream
      = (s', Some (''tcp'', host_port ''10.0.0.1'' 80), c)"
    by (cases "tg_DialTCP one_target (host_port ''10.0.0.1'' 80)")
      (simp_all add: handleUptpStream_def ssh_stream_def conn_read_def one_target_def conn_write_def conn_of_def Let_def split: prod.splits)
  then obtain s' c where h: "handleUptpStream one_target (\<lambda>hs. fst (handlePortmapHandshake hs web_gateway)) ssh_stream
      = (s', Some (''tcp'', host_port ''10.0.0.1'' 80), c)" by blast
  have "\<not> gw_trial web_gateway" by (simp add: web_gateway_def sample_gateway_def)
  from portmap_dials_only_resources [OF this h] h show ?thesis by blast
qed

text \<open>
  C8: port forwarding end to end. A connection to the port of an application reaches the target of the
  application's resource: the gateway that has the resource dials its target and passes on everything
  that follows the handshake; it answers the handshake, and the listener that gets this answer has sent
  exactly the handshake and copies everything that comes in reply to the local connection.
\<close>

theorem portmap_end_to_end:
  assumes "FindAppWithPort visit ''tcp'' port m = app" and "valid_app app" and "pa_ResID app \<noteq> 0" and "pa_PeerID app \<noteq> []"
    and "getHandshake visit ''tcp'' ip port m = (pid, Some hs)" and "length hs \<le> 1024"
    and "\<not> (gw_trial g \<and> pa_ResID app = trialResource)"
    and "map_of (made (gw_prm g)) (pa_ResID app) = Some r" and "pr_ID r = pa_ResID app" and "pr_Network r = ''tcp''"
    and "tg_DialTCP env (host_port (pr_TargetAddr r) (pr_TargetPort r)) = Inr conn" and "wr_room conn = None" and "tg_NBConn env = None"
    and "rd_chunks s = hs # data" and "wr_room s = None"
  shows "\<exists>s' c' answer. handleUptpStream env (\<lambda>hs. fst (handlePortmapHandshake hs g)) s
        = (s', Some (''tcp'', host_port (pr_TargetAddr r) (pr_TargetPort r)), Some c')
    \<and> wr_data c' = wr_data conn @ concat data \<and> wr_data s' = wr_data s @ answer
    \<and> (\<forall>renv q st c reply. re_peerDecode renv (pa_PeerID app) = Inr q \<longrightarrow> re_NewStream renv q = Inr st
         \<longrightarrow> rd_chunks st = answer # reply \<longrightarrow> wr_room st = None \<longrightarrow> nc_session c = NoSession \<longrightarrow> wr_room (nc_conn c) = None
         \<longrightarrow> (\<exists>c2 st2. onConnOpen renv (\<lambda>n i p. getHandshake visit n i p m) ''tcp'' ip port c = Return (c2, Some st2)
               \<and> wr_data st2 = wr_data st @ hs \<and> wr_data (nc_conn c2) = wr_data (nc_conn c) @ concat reply))"
proof -
  have v: "utf8_valid (pa_Network app)" "utf8_valid (pa_TargetAddr app)" "int64_ok (pa_TargetPort app)"
    using assms(2) by (simp_all add: valid_app_def)
  obtain h where pid: "pid = pa_PeerID app" and h: "unmarshal dec_PortmapAppHandshake hs = Some h" "ph_ResID h = pa_ResID app"
    using handshake_of_app [OF assms(1,3) v, of ip] assms(5) by fastforce
  have hd: "fst (handlePortmapHandshake hs g) = Inr (''tcp'', pr_TargetAddr r, pr_TargetPort r)"
    using handshake_finds_resource [OF h(1), of g r] assms(3,7-10) h(2) by simp
  have b: "handleUptpStream env (\<lambda>hs. fst (handlePortmapHandshake hs g)) s =
      (conn_close (s\<lparr>wr_data := wr_data s @ handshake_ok, rd_chunks := []\<rparr>), Some (''tcp'', host_port (pr_TargetAddr r) (pr_TargetPort r)),
       Some (conn_close (conn\<lparr>wr_data := wr_data conn @ concat data\<rparr>)))"
    by (rule handleUptpStream_tcp [where hs = hs]) (use assms hd in simp_all)
  have a: "\<exists>c2 st2. onConnOpen renv (\<lambda>n i p. getHandshake visit n i p m) ''tcp'' ip port c = Return (c2, Some st2)
               \<and> wr_data st2 = wr_data st @ hs \<and> wr_data (nc_conn c2) = wr_data (nc_conn c) @ concat reply"
    if "re_peerDecode renv (pa_PeerID app) = Inr q" "re_NewStream renv q = Inr st" "rd_chunks st = handshake_ok # reply"
      "wr_room st = None" "nc_session c = NoSession" "wr_room (nc_conn c) = None" for renv q st c reply
    using relayHandshake_accepts [OF that(1-4), of hs] that(5,6) assms(4,5) pid
    by (simp add: onConnOpen_def nc_Close_def conn_close_def io_Copy_all pending_def cong del: unit.case_cong_weak)
  show ?thesis
    by (intro exI [of _ handshake_ok] exI conjI, rule b) (use a in \<open>auto simp: conn_close_def\<close>)
qed

theorem portmap_end_to_end_witness:
  "\<exists>s' c'. handleUptpStream one_target (\<lambda>hs. fst (handlePortmapHandshake hs web_gateway)) ssh_stream
        = (s', Some (''tcp'', ''10.0.0.1:80''), Some c') \<and> wr_data c' = ''GET / HTTP/1.0''"
proof -
  have t: "host_port ''10.0.0.1'' 80 = ''10.0.0.1:80''" by code_simp
  have r: "map_of (made (gw_prm web_gateway)) (pa_ResID ssh_app) = Some web_resource" "pr_ID web_resource = pa_ResID ssh_app"
    "pr_Network web_resource = ''tcp''" "pr_TargetAddr web_resource = ''10.0.0.1''" "pr_TargetPort web_resource = 80"
    by (simp_all add: web_gateway_def made_def web_resource_def ssh_app_def zero_PortmapApp_def)
  have a: "FindAppWithPort (\<lambda>x. x) ''tcp'' 2222 ssh_manager = ssh_app"
    "getHandshake (\<lambda>x. x) ''tcp'' ''127.0.0.1'' 2222 ssh_manager = (''peer'', Some ssh_handshake)"
    by (simp_all add: getHandshake_def FindAppWithPort_def ssh_manager_def made_def ssh_app_def zero_PortmapApp_def ssh_handshake_def Let_def)
  have n: "length ssh_handshake \<le> 1024" by code_simp
  have d: "tg_DialTCP one_target (host_port (pr_TargetAddr web_resource) (pr_TargetPort web_resource)) = Inr (conn_of [])"
    by (simp add: r t one_target_def)
  show ?thesis
    using portmap_end_to_end [where s = ssh_stream and data = "[''GET /'', '' HTTP/1.0'']", OF a(1) valid_ssh_app _ _ a(2) n _ r(1-3) d]
    by (auto simp: r t ssh_app_def web_gateway_def sample_gateway_def one_target_def conn_of_def ssh_stream_def)
qed

end
