(* ===== verification/Authorize.thy ===== *)
theory Authorize
  imports GatewayApi
begin

text \<open>
  \<open>gateway/authorize.go\<close>: how a gateway answers another node that asks whether it may use a resource or
  the SOCKS service, when it answers a proxy token, and two requests it should not take as it does.
\<close>

section \<open>The answering side\<close>

definition handlePortmapAuth ::
  "'db gw_env \<Rightarrow> AuthorizePortmapInfo option \<Rightarrow> char conn \<Rightarrow> 'db Gateway \<Rightarrow> (char conn \<times> 'db Gateway) outcome" where
  "handlePortmapAuth E info s g =
     (case info of
        None \<Rightarrow> Panic
      | Some i \<Rightarrow>
          let trial = (ai_ResourceID i = trialResource \<and> gw_trial g);
              (res, m) = GetAppByID (ai_ResourceID i) (prm_of g);
              authRes = (trial \<or> pr_ID res = ai_ResourceID i);
              g' = (if trial then g else set_prm m g);
              resp = (if authRes then
                        (case getGatewayName E g' of
                           Inl err \<Rightarrow> zero_AuthorizeResp\<lparr>as_Err := gw_Error E err,
                                        as_Portmap := Some \<lparr>ap_IsTrial = (ai_ResourceID i = trialResource)\<rparr>\<rparr>
                         | Inr gwName \<Rightarrow> zero_AuthorizeResp\<lparr>as_NodeName := gwName,
                                        as_Portmap := Some \<lparr>ap_IsTrial = (ai_ResourceID i = trialResource)\<rparr>\<rparr>)
                      else zero_AuthorizeResp\<lparr>as_Err := ''authorize failed'', as_Portmap := Some \<lparr>ap_IsTrial = False\<rparr>\<rparr>)
          in (case conn_write (jprint (enc_AuthorizeResp resp)) s of (_, _, s') \<Rightarrow> Return (s', g')))"

definition handleProxyAuth ::
  "'db gw_env \<Rightarrow> uint64 \<Rightarrow> AuthorizeProxyInfo option \<Rightarrow> char conn \<Rightarrow> 'db Gateway \<Rightarrow> (char conn \<times> 'db Gateway) outcome" where
  "handleProxyAuth E rnd info s g =
     (case getToken E rnd g of
        (Inl err, g') \<Rightarrow> Return (s, g')
      | (Inr token, g') \<Rightarrow>
          (case info of
             None \<Rightarrow> Panic
           | Some i \<Rightarrow>
               if token \<noteq> ai_Token i then Return (s, g')
               else (case gw_proxySvc g' of
                       None \<Rightarrow> Panic
                     | Some pc \<Rightarrow>
                         let named = (case getGatewayName E g' of
                                        Inl err \<Rightarrow> zero_AuthorizeResp\<lparr>as_Err := gw_Error E err\<rparr>
                                      | Inr gwName \<Rightarrow> zero_AuthorizeResp\<lparr>as_NodeName := gwName\<rparr>);
                             resp = named\<lparr>as_Proxy := Some
                               \<lparr>ap_Route = (if psc_Route pc = [] then ''0.0.0.0/0'' else psc_Route pc),
                                ap_Dns = (if psc_DNS pc = [] then ''8.8.8.8'' else psc_DNS pc)\<rparr>\<rparr>
                         in (case conn_write (jprint (enc_AuthorizeResp resp)) s of (_, _, s') \<Rightarrow> Return (s', g')))))"

definition authorizeHandler ::
  "'db gw_env \<Rightarrow> uint64 \<Rightarrow> char conn \<Rightarrow> 'db Gateway \<Rightarrow> (char conn \<times> 'db Gateway) outcome" where
  "authorizeHandler E rnd s g =
     (case conn_read 1024 s of
        (buf, Some err, s1) \<Rightarrow> Return (conn_close s1, g)
      | (buf, None, s1) \<Rightarrow>
          (case unmarshal dec_AuthorizeReq buf of
             None \<Rightarrow> Return (conn_close s1, g)
           | Some req \<Rightarrow>
               (case (if aq_Type req = AuthorizeTypePortmap then handlePortmapAuth E (aq_Portmap req) s1 g
                      else if aq_Type req = AuthorizeTypeProxy then handleProxyAuth E rnd (aq_Proxy req) s1 g
                      else Return (s1, g)) of
                  Panic \<Rightarrow> Panic
                | Return (s2, g') \<Rightarrow> Return (conn_close s2, g'))))"

section \<open>Facts about the settings\<close>

text \<open>The token a gateway has, when its database holds one that it wrote.\<close>

definition has_token :: "'db gw_env \<Rightarrow> uint64 \<Rightarrow> 'db Gateway \<Rightarrow> bool" where
  "has_token E t g \<longleftrightarrow> db_Get (ge_D E) (gw_db g) dbKeyToken = Inr (FormatUint t)"

lemma getToken_has: "has_token E t g \<Longrightarrow> getToken E rnd g = (Inr t, g)"
  by (simp add: has_token_def getToken_def)

lemma getToken_fresh:
  assumes "leveldb_spec (ge_D E)" and "db_Get (ge_D E) (gw_db g) dbKeyToken = Inl ErrNotFound"
    and "getToken E rnd g = (Inr t, g')"
  shows "t = rnd \<and> has_token E t g'"
  using assms(2,3) put_get [OF assms(1), of "gw_db g" dbKeyToken "FormatUint rnd"]
  by (auto simp: getToken_def setToken_def db_put_def has_token_def split: prod.splits option.splits)

lemma enc_resp_nonempty: "jprint (enc_AuthorizeResp r) \<noteq> []"
  by (simp add: enc_AuthorizeResp_def)

text \<open>One request over a stream: what the client sends is what the handler reads, and the other way round.\<close>

lemma client_reads_answer:
  assumes "peer_Decode h peer = Inr pid" and "host_NewStream h pid = Inr ((conn_of [])\<lparr>rd_chunks := [jprint (enc_AuthorizeResp resp)]\<rparr>)"
    and "valid_resp resp" and "length (jprint (enc_AuthorizeResp resp)) \<le> 1024"
  shows "fst (ResourceAuthorize h peer req) = Inr resp"
  using assms respc.decode_encode [OF assms(3)] enc_resp_nonempty [of resp]
  by (simp add: ResourceAuthorize_def conn_of_def conn_write_def conn_read_def)

lemma handler_reads_request:
  assumes "rd_chunks s = [jprint (enc_AuthorizeReq req)]" and "valid_req req" and "length (jprint (enc_AuthorizeReq req)) \<le> 1024"
  shows "authorizeHandler E rnd s g =
    (case (if aq_Type req = AuthorizeTypePortmap then handlePortmapAuth E (aq_Portmap req) (s\<lparr>rd_chunks := []\<rparr>) g
           else if aq_Type req = AuthorizeTypeProxy then handleProxyAuth E rnd (aq_Proxy req) (s\<lparr>rd_chunks := []\<rparr>) g
           else Return (s\<lparr>rd_chunks := []\<rparr>, g)) of
       Panic \<Rightarrow> Panic | Return (s2, g') \<Rightarrow> Return (conn_close s2, g'))"
  using assms reqc.decode_encode [OF assms(2)] by (simp add: authorizeHandler_def conn_read_def)

text \<open>
  Adding an outbound sends a question with its token; the answer of the gateway that is asked is empty
  exactly when the token is not its own.
\<close>

abbreviation token_question :: "uint64 \<Rightarrow> AuthorizeReq" where
  "token_question t \<equiv> \<lparr>aq_Type = AuthorizeTypeProxy, aq_Portmap = None, aq_Proxy = Some \<lparr>ai_Token = t, ai_Route = [], ai_Dns = []\<rparr>\<rparr>"

lemma token_question_answered:
  assumes "has_token E t g" and "gw_proxySvc g = Some pc" and "rd_chunks s = [jprint (enc_AuthorizeReq (token_question u))]"
    and "wr_room s = None" and "wr_data s = []" and "length (jprint (enc_AuthorizeReq (token_question u))) \<le> 1024"
  shows "\<exists>s'. authorizeHandler E rnd s g = Return (s', g) \<and> (wr_data s' \<noteq> [] \<longleftrightarrow> u = t)"
proof -
  have "valid_req (token_question u)" by (simp add: valid_req_def int64_ok_def)
  from handler_reads_request [OF assms(3) this assms(6), of E rnd g] show ?thesis
    using getToken_has [OF assms(1)] assms(2,4,5) enc_resp_nonempty
    by (auto simp: handleProxyAuth_def Let_def conn_write_def conn_close_def)
qed

lemma sample_token: "has_token sample_env 9 sample_gateway"
proof -
  have "FormatUint 9 = ''9''" by code_simp
  then show ?thesis by (simp add: has_token_def sample_env_def list_db_def sample_gateway_def dbKeyToken_def)
qed

section \<open>Properties\<close>

text \<open>
  A gateway lets a resource be used that it does not have. Asked about resource 0, which no resource
  is stored under, it finds the zero resource, whose identifier is 0, and answers that the node is
  authorised.
\<close>

theorem resource_zero_authorized:
  assumes "map_of (made (gw_prm g)) 0 = None" and "getGatewayName E g = Inr name" and "wr_room s = None"
  shows "\<exists>s' g'. handlePortmapAuth E (Some \<lparr>ai_ResourceID = 0\<rparr>) s g = Return (s', g')
    \<and> wr_data s' = wr_data s @ jprint (enc_AuthorizeResp
        \<lparr>as_NodeName = name, as_Err = [], as_Portmap = Some \<lparr>ap_IsTrial = False\<rparr>, as_Proxy = None\<rparr>)"
proof -
  have n: "getGatewayName E (set_prm m g) = Inr name" if "snd m = gw_db g" for m
    using assms(2) that by (simp add: getGatewayName_def set_prm_def)
  show ?thesis
    using assms(1,3) n [of "snd (GetAppByID 0 (prm_of g))"]
    by (simp add: handlePortmapAuth_def GetAppByID_def prm_of_def zero_PortmapResource_def zero_AuthorizeResp_def
        trialResource_def conn_write_def Let_def)
qed

theorem resource_zero_authorized_witness:
  "\<exists>s' g'. handlePortmapAuth sample_env (Some \<lparr>ai_ResourceID = 0\<rparr>) (conn_of []) sample_gateway = Return (s', g')
    \<and> wr_data s' = jprint (enc_AuthorizeResp
        \<lparr>as_NodeName = ''host'', as_Err = [], as_Portmap = Some \<lparr>ap_IsTrial = False\<rparr>, as_Proxy = None\<rparr>)"
proof -
  have "getGatewayName sample_env sample_gateway = Inr ''host''"
    by (simp add: getGatewayName_def sample_env_def sample_gateway_def list_db_def dbKeyGatewayName_def)
  from resource_zero_authorized [OF _ this, of "conn_of []"] show ?thesis
    by (simp add: sample_gateway_def conn_of_def)
qed

text \<open>
  A request whose type does not go with what it carries makes the handler panic: the nil pointer of
  the missing part is dereferenced.
\<close>

theorem authorize_missing_part_panics:
  assumes "rd_chunks s = [jprint (enc_AuthorizeReq req)]" and "valid_req req" and "length (jprint (enc_AuthorizeReq req)) \<le> 1024"
    and "aq_Type req = AuthorizeTypePortmap \<and> aq_Portmap req = None
       \<or> aq_Type req = AuthorizeTypeProxy \<and> aq_Proxy req = None \<and> has_token E t g"
  shows "authorizeHandler E rnd s g = Panic"
  using assms(4) handler_reads_request [OF assms(1-3), of E rnd g] getToken_has [of E t g rnd]
  by (auto simp: handlePortmapAuth_def handleProxyAuth_def)

theorem authorize_missing_part_panics_witness:
  "authorizeHandler sample_env 0
     ((conn_of [])\<lparr>rd_chunks := [jprint (enc_AuthorizeReq \<lparr>aq_Type = AuthorizeTypePortmap, aq_Portmap = None, aq_Proxy = None\<rparr>)]\<rparr>)
     sample_gateway = Panic"
proof -
  let ?req = "\<lparr>aq_Type = AuthorizeTypePortmap, aq_Portmap = None, aq_Proxy = None\<rparr>"
  have n: "length (jprint (enc_AuthorizeReq ?req)) \<le> 1024" by code_simp
  have v: "valid_req ?req" by (simp add: valid_req_def int64_ok_def)
  show ?thesis by (rule authorize_missing_part_panics [OF _ v n]) simp_all
qed

end
