(* ===== verification/Upgrade.thy ===== *)
theory Upgrade
  imports ApiUtil Version
begin

text \<open>
  \<open>upgrade/api.go\<close> and \<open>gateway/upgrade.go\<close>: asking the upgrade server for the latest gateway and replacing
  the running binary by it. HTTP over libp2p and the operating system's files are the environment;
  what happens to the binary and its backup is the state.
\<close>

section \<open>The upgrade server\<close>

record LatestInfo =
  li_Program :: string
  li_Version :: string
  li_DownloadServer :: string
  li_DownloadPath :: string
  li_Checksum :: string

definition zero_LatestInfo :: LatestInfo where
  "zero_LatestInfo = \<lparr>li_Program = [], li_Version = [], li_DownloadServer = [], li_DownloadPath = [], li_Checksum = []\<rparr>"

definition LatestInfo_fields :: "LatestInfo field list" where
  "LatestInfo_fields =
     [(''program'', str_field li_Program_update), (''version'', str_field li_Version_update),
      (''download_Server'', str_field li_DownloadServer_update), (''download_path'', str_field li_DownloadPath_update),
      (''checksum'', str_field li_Checksum_update)]"

definition UpgradeServer :: string where
  "UpgradeServer = ''12D3KooWCobLm1afjdE3aqTvHjPNdFyHT54Zgjkpmrg8ABV3FzWh''"

text \<open>
  \<open>ue_Get\<close> is a GET over libp2p: status line, answer and the error that reading its body ends with, if any.
  The others are the calls of package \<open>os\<close> in the order the handler makes them; a copy that fails has
  written some part of the data.
\<close>

record upgrade_env =
  ue_sys :: string
  ue_Get :: "string \<Rightarrow> error + string \<times> http_response \<times> error option"
  ue_CreateTemp :: "error option"
  ue_CopyTemp :: "error option"
  ue_Executable :: "error option"
  ue_Rename :: "error option"
  ue_Open :: "error option"
  ue_Create :: "error option"
  ue_CopyBin :: "(error \<times> nat) option"
  ue_Chmod :: "error option"

definition QueryLatestVersion :: "upgrade_env \<Rightarrow> string \<Rightarrow> error + LatestInfo" where
  "QueryLatestVersion U program =
     (case ue_Get U (''libp2p://'' @ UpgradeServer @ ''/version/'' @ program @ ''?sys_type='' @ ue_sys U) of
        Inl err \<Rightarrow> Inl err
      | Inr (reason, resp, _) \<Rightarrow>
          (case ParseHttpResponse reason resp (decode_struct LatestInfo_fields) zero_LatestInfo of
             (Some err, _) \<Rightarrow> Inl err
           | (None, ret) \<Rightarrow> Inr ret))"

definition DownloadGatewayAgentApk :: "upgrade_env \<Rightarrow> error + string \<times> http_response \<times> error option" where
  "DownloadGatewayAgentApk U = ue_Get U (''libp2p://'' @ UpgradeServer @ ''/gateway-agent.apk'')"

definition DownloadLatestGateway ::
  "upgrade_env \<Rightarrow> string \<Rightarrow> string \<Rightarrow> error + string \<times> http_response \<times> error option" where
  "DownloadLatestGateway U downloadServer downloadPath =
     ue_Get U (''libp2p://'' @ downloadServer @ ''/'' @ downloadPath)"

section \<open>Replacing the binary\<close>

text \<open>The file at the path of the running program, the one beside it, and whether the first may be executed.\<close>

record bin_files =
  bf_bin :: "string option"
  bf_bak :: "string option"
  bf_exec :: bool

text \<open>The second half of the handler, from the finished download \<open>new\<close> on.\<close>

definition install :: "upgrade_env \<Rightarrow> string \<Rightarrow> bin_files \<Rightarrow> http_response \<times> bin_files" where
  "install U new fs =
     (if ue_Executable U \<noteq> None then (api_msg 500 ''get executable path failed'', fs)
      else if ue_Rename U \<noteq> None then (api_msg 500 ''rename executable failed'', fs)
      else let fs1 = \<lparr>bf_bin = None, bf_bak = bf_bin fs, bf_exec = False\<rparr>
        in if ue_Open U \<noteq> None then (api_msg 500 ''open downloaded executable failed'', fs1)
           else if ue_Create U \<noteq> None then (api_msg 500 ''open target executable failed'', fs1)
           else (case ue_CopyBin U of
                   Some (err, k) \<Rightarrow> (api_msg 500 ''copy file failed'', fs1\<lparr>bf_bin := Some (take k new)\<rparr>)
                 | None \<Rightarrow>
                     if ue_Chmod U \<noteq> None then (http_write [], fs1\<lparr>bf_bin := Some new\<rparr>)
                     else (api_msg 0 ''upgrade gateway success, please restart'',
                           fs1\<lparr>bf_bin := Some new, bf_exec := True\<rparr>)))"

definition upgradeMyself :: "upgrade_env \<Rightarrow> bin_files \<Rightarrow> http_response \<times> bin_files" where
  "upgradeMyself U fs =
     (case QueryLatestVersion U ''gateway'' of
        Inl err \<Rightarrow> (api_msg 500 ''query latest version failed'', fs)
      | Inr latest \<Rightarrow>
          if CompareVersion GatewayVersion (li_Version latest) \<noteq> LESS then (api_msg 0 ''is latest version'', fs)
          else (case DownloadLatestGateway U (li_DownloadServer latest) (li_DownloadPath latest) of
                  Inl err \<Rightarrow> (api_msg 500 ''download latest version failed'', fs)
                | Inr (reason, resp, readErr) \<Rightarrow>
                    if hs_Status resp \<noteq> 200 then (api_msg 500 ''download latest version failed'', fs)
                    else if ue_CreateTemp U \<noteq> None then (api_msg 500 ''create team file failed'', fs)
                    else if readErr \<noteq> None \<or> ue_CopyTemp U \<noteq> None then (api_msg 500 ''download latest version failed'', fs)
                    else install U (hs_Body resp) fs))"

text \<open>\<open>transferHTTP\<close> hands the answer of the upgrade server on as it is.\<close>

definition transferHTTP :: "http_response \<Rightarrow> http_response" where
  "transferHTTP resp = resp"

definition downloadAPK :: "upgrade_env \<Rightarrow> http_response" where
  "downloadAPK U =
     (case DownloadGatewayAgentApk U of
        Inl err \<Rightarrow> api_msg 500 ''download gateway agent apk failed''
      | Inr (_, resp, _) \<Rightarrow> transferHTTP resp)"

section \<open>Properties\<close>

text \<open>
  C36: the binary is replaced only for a newer version. When the answer reports success, the new binary is
  what was downloaded, it can be executed and the old one is kept beside it; when the version offered
  is not newer than the running one, no file is touched.
\<close>

theorem upgrade_installs_newer:
  assumes "QueryLatestVersion U ''gateway'' = Inr latest"
    and "upgradeMyself U fs = (rsp, fs')"
  shows "(CompareVersion GatewayVersion (li_Version latest) \<noteq> LESS \<longrightarrow> fs' = fs)
    \<and> (rsp = api_msg 0 ''upgrade gateway success, please restart'' \<longrightarrow>
        CompareVersion GatewayVersion (li_Version latest) = LESS
        \<and> (\<exists>reason resp. DownloadLatestGateway U (li_DownloadServer latest) (li_DownloadPath latest) = Inr (reason, resp, None)
             \<and> hs_Status resp = 200
             \<and> fs' = \<lparr>bf_bin = Some (hs_Body resp), bf_bak = bf_bin fs, bf_exec = True\<rparr>))"
proof (cases "CompareVersion GatewayVersion (li_Version latest) = LESS")
  case False
  have "api_msg 0 ''is latest version'' \<noteq> api_msg 0 ''upgrade gateway success, please restart''"
    by (subst api_msg_inj) (simp_all add: int64_ok_def)
  with False assms show ?thesis by (auto simp: upgradeMyself_def)
next
  case True
  have five: "api_msg 500 m \<noteq> api_msg 0 ''upgrade gateway success, please restart''" if "utf8_valid m" "m \<noteq> []" for m
    by (subst api_msg_inj) (use that in \<open>simp_all add: int64_ok_def\<close>)
  have "fs' = \<lparr>bf_bin = Some new, bf_bak = bf_bin fs, bf_exec = True\<rparr>"
    if "install U new fs = (api_msg 0 ''upgrade gateway success, please restart'', fs')" for new
    using that by (auto simp: install_def Let_def five api_msg_write [symmetric] split: if_splits option.splits prod.splits)
  with True assms show ?thesis
    by (auto simp: upgradeMyself_def five split: sum.splits prod.splits if_splits)
qed

definition newer_info :: json where
  "newer_info = JObj [(''version'', JStr ''0.4.0''), (''download_Server'', JStr ''srv''), (''download_path'', JStr ''gw'')]"

text \<open>An upgrade server with version 0.4.0, every call succeeding.\<close>

definition newer_env :: upgrade_env where
  "newer_env = \<lparr>ue_sys = ''linux-amd64'',
     ue_Get = (\<lambda>url. if url = ''libp2p://srv/gw'' then Inr (''200 OK'', http_write ''ELF'', None)
                     else Inr (''200 OK'', api_data ''ok'' newer_info, None)),
     ue_CreateTemp = None, ue_CopyTemp = None, ue_Executable = None, ue_Rename = None, ue_Open = None,
     ue_Create = None, ue_CopyBin = None, ue_Chmod = None\<rparr>"

lemma newer_queried:
  "QueryLatestVersion newer_env ''gateway'' = Inr (zero_LatestInfo\<lparr>li_Version := ''0.4.0'', li_DownloadServer := ''srv'', li_DownloadPath := ''gw''\<rparr>)"
proof -
  let ?r = "\<lparr>api_Code = 0, api_Message = ''ok'', api_Data = Some newer_info\<rparr>"
  have "decode_json (jprint (enc_ApiResponse ?r)) = Some (enc_ApiResponse ?r)"
    by (rule decode_json_jprint) (auto simp: enc_ApiResponse_def newer_info_def)
  then show ?thesis
    by (simp add: QueryLatestVersion_def newer_env_def UpgradeServer_def ParseHttpResponse_def api_data_def SendAPIRespWithOk_def)
      (simp add: enc_ApiResponse_def newer_info_def decode_struct_def find_field_def
        str_field_def int_field_def int64_ok_def LatestInfo_fields_def zero_LatestInfo_def)
qed

lemma newer_less: "CompareVersion GatewayVersion ''0.4.0'' = LESS"
proof -
  have s: "Split (CHR ''.'') GatewayVersion = map Itoa [0, 3, 10]" "Split (CHR ''.'') ''0.4.0'' = map Itoa [0, 4, 0]"
    "GatewayVersion \<noteq> ''0.4.0''" by code_simp+
  show ?thesis unfolding CompareVersion_def s using s(3) by (simp add: Atoi_def int64_ok_def Let_def)
qed

theorem upgrade_installs_newer_witness:
  "upgradeMyself newer_env \<lparr>bf_bin = Some ''old'', bf_bak = None, bf_exec = True\<rparr> =
     (api_msg 0 ''upgrade gateway success, please restart'', \<lparr>bf_bin = Some ''ELF'', bf_bak = Some ''old'', bf_exec = True\<rparr>)"
proof -
  let ?fs = "\<lparr>bf_bin = Some ''old'', bf_bak = None, bf_exec = True\<rparr>"
  obtain rsp fs' where u: "upgradeMyself newer_env ?fs = (rsp, fs')" by (cases "upgradeMyself newer_env ?fs")
  have r: "rsp = api_msg 0 ''upgrade gateway success, please restart''"
    using u newer_queried newer_less by (simp add: upgradeMyself_def DownloadLatestGateway_def) (simp add: newer_env_def install_def Let_def)
  obtain resp where "DownloadLatestGateway newer_env ''srv'' ''gw'' = Inr (''200 OK'', resp, None)" "hs_Body resp = ''ELF''"
    by (simp add: DownloadLatestGateway_def newer_env_def http_write_def)
  with upgrade_installs_newer [OF newer_queried u] r u show ?thesis by auto
qed

text \<open>
  A failure behind the renaming of the running binary is not undone: the answer is an error and there
  is no file, or only the beginning of one, where the service manager expects the program.
\<close>

theorem upgrade_failure_loses_binary:
  assumes "ue_Executable U = None" and "ue_Rename U = None"
    and "ue_Open U \<noteq> None \<or> ue_Create U \<noteq> None \<or> (\<exists>err k. ue_CopyBin U = Some (err, k) \<and> k < length new)"
  shows "\<exists>m. fst (install U new fs) = api_msg 500 m \<and> bf_bin (snd (install U new fs)) \<noteq> Some new
    \<and> bf_exec (snd (install U new fs)) = False \<and> bf_bak (snd (install U new fs)) = bf_bin fs"
  using assms by (auto simp: install_def Let_def split: if_splits option.splits prod.splits)

theorem upgrade_failure_loses_binary_witness:
  "\<exists>m. fst (install (newer_env\<lparr>ue_Create := Some (ErrNew ''no space left on device'')\<rparr>) ''ELF''
         \<lparr>bf_bin = Some ''old'', bf_bak = None, bf_exec = True\<rparr>) = api_msg 500 m"
  using upgrade_failure_loses_binary [of "newer_env\<lparr>ue_Create := Some (ErrNew ''no space left on device'')\<rparr>" "''ELF''"
      "\<lparr>bf_bin = Some ''old'', bf_bak = None, bf_exec = True\<rparr>"]
  by (auto simp: newer_env_def)

end
