(* ===== verification/Server.thy ===== *)
theory Server
  imports Authorize Upgrade
begin

text \<open>
  The web server of the gateway: the routes of \<open>router\<close> in \<open>gateway/gateway.go\<close> behind the session
  middleware, and who can get past it. The router of \<open>github.com/go-chi/chi\<close> is a parameter.
\<close>

section \<open>Routes\<close>

datatype endpoint =
    EpLogin | EpChangePassword | EpLogout
  | EpListResources | EpGetResource | EpAddResource | EpUpdateResource | EpDeleteResource
  | EpGatewayInfo | EpGatewayName | EpRestart
  | EpGetProxyConfig | EpUpdateProxyConfig
  | EpListOutbounds | EpGetOutbound | EpAddOutbound | EpUpdateOutbound | EpDeleteOutbound
  | EpUpgradeMyself | EpDownloadAPK
  | EpAddApp | EpUpdateApp | EpDeleteApp | EpListApps | EpGetApp
  | EpStatic

text \<open>Method, pattern of the group, pattern in the group, handler.\<close>

definition routes :: "(string \<times> string \<times> string \<times> endpoint) list" where
  "routes =
     [(''POST'', ''/login'', ''/'', EpLogin), (''POST'', ''/login'', ''/change_password'', EpChangePassword),
      (''POST'', ''/login'', ''/logout'', EpLogout),
      (''GET'', ''/resource'', ''/list'', EpListResources), (''GET'', ''/resource'', ''/get/{id}'', EpGetResource),
      (''POST'', ''/resource'', ''/add'', EpAddResource), (''POST'', ''/resource'', ''/update'', EpUpdateResource),
      (''POST'', ''/resource'', ''/delete'', EpDeleteResource),
      (''GET'', ''/gateway'', ''/info'', EpGatewayInfo), (''POST'', ''/gateway'', ''/name'', EpGatewayName),
      (''GET'', ''/gateway'', ''/restart'', EpRestart),
      (''GET'', ''/proxy_service'', ''/config'', EpGetProxyConfig), (''POST'', ''/proxy_service'', ''/config'', EpUpdateProxyConfig),
      (''GET'', ''/proxy_client'', ''/list'', EpListOutbounds), (''GET'', ''/proxy_client'', ''/get/{id}'', EpGetOutbound),
      (''POST'', ''/proxy_client'', ''/add'', EpAddOutbound), (''POST'', ''/proxy_client'', ''/update'', EpUpdateOutbound),
      (''POST'', ''/proxy_client'', ''/delete'', EpDeleteOutbound),
      (''GET'', ''/upgrade'', ''/myself'', EpUpgradeMyself), (''GET'', ''/upgrade'', ''/agent/android'', EpDownloadAPK),
      (''POST'', ''/app'', ''/add'', EpAddApp), (''POST'', ''/app'', ''/update'', EpUpdateApp),
      (''POST'', ''/app'', ''/delete'', EpDeleteApp), (''GET'', ''/app'', ''/list'', EpListApps),
      (''GET'', ''/app'', ''/get/{id}'', EpGetApp),
      (''GET'', ''/'', ''/*'', EpStatic)]"

text \<open>
  The router finds the route of a request and the value of \<open>{id}\<close>; \<open>None\<close> when there is none. What is
  used of it: the route is one of the table, and the path starts with the pattern of its group.
\<close>

type_synonym mux = "(string \<times> string \<times> string \<times> endpoint) list \<Rightarrow> string \<Rightarrow> string \<Rightarrow> (endpoint \<times> string) option"

definition mux_spec :: "mux \<Rightarrow> bool" where
  "mux_spec M \<longleftrightarrow>
     (\<forall>table method path ep i. M table method path = Some (ep, i) \<longrightarrow>
        (\<exists>grp sub. (method, grp, sub, ep) \<in> set table \<and> HasPrefix path grp))"

text \<open>
  The rest of the world: the router, the answer to a request without a route, the file server, the upgrade
  environment, and the random numbers and the UUID that handling this request draws.
\<close>

record world =
  wd_mux :: mux
  wd_noRoute :: http_response
  wd_files :: "http_request \<Rightarrow> http_response"
  wd_upgrade :: upgrade_env
  wd_rnd :: uint64
  wd_rnd2 :: uint64
  wd_uuid :: string

section \<open>Dispatch\<close>

text \<open>
  A gateway together with its binary on disk. The answer to \<open>/gateway/restart\<close> is written before the exit
  signal is offered, which the model leaves to the process's main loop.
\<close>

type_synonym 'db site = "'db Gateway \<times> bin_files"

definition on_gateway :: "'db handled \<Rightarrow> bin_files \<Rightarrow> (http_response \<times> 'db site) outcome" where
  "on_gateway r fs = (case r of Panic \<Rightarrow> Panic | Return (rsp, g) \<Rightarrow> Return (rsp, g, fs))"

fun run_endpoint ::
  "'db gw_env \<Rightarrow> world \<Rightarrow> endpoint \<Rightarrow> http_request \<Rightarrow> 'db site \<Rightarrow> (http_response \<times> 'db site) outcome" where
  "run_endpoint E w EpLogin q (g, fs) = on_gateway (Return (handleLogin E (wd_uuid w) q g)) fs"
| "run_endpoint E w EpChangePassword q (g, fs) = on_gateway (Return (handleChangePassword E q g)) fs"
| "run_endpoint E w EpLogout q (g, fs) = on_gateway (Return (handleLogout q g)) fs"
| "run_endpoint E w EpListResources q (g, fs) = on_gateway (listResources E g) fs"
| "run_endpoint E w EpGetResource q (g, fs) = on_gateway (getResource q g) fs"
| "run_endpoint E w EpAddResource q (g, fs) = on_gateway (addResource E (wd_rnd w) q g) fs"
| "run_endpoint E w EpUpdateResource q (g, fs) = on_gateway (updateResource E q g) fs"
| "run_endpoint E w EpDeleteResource q (g, fs) = on_gateway (deleteResource E q g) fs"
| "run_endpoint E w EpGatewayInfo q (g, fs) = on_gateway (getGatewayInfo E (wd_rnd w) (wd_rnd2 w) g) fs"
| "run_endpoint E w EpGatewayName q (g, fs) = on_gateway (updateGatewayName E q g) fs"
| "run_endpoint E w EpRestart q (g, fs) = Return (http_write ''ok'', g, fs)"
| "run_endpoint E w EpGetProxyConfig q (g, fs) = on_gateway (getProxyConfig g) fs"
| "run_endpoint E w EpUpdateProxyConfig q (g, fs) = on_gateway (updateProxyConfig E q g) fs"
| "run_endpoint E w EpListOutbounds q (g, fs) = on_gateway (listOutbounds E g) fs"
| "run_endpoint E w EpGetOutbound q (g, fs) = on_gateway (getOutbound q g) fs"
| "run_endpoint E w EpAddOutbound q (g, fs) = on_gateway (addOutbound E (wd_rnd w) q g) fs"
| "run_endpoint E w EpUpdateOutbound q (g, fs) = on_gateway (updateOutbound E q g) fs"
| "run_endpoint E w EpDeleteOutbound q (g, fs) = on_gateway (deleteOutbound E q g) fs"
| "run_endpoint E w EpUpgradeMyself q (g, fs) =
     (case upgradeMyself (wd_upgrade w) fs of (rsp, fs') \<Rightarrow> Return (rsp, g, fs'))"
| "run_endpoint E w EpDownloadAPK q (g, fs) = Return (downloadAPK (wd_upgrade w), g, fs)"
| "run_endpoint E w EpAddApp q (g, fs) = on_gateway (addApp E (wd_rnd w) q g) fs"
| "run_endpoint E w EpUpdateApp q (g, fs) = on_gateway (updateApp E q g) fs"
| "run_endpoint E w EpDeleteApp q (g, fs) = on_gateway (deleteApp E q g) fs"
| "run_endpoint E w EpListApps q (g, fs) = on_gateway (listApps E g) fs"
| "run_endpoint E w EpGetApp q (g, fs) = on_gateway (getApp q g) fs"
| "run_endpoint E w EpStatic q (g, fs) = Return (wd_files w q, g, fs)"

text \<open>
  One request through the middleware and the router. A handler that panics takes its connection down, not
  the server: \<open>net/http\<close> recovers, and what it had changed is not part of this model.
\<close>

definition serve ::
  "'db gw_env \<Rightarrow> world \<Rightarrow> http_request \<Rightarrow> 'db site \<Rightarrow> (http_response \<times> 'db site) outcome" where
  "serve E w q st =
     (case authMiddleware q (fst st) of
        Some rsp \<Rightarrow> Return (rsp, st)
      | None \<Rightarrow>
          (case wd_mux w routes (hq_Method q) (hq_Path q) of
             None \<Rightarrow> Return (wd_noRoute w, st)
           | Some (ep, i) \<Rightarrow> run_endpoint E w ep (q\<lparr>hq_id := i\<rparr>) st))"

section \<open>Sessions are touched by the session handlers only\<close>

definition same_sessions :: "'db Gateway \<Rightarrow> 'db Gateway \<Rightarrow> bool" where
  "same_sessions g g' \<longleftrightarrow> gw_sessions g' = gw_sessions g \<and> gw_timers g' = gw_timers g \<and> gw_now g' = gw_now g"

definition keeps :: "'db Gateway \<Rightarrow> 'db handled \<Rightarrow> bool" where
  "keeps g r \<longleftrightarrow> (case r of Panic \<Rightarrow> True | Return (_, g') \<Rightarrow> same_sessions g g')"

named_theorems session_frame

lemma same_sessions_refl [session_frame]: "same_sessions g g"
  by (simp add: same_sessions_def)

lemma same_sessions_views [session_frame]:
  "same_sessions g (set_prm m g)" "same_sessions g (set_pam m' g)" "same_sessions g (set_cli pc g)"
  "same_sessions g (set_pam m' (g\<lparr>gw_pm := pm\<rparr>))"
  by (simp_all add: same_sessions_def gw_views)

lemma keeps_Return [session_frame]: "keeps g (Return (rsp, g')) \<longleftrightarrow> same_sessions g g'"
  by (simp add: keeps_def)

lemma keeps_Panic [session_frame]: "keeps g Panic"
  by (simp add: keeps_def)

lemma keeps_with_body [session_frame]: "(\<And>x. keeps g (k x)) \<Longrightarrow> keeps g (with_body E dec q g k)"
  by (simp add: with_body_def keeps_def same_sessions_refl split: sum.splits option.splits)

lemma keeps_save_app: "keeps g (save_app E app (g\<lparr>gw_pm := pm\<rparr>))"
  by (simp add: save_app_def session_frame split: outcome.splits prod.splits)

lemma keeps_find_outbound: "(\<And>ob g'. same_sessions g g' \<Longrightarrow> keeps g (k ob g')) \<Longrightarrow> keeps g (find_outbound i g k)"
  by (auto simp: find_outbound_def Let_def session_frame split: prod.splits option.splits)

lemma keeps_client_call: "same_sessions g g' \<Longrightarrow> keeps g (client_call E r ok g')"
  by (auto simp: client_call_def keeps_def same_sessions_def gw_views split: outcome.splits prod.splits)

lemma db_put_sessions: "db_put E k v g = (e, g') \<Longrightarrow> same_sessions g g'"
  by (auto simp: db_put_def same_sessions_def split: prod.splits)

lemma getToken_sessions: "getToken E rnd g = (r, g') \<Longrightarrow> same_sessions g g'"
  by (auto simp: getToken_def setToken_def session_frame dest: db_put_sessions split: sum.splits prod.splits option.splits if_splits)

lemma same_sessions_trans: "same_sessions g g' \<Longrightarrow> same_sessions g' g'' \<Longrightarrow> same_sessions g g''"
  by (simp add: same_sessions_def)

lemma keeps_resources:
  "keeps g (listResources E g)" "keeps g (getResource q g)" "keeps g (addResource E rnd q g)"
  "keeps g (updateResource E q g)" "keeps g (deleteResource E q g)"
  by (auto simp: listResources_def getResource_def addResource_def updateResource_def deleteResource_def session_frame
      intro!: keeps_with_body split: prod.splits option.splits)

lemma keeps_apps:
  "keeps g (listApps E g)" "keeps g (getApp q g)" "keeps g (addApp E rnd q g)" "keeps g (updateApp E q g)" "keeps g (deleteApp E q g)"
  by (auto simp: listApps_def getApp_def addApp_def updateApp_def deleteApp_def session_frame Let_def keeps_save_app
      intro!: keeps_with_body split: prod.splits option.splits sum.splits)

lemma keeps_outbounds:
  "keeps g (listOutbounds E g)" "keeps g (getOutbound q g)" "keeps g (addOutbound E rnd q g)"
  "keeps g (updateOutbound E q g)" "keeps g (deleteOutbound E q g)"
  by (auto simp: listOutbounds_def getOutbound_def addOutbound_def updateOutbound_def deleteOutbound_def session_frame
      intro!: keeps_with_body keeps_find_outbound keeps_client_call split: prod.splits option.splits outcome.splits)

lemma keeps_settings:
  "keeps g (getProxyConfig g)" "keeps g (updateProxyConfig E q g)" "keeps g (updateGatewayName E q g)"
proof -
  show "keeps g (getProxyConfig g)" by (simp add: getProxyConfig_def session_frame split: option.splits)
  show "keeps g (updateProxyConfig E q g)"
    by (auto simp: updateProxyConfig_def keeps_Return same_sessions_def
        intro!: keeps_with_body split: option.splits prod.splits)
  show "keeps g (updateGatewayName E q g)"
    by (auto simp: updateGatewayName_def setGatewayName_def session_frame dest: db_put_sessions
        intro!: keeps_with_body split: prod.splits)
qed

lemma keeps_info: "keeps g (getGatewayInfo E rnd rnd2 g)"
  by (auto simp: getGatewayInfo_def setToken_def session_frame Let_def dest!: db_put_sessions getToken_sessions
      intro: same_sessions_trans split: sum.splits prod.splits option.splits)

lemma change_password_sessions: "handleChangePassword E q g = (rsp, g') \<Longrightarrow> same_sessions g g'"
  by (auto simp: handleChangePassword_def session_frame dest: db_put_sessions
      split: option.splits sum.splits prod.splits if_splits)

lemmas all_keep = keeps_resources keeps_apps keeps_outbounds keeps_settings keeps_info

lemma on_gateway_keeps: "on_gateway r fs = Return (rsp, g', fs') \<Longrightarrow> keeps g r \<Longrightarrow> same_sessions g g'"
  by (auto simp: on_gateway_def keeps_def split: outcome.splits prod.splits)

lemma endpoint_keeps_sessions:
  assumes "run_endpoint E w ep q (g, fs) = Return (rsp, g', fs')" and "ep \<noteq> EpLogin" and "ep \<noteq> EpLogout"
  shows "same_sessions g g'"
proof (cases "ep = EpChangePassword \<or> ep \<in> {EpRestart, EpUpgradeMyself, EpDownloadAPK, EpStatic}")
  case True
  with assms(1) show ?thesis
    by (auto simp: on_gateway_def session_frame dest: change_password_sessions split: prod.splits)
next
  case False
  with assms obtain r where "on_gateway r fs = Return (rsp, g', fs')" "keeps g r"
    by (cases ep) (auto intro: all_keep)
  then show ?thesis by (rule on_gateway_keeps)
qed

section \<open>Who gets past the middleware\<close>

text \<open>The credentials of the administrator, as the database has them, in the body of a request.\<close>

definition correct_login :: "'db gw_env \<Rightarrow> http_request \<Rightarrow> 'db Gateway \<Rightarrow> bool" where
  "correct_login E q g \<longleftrightarrow>
     (\<exists>req pass. decode_body dec_login q = Some req \<and> db_Get (ge_D E) (gw_db g) dbKeyAdminPassword = Inr pass
        \<and> lr_Username req = ''admin'' \<and> lr_Password req = pass)"

text \<open>
  The runs of a site from its start, with the history of correct logins: the second and the UUID drawn.
  Requests and the passing of time interleave in any order.
\<close>

inductive site_run :: "'db gw_env \<Rightarrow> 'db site \<Rightarrow> (nat \<times> string) list \<Rightarrow> bool" for E where
  start: "site_run E (g, fs) []" if "gw_sessions g = None" and "gw_timers g = []"
| tick: "site_run E (advance t g, fs) log" if "site_run E (g, fs) log" and "gw_now g \<le> t"
| request: "site_run E (g', fs') ((if correct_login E q g then [(gw_now g, wd_uuid w)] else []) @ log)"
    if "site_run E (g, fs) log" and "serve E w q (g, fs) = Return (rsp, g', fs')"

text \<open>Every session comes from a login whose timer is still to come.\<close>

definition sessions_ok :: "'db Gateway \<Rightarrow> (nat \<times> string) list \<Rightarrow> bool" where
  "sessions_ok g log \<longleftrightarrow>
     wf_gomap (made (gw_sessions g))
     \<and> (\<forall>tok. map_of (made (gw_sessions g)) tok \<noteq> None \<longrightarrow>
          (\<exists>t. (t, tok) \<in> set log \<and> (t + session_seconds, tok) \<in> set (gw_timers g)))
     \<and> (\<forall>(d, tok) \<in> set (gw_timers g). gw_now g < d)"

lemma made_map_option: "made (map_option f m) = (case m of None \<Rightarrow> [] | Some kvs \<Rightarrow> f kvs)"
  by (cases m) simp_all

lemma fold_delete:
  "wf_gomap m \<Longrightarrow> wf_gomap (fold AList.delete ks m)
    \<and> map_of (fold AList.delete ks m) k = (if k \<in> set ks then None else map_of m k)"
  by (induction ks arbitrary: m) auto

lemma sessions_ok_advance:
  assumes "sessions_ok g log" shows "sessions_ok (advance t g) log"
proof -
  let ?due = "map snd (filter (\<lambda>(d, tok). d \<le> t) (gw_timers g))"
  have m: "wf_gomap (made (gw_sessions (advance t g)))
      \<and> map_of (made (gw_sessions (advance t g))) tok = (if tok \<in> set ?due then None else map_of (made (gw_sessions g)) tok)" for tok
    using assms fold_delete [of "made (gw_sessions g)" ?due tok]
    by (cases "gw_sessions g") (auto simp: advance_def sessions_ok_def)
  have "\<exists>t0. (t0, tok) \<in> set log \<and> (t0 + session_seconds, tok) \<in> set (gw_timers (advance t g))"
    if tok: "map_of (made (gw_sessions (advance t g))) tok \<noteq> None" for tok
  proof -
    have nd: "tok \<notin> set ?due" and s: "map_of (made (gw_sessions g)) tok \<noteq> None" using tok m [of tok] by (auto split: if_splits)
    from s assms obtain t0 where t0: "(t0, tok) \<in> set log" "(t0 + session_seconds, tok) \<in> set (gw_timers g)"
      unfolding sessions_ok_def by blast
    then have "\<not> t0 + session_seconds \<le> t" using nd by force
    with t0 show ?thesis by (auto simp: advance_def)
  qed
  with m show ?thesis by (auto simp: sessions_ok_def) (auto simp: advance_def)
qed

lemma login_cases:
  obtains "correct_login E q g" and "hs_Status (fst (handleLogin E tok q g)) = 200"
      and "snd (handleLogin E tok q g) = g\<lparr>gw_sessions := Some (AList.update tok True (made (gw_sessions g))),
             gw_timers := (gw_now g + session_seconds, tok) # gw_timers g\<rparr>"
  | "\<not> correct_login E q g" and "snd (handleLogin E tok q g) = g" and "hs_Status (fst (handleLogin E tok q g)) \<noteq> 200"
proof (cases "correct_login E q g")
  case True
  then show ?thesis by (intro that(1)) (auto simp: handleLogin_def correct_login_def)
next
  case False
  then show ?thesis
    by (intro that(2)) (auto simp: handleLogin_def correct_login_def split: option.splits sum.splits)
qed

lemma sessions_ok_mono: "same_sessions g g' \<Longrightarrow> sessions_ok g log \<Longrightarrow> sessions_ok g' (xs @ log)"
  by (auto simp: same_sessions_def sessions_ok_def)

lemma sessions_ok_login:
  assumes "sessions_ok g log"
  shows "sessions_ok (snd (handleLogin E tok q g)) ((if correct_login E q g then [(gw_now g, tok)] else []) @ log)"
proof (rule login_cases [of E q g tok])
  assume c: "correct_login E q g" and g': "snd (handleLogin E tok q g) = g\<lparr>gw_sessions := Some (AList.update tok True (made (gw_sessions g))),
             gw_timers := (gw_now g + session_seconds, tok) # gw_timers g\<rparr>"
  have "0 < session_seconds" by (simp add: session_seconds_def)
  with assms show ?thesis unfolding g' using c by (auto simp: sessions_ok_def split: if_splits)
next
  assume "\<not> correct_login E q g" and "snd (handleLogin E tok q g) = g"
  with assms show ?thesis by simp
qed

lemma sessions_ok_logout:
  assumes "sessions_ok g log" shows "sessions_ok (snd (handleLogout q g)) (xs @ log)"
proof -
  let ?g = "snd (handleLogout q g)"
  have "wf_gomap (made (gw_sessions ?g))" and "map_of (made (gw_sessions ?g)) tok \<noteq> None \<Longrightarrow> map_of (made (gw_sessions g)) tok \<noteq> None" for tok
    using assms by (auto simp: handleLogout_def sessions_ok_def made_map_option split: option.splits if_splits)
  moreover have "gw_timers ?g = gw_timers g" "gw_now ?g = gw_now g" by (simp_all add: handleLogout_def)
  ultimately show ?thesis using assms unfolding sessions_ok_def set_append by (simp only: Un_iff) blast
qed

lemma serve_sessions_ok:
  assumes "sessions_ok g log" and "serve E w q (g, fs) = Return (rsp, g', fs')"
  shows "sessions_ok g' ((if correct_login E q g then [(gw_now g, wd_uuid w)] else []) @ log)"
proof (cases "\<exists>ep i. authMiddleware q g = None \<and> wd_mux w routes (hq_Method q) (hq_Path q) = Some (ep, i)")
  case False
  then have "g' = g" using assms(2) by (auto simp: serve_def split: option.splits)
  then show ?thesis by (simp only: sessions_ok_mono [OF same_sessions_refl assms(1)])
next
  case True
  then obtain ep i where r: "run_endpoint E w ep (q\<lparr>hq_id := i\<rparr>) (g, fs) = Return (rsp, g', fs')"
    using assms(2) by (auto simp: serve_def)
  have b: "correct_login E (q\<lparr>hq_id := i\<rparr>) g = correct_login E q g" by (simp add: correct_login_def decode_body_def)
  consider "ep = EpLogin" | "ep = EpLogout" | "ep \<noteq> EpLogin" "ep \<noteq> EpLogout" by blast
  then show ?thesis
  proof cases
    case 1
    with r have "g' = snd (handleLogin E (wd_uuid w) (q\<lparr>hq_id := i\<rparr>) g)" by (auto simp: on_gateway_def split: prod.splits)
    then show ?thesis using sessions_ok_login [OF assms(1), of E "wd_uuid w" "q\<lparr>hq_id := i\<rparr>"] by (simp add: b)
  next
    case 2
    with r have "g' = snd (handleLogout (q\<lparr>hq_id := i\<rparr>) g)" by (auto simp: on_gateway_def split: prod.splits)
    then show ?thesis using sessions_ok_logout [OF assms(1)] by simp
  next
    case 3
    then show ?thesis by (intro sessions_ok_mono [OF _ assms(1)] endpoint_keeps_sessions [OF r])
  qed
qed

lemma site_run_sessions_ok: "site_run E st log \<Longrightarrow> sessions_ok (fst st) log"
proof (induction rule: site_run.induct)
  case (start g fs)
  then show ?case by (simp add: sessions_ok_def)
next
  case (tick g fs log t)
  then show ?case by (simp add: sessions_ok_advance)
next
  case (request g fs log w q rsp g' fs')
  then show ?case using serve_sessions_ok by fastforce
qed

section \<open>Properties\<close>

lemma protected_route:
  assumes "mux_spec M" and "M routes m p = Some (ep, i)" and "ep \<notin> {EpLogin, EpChangePassword, EpLogout, EpStatic}"
  shows "\<not> open_path p"
proof -
  obtain grp sub where r: "(m, grp, sub, ep) \<in> set routes" and p: "HasPrefix p grp"
    using assms(1,2) unfolding mux_spec_def by blast
  from r assms(3) have "grp \<in> set [''/resource'', ''/gateway'', ''/proxy_service'', ''/proxy_client'', ''/upgrade'', ''/app'']"
    by (auto simp: routes_def)
  with p show ?thesis by (auto simp: open_path_def HasPrefix_append)
qed

lemma accepted_token:
  assumes "sessions_ok g log" and "authMiddleware q g = None" and "\<not> open_path (hq_Path q)"
  shows "\<exists>t. (t, request_token q) \<in> set log \<and> gw_now g < t + 15 * 60"
proof -
  have "map_of (made (gw_sessions g)) (request_token q) = Some True"
    using assms(2,3) by (auto simp: authMiddleware_def Let_def split: if_splits)
  then obtain t where "(t, request_token q) \<in> set log" "(t + session_seconds, request_token q) \<in> set (gw_timers g)"
    using assms(1) unfolding sessions_ok_def by (metis option.distinct(1))
  moreover from this assms(1) have "gw_now g < t + session_seconds" by (fastforce simp: sessions_ok_def)
  ultimately show ?thesis by (auto simp: session_seconds_def)
qed

text \<open>
  C1: in every run of a gateway from its start, whatever requests come and however time passes between
  them, a request to any endpoint behind the login either carries a token that a login with the
  administrator's name and the password stored at that moment was given less than fifteen minutes
  ago, or it is turned away with 401 or to the login page and changes nothing.
\<close>

theorem session_safety:
  assumes "site_run E (g, fs) log" and "mux_spec (wd_mux w)"
    and "wd_mux w routes (hq_Method q) (hq_Path q) = Some (ep, i)"
    and "ep \<notin> {EpLogin, EpChangePassword, EpLogout, EpStatic}"
  shows "(\<exists>t. (t, request_token q) \<in> set log \<and> gw_now g < t + 15 * 60)
    \<or> (\<exists>rsp. serve E w q (g, fs) = Return (rsp, g, fs) \<and> hs_Status rsp \<in> {302, 401})"
proof (cases "authMiddleware q g")
  case None
  have "sessions_ok g log" using site_run_sessions_ok [OF assms(1)] by simp
  from accepted_token [OF this None protected_route [OF assms(2-4)]] show ?thesis by blast
next
  case (Some rsp)
  then have "hs_Status rsp \<in> {302, 401}" by (auto simp: authMiddleware_def Let_def split: if_splits)
  with Some show ?thesis by (simp add: serve_def)
qed

text \<open>A router for evaluation: a path is the two patterns put together.\<close>

definition exact_mux :: mux where
  "exact_mux table m p =
     (case List.find (\<lambda>(m', grp, sub, ep). m' = m \<and> p = grp @ sub) table of
        Some (_, _, _, ep) \<Rightarrow> Some (ep, [])
      | None \<Rightarrow> None)"

lemma exact_mux_spec: "mux_spec exact_mux"
  unfolding mux_spec_def exact_mux_def
  by (auto dest!: find_Some_in simp: HasPrefix_append split: option.splits)

definition sample_world :: world where
  "sample_world = \<lparr>wd_mux = exact_mux, wd_noRoute = http_Error ''404 page not found'' 404, wd_files = (\<lambda>_. http_write []),
     wd_upgrade = newer_env, wd_rnd = 1, wd_rnd2 = 2, wd_uuid = ''tok''\<rparr>"

definition sample_files :: bin_files where
  "sample_files = \<lparr>bf_bin = Some ''old'', bf_bak = None, bf_exec = True\<rparr>"

definition login_body :: json where
  "login_body = JObj [(''username'', JStr ''admin''), (''password'', JStr ''admin123'')]"

definition login_request :: http_request where
  "login_request = \<lparr>hq_Method = ''POST'', hq_Path = ''/login/'', hq_Authorization = [], hq_Accept = [], hq_Cookie = None,
     hq_Body = Inr (jprint login_body), hq_id = []\<rparr>"

definition list_request :: http_request where
  "list_request = login_request\<lparr>hq_Method := ''GET'', hq_Path := ''/resource/list'', hq_Authorization := ''tok''\<rparr>"

lemma sample_password: "db_Get (ge_D sample_env) (gw_db sample_gateway) dbKeyAdminPassword = Inr ''admin123''"
  by (simp add: sample_env_def sample_gateway_def list_db_def dbKeyAdminPassword_def)

lemma decode_login_request:
  "decode_body dec_login (login_request\<lparr>hq_id := j\<rparr>) = Some \<lparr>lr_Username = ''admin'', lr_Password = ''admin123''\<rparr>"
  "decode_body dec_login login_request = Some \<lparr>lr_Username = ''admin'', lr_Password = ''admin123''\<rparr>"
proof -
  have "decode_json (jprint login_body) = Some login_body" by (rule decode_json_jprint) (simp_all add: login_body_def)
  moreover have "dec_login login_body = Some \<lparr>lr_Username = ''admin'', lr_Password = ''admin123''\<rparr>"
    by (simp add: dec_login_def login_body_def decode_struct_def find_field_def str_field_def)
  ultimately show "decode_body dec_login (login_request\<lparr>hq_id := j\<rparr>) = Some \<lparr>lr_Username = ''admin'', lr_Password = ''admin123''\<rparr>"
    "decode_body dec_login login_request = Some \<lparr>lr_Username = ''admin'', lr_Password = ''admin123''\<rparr>"
    by (simp_all add: decode_body_def login_request_def)
qed

lemma sample_login: "correct_login sample_env (login_request\<lparr>hq_id := i\<rparr>) sample_gateway" "correct_login sample_env login_request sample_gateway"
  using decode_login_request unfolding correct_login_def by (auto simp: sample_password)

lemma sample_routes:
  "wd_mux sample_world routes ''POST'' ''/login/'' = Some (EpLogin, [])"
  "wd_mux sample_world routes ''GET'' ''/resource/list'' = Some (EpListResources, [])"
  by (simp_all add: sample_world_def exact_mux_def routes_def)

lemma sample_logged_in:
  "\<exists>g1. site_run sample_env (g1, fs) [(0, ''tok'')] \<and> map_of (made (gw_sessions g1)) ''tok'' = Some True \<and> gw_now g1 = 0"
proof -
  let ?q = "login_request\<lparr>hq_id := []\<rparr>"
  have m: "authMiddleware login_request sample_gateway = None"
    by (simp add: authMiddleware_def open_path_def login_request_def HasPrefix_def)
  obtain rsp g1 where h: "handleLogin sample_env ''tok'' ?q sample_gateway = (rsp, g1)"
    by (cases "handleLogin sample_env ''tok'' ?q sample_gateway")
  have g1: "gw_sessions g1 = Some (AList.update ''tok'' True [])" "gw_now g1 = 0"
    by (rule login_cases [of sample_env ?q sample_gateway "''tok''"]; use h sample_login(1) [of "[]"] in \<open>auto simp: sample_gateway_def\<close>)+
  have p: "hq_Method login_request = ''POST''" "hq_Path login_request = ''/login/''" "wd_uuid sample_world = ''tok''"
    by (simp_all add: login_request_def sample_world_def)
  have "serve sample_env sample_world login_request (sample_gateway, fs) = Return (rsp, g1, fs)"
    by (simp add: serve_def m sample_routes(1) h p on_gateway_def)
  moreover have "site_run sample_env (sample_gateway, fs) []" by (rule site_run.start) (simp_all add: sample_gateway_def)
  ultimately have "site_run sample_env (g1, fs) ((if correct_login sample_env login_request sample_gateway
      then [(gw_now sample_gateway, wd_uuid sample_world)] else []) @ [])" by (rule site_run.request [rotated])
  with sample_login(2) have "site_run sample_env (g1, fs) [(0, ''tok'')]" by (simp add: sample_gateway_def sample_world_def)
  with g1 show ?thesis by (intro exI [of _ g1]) simp
qed

theorem session_safety_witness:
  "\<exists>g1. site_run sample_env (g1, sample_files) [(0, ''tok'')] \<and> gw_now g1 = 0
    \<and> ((\<exists>t. (t, request_token list_request) \<in> set [(0, ''tok'')] \<and> gw_now g1 < t + 15 * 60)
      \<or> (\<exists>rsp. serve sample_env sample_world list_request (g1, sample_files) = Return (rsp, g1, sample_files) \<and> hs_Status rsp \<in> {302, 401}))"
proof -
  obtain g1 where g1: "site_run sample_env (g1, sample_files) [(0, ''tok'')]" "gw_now g1 = 0" using sample_logged_in by blast
  have r: "wd_mux sample_world routes (hq_Method list_request) (hq_Path list_request) = Some (EpListResources, [])"
    using sample_routes(2) by (simp add: list_request_def)
  have m: "mux_spec (wd_mux sample_world)" by (simp add: sample_world_def exact_mux_spec)
  have "(\<exists>t. (t, request_token list_request) \<in> set [(0, ''tok'')] \<and> gw_now g1 < t + 15 * 60)
      \<or> (\<exists>rsp. serve sample_env sample_world list_request (g1, sample_files) = Return (rsp, g1, sample_files) \<and> hs_Status rsp \<in> {302, 401})"
    by (rule session_safety [OF g1(1) m r]) simp
  with g1 show ?thesis by blast
qed

text \<open>
  C37: a session lasts a quarter of an hour and not the hour that its cookie lasts and the comment in the code
  announces. A fresh token from a successful login opens every path up to that moment, and from then on
  no path behind the login.
\<close>

theorem session_lifetime:
  assumes "hs_Status (fst (handleLogin E tok q g)) = 200" and "tok \<noteq> []" and "tok \<notin> snd ` set (gw_timers g)"
    and "wf_gomap (made (gw_sessions g))" and "request_token q' = tok" and "\<not> open_path (hq_Path q')"
  shows "authMiddleware q' (advance t (snd (handleLogin E tok q g))) = None \<longleftrightarrow> t < gw_now g + 15 * 60"
proof -
  have g': "snd (handleLogin E tok q g) = g\<lparr>gw_sessions := Some (AList.update tok True (made (gw_sessions g))),
             gw_timers := (gw_now g + session_seconds, tok) # gw_timers g\<rparr>"
    by (rule login_cases [of E q g tok]) (use assms(1) in auto)
  let ?due = "map snd (filter (\<lambda>(d, tok). d \<le> t) ((gw_now g + session_seconds, tok) # gw_timers g))"
  have due: "tok \<in> set ?due \<longleftrightarrow> gw_now g + session_seconds \<le> t" using assms(3) by (auto simp: image_iff)
  have "map_of (made (gw_sessions (advance t (snd (handleLogin E tok q g))))) tok = (if tok \<in> set ?due then None else Some True)"
    unfolding g' using fold_delete [of "AList.update tok True (made (gw_sessions g))" ?due tok] assms(4)
    by (simp add: advance_def)
  with due assms(2,5,6) show ?thesis by (auto simp: authMiddleware_def Let_def session_seconds_def)
qed

theorem session_lifetime_witness:
  "authMiddleware list_request (advance 899 (snd (handleLogin sample_env ''tok'' login_request sample_gateway))) = None
   \<and> authMiddleware list_request (advance 900 (snd (handleLogin sample_env ''tok'' login_request sample_gateway))) \<noteq> None"
proof -
  have l: "hs_Status (fst (handleLogin sample_env ''tok'' login_request sample_gateway)) = 200"
    by (rule login_cases [of sample_env login_request sample_gateway "''tok''"]) (use sample_login(2) in auto)
  have "authMiddleware list_request (advance t (snd (handleLogin sample_env ''tok'' login_request sample_gateway))) = None
      \<longleftrightarrow> t < gw_now sample_gateway + 15 * 60" for t
    by (rule session_lifetime [OF l])
      (simp_all add: sample_gateway_def request_token_def list_request_def open_path_def HasPrefix_def)
  then show ?thesis by (simp add: sample_gateway_def)
qed

end
