(* ===== verification/Startup.thy ===== *)
theory Startup
  imports PortForward Server
begin

text \<open>
  Starting and stopping a gateway: \<open>Instance\<close>, \<open>SetTrialMod\<close>, \<open>Run\<close> and \<open>Stop\<close> of \<open>gateway/gateway.go\<close>. \<open>Run\<close>
  opens the database, makes sure there is a password and an identity, loads every manager, brings up the
  outbounds and the listeners and serves the web interface. Files, the p2p engine and the sockets are
  parameters. The lines that would remove an old backup of the binary are never reached (\<open>os.IsExist\<close> does not hold for
  the error of a successful \<open>os.Stat\<close> nor for that of a failed one), and the logger it makes is in \<open>CommandLine\<close>.
\<close>

section \<open>Operations\<close>

record 'db start_env =
  se_Executable :: "error option"
  se_OpenFile :: "error + 'db"
  se_IsCorrupted :: "error \<Rightarrow> bool"
  se_RecoverFile :: "error + 'db"
  se_ReadUuid :: "string \<times> error option"
  se_IsExist :: "error \<Rightarrow> bool"
  se_NewRandom :: "error + string"
  se_WriteUuid :: "string \<Rightarrow> error option"
  se_NewP2PEngine :: "int \<Rightarrow> string \<Rightarrow> string list \<Rightarrow> error + int"
  se_Listen :: "error option"

text \<open>Either \<open>Run\<close> has returned, or the gateway is set up and serves.\<close>

datatype run_end = Returned "error option" | Serving

text \<open>A new gateway: nothing is set; the database field is nil until \<open>Run\<close> opens one (\<open>nodb\<close> stands for it).\<close>

definition Instance :: "'db \<Rightarrow> nat \<Rightarrow> 'db Gateway" where
  "Instance nodb now = \<lparr>gw_db = nodb, gw_prm = None, gw_pam = None, gw_proxySvc = None, gw_obs = None, gw_router = None,
     gw_tunStackRunning = False, gw_osRoutes = [], gw_pm = \<lparr>pm_listeners = [], pm_closed = []\<rparr>, gw_trial = False,
     gw_sessions = None, gw_timers = [], gw_now = now, gw_obDialer = DirectDialer\<rparr>"

definition SetTrialMod :: "'db Gateway \<Rightarrow> 'db Gateway" where
  "SetTrialMod g = g\<lparr>gw_trial := True\<rparr>"

definition open_db :: "'db start_env \<Rightarrow> error + 'db" where
  "open_db S =
     (case se_OpenFile S of
        Inr db \<Rightarrow> Inr db
      | Inl err \<Rightarrow> if se_IsCorrupted S err then se_RecoverFile S else Inl err)"

text \<open>The password is set when there is none yet.\<close>

definition init_password :: "'db gw_env \<Rightarrow> 'db Gateway \<Rightarrow> error option \<times> 'db Gateway" where
  "init_password E g =
     (case db_Get (ge_D E) (gw_db g) dbKeyAdminPassword of
        Inr _ \<Rightarrow> (None, g)
      | Inl _ \<Rightarrow> db_put E dbKeyAdminPassword ''admin123'' g)"

text \<open>The seed of the node's key: \<open>Inl\<close> is what \<open>Run\<close> returns with.\<close>

definition load_seed :: "'db start_env \<Rightarrow> error option + string" where
  "load_seed S =
     (case se_ReadUuid S of
        (us, err) \<Rightarrow>
          if (case err of None \<Rightarrow> False | Some e \<Rightarrow> se_IsExist S e) then Inl err
          else if 32 \<le> length us then Inr us
          else (case se_NewRandom S of
                  Inl e \<Rightarrow> Inl (Some e)
                | Inr u \<Rightarrow>
                    let str = filter (\<lambda>c. c \<noteq> CHR ''-'') u
                    in if length str < 32 then Inl None
                       else (case se_WriteUuid S str of Some e \<Rightarrow> Inl (Some e) | None \<Rightarrow> Inr str)))"

text \<open>The p2p engine takes the stored port, or a free one that is then stored; an error of storing it is ignored.\<close>

definition start_engine :: "'db gw_env \<Rightarrow> 'db start_env \<Rightarrow> string \<Rightarrow> 'db Gateway \<Rightarrow> error option \<times> 'db Gateway" where
  "start_engine E S us g =
     (case getListenPort E g of
        Inl err \<Rightarrow> (Some err, g)
      | Inr listenPort \<Rightarrow>
          (case se_NewP2PEngine S listenPort us (getBootstraps E g) of
             Inl err \<Rightarrow> (Some err, g)
           | Inr port \<Rightarrow> (None, if listenPort \<noteq> port then snd (setListenPort E port g) else g)))"

definition load_resources :: "'db gw_env \<Rightarrow> 'db Gateway \<Rightarrow> error option \<times> 'db Gateway" where
  "load_resources E g =
     (case NewPortmapResMgr (ge_D E) (gw_db g) of Inl err \<Rightarrow> (Some err, g) | Inr m \<Rightarrow> (None, set_prm m g))"

definition load_apps :: "'db gw_env \<Rightarrow> 'db Gateway \<Rightarrow> error + PortmapApp list \<times> 'db Gateway" where
  "load_apps E g =
     (case LoadPortmapApps (ge_D E) (ge_visitApps E) (NewPortmapAppMgr (gw_db g)) of
        Inl err \<Rightarrow> Inl err
      | Inr (apps, m) \<Rightarrow> Inr (apps, set_pam m g))"

definition start_client :: "'db gw_env \<Rightarrow> 'db Gateway \<Rightarrow> (error option \<times> 'db Gateway) outcome" where
  "start_client E g =
     (case newProxyClient (ge_D E) (ge_cli E) (gw_db g) of
        Panic \<Rightarrow> Panic
      | Return (Inl err) \<Rightarrow> Return (Some err, g)
      | Return (Inr pc) \<Rightarrow>
          (case pc_Start (ge_D E) (ge_cli E) (ge_visitObs E) pc of
             Panic \<Rightarrow> Panic
           | Return pc' \<Rightarrow> Return (None, set_cli pc' g)))"

definition start_service :: "'db gw_env \<Rightarrow> 'db Gateway \<Rightarrow> error option \<times> 'db Gateway" where
  "start_service E g =
     (case loadConfig (ge_D E) (zero_proxyServiceConfig, gw_db g) of
        Inl err \<Rightarrow> (Some err, g\<lparr>gw_proxySvc := Some zero_proxyServiceConfig\<rparr>)
      | Inr ps \<Rightarrow>
          let c = getConfig ps
          in (None, g\<lparr>gw_proxySvc := Some c,
                      gw_obDialer := SetOutboundProxy (psc_ProxyAddr c) (psc_ProxyUser c) (psc_ProxyPass c)\<rparr>))"

text \<open>The check of the SOCKS service: in trial mode everyone may use it.\<close>

definition socks_auth :: "'db gw_env \<Rightarrow> uint64 \<Rightarrow> uint64 \<Rightarrow> 'db Gateway \<Rightarrow> bool \<times> 'db Gateway" where
  "socks_auth E rnd authID g = (if gw_trial g then (True, g) else proxyAuth E rnd authID g)"

text \<open>A listener for every application that runs; one that cannot be opened stops its application.\<close>

fun start_listeners :: "'db gw_env \<Rightarrow> PortmapApp list \<Rightarrow> 'db Gateway \<Rightarrow> 'db Gateway outcome" where
  "start_listeners E [] g = Return g"
| "start_listeners E (a # apps) g =
     (if \<not> pa_Running a then start_listeners E apps g
      else case AddListener (ge_listen E) (pa_Network a) (pa_LocalIP a) (pa_LocalPort a) (gw_pm g) of
        ((_, None), pm) \<Rightarrow> start_listeners E apps (g\<lparr>gw_pm := pm\<rparr>)
      | ((_, Some err), pm) \<Rightarrow>
          (case UpdatePortmapApp (ge_D E) (a\<lparr>pa_Err := [], pa_Running := False\<rparr>) (pam_of (g\<lparr>gw_pm := pm\<rparr>)) of
             Panic \<Rightarrow> Panic
           | Return (_, m) \<Rightarrow> start_listeners E apps (set_pam m (g\<lparr>gw_pm := pm\<rparr>))))"

definition or_return ::
  "error option \<times> 'g \<Rightarrow> ('g \<Rightarrow> (run_end \<times> 'g) outcome) \<Rightarrow> (run_end \<times> 'g) outcome" where
  "or_return r k = (case r of (Some err, g) \<Rightarrow> Return (Returned (Some err), g) | (None, g) \<Rightarrow> k g)"

definition Run :: "'db gw_env \<Rightarrow> 'db start_env \<Rightarrow> 'db Gateway \<Rightarrow> (run_end \<times> 'db Gateway) outcome" where
  "Run E S g =
     or_return (se_Executable S, g) (\<lambda>g.
     case open_db S of
       Inl err \<Rightarrow> Return (Returned (Some err), g)
     | Inr db \<Rightarrow>
         or_return (init_password E (g\<lparr>gw_db := db\<rparr>)) (\<lambda>g1.
         case load_seed S of
           Inl ret \<Rightarrow> Return (Returned ret, g1)
         | Inr us \<Rightarrow>
             or_return (start_engine E S us g1) (\<lambda>g2.
             or_return (load_resources E g2) (\<lambda>g3.
             case load_apps E g3 of
               Inl err \<Rightarrow> Return (Returned (Some err), g3)
             | Inr (apps, g4) \<Rightarrow>
                 (case start_client E g4 of
                    Panic \<Rightarrow> Panic
                  | Return r \<Rightarrow>
                      or_return r (\<lambda>g5.
                      or_return (start_service E g5) (\<lambda>g6.
                      case start_listeners E apps (g6\<lparr>gw_pm := \<lparr>pm_listeners = [], pm_closed = []\<rparr>\<rparr>) of
                        Panic \<Rightarrow> Panic
                      | Return g7 \<Rightarrow> or_return (se_Listen S, g7) (\<lambda>g8. Return (Serving, g8)))))))))"

definition Stop :: "'db gw_env \<Rightarrow> 'db Gateway \<Rightarrow> 'db Gateway outcome" where
  "Stop E g =
     (case pc_Stop (ge_cli E) (ge_visitObs E) (cli_of g) of Panic \<Rightarrow> Panic | Return pc \<Rightarrow> Return (set_cli pc g))"

section \<open>Which keys starting touches\<close>

definition same_but :: "'db leveldb \<Rightarrow> string set \<Rightarrow> 'db \<Rightarrow> 'db \<Rightarrow> bool" where
  "same_but D K db db' \<longleftrightarrow> (\<forall>k. k \<notin> K \<longrightarrow> db_Get D db' k = db_Get D db k)"

lemma same_but_refl [simp, intro]: "same_but D K db db"
  by (simp add: same_but_def)

lemma same_but_trans: "same_but D K db db' \<Longrightarrow> same_but D K db' db'' \<Longrightarrow> same_but D K db db''"
  by (simp add: same_but_def)

lemma same_but_mono: "same_but D K db db' \<Longrightarrow> K \<subseteq> K' \<Longrightarrow> same_but D K' db db'"
  by (auto simp: same_but_def)

lemma same_but_put: "leveldb_spec D \<Longrightarrow> db_Put D db k v = (e, db') \<Longrightarrow> same_but D {k} db db'"
  by (simp add: same_but_def put_get)

lemma same_but_delete: "leveldb_spec D \<Longrightarrow> db_Delete D db k = (e, db') \<Longrightarrow> same_but D {k} db db'"
  by (auto simp: same_but_def leveldb_spec_def)

lemma same_but_db_put: "leveldb_spec (ge_D E) \<Longrightarrow> same_but (ge_D E) {k} (gw_db g) (gw_db (snd (db_put E k v g)))"
  by (auto simp: db_put_def intro: same_but_put split: prod.splits)

lemma same_but_saveOutbounds:
  "leveldb_spec D \<Longrightarrow> same_but D {keySocksOutbound} (snd m) (snd (snd (saveOutbounds D m)))"
  by (auto simp: saveOutbounds_def intro: same_but_put split: prod.splits option.splits)

lemma same_but_UpdateOutbound:
  assumes "leveldb_spec D" and "mgr_UpdateOutbound D h ob m = (err, ob', m')"
  shows "same_but D {keySocksOutbound} (snd m) (snd m')"
  using assms(2) same_but_saveOutbounds [OF assms(1), of "(Some (AList.update (so_ID ob') ob' (made (fst m))), snd m)"]
  by (auto simp: mgr_UpdateOutbound_def split: prod.splits option.splits)

lemma route_open_mgr: "route_open env ob pc = Return pc' \<Longrightarrow> pc_mgr pc' = pc_mgr pc"
  by (auto simp: route_open_def addOutboundRoute_def split: outcome.splits prod.splits)

lemma startTunStack_mgr: "pc_mgr (snd (startTunStack env pc)) = pc_mgr pc"
  by (auto simp: startTunStack_def split: option.splits)

lemma same_but_start_loop:
  assumes "leveldb_spec D" and "start_loop D env obs pc = Return pc'"
  shows "same_but D {keySocksOutbound} (snd (pc_mgr pc)) (snd (pc_mgr pc'))"
  using assms(2)
proof (induction obs arbitrary: pc)
  case (Cons ob obs)
  obtain err pc1 where t: "startTunStack env pc = (err, pc1)" by (cases "startTunStack env pc")
  have m1: "pc_mgr pc1 = pc_mgr pc" using startTunStack_mgr [of env pc] t by simp
  consider "\<not> so_Open ob" | "so_Open ob" "err \<noteq> None" | "so_Open ob" "err = None" by blast
  then show ?case
  proof cases
    case 1
    with Cons show ?thesis by simp
  next
    case 2
    obtain e ob' m where u: "mgr_UpdateOutbound D (ce_p2p env) (ob\<lparr>so_Open := False\<rparr>) (pc_mgr pc1) = (e, ob', m)"
      by (cases "mgr_UpdateOutbound D (ce_p2p env) (ob\<lparr>so_Open := False\<rparr>) (pc_mgr pc1)")
    from 2 t u Cons.prems have "start_loop D env obs (pc1\<lparr>pc_mgr := m\<rparr>) = Return pc'" by auto
    from Cons.IH [OF this] same_but_UpdateOutbound [OF assms(1) u] m1 show ?thesis by (auto intro: same_but_trans)
  next
    case 3
    with t Cons.prems obtain pc2 where r: "route_open env ob pc1 = Return pc2" "start_loop D env obs pc2 = Return pc'"
      by (auto split: outcome.splits)
    from Cons.IH [OF r(2)] route_open_mgr [OF r(1)] m1 show ?thesis by simp
  qed
qed simp

lemma same_but_start_client:
  assumes "leveldb_spec (ge_D E)" and "start_client E g = Return (err, g')"
  shows "same_but (ge_D E) {keySocksOutbound} (gw_db g) (gw_db g')"
proof -
  have db: "snd m = db" if "loadOutbounds D h (None, db) = Return (Inr m)" for D h m and db :: 'a
    using that by (auto simp: loadOutbounds_def split: sum.splits option.splits if_splits)
  show ?thesis
    using assms(2) same_but_start_loop [OF assms(1)]
    by (fastforce simp: start_client_def newProxyClient_def NewSocksOutboundsManager_def pc_Start_def set_cli_def
        dest: db split: outcome.splits sum.splits)
qed

lemma UpdatePortmapApp_db:
  assumes "leveldb_spec D" and "UpdatePortmapApp D a m = Return (err, m')"
  shows "same_but D {keyPortmapApps} (snd m) (snd m')"
  using assms
  by (auto simp: UpdatePortmapApp_def pam_savePortmap_def intro: same_but_put split: option.splits prod.splits)

lemma same_but_start_listeners:
  assumes "leveldb_spec (ge_D E)" and "start_listeners E apps g = Return g'"
  shows "same_but (ge_D E) {keyPortmapApps} (gw_db g) (gw_db g')"
  using assms(2)
proof (induction apps arbitrary: g)
  case (Cons a apps)
  obtain p err pm where l: "AddListener (ge_listen E) (pa_Network a) (pa_LocalIP a) (pa_LocalPort a) (gw_pm g) = ((p, err), pm)"
    by (metis surj_pair)
  consider "\<not> pa_Running a" | "pa_Running a" "err = None" | e where "pa_Running a" "err = Some e" by fastforce
  then show ?case
  proof cases
    case 1
    with Cons show ?thesis by simp
  next
    case 2
    with Cons.prems l have "start_listeners E apps (g\<lparr>gw_pm := pm\<rparr>) = Return g'" by simp
    from Cons.IH [OF this] show ?thesis by simp
  next
    case 3
    with Cons.prems l obtain x m where u: "UpdatePortmapApp (ge_D E) (a\<lparr>pa_Err := [], pa_Running := False\<rparr>) (pam_of (g\<lparr>gw_pm := pm\<rparr>)) = Return (x, m)"
      and r: "start_listeners E apps (set_pam m (g\<lparr>gw_pm := pm\<rparr>)) = Return g'"
      by (auto split: outcome.splits)
    from Cons.IH [OF r] UpdatePortmapApp_db [OF assms(1) u] show ?thesis
      by (auto simp: gw_views intro: same_but_trans)
  qed
qed simp

section \<open>The stages of a start that serves\<close>

lemma Run_serving:
  assumes "Run E S g = Return (Serving, g')"
  obtains db us g1 g2 g3 apps g4 g5 g6 where "open_db S = Inr db" and "init_password E (g\<lparr>gw_db := db\<rparr>) = (None, g1)"
    and "start_engine E S us g1 = (None, g2)" and "load_resources E g2 = (None, g3)" and "load_apps E g3 = Inr (apps, g4)"
    and "start_client E g4 = Return (None, g5)" and "start_service E g5 = (None, g6)"
    and "start_listeners E apps (g6\<lparr>gw_pm := \<lparr>pm_listeners = [], pm_closed = []\<rparr>\<rparr>) = Return g'"
  using assms by (auto simp: Run_def or_return_def split: sum.splits prod.splits option.splits outcome.splits)

lemma load_resources_db: "load_resources E g = (None, g') \<Longrightarrow> gw_db g' = gw_db g \<and> gw_sessions g' = gw_sessions g \<and> gw_trial g' = gw_trial g
    \<and> NewPortmapResMgr (ge_D E) (gw_db g) = Inr (gw_prm g', gw_db g)"
  by (auto simp: load_resources_def NewPortmapResMgr_def prm_loadRes_def set_prm_def split: sum.splits option.splits if_splits)

lemma load_apps_db: "load_apps E g = Inr (apps, g') \<Longrightarrow> gw_db g' = gw_db g \<and> gw_prm g' = gw_prm g \<and> gw_sessions g' = gw_sessions g
    \<and> gw_trial g' = gw_trial g"
  by (auto simp: load_apps_def LoadPortmapApps_def NewPortmapAppMgr_def set_pam_def split: sum.splits option.splits if_splits)

lemma start_engine_frame:
  assumes "leveldb_spec (ge_D E)" and "start_engine E S us g = (None, g')"
  shows "same_but (ge_D E) {dbKeyListenPort} (gw_db g) (gw_db g')" and "gw_sessions g' = gw_sessions g" and "gw_trial g' = gw_trial g"
  using assms
  by (auto simp: start_engine_def setListenPort_def db_put_def intro: same_but_put split: sum.splits if_splits prod.splits)

lemma init_password_frame:
  assumes "leveldb_spec (ge_D E)" and "init_password E g = (None, g')"
  shows "same_but (ge_D E) {dbKeyAdminPassword} (gw_db g) (gw_db g')" and "gw_sessions g' = gw_sessions g" and "gw_trial g' = gw_trial g"
    and "db_Get (ge_D E) (gw_db g') dbKeyAdminPassword =
      Inr (case db_Get (ge_D E) (gw_db g) dbKeyAdminPassword of Inr p \<Rightarrow> p | Inl _ \<Rightarrow> ''admin123'')"
proof -
  show "same_but (ge_D E) {dbKeyAdminPassword} (gw_db g) (gw_db g')" "gw_sessions g' = gw_sessions g" "gw_trial g' = gw_trial g"
    using assms(2) same_but_db_put [OF assms(1), of dbKeyAdminPassword g "''admin123''"]
    by (auto simp: init_password_def db_put_def split: sum.splits prod.splits)
  show "db_Get (ge_D E) (gw_db g') dbKeyAdminPassword =
      Inr (case db_Get (ge_D E) (gw_db g) dbKeyAdminPassword of Inr p \<Rightarrow> p | Inl _ \<Rightarrow> ''admin123'')"
    using assms(2) put_get [OF assms(1)] by (auto simp: init_password_def db_put_def split: sum.splits prod.splits)
qed

lemma start_client_frame: "start_client E g = Return (None, g') \<Longrightarrow> gw_prm g' = gw_prm g \<and> gw_pam g' = gw_pam g \<and> gw_sessions g' = gw_sessions g
    \<and> gw_trial g' = gw_trial g"
  by (auto simp: start_client_def set_cli_def split: outcome.splits sum.splits)

lemma start_service_frame: "start_service E g = (None, g') \<Longrightarrow> gw_prm g' = gw_prm g \<and> gw_pam g' = gw_pam g \<and> gw_db g' = gw_db g
    \<and> gw_sessions g' = gw_sessions g \<and> gw_trial g' = gw_trial g"
  by (auto simp: start_service_def Let_def split: sum.splits)

lemma start_listeners_frame:
  "start_listeners E apps g = Return g' \<Longrightarrow> gw_prm g' = gw_prm g \<and> gw_sessions g' = gw_sessions g \<and> gw_trial g' = gw_trial g"
proof (induction apps arbitrary: g)
  case (Cons a apps)
  obtain p err pm where l: "AddListener (ge_listen E) (pa_Network a) (pa_LocalIP a) (pa_LocalPort a) (gw_pm g) = ((p, err), pm)"
    by (metis surj_pair)
  show ?case
    using Cons.prems l Cons.IH by (cases err) (fastforce simp: set_pam_def split: if_splits outcome.splits)+
qed simp

text \<open>From the start to the loaded resources only the password and the port change, behind them only the other keys.\<close>

lemma Run_frames:
  assumes "leveldb_spec (ge_D E)" and "open_db S = Inr db" and "Run E S g = Return (Serving, g')"
  shows "gw_sessions g' = gw_sessions g" and "gw_trial g' = gw_trial g"
    and "\<exists>db2. NewPortmapResMgr (ge_D E) db2 = Inr (gw_prm g', db2) \<and> same_but (ge_D E) {dbKeyAdminPassword, dbKeyListenPort} db db2"
    and "same_but (ge_D E) {dbKeyAdminPassword, dbKeyListenPort, keySocksOutbound, keyPortmapApps} db (gw_db g')"
    and "db_Get (ge_D E) (gw_db g') dbKeyAdminPassword = Inr (case db_Get (ge_D E) db dbKeyAdminPassword of Inr p \<Rightarrow> p | Inl _ \<Rightarrow> ''admin123'')"
    and "\<exists>us g1 g2. start_engine E S us g1 = (None, g2) \<and> same_but (ge_D E) {keySocksOutbound, keyPortmapApps} (gw_db g2) (gw_db g')"
proof -
  from assms(3) obtain us g1 g2 g3 apps g4 g5 g6 where st:
    "init_password E (g\<lparr>gw_db := db\<rparr>) = (None, g1)" "start_engine E S us g1 = (None, g2)" "load_resources E g2 = (None, g3)"
    "load_apps E g3 = Inr (apps, g4)" "start_client E g4 = Return (None, g5)" "start_service E g5 = (None, g6)"
    "start_listeners E apps (g6\<lparr>gw_pm := \<lparr>pm_listeners = [], pm_closed = []\<rparr>\<rparr>) = Return g'"
    by (rule Run_serving) (use assms(2) in auto)
  let ?D = "ge_D E"
  note p = init_password_frame [OF assms(1) st(1)] and e = start_engine_frame [OF assms(1) st(2)]
    and r = load_resources_db [OF st(3)] and a = load_apps_db [OF st(4)] and c = same_but_start_client [OF assms(1) st(5)]
    and cf = start_client_frame [OF st(5)] and s = start_service_frame [OF st(6)] and l = start_listeners_frame [OF st(7)]
    and lb = same_but_start_listeners [OF assms(1) st(7)]
  have b2: "same_but ?D {dbKeyAdminPassword, dbKeyListenPort} db (gw_db g2)"
    using p(1) e(1) by (auto intro: same_but_trans same_but_mono)
  have late: "same_but ?D {keySocksOutbound, keyPortmapApps} (gw_db g2) (gw_db g')"
    using c lb r a s by (auto intro: same_but_trans [OF same_but_mono same_but_mono])
  with st(2) show "\<exists>us g1 g2. start_engine E S us g1 = (None, g2) \<and> same_but ?D {keySocksOutbound, keyPortmapApps} (gw_db g2) (gw_db g')"
    by blast
  show "same_but ?D {dbKeyAdminPassword, dbKeyListenPort, keySocksOutbound, keyPortmapApps} db (gw_db g')"
    by (rule same_but_trans [OF same_but_mono [OF b2] same_but_mono [OF late]]) auto
  have "db_Get ?D (gw_db g') dbKeyAdminPassword = db_Get ?D (gw_db g1) dbKeyAdminPassword"
    using late e(1) by (simp add: same_but_def db_keys)
  with p(4) show "db_Get ?D (gw_db g') dbKeyAdminPassword = Inr (case db_Get ?D db dbKeyAdminPassword of Inr p \<Rightarrow> p | Inl _ \<Rightarrow> ''admin123'')"
    by simp
  show "gw_sessions g' = gw_sessions g" "gw_trial g' = gw_trial g" using r a cf s l p(2,3) e(2,3) by simp_all
  have "gw_prm g' = gw_prm g3" using a cf s l by simp
  with r b2 show "\<exists>db2. NewPortmapResMgr ?D db2 = Inr (gw_prm g', db2) \<and> same_but ?D {dbKeyAdminPassword, dbKeyListenPort} db db2"
    by auto
qed

lemma NewPortmapResMgr_same:
  assumes "db_Get D db' keyPortmapRes = db_Get D db keyPortmapRes" and "NewPortmapResMgr D db = Inr (rs, db)"
  shows "NewPortmapResMgr D db' = Inr (rs, db')"
  using assms by (auto simp: NewPortmapResMgr_def prm_loadRes_def split: sum.splits option.splits if_splits)

section \<open>Listeners after a start\<close>

text \<open>A listener asked for a port other than zero reports that port.\<close>

definition listen_spec :: "listen_env \<Rightarrow> bool" where
  "listen_spec env \<longleftrightarrow>
     (\<forall>ip port a. port \<noteq> 0 \<longrightarrow> int64_ok port \<longrightarrow> le_ListenTCP env (host_port ip port) = Inr a \<longrightarrow> getPort \<lparr>rl_kind = TCP, rl_addr = a\<rparr> = port)
     \<and> (\<forall>ip port la a. port \<noteq> 0 \<longrightarrow> int64_ok port \<longrightarrow> le_ResolveUDPAddr env (host_port ip port) = Inr la \<longrightarrow> le_ListenUDP env la = Inr a
          \<longrightarrow> getPort \<lparr>rl_kind = UDP, rl_addr = a\<rparr> = port)"

text \<open>Every listener is filed under the port it reports, so that it is found under it.\<close>

definition listening :: "PortmapApp \<Rightarrow> Portmap \<Rightarrow> bool" where
  "listening a pm \<longleftrightarrow> map_of (pm_listeners pm) (convertIndex (pa_Network a) (pa_LocalIP a) (pa_LocalPort a)) \<noteq> None"

lemma AddListener_listening:
  assumes "listen_spec env" and "pa_LocalPort a \<noteq> 0" and "int64_ok (pa_LocalPort a)"
    and "AddListener env (pa_Network a) (pa_LocalIP a) (pa_LocalPort a) pm = ((p, None), pm')"
  shows "listening a pm'" and "listening b pm \<Longrightarrow> listening b pm'"
proof -
  let ?i = "convertIndex (pa_Network a) (pa_LocalIP a) (pa_LocalPort a)"
  show "listening b pm'" if "listening b pm"
    using that assms(4) by (auto simp: AddListener_def listening_def split: sum.splits option.splits)
  show "listening a pm'"
  proof (cases "map_of (pm_listeners pm) ?i")
    case (Some l)
    with assms(4) show ?thesis by (auto simp: AddListener_def listening_def)
  next
    case None
    then obtain l where l: "(if Contains (pa_Network a) ''tcp'' then addTCPListener env (pa_LocalIP a) (pa_LocalPort a)
        else addUDPListener env (pa_LocalIP a) (pa_LocalPort a)) = Inr l"
      and pm': "pm' = pm\<lparr>pm_listeners := AList.update (convertIndex (pa_Network a) (pa_LocalIP a) (getPort l)) l (pm_listeners pm)\<rparr>"
      using assms(4) by (auto simp: AddListener_def split: sum.splits)
    have "getPort l = pa_LocalPort a"
      using l assms(1-3) by (auto simp: listen_spec_def addTCPListener_def addUDPListener_def split: if_splits sum.splits option.splits)
    with pm' show ?thesis by (simp add: listening_def)
  qed
qed

lemma start_listeners_listening:
  assumes "listen_spec (ge_listen E)" and "start_listeners E apps g = Return g'" and "pam_wf (ge_D E) (pam_of g)"
    and "distinct (map pa_ID apps)" and "\<forall>a \<in> set apps. GetPortmapApp (pa_ID a) (pam_of g) = Some a \<and> valid_app a \<and> pa_LocalPort a \<noteq> 0"
  shows "pam_wf (ge_D E) (pam_of g') \<and> (\<forall>b. listening b (gw_pm g) \<longrightarrow> listening b (gw_pm g'))
    \<and> (\<forall>i. i \<notin> pa_ID ` set apps \<longrightarrow> GetPortmapApp i (pam_of g') = GetPortmapApp i (pam_of g))
    \<and> (\<forall>a \<in> set apps. \<exists>a'. GetPortmapApp (pa_ID a) (pam_of g') = Some a' \<and> a'\<lparr>pa_Running := pa_Running a\<rparr> = a
          \<and> (pa_Running a' \<longrightarrow> listening a' (gw_pm g')))"
  using assms(2-)
proof (induction apps arbitrary: g)
  case (Cons a apps)
  have a: "GetPortmapApp (pa_ID a) (pam_of g) = Some a" "valid_app a" "pa_LocalPort a \<noteq> 0" "pa_ID a \<notin> pa_ID ` set apps"
    using Cons.prems by auto
  obtain p err pm where l: "AddListener (ge_listen E) (pa_Network a) (pa_LocalIP a) (pa_LocalPort a) (gw_pm g) = ((p, err), pm)"
    by (metis surj_pair)
  consider "\<not> pa_Running a" | "pa_Running a" "err = None" | e where "pa_Running a" "err = Some e" by fastforce
  then show ?case
  proof cases
    case 1
    with Cons.prems have r: "start_listeners E apps g = Return g'" by simp
    from Cons.IH [OF r] Cons.prems a 1 show ?thesis by auto
  next
    case 2
    with Cons.prems l have r: "start_listeners E apps (g\<lparr>gw_pm := pm\<rparr>) = Return g'" by simp
    have i: "int64_ok (pa_LocalPort a)" using a(2) by (simp add: valid_app_def)
    note ok = AddListener_listening [OF assms(1) a(3) i l [unfolded 2(2)]]
    have g: "pam_of (g\<lparr>gw_pm := pm\<rparr>) = pam_of g" by (simp add: pam_of_def)
    from Cons.IH [OF r] Cons.prems have
      ih: "pam_wf (ge_D E) (pam_of g')" "\<And>b. listening b pm \<Longrightarrow> listening b (gw_pm g')"
        "\<And>i. i \<notin> pa_ID ` set apps \<Longrightarrow> GetPortmapApp i (pam_of g') = GetPortmapApp i (pam_of g)"
        "\<forall>b \<in> set apps. \<exists>b'. GetPortmapApp (pa_ID b) (pam_of g') = Some b' \<and> b'\<lparr>pa_Running := pa_Running b\<rparr> = b
          \<and> (pa_Running b' \<longrightarrow> listening b' (gw_pm g'))"
      by (simp_all add: g)
    have "GetPortmapApp (pa_ID a) (pam_of g') = Some a" using ih(3) [OF a(4)] a(1) by simp
    moreover have "listening a (gw_pm g')" by (rule ih(2) [OF ok(1)])
    ultimately show ?thesis using ih ok(2) by auto
  next
    case 3
    let ?a = "a\<lparr>pa_Err := [], pa_Running := False\<rparr>"
    from 3 Cons.prems l obtain x m where u: "UpdatePortmapApp (ge_D E) ?a (pam_of g) = Return (x, m)"
      and r: "start_listeners E apps (set_pam m (g\<lparr>gw_pm := pm\<rparr>)) = Return g'"
      by (auto simp: pam_of_def split: outcome.splits)
    have pm: "pm = gw_pm g" using l 3 by (auto simp: AddListener_def split: sum.splits)
    have v: "valid_app ?a" and e: "pa_Err a = []" using a(2) by (simp_all add: valid_app_def)
    have m: "m = pam_put (ge_D E) ?a (pam_of g)" using u by (simp add: pam_put_def)
    have wf: "pam_wf (ge_D E) m" and pr: "pam_present m = (pam_present (pam_of g))(pa_ID a \<mapsto> ?a)"
      using pam_put_ok [OF Cons.prems(2) v] m by simp_all
    have g: "pam_of (set_pam m (g\<lparr>gw_pm := pm\<rparr>)) = m" by (simp add: gw_views)
    have get: "GetPortmapApp i m = (if i = pa_ID a then Some ?a else GetPortmapApp i (pam_of g))" for i
      using fun_cong [OF pr, of i] by (simp add: GetPortmapApp_def pam_present_def)
    have "\<forall>b \<in> set apps. GetPortmapApp (pa_ID b) m = Some b \<and> valid_app b \<and> pa_LocalPort b \<noteq> 0"
      using Cons.prems a(4) get by (auto simp: image_iff)
    moreover have gp: "gw_pm (set_pam m (g\<lparr>gw_pm := pm\<rparr>)) = gw_pm g" by (simp add: pm set_pam_def)
    ultimately have
      ih: "pam_wf (ge_D E) (pam_of g')" "\<And>b. listening b (gw_pm g) \<Longrightarrow> listening b (gw_pm g')"
        "\<And>i. i \<notin> pa_ID ` set apps \<Longrightarrow> GetPortmapApp i (pam_of g') = GetPortmapApp i m"
        "\<forall>b \<in> set apps. \<exists>b'. GetPortmapApp (pa_ID b) (pam_of g') = Some b' \<and> b'\<lparr>pa_Running := pa_Running b\<rparr> = b
          \<and> (pa_Running b' \<longrightarrow> listening b' (gw_pm g'))"
      using Cons.IH [OF r, unfolded g gp] wf Cons.prems(3) by simp_all
    have "GetPortmapApp (pa_ID a) (pam_of g') = Some ?a" using ih(3) [OF a(4)] get by simp
    moreover have "?a\<lparr>pa_Running := pa_Running a\<rparr> = a" using e 3(1) by simp
    ultimately show ?thesis using ih get by auto
  qed
qed simp

lemma pam_wf_same:
  assumes "pam_wf D (as, db)" and "db_Get D db' keyPortmapApps = db_Get D db keyPortmapApps"
  shows "pam_wf D (as, db')"
proof -
  have "pam_reload D (as, db') = map_option (\<lambda>m. (fst m, db')) (pam_reload D (as, db))"
    using assms(2) by (simp add: pam_reload_def LoadPortmapApps_def NewPortmapAppMgr_def split: sum.splits option.splits)
  with assms(1) show ?thesis by (auto simp: pam_wf_def)
qed

lemma Run_apps:
  assumes "open_db S = Inr db" and "Run E S g = Return (Serving, g')" and "pam_wf (ge_D E) (as, db)"
    and "listen_spec (ge_listen E)" and "\<And>xs. ranges (ge_visitApps E xs) xs" and "\<And>a. a \<in> ran (pam_present (as, db)) \<Longrightarrow> pa_LocalPort a \<noteq> 0"
  shows "(pam_present (as, db) i = None \<longrightarrow> GetPortmapApp i (pam_of g') = None)
    \<and> (\<forall>a. pam_present (as, db) i = Some a \<longrightarrow> (\<exists>a'. GetPortmapApp i (pam_of g') = Some a' \<and> a'\<lparr>pa_Running := pa_Running a\<rparr> = a
         \<and> (pa_Running a' \<longrightarrow> listening a' (gw_pm g'))))"
proof -
  have D: "leveldb_spec (ge_D E)" using assms(3) by (simp add: pam_wf_def)
  from assms(2) obtain us g1 g2 g3 apps g4 g5 g6 where st:
    "init_password E (g\<lparr>gw_db := db\<rparr>) = (None, g1)" "start_engine E S us g1 = (None, g2)" "load_resources E g2 = (None, g3)"
    "load_apps E g3 = Inr (apps, g4)" "start_client E g4 = Return (None, g5)" "start_service E g5 = (None, g6)"
    "start_listeners E apps (g6\<lparr>gw_pm := \<lparr>pm_listeners = [], pm_closed = []\<rparr>\<rparr>) = Return g'"
    by (rule Run_serving) (use assms(1) in auto)
  let ?g = "g6\<lparr>gw_pm := \<lparr>pm_listeners = [], pm_closed = []\<rparr>\<rparr>"
  have "db_Get (ge_D E) (gw_db g3) keyPortmapApps = db_Get (ge_D E) db keyPortmapApps"
    using init_password_frame(1) [OF D st(1)] start_engine_frame(1) [OF D st(2)] load_resources_db [OF st(3)]
    by (simp add: same_but_def db_keys)
  from pam_wf_same [OF assms(3) this] obtain xs where
    xs: "LoadPortmapApps (ge_D E) (ge_visitApps E) (NewPortmapAppMgr (gw_db g3)) = Inr (map snd (ge_visitApps E xs), Some xs, gw_db g3)"
    "map_of xs = pam_present (as, gw_db g3)" "apps_ok xs" "pam_wf (ge_D E) (Some xs, gw_db g3)"
    using pam_load [of "ge_D E" "(as, gw_db g3)" "ge_visitApps E"] assms(5) by auto
  have apps: "apps = map snd (ge_visitApps E xs)" and g4: "gw_pam g4 = Some xs" "gw_db g4 = gw_db g3"
    using st(4) xs(1) by (auto simp: load_apps_def set_pam_def)
  have "db_Get (ge_D E) (gw_db g6) keyPortmapApps = db_Get (ge_D E) (gw_db g3) keyPortmapApps"
    using same_but_start_client [OF D st(5)] start_service_frame [OF st(6)] g4 by (simp add: same_but_def db_keys)
  from pam_wf_same [OF xs(4) this] have wf: "pam_wf (ge_D E) (pam_of ?g)"
    using start_client_frame [OF st(5)] start_service_frame [OF st(6)] g4 by (simp add: pam_of_def)
  have get: "GetPortmapApp k (pam_of ?g) = pam_present (as, db) k" for k
    using start_client_frame [OF st(5)] start_service_frame [OF st(6)] g4 xs(2) by (simp add: GetPortmapApp_def pam_of_def pam_present_def)
  have r: "ranges (ge_visitApps E xs) xs" by (rule assms(5))
  have w: "wf_gomap xs" and ids: "\<And>k a. (k, a) \<in> set xs \<Longrightarrow> valid_app a \<and> pa_ID a = k" using xs(3) by (auto simp: apps_ok_def)
  have keys: "map pa_ID apps = map fst (ge_visitApps E xs)" unfolding apps using ids ranges_set [OF r] by auto
  have dist: "distinct (map pa_ID apps)" using ranges_wf [OF r w] keys by (simp add: wf_gomap_def)
  have mem: "pam_present (as, db) k = Some a \<longleftrightarrow> (k, a) \<in> set xs" for k a
    using wf_gomap_mem [OF w, of k a] xs(2) by (simp add: pam_present_def)
  have all: "\<forall>a \<in> set apps. GetPortmapApp (pa_ID a) (pam_of ?g) = Some a \<and> valid_app a \<and> pa_LocalPort a \<noteq> 0"
  proof
    fix a assume "a \<in> set apps"
    then obtain k where k: "(k, a) \<in> set xs" using ranges_set [OF r] by (auto simp: apps)
    with ids mem get assms(6) [of a] show "GetPortmapApp (pa_ID a) (pam_of ?g) = Some a \<and> valid_app a \<and> pa_LocalPort a \<noteq> 0"
      by (auto simp: ran_def)
  qed
  note res = start_listeners_listening [OF assms(4) st(7) wf dist all]
  have ran: "set apps = snd ` set xs" using ranges_set [OF r] by (simp add: apps)
  show ?thesis
  proof (intro conjI allI impI)
    assume n: "pam_present (as, db) i = None"
    have "i \<notin> pa_ID ` set apps"
    proof
      assume "i \<in> pa_ID ` set apps"
      then obtain k a where "(k, a) \<in> set xs" "i = pa_ID a" using ran by auto
      with n mem [of i a] ids show False by fastforce
    qed
    with res n get show "GetPortmapApp i (pam_of g') = None" by simp
  next
    fix a assume s: "pam_present (as, db) i = Some a"
    then have "a \<in> set apps" "pa_ID a = i" using mem ids ran by force+
    with res show "\<exists>a'. GetPortmapApp i (pam_of g') = Some a' \<and> a'\<lparr>pa_Running := pa_Running a\<rparr> = a
         \<and> (pa_Running a' \<longrightarrow> listening a' (gw_pm g'))" by blast
  qed
qed

section \<open>A start that can be carried out\<close>

lemma UpdatePortmapApp_some: "fst m = Some as \<Longrightarrow> \<exists>err as' db'. UpdatePortmapApp D a m = Return (err, Some as', db')"
  by (auto simp: UpdatePortmapApp_def pam_savePortmap_def split: prod.splits)

lemma start_listeners_returns: "gw_pam g = Some as \<Longrightarrow> \<exists>g'. start_listeners E apps g = Return g'"
proof (induction apps arbitrary: g as)
  case (Cons a apps)
  obtain p err pm where l: "AddListener (ge_listen E) (pa_Network a) (pa_LocalIP a) (pa_LocalPort a) (gw_pm g) = ((p, err), pm)"
    by (metis surj_pair)
  show ?case
  proof (cases "pa_Running a")
    case False
    with Cons show ?thesis by simp
  next
    case True
    show ?thesis
    proof (cases err)
      case None
      with True l Cons.IH [of "g\<lparr>gw_pm := pm\<rparr>" as] Cons.prems show ?thesis by simp
    next
      case (Some e)
      obtain err' as' db' where u: "UpdatePortmapApp (ge_D E) (a\<lparr>pa_Err := [], pa_Running := False\<rparr>) (pam_of (g\<lparr>gw_pm := pm\<rparr>)) = Return (err', Some as', db')"
        using UpdatePortmapApp_some [of "pam_of (g\<lparr>gw_pm := pm\<rparr>)" as "ge_D E" "a\<lparr>pa_Err := [], pa_Running := False\<rparr>"] Cons.prems
        by (auto simp: pam_of_def)
      with True Some l Cons.IH [of "set_pam (Some as', db') (g\<lparr>gw_pm := pm\<rparr>)" as'] show ?thesis by (simp add: set_pam_def)
    qed
  qed
qed simp

lemma Run_serves:
  assumes "leveldb_spec (ge_D E)" and "leveldb_writable (ge_D E)" and "se_Executable S = None" and "se_Listen S = None"
    and "open_db S = Inr db" and "load_seed S = Inr us" and "\<And>bs. se_NewP2PEngine S 0 us bs = Inr port"
    and "db_Get (ge_D E) db dbKeyListenPort = Inl ErrNotFound" and "db_Get (ge_D E) db keySocksOutbound = Inl ErrNotFound"
    and "db_Get (ge_D E) db keyProxyServiceConfig = Inl ErrNotFound" and "ge_visitObs E [] = []"
    and "prm_wf (ge_D E) (rs, db)" and "pam_wf (ge_D E) (as, db)" and "\<And>xs. ranges (ge_visitApps E xs) xs"
  shows "\<exists>g'. Run E S g = Return (Serving, g')"
proof -
  let ?D = "ge_D E"
  obtain g1 where g1: "init_password E (g\<lparr>gw_db := db\<rparr>) = (None, g1)"
    using writable_put [OF assms(2), of db dbKeyAdminPassword "''admin123''"]
    by (cases "db_Get ?D db dbKeyAdminPassword") (auto simp: init_password_def db_put_def)
  note p = init_password_frame(1) [OF assms(1) g1]
  have port: "getListenPort E g1 = Inr 0" using p assms(8) by (simp add: getListenPort_def same_but_def db_keys)
  obtain g2 where g2: "start_engine E S us g1 = (None, g2)" using assms(7) port by (auto simp: start_engine_def)
  note e = start_engine_frame(1) [OF assms(1) g2]
  have kept: "db_Get ?D (gw_db g2) k = db_Get ?D db k" if "k \<notin> {dbKeyAdminPassword, dbKeyListenPort}" for k
    using that p e by (simp add: same_but_def)
  obtain rs' where rs': "NewPortmapResMgr ?D db = Inr (rs', db)" using assms(12) by (auto simp: prm_wf_def prm_stored_def)
  have "NewPortmapResMgr ?D (gw_db g2) = Inr (rs', gw_db g2)"
    by (rule NewPortmapResMgr_same [OF kept rs']) (simp add: db_keys)
  then obtain g3 where g3: "load_resources E g2 = (None, g3)" "gw_db g3 = gw_db g2"
    by (auto simp: load_resources_def set_prm_def)
  have "pam_wf ?D (as, gw_db g3)" by (rule pam_wf_same [OF assms(13)]) (simp add: g3 kept db_keys)
  then obtain apps xs where "LoadPortmapApps ?D (ge_visitApps E) (NewPortmapAppMgr (gw_db g3)) = Inr (apps, Some xs, gw_db g3)"
    using pam_load [of ?D "(as, gw_db g3)" "ge_visitApps E"] assms(14) by (metis snd_conv)
  then obtain g4 where g4: "load_apps E g3 = Inr (apps, g4)" "gw_db g4 = gw_db g2" "gw_pam g4 = Some xs"
    by (auto simp: load_apps_def set_pam_def g3)
  have "db_Get ?D (gw_db g4) keySocksOutbound = Inl ErrNotFound" using kept assms(9) by (simp add: g4 db_keys)
  then obtain g5 where g5: "start_client E g4 = Return (None, g5)" "gw_db g5 = gw_db g2" "gw_pam g5 = Some xs"
    using assms(11) g4
    by (auto simp: start_client_def newProxyClient_def NewSocksOutboundsManager_def loadOutbounds_def pc_Start_def ListOutbounds_def set_cli_def)
  have "db_Get ?D (gw_db g5) keyProxyServiceConfig = Inl ErrNotFound" using kept assms(10) by (simp add: g5 db_keys)
  then obtain g6 where g6: "start_service E g5 = (None, g6)" "gw_pam g6 = Some xs"
    by (auto simp: start_service_def loadConfig_def Let_def g5)
  obtain g7 where "start_listeners E apps (g6\<lparr>gw_pm := \<lparr>pm_listeners = [], pm_closed = []\<rparr>\<rparr>) = Return g7"
    using start_listeners_returns [of "g6\<lparr>gw_pm := \<lparr>pm_listeners = [], pm_closed = []\<rparr>\<rparr>" xs E apps] g6(2) by auto
  with g1 g2 g3(1) g4(1) g5(1) g6(1) assms(3-6) show ?thesis by (simp add: Run_def or_return_def)
qed

section \<open>Instances for evaluation\<close>

definition sample_start :: "(string \<times> string) list \<Rightarrow> (string \<times> string) list start_env" where
  "sample_start db = \<lparr>se_Executable = None, se_OpenFile = Inr db, se_IsCorrupted = (\<lambda>_. False), se_RecoverFile = Inl ErrNotFound,
     se_ReadUuid = ([], Some ErrNotFound), se_IsExist = (\<lambda>_. False), se_NewRandom = Inr (replicate 32 (CHR ''a'')), se_WriteUuid = (\<lambda>_. None),
     se_NewP2PEngine = (\<lambda>_ _ _. Inr 4001), se_Listen = None\<rparr>"

lemma sample_start_opens: "open_db (sample_start db) = Inr db" "load_seed (sample_start db) = Inr (replicate 32 (CHR ''a''))"
  by (simp_all add: sample_start_def open_db_def load_seed_def)

lemma sample_start_serves:
  assumes "prm_wf list_db (rs, db)" and "pam_wf list_db (as, db)" and "\<And>k. k \<notin> {keyPortmapRes, keyPortmapApps} \<Longrightarrow> map_of db k = None"
  shows "\<exists>g'. Run (sample_env\<lparr>ge_listen := l\<rparr>) (sample_start db) g = Return (Serving, g')"
proof (rule Run_serves [where E = "sample_env\<lparr>ge_listen := l\<rparr>" and S = "sample_start db" and rs = rs and as = as])
  show "db_Get (ge_D (sample_env\<lparr>ge_listen := l\<rparr>)) db dbKeyListenPort = Inl ErrNotFound" "db_Get (ge_D (sample_env\<lparr>ge_listen := l\<rparr>)) db keySocksOutbound = Inl ErrNotFound"
    "db_Get (ge_D (sample_env\<lparr>ge_listen := l\<rparr>)) db keyProxyServiceConfig = Inl ErrNotFound"
    using assms(3) by (simp_all add: sample_env_def list_db_def db_keys)
qed (use assms(1,2) list_db_spec sample_start_opens [of db] in \<open>auto simp: sample_env_def sample_start_def\<close>)

lemma sample_listen: "sample_env\<lparr>ge_listen := any_port_env\<rparr> = sample_env"
  by (simp add: sample_env_def)

lemmas sample_start_any = sample_start_serves [where l = any_port_env, unfolded sample_listen]

section \<open>Properties\<close>

text \<open>
  C18: applications survive the process, and those that run are reachable. After any history of the
  application manager that uses no port zero, a gateway started on the database it left has the same
  applications; each of them either has its listener or is marked as not running.
\<close>

theorem start_running_apps_listen:
  assumes "leveldb_spec (ge_D E)" and "leveldb_writable (ge_D E)" and "db_Get (ge_D E) db0 keyPortmapApps = Inl ErrNotFound"
    and "list_all (op_valid valid_app) ops"
    and "run_ops (pam_put (ge_D E)) (\<lambda>k m. snd (pam_DelPortmapApp (ge_D E) k m)) (pam_reload (ge_D E)) ops (NewPortmapAppMgr db0) = Some (as, db)"
    and "\<forall>a \<in> ran (fold (map_op pa_ID) ops Map.empty). pa_LocalPort a \<noteq> 0"
    and "listen_spec (ge_listen E)" and "\<And>xs. ranges (ge_visitApps E xs) xs"
    and "open_db S = Inr db" and "Run E S (Instance nodb now) = Return (Serving, g')"
  shows "case fold (map_op pa_ID) ops Map.empty i of
      None \<Rightarrow> GetPortmapApp i (pam_of g') = None
    | Some a \<Rightarrow> \<exists>a'. GetPortmapApp i (pam_of g') = Some a' \<and> a'\<lparr>pa_Running := pa_Running a\<rparr> = a
        \<and> (pa_Running a' \<longrightarrow> listening a' (gw_pm g'))"
proof -
  have m: "pam_wf (ge_D E) (as, db)" "pam_present (as, db) = fold (map_op pa_ID) ops Map.empty"
    using pam.run_ops_refines [OF pam_fresh [OF assms(1-3)] assms(4)] assms(5) by (auto simp: pam_present_def NewPortmapAppMgr_def)
  have p: "\<And>a. a \<in> ran (pam_present (as, db)) \<Longrightarrow> pa_LocalPort a \<noteq> 0" using assms(6) m(2) by simp
  from Run_apps [OF assms(9,10) m(1) assms(7,8) p, of i] m(2) show ?thesis by (auto split: option.splits)
qed

definition echo_listen :: listen_env where
  "echo_listen = \<lparr>le_ListenTCP = (\<lambda>a. if length (Split (CHR '':'') a) = 2 then Inr a else Inl (ErrNew ''too many colons in address'')),
     le_ResolveUDPAddr = (\<lambda>a. if length (Split (CHR '':'') a) = 2 then Inr a else Inl (ErrNew ''too many colons in address'')),
     le_ListenUDP = Inr, le_AddConn = None\<rparr>"

lemma echo_listen_spec: "listen_spec echo_listen"
proof -
  have "getPort \<lparr>rl_kind = k, rl_addr = host_port ip port\<rparr> = port"
    if "int64_ok port" "length (Split (CHR '':'') (host_port ip port)) = 2" for k ip port
  proof -
    have "CHR '':'' \<notin> set (Itoa port)" using digits_disjoint by (auto simp: Itoa_def)
    then have s: "Split (CHR '':'') (host_port ip port) = Split (CHR '':'') ip @ [Itoa port]"
      by (simp add: host_port_def Split_append Split_word)
    with that(2) obtain h where "Split (CHR '':'') ip = [h]" by (cases "Split (CHR '':'') ip") auto
    with s that(1) show ?thesis by (simp add: getPort_def Atoi_def)
  qed
  then show ?thesis by (auto simp: listen_spec_def echo_listen_def split: if_splits)
qed

definition running_app :: PortmapApp where
  "running_app = ssh_app\<lparr>pa_LocalIP := ''127.0.0.1'', pa_Running := True\<rparr>"

lemma valid_running_app: "valid_app running_app"
  using valid_ssh_app utf8_valid_ascii [of "''127.0.0.1''"] by (simp add: valid_app_def running_app_def)

theorem start_running_apps_listen_witness:
  "\<exists>db g' a'. Run (sample_env\<lparr>ge_listen := echo_listen\<rparr>) (sample_start db) (Instance [] 0) = Return (Serving, g')
    \<and> GetPortmapApp 5 (pam_of g') = Some a' \<and> a'\<lparr>pa_Running := True\<rparr> = running_app \<and> (pa_Running a' \<longrightarrow> listening a' (gw_pm g'))"
proof -
  let ?E = "sample_env\<lparr>ge_listen := echo_listen\<rparr>" and ?m = "pam_put list_db running_app (NewPortmapAppMgr [])"
  obtain db where m: "?m = (Some [(5, running_app)], db)" "\<And>k. k \<noteq> keyPortmapApps \<Longrightarrow> map_of db k = None"
    by (auto simp: pam_put_def UpdatePortmapApp_def pam_savePortmap_def NewPortmapAppMgr_def list_db_def running_app_def ssh_app_def ID_Uint64_def)
  have "pam_wf list_db ?m" by (rule pam_put_ok(2) [OF pam_fresh [OF list_db_spec list_db_empty] valid_running_app])
  moreover have "prm_wf list_db (None, db)" using m(2) by (intro prm_fresh list_db_spec) (simp add: list_db_def db_keys)
  ultimately obtain g' where r: "Run ?E (sample_start db) (Instance [] 0) = Return (Serving, g')"
    using sample_start_serves [of None db "Some [(5, running_app)]" echo_listen "Instance [] 0"] m by auto
  have f: "fold (map_op pa_ID) [TPut running_app] Map.empty = [5 \<mapsto> running_app]" by (simp add: running_app_def ssh_app_def)
  have "case fold (map_op pa_ID) [TPut running_app] Map.empty 5 of
      None \<Rightarrow> GetPortmapApp 5 (pam_of g') = None
    | Some a \<Rightarrow> \<exists>a'. GetPortmapApp 5 (pam_of g') = Some a' \<and> a'\<lparr>pa_Running := pa_Running a\<rparr> = a
        \<and> (pa_Running a' \<longrightarrow> listening a' (gw_pm g'))"
    by (rule start_running_apps_listen [where E = ?E and as = "Some [(5, running_app)]", OF _ _ _ _ _ _ _ _ sample_start_opens(1) r])
      (use m list_db_spec list_db_empty valid_running_app echo_listen_spec f in
        \<open>simp_all add: sample_env_def running_app_def ssh_app_def\<close>)
  with r f show ?thesis by (intro exI [of _ db] exI [of _ g']) (auto simp: running_app_def)
qed

end
