(* ===== verification/SiteHistory.thy ===== *)
theory SiteHistory
  imports PortForward Startup Authorize
begin

text \<open>
  A gateway over its whole life: requests to the web interface, the passing of time, handshakes and questions of other nodes, logins to
  the SOCKS service and restarts of the process, in any order. Each endpoint writes at most one key of the database
  (\<open>footprint\<close>). On top of this the theory follows what the administrator has set up, the password and the resources, as a
  state of its own that only four requests change (\<open>admin_step\<close>), and shows that the gateway refines it through every
  history (\<open>admin_run\<close>).
\<close>

section \<open>What a handler leaves alone\<close>

text \<open>
  The keys \<open>K\<close> of the database keep their values, and when the resources are among them, so does the map in memory.
\<close>

definition same_part :: "'db gw_env \<Rightarrow> string set \<Rightarrow> 'db Gateway \<Rightarrow> 'db Gateway \<Rightarrow> bool" where
  "same_part E K g g' \<longleftrightarrow> (keyPortmapRes \<in> K \<longrightarrow> gw_prm g' = gw_prm g) \<and> same_but (ge_D E) (- K) (gw_db g) (gw_db g')"

definition keeps_part :: "'db gw_env \<Rightarrow> string set \<Rightarrow> 'db Gateway \<Rightarrow> 'db handled \<Rightarrow> bool" where
  "keeps_part E K g r \<longleftrightarrow> (case r of Panic \<Rightarrow> True | Return (_, g') \<Rightarrow> same_part E K g g')"

named_theorems part_frame

lemma same_part_refl [part_frame]: "same_part E K g g"
  by (simp add: same_part_def)

lemma same_part_trans: "same_part E K g g' \<Longrightarrow> same_part E K g' g'' \<Longrightarrow> same_part E K g g''"
  by (auto simp: same_part_def intro: same_but_trans)

lemma keeps_part_Return [part_frame]: "keeps_part E K g (Return (rsp, g')) \<longleftrightarrow> same_part E K g g'"
  by (simp add: keeps_part_def)

lemma keeps_part_Panic [part_frame]: "keeps_part E K g Panic"
  by (simp add: keeps_part_def)

lemma keeps_part_with_body [part_frame]: "(\<And>x. keeps_part E K g (k x)) \<Longrightarrow> keeps_part E K g (with_body E dec q g k)"
  by (simp add: with_body_def keeps_part_def same_part_refl split: sum.splits option.splits)

lemma other_key: "same_but D {k} db db' \<Longrightarrow> k \<notin> K \<Longrightarrow> same_but D (- K) db db'"
  by (rule same_but_mono) auto

lemma db_put_part:
  assumes "leveldb_spec (ge_D E)" and "db_put E k v g = (e, g')" and "k \<notin> K"
  shows "same_part E K g g'"
  using assms other_key [OF same_but_db_put [OF assms(1), of k g v] assms(3)]
  by (auto simp: same_part_def db_put_def split: prod.splits)

lemma set_pam_part:
  "same_but (ge_D E) {keyPortmapApps} (gw_db g) (snd m) \<Longrightarrow> keyPortmapApps \<notin> K \<Longrightarrow> gw_prm g' = gw_prm g \<Longrightarrow> same_part E K g (set_pam m g')"
  using other_key [of "ge_D E" keyPortmapApps "gw_db g" "snd m" K] by (simp add: same_part_def set_pam_def)

lemma pam_Del_db: "leveldb_spec D \<Longrightarrow> pam_DelPortmapApp D i m = (e, m') \<Longrightarrow> same_but D {keyPortmapApps} (snd m) (snd m')"
  by (auto simp: pam_DelPortmapApp_def pam_savePortmap_def intro: same_but_put same_but_delete split: option.splits prod.splits)

lemma save_app_part:
  assumes "leveldb_spec (ge_D E)" and "keyPortmapApps \<notin> K"
  shows "keeps_part E K g (save_app E app (g\<lparr>gw_pm := pm\<rparr>))"
  by (auto simp: save_app_def part_frame pam_of_def intro!: set_pam_part assms(2) dest!: UpdatePortmapApp_db [OF assms(1)] split: outcome.splits)

lemma apps_keep_part:
  assumes "leveldb_spec (ge_D E)" and "keyPortmapApps \<notin> K"
  shows "keeps_part E K g (addApp E rnd q g)" "keeps_part E K g (updateApp E q g)" "keeps_part E K g (deleteApp E q g)"
proof -
  show "keeps_part E K g (addApp E rnd q g)" "keeps_part E K g (updateApp E q g)"
    by (auto simp: addApp_def updateApp_def part_frame Let_def save_app_part [OF assms]
        intro!: keeps_part_with_body split: prod.splits option.splits sum.splits)
  have "same_part E K g (set_pam m (g\<lparr>gw_pm := pm\<rparr>))" if "pam_DelPortmapApp (ge_D E) i (pam_of g) = (e, m)" for i e m pm
    using pam_Del_db [OF assms(1) that] assms(2) by (intro set_pam_part) (simp_all add: pam_of_def)
  then show "keeps_part E K g (deleteApp E q g)"
    unfolding deleteApp_def Let_def by (intro keeps_part_with_body) (simp add: keeps_part_def split: prod.splits)
qed

text \<open>Resources: the map in memory changes only where the key is not among the kept ones.\<close>

lemma same_but_savePortmap:
  "leveldb_spec D \<Longrightarrow> prm_savePortmap D m = (e, m') \<Longrightarrow> same_but D {keyPortmapRes} (snd m) (snd m')"
  by (auto simp: prm_savePortmap_def intro: same_but_put same_but_delete split: option.splits prod.splits)

lemma resource_ops_db:
  assumes "leveldb_spec D"
  shows "AddPortmapRes D r m = (e, m') \<Longrightarrow> same_but D {keyPortmapRes} (snd m) (snd m')"
    and "UpdatePortmapRes D r m = (e, m') \<Longrightarrow> same_but D {keyPortmapRes} (snd m) (snd m')"
    and "prm_DelPortmapApp D i m = (e, m') \<Longrightarrow> same_but D {keyPortmapRes} (snd m) (snd m')"
  unfolding AddPortmapRes_def UpdatePortmapRes_def prm_DelPortmapApp_def
  by (auto dest: same_but_savePortmap [OF assms] split: option.splits)

lemma set_prm_part:
  "same_but (ge_D E) {keyPortmapRes} (gw_db g) (snd m) \<Longrightarrow> keyPortmapRes \<notin> K \<Longrightarrow> same_part E K g (set_prm m g)"
  using other_key [of "ge_D E" keyPortmapRes "gw_db g" "snd m" K] by (simp add: same_part_def set_prm_def)

lemma resources_keep_part:
  assumes "leveldb_spec (ge_D E)" and "keyPortmapRes \<notin> K"
  shows "keeps_part E K g (getResource q g)" "keeps_part E K g (addResource E rnd q g)" "keeps_part E K g (updateResource E q g)"
    "keeps_part E K g (deleteResource E q g)"
proof -
  note db = resource_ops_db [OF assms(1)]
  have get: "snd (snd (GetAppByID i (prm_of g))) = gw_db g" for i by (simp add: GetAppByID_def prm_of_def)
  show "keeps_part E K g (getResource q g)"
    using get by (auto simp: getResource_def part_frame intro!: set_prm_part assms(2) split: prod.splits option.splits) (metis snd_conv same_but_refl)+
  show "keeps_part E K g (addResource E rnd q g)"
    by (auto simp: addResource_def part_frame prm_of_def intro!: keeps_part_with_body set_prm_part assms(2) dest!: db(1) split: prod.splits)
  show "keeps_part E K g (updateResource E q g)"
    using get by (auto simp: updateResource_def part_frame intro!: keeps_part_with_body set_prm_part assms(2) dest!: db(2)
        split: prod.splits option.splits) (metis snd_conv same_but_refl)+
  show "keeps_part E K g (deleteResource E q g)"
    using get by (auto simp: deleteResource_def part_frame intro!: keeps_part_with_body set_prm_part assms(2) dest!: db(3)
        split: prod.splits option.splits) (metis snd_conv same_but_refl)+
qed

section \<open>Outbounds\<close>

lemma same_but_AddOutbound:
  assumes "leveldb_spec D" and "mgr_AddOutbound D h ob m = (err, ob', m')"
  shows "same_but D {keySocksOutbound} (snd m) (snd m')"
  using assms(2) same_but_saveOutbounds [OF assms(1), of "(Some (AList.update (so_ID ob') ob' (made (fst m))), snd m)"]
  by (auto simp: mgr_AddOutbound_def split: prod.splits option.splits)

lemma same_but_DeleteOutbound:
  assumes "leveldb_spec D" and "mgr_DeleteOutbound D i m = (r, m')"
  shows "same_but D {keySocksOutbound} (snd m) (snd m')"
proof (cases "\<exists>obs ob. fst m = Some obs \<and> map_of obs i = Some ob")
  case True
  then obtain obs ob where "fst m = Some obs" "map_of obs i = Some ob" by blast
  with assms(2) same_but_saveOutbounds [OF assms(1), of "(Some (AList.delete i obs), snd m)"] show ?thesis
    by (auto simp: mgr_DeleteOutbound_def split: prod.splits)
next
  case False
  with assms(2) have "m' = m" by (auto simp: mgr_DeleteOutbound_def split: option.splits)
  then show ?thesis by simp
qed

lemma client_ops_db:
  assumes "leveldb_spec D"
  shows "pc_AddOutbound D env ob pc = Return (err, pc') \<Longrightarrow> same_but D {keySocksOutbound} (snd (pc_mgr pc)) (snd (pc_mgr pc'))"
    and "pc_UpdateOutbound D env ob pc = Return (err, pc') \<Longrightarrow> same_but D {keySocksOutbound} (snd (pc_mgr pc)) (snd (pc_mgr pc'))"
    and "pc_DeleteOutbound D env i pc = Return (err, pc') \<Longrightarrow> same_but D {keySocksOutbound} (snd (pc_mgr pc)) (snd (pc_mgr pc'))"
proof -
  have st: "pc_mgr pc2 = pc_mgr pc1" if "startTunStack env pc1 = (e, pc2)" for e and pc1 pc2 :: "'a proxyClient"
    using that startTunStack_mgr [of env pc1] by simp
  show "pc_AddOutbound D env ob pc = Return (err, pc') \<Longrightarrow> same_but D {keySocksOutbound} (snd (pc_mgr pc)) (snd (pc_mgr pc'))"
    by (auto simp: pc_AddOutbound_def Let_def dest!: st route_open_mgr dest: same_but_AddOutbound [OF assms]
        split: sum.splits prod.splits option.splits if_splits outcome.splits)
  show "pc_UpdateOutbound D env ob pc = Return (err, pc') \<Longrightarrow> same_but D {keySocksOutbound} (snd (pc_mgr pc)) (snd (pc_mgr pc'))"
    by (auto simp: pc_UpdateOutbound_def Let_def dest!: st route_open_mgr dest: same_but_UpdateOutbound [OF assms]
        split: sum.splits prod.splits option.splits if_splits outcome.splits)
  show "pc_DeleteOutbound D env i pc = Return (err, pc') \<Longrightarrow> same_but D {keySocksOutbound} (snd (pc_mgr pc)) (snd (pc_mgr pc'))"
    by (auto simp: pc_DeleteOutbound_def dest: same_but_DeleteOutbound [OF assms] split: prod.splits option.splits outcome.splits)
qed

lemma client_call_part:
  assumes "same_part E K g g1" and "keySocksOutbound \<notin> K" and "\<And>err pc. r = Return (err, pc) \<Longrightarrow> same_but (ge_D E) {keySocksOutbound} (gw_db g1) (snd (pc_mgr pc))"
  shows "keeps_part E K g (client_call E r ok g1)"
proof (cases r)
  case (Return x)
  obtain err pc where x: "x = (err, pc)" by (cases x)
  have "same_but (ge_D E) (- K) (gw_db g1) (snd (pc_mgr pc))"
    by (rule other_key [OF assms(3)]) (use Return x assms(2) in simp_all)
  with assms(1) Return x show ?thesis
    by (auto simp: client_call_def keeps_part_def same_part_def set_cli_def intro: same_but_trans)
qed (simp add: client_call_def keeps_part_def)

lemma find_outbound_part: "(\<And>ob g'. same_part E K g g' \<Longrightarrow> gw_db g' = gw_db g \<Longrightarrow> keeps_part E K g (k ob g')) \<Longrightarrow> keeps_part E K g (find_outbound i g k)"
  by (auto simp: find_outbound_def GetOutbound_def Let_def part_frame same_part_def gw_views split: option.splits)

lemma DeleteOutboundRoute_mgr: "DeleteOutboundRoute env ob pc = Return (e, pc') \<Longrightarrow> pc_mgr pc' = pc_mgr pc"
  by (auto simp: DeleteOutboundRoute_def split: outcome.splits prod.splits)

lemma outbounds_keep_part:
  assumes "leveldb_spec (ge_D E)" and "keySocksOutbound \<notin> K"
  shows "keeps_part E K g (addOutbound E rnd q g)" "keeps_part E K g (updateOutbound E q g)" "keeps_part E K g (deleteOutbound E q g)"
proof -
  have db: "snd (pc_mgr (cli_of g')) = gw_db g'" for g' :: "'a Gateway" by (simp add: cli_of_def)
  note ops = client_ops_db [OF assms(1)]
  show "keeps_part E K g (addOutbound E rnd q g)"
    by (auto simp: addOutbound_def part_frame intro!: keeps_part_with_body client_call_part assms(2) dest!: ops(1)) (simp add: db)
  show "keeps_part E K g (deleteOutbound E q g)"
    by (auto simp: deleteOutbound_def part_frame db intro!: keeps_part_with_body find_outbound_part client_call_part assms(2) dest!: ops(3))
  show "keeps_part E K g (updateOutbound E q g)"
    by (auto simp: updateOutbound_def part_frame db intro!: keeps_part_with_body find_outbound_part client_call_part assms(2)
        dest!: ops(2) DeleteOutboundRoute_mgr split: outcome.splits prod.splits)
qed

section \<open>Settings and sessions\<close>

lemma saveConfig_db: "leveldb_spec D \<Longrightarrow> saveConfig D ps = (e, ps') \<Longrightarrow> same_but D {keyProxyServiceConfig} (snd ps) (snd ps')"
  by (auto simp: saveConfig_def intro: same_but_put split: prod.splits)

lemma setToken_part: "leveldb_spec (ge_D E) \<Longrightarrow> dbKeyToken \<notin> K \<Longrightarrow> setToken E t g = (e, g') \<Longrightarrow> same_part E K g g'"
  unfolding setToken_def by (rule db_put_part)

lemma getToken_part: "leveldb_spec (ge_D E) \<Longrightarrow> dbKeyToken \<notin> K \<Longrightarrow> getToken E rnd g = (r, g') \<Longrightarrow> same_part E K g g'"
  by (auto simp: getToken_def part_frame dest: setToken_part split: sum.splits prod.splits option.splits if_splits)

lemma updateProxyConfig_part:
  assumes "leveldb_spec (ge_D E)" and "keyProxyServiceConfig \<notin> K"
  shows "keeps_part E K g (updateProxyConfig E q g)"
proof -
  have "same_but (ge_D E) (- K) (gw_db g) db'" if "ps_set (ge_D E) c (config, gw_db g) = (e, config', db')" for c config e config' db'
    using saveConfig_db [OF assms(1), of "(c, gw_db g)" e "(config', db')"] that assms(2)
    by (intro other_key [of _ keyProxyServiceConfig]) (auto simp: ps_set_def)
  then show ?thesis
    by (auto simp: updateProxyConfig_def keeps_part_Return same_part_def intro!: keeps_part_with_body split: option.splits prod.splits)
qed

lemma updateGatewayName_part:
  "leveldb_spec (ge_D E) \<Longrightarrow> dbKeyGatewayName \<notin> K \<Longrightarrow> keeps_part E K g (updateGatewayName E q g)"
  by (auto simp: updateGatewayName_def setGatewayName_def part_frame intro!: keeps_part_with_body dest: db_put_part split: prod.splits)

lemma getGatewayInfo_part:
  assumes "leveldb_spec (ge_D E)" and "dbKeyToken \<notin> K"
  shows "keeps_part E K g (getGatewayInfo E rnd rnd2 g)"
  by (auto simp: getGatewayInfo_def part_frame Let_def dest!: setToken_part [OF assms] getToken_part [OF assms]
      intro: same_part_trans split: sum.splits prod.splits option.splits)

lemma handleChangePassword_part:
  "leveldb_spec (ge_D E) \<Longrightarrow> dbKeyAdminPassword \<notin> K \<Longrightarrow> same_part E K g (snd (handleChangePassword E q g))"
  by (auto simp: handleChangePassword_def part_frame dest: db_put_part split: option.splits sum.splits prod.splits)

lemma sessions_keep_part:
  "same_part E K g (snd (handleLogin E tok q g))" "same_part E K g (snd (handleLogout q g))" "same_part E K g (advance t g)"
  by (auto simp: handleLogin_def handleLogout_def advance_def Let_def same_part_def split: option.splits sum.splits)

lemma reading_keeps_part:
  "keeps_part E K g (listResources E g)" "keeps_part E K g (listApps E g)" "keeps_part E K g (getApp q g)"
  "keeps_part E K g (listOutbounds E g)" "keeps_part E K g (getOutbound q g)" "keeps_part E K g (getProxyConfig g)"
  by (auto simp: listResources_def listApps_def getApp_def listOutbounds_def getOutbound_def getProxyConfig_def part_frame
      intro!: find_outbound_part split: option.splits prod.splits)

text \<open>The key that an endpoint may write to. Looking at a resource may make the nil map in memory.\<close>

fun footprint :: "endpoint \<Rightarrow> string set" where
  "footprint EpGetResource = {keyPortmapRes}"
| "footprint EpAddResource = {keyPortmapRes}"
| "footprint EpUpdateResource = {keyPortmapRes}"
| "footprint EpDeleteResource = {keyPortmapRes}"
| "footprint EpAddApp = {keyPortmapApps}"
| "footprint EpUpdateApp = {keyPortmapApps}"
| "footprint EpDeleteApp = {keyPortmapApps}"
| "footprint EpAddOutbound = {keySocksOutbound}"
| "footprint EpUpdateOutbound = {keySocksOutbound}"
| "footprint EpDeleteOutbound = {keySocksOutbound}"
| "footprint EpUpdateProxyConfig = {keyProxyServiceConfig}"
| "footprint EpGatewayInfo = {dbKeyToken}"
| "footprint EpGatewayName = {dbKeyGatewayName}"
| "footprint EpChangePassword = {dbKeyAdminPassword}"
| "footprint _ = {}"

lemma on_gateway_part: "on_gateway r fs = Return (rsp, g', fs') \<Longrightarrow> keeps_part E K g r \<Longrightarrow> same_part E K g g'"
  by (cases r) (auto simp: on_gateway_def keeps_part_def)

lemma endpoint_footprint:
  assumes D: "leveldb_spec (ge_D E)" and r: "run_endpoint E w ep q (g, fs) = Return (rsp, g', fs')" and K: "footprint ep \<inter> K = {}"
  shows "same_part E K g g'"
proof (cases "ep \<in> {EpRestart, EpUpgradeMyself, EpDownloadAPK, EpStatic}")
  case True
  with r show ?thesis by (auto simp: part_frame split: prod.splits)
next
  case False
  have pair: "keeps_part E K g (Return x)" if "same_part E K g (snd x)" for x using that by (cases x) (simp add: keeps_part_def)
  have "\<exists>h. on_gateway h fs = Return (rsp, g', fs') \<and> keeps_part E K g h"
    using False r K resources_keep_part [OF D, of K g] apps_keep_part [OF D, of K g] outbounds_keep_part [OF D, of K g]
      updateProxyConfig_part [OF D, of K g] updateGatewayName_part [OF D, of K g] getGatewayInfo_part [OF D, of K g]
      pair [OF handleChangePassword_part [OF D, of K g]] pair [OF sessions_keep_part(1)] pair [OF sessions_keep_part(2)]
      reading_keeps_part [of E K g]
    by (cases ep) auto
  then show ?thesis by (blast intro: on_gateway_part)
qed

section \<open>The resources as a map\<close>

text \<open>What a request to an endpoint does to the map: only three endpoints change it.\<close>

definition body_of :: "(json \<Rightarrow> 'a option) \<Rightarrow> http_request \<Rightarrow> 'a option" where
  "body_of dec q = (case hq_Body q of Inl _ \<Rightarrow> None | Inr body \<Rightarrow> unmarshal dec body)"

definition res_step ::
  "endpoint \<Rightarrow> uint64 \<Rightarrow> http_request \<Rightarrow> (ID \<Rightarrow> PortmapResource option) \<Rightarrow> (ID \<Rightarrow> PortmapResource option)" where
  "res_step ep rnd q m =
     (if ep = EpAddResource then
        (case body_of dec_PortmapResource q of None \<Rightarrow> m | Some pa \<Rightarrow> m(rnd \<mapsto> pa\<lparr>pr_ID := rnd\<rparr>))
      else if ep = EpUpdateResource then
        (case body_of dec_PortmapResource q of
           None \<Rightarrow> m
         | Some pa \<Rightarrow> if pr_ID pa \<noteq> 0 \<and> m (pr_ID pa) \<noteq> None \<and> validatePortmapResource pa = None then m(pr_ID pa \<mapsto> pa) else m)
      else if ep = EpDeleteResource then
        (case body_of dec_id q of None \<Rightarrow> m | Some i \<Rightarrow> if i = 0 then m else m(i := None))
      else m)"

text \<open>The endpoint that a request reaches, behind the login.\<close>

definition routed :: "world \<Rightarrow> http_request \<Rightarrow> 'db Gateway \<Rightarrow> endpoint option" where
  "routed w q g = (if authMiddleware q g = None then map_option fst (wd_mux w routes (hq_Method q) (hq_Path q)) else None)"

lemma prm_wf_same:
  assumes "prm_wf (ge_D E) (prm_of g)" and "same_part E {keyPortmapRes} g g'"
  shows "prm_wf (ge_D E) (prm_of g')" and "prm_present (prm_of g') = prm_present (prm_of g)"
proof -
  have k: "db_Get (ge_D E) (gw_db g') keyPortmapRes = db_Get (ge_D E) (gw_db g) keyPortmapRes"
    using assms(2) by (simp add: same_part_def same_but_def)
  show "prm_wf (ge_D E) (prm_of g')"
    using assms NewPortmapResMgr_same [OF k] by (fastforce simp: prm_wf_def prm_stored_def prm_of_def prm_present_def same_part_def)
  show "prm_present (prm_of g') = prm_present (prm_of g)" using assms(2) by (simp add: prm_present_def prm_of_def same_part_def)
qed

text \<open>Reading a resource at most makes the nil map.\<close>

lemma prm_made:
  assumes "prm_wf D m"
  shows "prm_wf D (Some (made (fst m)), snd m)" and "prm_present (Some (made (fst m)), snd m) = prm_present m"
  using assms by (auto simp: prm_wf_def prm_stored_def prm_present_def resources_ok_def)

lemma body_of_resource: "body_of dec_PortmapResource q = Some pa \<Longrightarrow> valid_resource pa"
  by (auto simp: body_of_def unmarshal_def intro: dec_PortmapResource_valid parse_json_valid split: sum.splits option.splits)

lemma with_body_cases:
  assumes "with_body E dec q g k = Return (rsp, g')"
  shows "case body_of dec q of None \<Rightarrow> g' = g | Some x \<Rightarrow> k x = Return (rsp, g')"
  using assms by (auto simp: with_body_def body_of_def split: sum.splits option.splits)

abbreviation refreshed :: "'db Gateway \<Rightarrow> 'db PortmapResMgr" where
  "refreshed g \<equiv> (Some (made (gw_prm g)), gw_db g)"

lemma prm_refreshed:
  assumes "prm_wf D (prm_of g)"
  shows "prm_wf D (refreshed g)" and "prm_present (refreshed g) = prm_present (prm_of g)"
  using prm_made [OF assms] by (simp_all add: prm_of_def)

lemma GetAppByID_refreshes: "snd (GetAppByID i (prm_of g)) = refreshed g"
  by (simp add: GetAppByID_def prm_of_def)

lemma prm_of_set_prm: "prm_of (set_prm m g) = m"
  by (simp add: prm_of_def set_prm_def)

lemma GetAppByID_absent:
  assumes "prm_wf D (prm_of g)" and "i \<noteq> 0"
  shows "pr_ID (fst (GetAppByID i (prm_of g))) = 0 \<longleftrightarrow> prm_present (prm_of g) i = None"
  using assms by (force simp: GetAppByID_def prm_present_def zero_PortmapResource_def prm_wf_def resources_ok_def dest: map_of_SomeD
      split: option.splits)

definition refines_to :: "'db gw_env \<Rightarrow> 'db Gateway \<Rightarrow> (ID \<Rightarrow> PortmapResource option) \<Rightarrow> bool" where
  "refines_to E g m \<longleftrightarrow> prm_wf (ge_D E) (prm_of g) \<and> prm_present (prm_of g) = m"

lemma addResource_refines:
  assumes wf: "prm_wf (ge_D E) (prm_of g)" and r: "addResource E rnd q g = Return (rsp, g')"
  shows "refines_to E g' (res_step EpAddResource rnd q (prm_present (prm_of g)))"
proof (cases "body_of dec_PortmapResource q")
  case None
  with with_body_cases [OF r [unfolded addResource_def]] wf show ?thesis by (simp add: res_step_def refines_to_def)
next
  case (Some pa)
  have v: "valid_resource (pa\<lparr>pr_ID := rnd\<rparr>)" using body_of_resource [OF Some] by (simp add: valid_resource_def)
  from with_body_cases [OF r [unfolded addResource_def]] Some have "prm_of g' = snd (AddPortmapRes (ge_D E) (pa\<lparr>pr_ID := rnd\<rparr>) (prm_of g))"
    by (auto simp: prm_of_set_prm split: prod.splits)
  with prm_put_ok [OF wf v] Some show ?thesis by (simp add: res_step_def refines_to_def)
qed

lemma updateResource_refines:
  assumes wf: "prm_wf (ge_D E) (prm_of g)" and r: "updateResource E q g = Return (rsp, g')"
  shows "refines_to E g' (res_step EpUpdateResource rnd q (prm_present (prm_of g)))"
proof (cases "body_of dec_PortmapResource q")
  case None
  with with_body_cases [OF r [unfolded updateResource_def]] wf show ?thesis by (simp add: res_step_def refines_to_def)
next
  case (Some pa)
  let ?do = "pr_ID pa \<noteq> 0 \<and> prm_present (prm_of g) (pr_ID pa) \<noteq> None \<and> validatePortmapResource pa = None"
  have "prm_of g' = (if ?do then snd (AddPortmapRes (ge_D E) pa (refreshed g)) else if pr_ID pa = 0 then prm_of g else refreshed g)"
    using with_body_cases [OF r [unfolded updateResource_def]] Some GetAppByID_refreshes [of "pr_ID pa" g] GetAppByID_absent [OF wf, of "pr_ID pa"]
    by (auto simp: prm_of_set_prm UpdatePortmapRes_def AddPortmapRes_def split: prod.splits option.splits if_splits)
  with prm_put_ok [OF prm_refreshed(1) [OF wf] body_of_resource [OF Some]] wf prm_refreshed [OF wf] Some show ?thesis
    by (auto simp: res_step_def refines_to_def)
qed

lemma deleteResource_refines:
  assumes wf: "prm_wf (ge_D E) (prm_of g)" and r: "deleteResource E q g = Return (rsp, g')"
  shows "refines_to E g' (res_step EpDeleteResource rnd q (prm_present (prm_of g)))"
proof (cases "body_of dec_id q")
  case None
  with with_body_cases [OF r [unfolded deleteResource_def]] wf show ?thesis by (simp add: res_step_def refines_to_def)
next
  case (Some i)
  have "prm_of g' = (if i = 0 then prm_of g else if prm_present (prm_of g) i = None then refreshed g
      else snd (prm_DelPortmapApp (ge_D E) i (refreshed g)))"
    using with_body_cases [OF r [unfolded deleteResource_def]] Some GetAppByID_refreshes [of i g] GetAppByID_absent [OF wf, of i]
    by (auto simp: prm_of_set_prm split: prod.splits if_splits)
  with prm_del_ok [OF prm_refreshed(1) [OF wf], of i] wf prm_refreshed [OF wf] Some show ?thesis by (auto simp: res_step_def refines_to_def)
qed

lemma getResource_refines:
  assumes wf: "prm_wf (ge_D E) (prm_of g)" and "getResource q g = Return (rsp, g')"
  shows "refines_to E g' (prm_present (prm_of g))"
proof -
  have "prm_of g' = prm_of g \<or> prm_of g' = refreshed g"
    using assms(2) by (auto simp: getResource_def set_prm_def GetAppByID_def prm_of_def split: prod.splits option.splits if_splits)
  with wf prm_refreshed [OF wf] show ?thesis by (auto simp: refines_to_def)
qed

lemma handshake_refines:
  assumes wf: "prm_wf (ge_D E) (prm_of g)"
  shows "refines_to E (snd (handlePortmapHandshake hs g)) (prm_present (prm_of g))"
proof -
  have "prm_of (snd (handlePortmapHandshake hs g)) = prm_of g \<or> prm_of (snd (handlePortmapHandshake hs g)) = refreshed g"
    by (auto simp: handlePortmapHandshake_def set_prm_def GetAppByID_def prm_of_def split: option.splits)
  with wf prm_refreshed [OF wf] show ?thesis by (auto simp: refines_to_def)
qed

text \<open>A request through the middleware, the router and its handler.\<close>

lemma res_step_other:
  "ep \<notin> {EpAddResource, EpUpdateResource, EpDeleteResource} \<Longrightarrow> res_step ep rnd q m = m"
  "res_step ep rnd (q\<lparr>hq_id := i\<rparr>) m = res_step ep rnd q m"
  by (auto simp: res_step_def body_of_def)

lemma endpoint_refines:
  assumes wf: "prm_wf (ge_D E) (prm_of g)" and r: "run_endpoint E w ep q (g, fs) = Return (rsp, g', fs')"
  shows "refines_to E g' (res_step ep (wd_rnd w) q (prm_present (prm_of g)))"
proof (cases "ep \<in> {EpListResources, EpGetResource, EpAddResource, EpUpdateResource, EpDeleteResource}")
  case True
  have on: "r = Return (rsp, g')" if "on_gateway r fs = Return (rsp, g', fs')" for r
    using that by (auto simp: on_gateway_def split: outcome.splits)
  from True r show ?thesis
    using getResource_refines [OF wf] addResource_refines [OF wf] updateResource_refines [OF wf] deleteResource_refines [OF wf] wf
    by (auto simp: res_step_other listResources_def refines_to_def dest!: on)
next
  case False
  have D: "leveldb_spec (ge_D E)" using wf by (simp add: prm_wf_def)
  have "footprint ep \<inter> {keyPortmapRes} = {}" using False by (cases ep) (simp_all add: db_keys)
  from prm_wf_same [OF wf endpoint_footprint [OF D r this]] False show ?thesis by (simp add: res_step_other refines_to_def)
qed

section \<open>What is administered\<close>

text \<open>The password changes only by a request that carries the one before it.\<close>

definition pass_step :: "endpoint \<Rightarrow> http_request \<Rightarrow> string \<Rightarrow> string" where
  "pass_step ep q p =
     (if ep = EpChangePassword then
        (case decode_body dec_change q of None \<Rightarrow> p | Some req \<Rightarrow> if cr_Current req = p then cr_New req else p)
      else p)"

record admin_state =
  ad_password :: string
  ad_resources :: "ID \<Rightarrow> PortmapResource option"

definition admin_step :: "endpoint \<Rightarrow> uint64 \<Rightarrow> http_request \<Rightarrow> admin_state \<Rightarrow> admin_state" where
  "admin_step ep rnd q a = \<lparr>ad_password = pass_step ep q (ad_password a), ad_resources = res_step ep rnd q (ad_resources a)\<rparr>"

definition password :: "'db gw_env \<Rightarrow> 'db Gateway \<Rightarrow> string \<Rightarrow> bool" where
  "password E g p \<longleftrightarrow> db_Get (ge_D E) (gw_db g) dbKeyAdminPassword = Inr p"

definition administered :: "'db gw_env \<Rightarrow> 'db Gateway \<Rightarrow> admin_state \<Rightarrow> bool" where
  "administered E g a \<longleftrightarrow> password E g (ad_password a) \<and> refines_to E g (ad_resources a)"

lemma password_same: "password E g p \<Longrightarrow> same_part E {dbKeyAdminPassword} g g' \<Longrightarrow> password E g' p"
  by (simp add: password_def same_part_def same_but_def)

lemma refines_same: "refines_to E g m \<Longrightarrow> same_part E {keyPortmapRes} g g' \<Longrightarrow> refines_to E g' m"
  using prm_wf_same unfolding refines_to_def by metis

lemma administered_same: "administered E g a \<Longrightarrow> same_part E {dbKeyAdminPassword, keyPortmapRes} g g' \<Longrightarrow> administered E g' a"
  by (auto simp: administered_def same_part_def same_but_def intro: password_same refines_same)

lemma change_password:
  assumes "leveldb_spec (ge_D E)" and "leveldb_writable (ge_D E)" and "password E g p"
  shows "password E (snd (handleChangePassword E q g)) (pass_step EpChangePassword q p)"
proof (cases "decode_body dec_change q")
  case (Some req)
  obtain db' where "db_Put (ge_D E) (gw_db g) dbKeyAdminPassword (cr_New req) = (None, db')"
    using writable_put [OF assms(2)] by blast
  with assms(3) Some put_get [OF assms(1) this] show ?thesis
    by (auto simp: handleChangePassword_def pass_step_def password_def db_put_def)
qed (use assms(3) in \<open>simp add: handleChangePassword_def pass_step_def\<close>)

lemma endpoint_password:
  assumes D: "leveldb_spec (ge_D E)" "leveldb_writable (ge_D E)" and p: "password E g p"
    and r: "run_endpoint E w ep q (g, fs) = Return (rsp, g', fs')"
  shows "password E g' (pass_step ep q p)"
proof (cases "ep = EpChangePassword")
  case True
  with r have "g' = snd (handleChangePassword E q g)" by (auto simp: on_gateway_def split: prod.splits)
  with change_password [OF D p] True show ?thesis by simp
next
  case False
  then have "footprint ep \<inter> {dbKeyAdminPassword} = {}" by (cases ep) (simp_all add: db_keys)
  from password_same [OF p endpoint_footprint [OF D(1) r this]] False show ?thesis by (simp add: pass_step_def)
qed

lemma admin_step_id: "admin_step ep rnd (q\<lparr>hq_id := i\<rparr>) a = admin_step ep rnd q a"
  by (simp add: admin_step_def res_step_other pass_step_def decode_body_def)

lemma serve_refines:
  assumes "administered E g a" and "serve E w q (g, fs) = Return (rsp, g', fs')"
  shows "administered E g' (case routed w q g of None \<Rightarrow> a | Some ep \<Rightarrow> admin_step ep (wd_rnd w) q a)"
proof (cases "routed w q g")
  case None
  with assms show ?thesis by (auto simp: serve_def routed_def split: option.splits if_splits)
next
  case (Some ep)
  then obtain i where r: "run_endpoint E w ep (q\<lparr>hq_id := i\<rparr>) (g, fs) = Return (rsp, g', fs')"
    using assms(2) by (auto simp: serve_def routed_def split: option.splits if_splits)
  have g: "prm_wf (ge_D E) (prm_of g)" "prm_present (prm_of g) = ad_resources a" "password E g (ad_password a)"
    using assms(1) by (simp_all add: administered_def refines_to_def)
  have D: "leveldb_spec (ge_D E)" "leveldb_writable (ge_D E)" using g(1) by (simp_all add: prm_wf_def)
  have "administered E g' (admin_step ep (wd_rnd w) (q\<lparr>hq_id := i\<rparr>) a)"
    using endpoint_password [OF D g(3) r] endpoint_refines [OF g(1) r] g(2) by (simp add: administered_def admin_step_def)
  with Some show ?thesis by (simp add: admin_step_id)
qed

section \<open>Histories\<close>

text \<open>
  The state that a history leaves. It starts with a process on a database without a password and resources, in trial mode
  or not; requests and restarts, each on the database that the last process left, follow in any order with what other nodes
  ask for. The clauses for other nodes and for time leave the state alone. A request whose handler panics is not a
  step: its state is not part of the model.
\<close>

definition new_process :: "bool \<Rightarrow> 'db \<Rightarrow> nat \<Rightarrow> 'db Gateway" where
  "new_process trial nodb now = (if trial then SetTrialMod (Instance nodb now) else Instance nodb now)"

inductive admin_run :: "'db gw_env \<Rightarrow> 'db site \<Rightarrow> admin_state \<Rightarrow> bool" for E where
  start: "admin_run E (g', fs) \<lparr>ad_password = ''admin123'', ad_resources = Map.empty\<rparr>"
    if "open_db S = Inr db" and "db_Get (ge_D E) db keyPortmapRes = Inl ErrNotFound"
      and "db_Get (ge_D E) db dbKeyAdminPassword = Inl ErrNotFound"
      and "Run E S (new_process trial nodb now) = Return (Serving, g')"
| tick: "admin_run E (advance t g, fs) a" if "admin_run E (g, fs) a"
| request: "admin_run E (g', fs') (case routed w q g of None \<Rightarrow> a | Some ep \<Rightarrow> admin_step ep (wd_rnd w) q a)"
    if "admin_run E (g, fs) a" and "serve E w q (g, fs) = Return (rsp, g', fs')"
| stream: "admin_run E (snd (handlePortmapHandshake hs g), fs) a" if "admin_run E (g, fs) a"
| ask: "admin_run E (g', fs) a" if "admin_run E (g, fs) a" and "authorizeHandler E rnd s g = Return (s', g')"
| login: "admin_run E (snd (socks_auth E rnd authID g), fs) a" if "admin_run E (g, fs) a"
| restart: "admin_run E (g', fs') a"
    if "admin_run E (g, fs) a" and "open_db S = Inr (gw_db g)"
      and "Run E S (new_process trial nodb now) = Return (Serving, g')"

lemma administered_refreshed: "administered E g a \<Longrightarrow> administered E (set_prm (snd (GetAppByID i (prm_of g))) g) a"
  using prm_refreshed [of "ge_D E" g]
  by (auto simp: administered_def refines_to_def GetAppByID_refreshes prm_of_set_prm password_def) (simp add: set_prm_def)

lemma Run_refines:
  assumes wf: "prm_wf (ge_D E) (rs, db)" and "open_db S = Inr db" and "Run E S g = Return (Serving, g')"
  shows "refines_to E g' (prm_present (rs, db))"
proof -
  let ?D = "ge_D E"
  have D: "leveldb_spec ?D" "leveldb_writable ?D" using wf by (simp_all add: prm_wf_def)
  from wf obtain rs' where rs': "NewPortmapResMgr ?D db = Inr (rs', db)" "map_of (made rs') = prm_present (rs, db)" "resources_ok rs'"
    by (auto simp: prm_wf_def prm_stored_def)
  obtain db2 where db2: "NewPortmapResMgr ?D db2 = Inr (gw_prm g', db2)" "same_but ?D {dbKeyAdminPassword, dbKeyListenPort} db db2"
    using Run_frames(3) [OF D(1) assms(2,3)] by blast
  have "db_Get ?D db2 keyPortmapRes = db_Get ?D db keyPortmapRes" using db2(2) by (simp add: same_but_def db_keys)
  from NewPortmapResMgr_same [OF this rs'(1)] db2(1) have rs: "gw_prm g' = rs'" by simp
  have "db_Get ?D (gw_db g') keyPortmapRes = db_Get ?D db keyPortmapRes"
    using Run_frames(4) [OF D(1) assms(2,3)] by (simp add: same_but_def db_keys)
  from NewPortmapResMgr_same [OF this rs'(1)] rs rs' D show ?thesis
    by (auto simp: refines_to_def prm_wf_def prm_stored_def prm_of_def prm_present_def)
qed

lemma Run_administered:
  assumes "prm_wf (ge_D E) (rs, db)" and "open_db S = Inr db" and "Run E S g = Return (Serving, g')"
  shows "administered E g' \<lparr>ad_password = (case db_Get (ge_D E) db dbKeyAdminPassword of Inr p \<Rightarrow> p | Inl _ \<Rightarrow> ''admin123''),
    ad_resources = prm_present (rs, db)\<rparr>"
proof -
  have "leveldb_spec (ge_D E)" using assms(1) by (simp add: prm_wf_def)
  from Run_frames(5) [OF this assms(2,3)] Run_refines [OF assms] show ?thesis by (simp add: administered_def password_def)
qed

lemma handshake_administered:
  assumes "administered E g a"
  shows "administered E (snd (handlePortmapHandshake hs g)) a"
proof -
  have "snd (handlePortmapHandshake hs g) = g \<or> (\<exists>i. snd (handlePortmapHandshake hs g) = set_prm (snd (GetAppByID i (prm_of g))) g)"
    by (auto simp: handlePortmapHandshake_def split: option.splits prod.splits) (metis snd_conv)+
  with assms administered_refreshed [OF assms] show ?thesis by auto
qed

lemma authorize_administered:
  assumes "leveldb_spec (ge_D E)" and "administered E g a" and "authorizeHandler E rnd s g = Return (s', g')"
  shows "administered E g' a"
proof -
  have "administered E g1 a" if "handlePortmapAuth E info s1 g = Return (s2, g1)" for info s1 s2 g1
    using that assms(2) administered_refreshed [OF assms(2)]
    by (auto simp: handlePortmapAuth_def Let_def split: option.splits prod.splits if_splits) (metis snd_conv)+
  moreover have "administered E g1 a" if "handleProxyAuth E rnd info s1 g = Return (s2, g1)" for info s1 s2 g1
  proof -
    from that have "g1 = snd (getToken E rnd g)"
      by (auto simp: handleProxyAuth_def Let_def split: option.splits sum.splits prod.splits if_splits)
    with getToken_part [OF assms(1), of "{dbKeyAdminPassword, keyPortmapRes}" rnd g] assms(2) show ?thesis
      by (cases "getToken E rnd g") (auto simp: db_keys intro: administered_same)
  qed
  ultimately show ?thesis using assms(2,3)
    by (auto simp: authorizeHandler_def split: prod.splits option.splits outcome.splits if_splits)
qed

lemma socks_auth_part: "leveldb_spec (ge_D E) \<Longrightarrow> dbKeyToken \<notin> K \<Longrightarrow> same_part E K g (snd (socks_auth E rnd t g))"
  using getToken_part [of E K rnd g]
  by (auto simp: socks_auth_def proxyAuth_def part_frame split: prod.splits sum.splits)

lemma admin_run_administered:
  assumes "admin_run E st a" and D: "leveldb_spec (ge_D E)" "leveldb_writable (ge_D E)"
  shows "administered E (fst st) a"
  using assms(1)
proof (induction rule: admin_run.induct)
  case (start S db trial nodb now g' fs)
  from Run_administered [OF prm_fresh [OF D start(2)] start(1,4)] start(3) show ?case by (simp add: prm_present_def)
next
  case (tick g fs a t)
  then show ?case using administered_same [OF _ sessions_keep_part(3)] by simp
next
  case (request g fs a w q rsp g' fs')
  then show ?case using serve_refines [of E g a w q fs rsp g' fs'] by simp
next
  case (stream g fs a hs)
  then show ?case by (simp add: handshake_administered)
next
  case (ask g fs a rnd s s' g')
  then show ?case using authorize_administered [OF D(1)] by auto
next
  case (login g fs a rnd authID)
  then show ?case using socks_auth_part [OF D(1), of "{dbKeyAdminPassword, keyPortmapRes}"] by (auto simp: db_keys intro: administered_same)
next
  case (restart g fs a S trial nodb now g' fs')
  then have "administered E g a" by simp
  with Run_administered [of E "gw_prm g" "gw_db g" S _ g'] restart show ?case
    by (simp add: administered_def refines_to_def prm_of_def password_def)
qed

section \<open>Properties\<close>

text \<open>
  C4: what other nodes reach is what the administrator has set up. Through every history of requests, restarts, asking nodes and
  passing time, a gateway gives a handshake the target of the resource that the accepted requests
  to add, update and delete leave under its identifier, and refuses it when they leave none. The exception is the one
  identifier of the trial mode, in that mode; and a resource under the identifier zero cannot be reached.
\<close>

theorem resources_served_are_configured:
  assumes "admin_run E (g, fs) a" and "leveldb_spec (ge_D E)" and "leveldb_writable (ge_D E)"
    and "unmarshal dec_PortmapAppHandshake hs = Some h" and "\<not> (gw_trial g \<and> ph_ResID h = trialResource)"
  shows "fst (handlePortmapHandshake hs g) =
    (case ad_resources a (ph_ResID h) of
       Some r \<Rightarrow> if ph_ResID h \<noteq> 0 then Inr (pr_Network r, pr_TargetAddr r, pr_TargetPort r) else Inl (ErrNew ''portmap app not found'')
     | None \<Rightarrow> Inl (ErrNew ''portmap app not found''))"
proof -
  from admin_run_administered [OF assms(1-3)] have r: "resources_ok (gw_prm g)" "map_of (made (gw_prm g)) = ad_resources a"
    by (simp_all add: administered_def refines_to_def prm_wf_def prm_of_def prm_present_def)
  then have "pr_ID r = i" if "ad_resources a i = Some r" for i r
    using that map_of_SomeD [of "made (gw_prm g)" i r] by (auto simp: resources_ok_def)
  with assms(4,5) r(2) show ?thesis
    by (auto simp: handlePortmapHandshake_def GetAppByID_def prm_of_def zero_PortmapResource_def split: option.splits)
qed

text \<open>
  C5: the login takes the password of the administrator and no other. Through every history, restarts included, a login
  succeeds exactly for the name \<open>admin\<close> with the password that the requests to change it leave, each of which had to
  carry the one before it; a new gateway has the default password.
\<close>

theorem login_takes_configured_password:
  assumes "admin_run E (g, fs) a" and "leveldb_spec (ge_D E)" and "leveldb_writable (ge_D E)"
  shows "hs_Status (fst (handleLogin E tok q g)) = 200
    \<longleftrightarrow> decode_body dec_login q = Some \<lparr>lr_Username = ''admin'', lr_Password = ad_password a\<rparr>"
proof -
  have "password E g (ad_password a)" using admin_run_administered [OF assms] by (simp add: administered_def)
  then have "correct_login E q g \<longleftrightarrow> (\<exists>req. decode_body dec_login q = Some req \<and> lr_Username req = ''admin'' \<and> lr_Password req = ad_password a)"
    by (auto simp: correct_login_def password_def)
  moreover have "(\<exists>req. decode_body dec_login q = Some req \<and> lr_Username req = ''admin'' \<and> lr_Password req = ad_password a)
      \<longleftrightarrow> decode_body dec_login q = Some \<lparr>lr_Username = ''admin'', lr_Password = ad_password a\<rparr>"
    by (auto intro: login_req.equality)
  ultimately show ?thesis by (cases rule: login_cases [of E q g tok]) simp_all
qed

text \<open>A history to evaluate on: a new gateway, a login, a resource added over the web interface.\<close>

definition fresh_admin :: admin_state where
  "fresh_admin = \<lparr>ad_password = ''admin123'', ad_resources = Map.empty\<rparr>"

definition web_admin :: admin_state where
  "web_admin = fresh_admin\<lparr>ad_resources := [1 \<mapsto> web_resource\<lparr>pr_ID := 1\<rparr>]\<rparr>"

definition add_request :: http_request where
  "add_request = login_request\<lparr>hq_Path := ''/resource/add'', hq_Authorization := ''tok'', hq_Body := Inr (jprint (enc_PortmapResource web_resource))\<rparr>"

lemma add_request_body: "body_of dec_PortmapResource add_request = Some web_resource"
proof -
  from wf_enc_PortmapResource [OF valid_web_resource]
  have "wf_json (enc_PortmapResource web_resource)" "json_depth (enc_PortmapResource web_resource) \<le> 10000" by simp_all
  then show ?thesis by (simp add: body_of_def add_request_def dec_enc_PortmapResource [OF valid_web_resource])
qed

lemma add_request_route: "wd_mux sample_world routes (hq_Method add_request) (hq_Path add_request) = Some (EpAddResource, [])"
  by (simp add: sample_world_def exact_mux_def routes_def add_request_def login_request_def)

lemma sample_Run:
  obtains g where "Run sample_env (sample_start []) (new_process False [] 0) = Return (Serving, g)" and "\<not> gw_trial g" and "gw_sessions g = None"
    and "db_Get list_db (gw_db g) dbKeyAdminPassword = Inr ''admin123''"
proof -
  obtain g where r: "Run sample_env (sample_start []) (Instance [] 0) = Return (Serving, g)"
    using sample_start_any [OF prm_fresh pam_fresh [unfolded NewPortmapAppMgr_def]] list_db_spec list_db_empty by force
  have d: "leveldb_spec (ge_D sample_env)" using list_db_spec by (simp add: sample_env_def)
  from r Run_frames [OF d sample_start_opens(1) r] that show thesis by (simp add: new_process_def Instance_def sample_env_def list_db_def)
qed

lemma sample_started:
  obtains g where "admin_run sample_env (g, sample_files) fresh_admin" and "\<not> gw_trial g" and "gw_sessions g = None"
    and "db_Get list_db (gw_db g) dbKeyAdminPassword = Inr ''admin123''"
proof -
  obtain g where g: "Run sample_env (sample_start []) (new_process False [] 0) = Return (Serving, g)" "\<not> gw_trial g" "gw_sessions g = None"
    "db_Get list_db (gw_db g) dbKeyAdminPassword = Inr ''admin123''" by (rule sample_Run)
  have "admin_run sample_env (g, sample_files) fresh_admin"
    unfolding fresh_admin_def
    by (rule admin_run.start [OF sample_start_opens(1) _ _ g(1)]) (simp_all add: sample_env_def list_db_def)
  with g that show thesis by simp
qed

text \<open>The first login of the sample gateway.\<close>

lemma sample_login_served:
  assumes "gw_sessions g = None" and "db_Get list_db (gw_db g) dbKeyAdminPassword = Inr ''admin123''"
  shows "\<exists>rsp. serve sample_env sample_world login_request (g, sample_files) =
      Return (rsp, g\<lparr>gw_sessions := Some [(''tok'', True)], gw_timers := (gw_now g + session_seconds, ''tok'') # gw_timers g\<rparr>, sample_files)"
    and "correct_login sample_env login_request g"
proof -
  have c: "correct_login sample_env (login_request\<lparr>hq_id := i\<rparr>) g" for i
    unfolding correct_login_def decode_login_request using assms(2) by (simp add: sample_env_def)
  from c [of "hq_id login_request"] show "correct_login sample_env login_request g" by simp
  have p: "hq_Method login_request = ''POST''" "hq_Path login_request = ''/login/''" "wd_uuid sample_world = ''tok''"
    by (simp_all add: login_request_def sample_world_def)
  have m: "authMiddleware login_request g = None" by (simp add: authMiddleware_def open_path_def login_request_def HasPrefix_def)
  have "snd (handleLogin sample_env ''tok'' (login_request\<lparr>hq_id := []\<rparr>) g) =
      g\<lparr>gw_sessions := Some [(''tok'', True)], gw_timers := (gw_now g + session_seconds, ''tok'') # gw_timers g\<rparr>"
    by (rule login_cases [of sample_env "login_request\<lparr>hq_id := []\<rparr>" g "''tok''"]) (use c assms(1) in \<open>simp_all add: made_def\<close>)
  then show "\<exists>rsp. serve sample_env sample_world login_request (g, sample_files) =
      Return (rsp, g\<lparr>gw_sessions := Some [(''tok'', True)], gw_timers := (gw_now g + session_seconds, ''tok'') # gw_timers g\<rparr>, sample_files)"
    by (auto simp: serve_def m sample_routes(1) p on_gateway_def split: prod.splits)
qed

lemma sample_configured:
  obtains g where "admin_run sample_env (g, sample_files) web_admin" and "\<not> gw_trial g"
proof -
  obtain g0 where g0: "admin_run sample_env (g0, sample_files) fresh_admin" "\<not> gw_trial g0" "gw_sessions g0 = None"
    "db_Get list_db (gw_db g0) dbKeyAdminPassword = Inr ''admin123''" by (rule sample_started)
  let ?g1 = "g0\<lparr>gw_sessions := Some [(''tok'', True)], gw_timers := (gw_now g0 + session_seconds, ''tok'') # gw_timers g0\<rparr>"
  obtain rsp where s1: "serve sample_env sample_world login_request (g0, sample_files) = Return (rsp, ?g1, sample_files)"
    using sample_login_served(1) [OF g0(3,4)] by blast
  have p: "hq_Method login_request = ''POST''" "hq_Path login_request = ''/login/''" "wd_rnd sample_world = 1"
    by (simp_all add: login_request_def sample_world_def)
  have r1: "admin_run sample_env (?g1, sample_files) fresh_admin"
    using admin_run.request [OF g0(1) s1] by (simp add: routed_def sample_routes(1) p admin_step_def res_step_other pass_step_def fresh_admin_def split: if_splits)
  have a: "authMiddleware add_request ?g1 = None"
    by (simp add: authMiddleware_def add_request_def login_request_def request_token_def made_def Let_def)
  obtain body where body: "hq_Body add_request = Inr body" "unmarshal dec_PortmapResource body = Some web_resource"
    using add_request_body by (auto simp: body_of_def split: sum.splits)
  obtain err mm where add: "AddPortmapRes (ge_D sample_env) (web_resource\<lparr>pr_ID := 1\<rparr>) (prm_of ?g1) = (err, mm)"
    by (cases "AddPortmapRes (ge_D sample_env) (web_resource\<lparr>pr_ID := 1\<rparr>) (prm_of ?g1)")
  have s2: "\<exists>rsp. serve sample_env sample_world add_request (?g1, sample_files) = Return (rsp, set_prm mm ?g1, sample_files)"
    by (simp add: serve_def a add_request_route on_gateway_def addResource_def with_body_def body p add)
  have "admin_run sample_env (set_prm mm ?g1, sample_files) web_admin"
    using s2 admin_run.request [OF r1] a add_request_route add_request_body by (fastforce simp: routed_def admin_step_def res_step_def pass_step_def p web_admin_def fresh_admin_def)
  moreover have "\<not> gw_trial (set_prm mm ?g1)" using g0(2) by (simp add: set_prm_def)
  ultimately show thesis by (rule that)
qed

definition web_handshake :: string where
  "web_handshake = jprint (enc_PortmapAppHandshake \<lparr>ph_ResID = 1, ph_Network = ''tcp'', ph_TargetAddr = [], ph_TargetPort = 0\<rparr>)"

theorem resources_served_are_configured_witness:
  "\<exists>g. admin_run sample_env (g, sample_files) web_admin
    \<and> fst (handlePortmapHandshake web_handshake g) = Inr (''tcp'', ''10.0.0.1'', 80)"
proof -
  obtain g where g: "admin_run sample_env (g, sample_files) web_admin" "\<not> gw_trial g" by (rule sample_configured)
  have d: "leveldb_spec (ge_D sample_env)" "leveldb_writable (ge_D sample_env)" using list_db_spec list_db_empty by (simp_all add: sample_env_def)
  have "unmarshal dec_PortmapAppHandshake web_handshake = Some \<lparr>ph_ResID = 1, ph_Network = ''tcp'', ph_TargetAddr = [], ph_TargetPort = 0\<rparr>"
    unfolding web_handshake_def by (rule phc.decode_encode) (simp add: valid_handshake_def int64_ok_def)
  from resources_served_are_configured [OF g(1) d this] g show ?thesis
    by (intro exI [of _ g]) (simp add: web_admin_def web_resource_def)
qed

theorem login_takes_configured_password_witness:
  "\<exists>g. admin_run sample_env (g, sample_files) web_admin \<and> hs_Status (fst (handleLogin sample_env ''tok'' login_request g)) = 200"
proof -
  obtain g where g: "admin_run sample_env (g, sample_files) web_admin" by (rule sample_configured)
  have d: "leveldb_spec (ge_D sample_env)" "leveldb_writable (ge_D sample_env)" using list_db_spec list_db_empty by (simp_all add: sample_env_def)
  from login_takes_configured_password [OF g d, of "''tok''" login_request] g show ?thesis
    unfolding decode_login_request by (auto simp: web_admin_def fresh_admin_def)
qed

end
