(* ===== verification/GatewaySafety.thy ===== *)
theory GatewaySafety
  imports SiteHistory
begin

text \<open>
  What a gateway can panic on. Its tables have a shape that the handlers rely on: the map of the applications is made, the router has its tree in order, and
  every outbound has its network. The start establishes it, every handler keeps it, and on it the handlers, \<open>Run\<close> and \<open>Stop\<close> panic in one case only.
\<close>

section \<open>The shape\<close>

definition routeable :: "(ID, socksOutbound) gomap option \<Rightarrow> bool" where
  "routeable obs \<longleftrightarrow> (\<forall>(k, ob) \<in> set (made obs). so_routeNet ob \<noteq> None)"

definition client_ok :: "client_env \<Rightarrow> 'db proxyClient \<Rightarrow> bool" where
  "client_ok env pc \<longleftrightarrow> router_live (ce_avl env) (pc_router pc) \<and> routeable (fst (pc_mgr pc))"

definition gw_ok :: "'db gw_env \<Rightarrow> 'db Gateway \<Rightarrow> bool" where
  "gw_ok E g \<longleftrightarrow> client_ok (ge_cli E) (cli_of g) \<and> gw_pam g \<noteq> None"

named_theorems shape

lemma gw_ok_fields:
  "gw_ok E g \<longleftrightarrow> router_live (ce_avl (ge_cli E)) (gw_router g) \<and> routeable (gw_obs g) \<and> gw_pam g \<noteq> None"
  by (simp add: gw_ok_def client_ok_def cli_of_def)

lemma gw_ok_updates [shape, simp]:
  "gw_ok E (set_prm m g) = gw_ok E g" "gw_ok E (g\<lparr>gw_db := db\<rparr>) = gw_ok E g" "gw_ok E (g\<lparr>gw_pm := pm\<rparr>) = gw_ok E g"
  "gw_ok E (g\<lparr>gw_sessions := s\<rparr>) = gw_ok E g" "gw_ok E (g\<lparr>gw_timers := t\<rparr>) = gw_ok E g" "gw_ok E (g\<lparr>gw_now := n\<rparr>) = gw_ok E g"
  "gw_ok E (g\<lparr>gw_proxySvc := c\<rparr>) = gw_ok E g" "gw_ok E (g\<lparr>gw_obDialer := d\<rparr>) = gw_ok E g"
  by (simp_all add: gw_ok_fields set_prm_def)

lemma gw_ok_set_cli [shape, simp]: "gw_ok E (set_cli pc g) \<longleftrightarrow> client_ok (ge_cli E) pc \<and> gw_pam g \<noteq> None"
  by (simp add: gw_ok_def client_ok_def set_cli_def cli_of_def)

lemma gw_ok_set_pam [shape, simp]: "gw_ok E g \<Longrightarrow> gw_ok E (set_pam m g) \<longleftrightarrow> fst m \<noteq> None"
  by (simp add: gw_ok_fields set_pam_def)

lemma gw_ok_db_put: "db_put E k v g = (e, g') \<Longrightarrow> gw_ok F g' = gw_ok F g"
  by (auto simp: db_put_def split: prod.splits)

lemma gw_ok_getToken: "getToken E rnd g = (r, g') \<Longrightarrow> gw_ok F g' = gw_ok F g"
  by (auto simp: getToken_def setToken_def dest: gw_ok_db_put split: sum.splits prod.splits option.splits if_splits)

section \<open>The client\<close>

lemma set_alist_update: "x \<in> set (AList.update k v m) \<Longrightarrow> x = (k, v) \<or> x \<in> set m"
  by (induction m) (auto split: if_splits)

lemma routeable_update: "routeable obs \<Longrightarrow> so_routeNet ob \<noteq> None \<Longrightarrow> routeable (Some (AList.update i ob (made obs)))"
  unfolding routeable_def by (auto dest!: set_alist_update)

lemma routeable_delete: "routeable (Some obs) \<Longrightarrow> routeable (Some (AList.delete i obs))"
  by (auto simp: routeable_def AList.delete_eq)

lemma routeable_at: "routeable obs \<Longrightarrow> map_of (made obs) i = Some ob \<Longrightarrow> so_routeNet ob \<noteq> None"
  unfolding routeable_def by (auto dest: map_of_SomeD)

lemma saveOutbounds_table: "saveOutbounds D m = (e, m') \<Longrightarrow> fst m' = fst m"
  by (auto simp: saveOutbounds_def split: prod.splits option.splits)

lemma fill_routes: "socks5OutboundFillRunningInfo h ob = (None, ob') \<Longrightarrow> so_routeNet ob' \<noteq> None"
  by (auto simp: socks5OutboundFillRunningInfo_def Let_def split: sum.splits option.splits)

lemma mgr_put_routeable:
  assumes "routeable (fst m)" and "mgr_AddOutbound D h ob m = (err, ob', m') \<or> mgr_UpdateOutbound D h ob m = (err, ob', m')"
  shows "routeable (fst m')" and "err = None \<Longrightarrow> so_routeNet ob' \<noteq> None"
  using assms routeable_update [OF assms(1)] fill_routes [of h ob]
  by (auto simp: mgr_AddOutbound_def mgr_UpdateOutbound_def dest: saveOutbounds_table split: prod.splits option.splits)

lemma mgr_delete_routeable:
  assumes "routeable (fst m)" and "mgr_DeleteOutbound D i m = ((ob, err), m')"
  shows "routeable (fst m')" and "ob = Some x \<Longrightarrow> so_routeNet x \<noteq> None"
  using assms routeable_delete [of "made (fst m)" i] routeable_at [OF assms(1), of i x]
  by (auto simp: mgr_DeleteOutbound_def dest: saveOutbounds_table split: prod.splits option.splits)

lemma router_add: "router_live A r \<Longrightarrow> net \<noteq> None \<Longrightarrow> \<exists>b r'. addRoute A net d r = Return (b, r') \<and> router_live A r'"
  using add_effect [of A] range_total by (fastforce simp: router_live_def)

lemma router_del: "router_live A r \<Longrightarrow> net \<noteq> None \<Longrightarrow> \<exists>r'. delRoute A net r = Return r' \<and> router_live A r'"
  using del_effect [of A] range_total by (fastforce simp: router_live_def)

lemma route_open_ok:
  assumes "client_ok env pc" and "so_routeNet ob \<noteq> None"
  shows "\<exists>pc'. route_open env ob pc = Return pc' \<and> client_ok env pc' \<and> pc_mgr pc' = pc_mgr pc"
  using assms router_add [of "ce_avl env" "pc_router pc" "so_routeNet ob" "so_socks5Peer ob"]
  by (auto simp: route_open_def addOutboundRoute_def client_ok_def split: prod.splits)

lemma DeleteOutboundRoute_ok:
  assumes "client_ok env pc" and "so_routeNet ob \<noteq> None"
  shows "\<exists>e pc'. DeleteOutboundRoute env ob pc = Return (e, pc') \<and> client_ok env pc' \<and> pc_mgr pc' = pc_mgr pc"
  using assms router_del [of "ce_avl env" "pc_router pc" "so_routeNet ob"]
  by (auto simp: DeleteOutboundRoute_def client_ok_def split: prod.splits)

lemma tun_stack_ok: "startTunStack env pc = (e, pc') \<Longrightarrow> client_ok env pc' = client_ok env pc" "stopTunStack env pc = (e, pc') \<Longrightarrow> client_ok env pc' = client_ok env pc"
  by (auto simp: startTunStack_def stopTunStack_def client_ok_def split: option.splits if_splits)

lemma client_ok_mgr: "client_ok env pc \<Longrightarrow> routeable (fst m) \<Longrightarrow> client_ok env (pc\<lparr>pc_mgr := m\<rparr>)"
  by (simp add: client_ok_def)

lemma client_routeable: "client_ok env pc \<Longrightarrow> routeable (fst (pc_mgr pc))"
  by (simp add: client_ok_def)

text \<open>The calls of the client return, and keep the shape.\<close>

definition client_returns :: "client_env \<Rightarrow> (error option \<times> 'db proxyClient) outcome \<Rightarrow> bool" where
  "client_returns env r \<longleftrightarrow> (\<exists>err pc. r = Return (err, pc) \<and> client_ok env pc)"

lemma client_returns_Return [simp]: "client_returns env (Return (err, pc)) \<longleftrightarrow> client_ok env pc"
  by (simp add: client_returns_def)

lemma AddOutbound_returns:
  assumes "client_ok env pc" shows "client_returns env (pc_AddOutbound D env ob pc)"
proof (cases "CheckPeer env (so_Peer ob) (so_Token ob)")
  case (Inr peerName)
  obtain err ob' m where m: "mgr_AddOutbound D (ce_p2p env) (ob\<lparr>so_PeerName := peerName\<rparr>) (pc_mgr pc) = (err, ob', m)" by (metis surj_pair)
  note r = mgr_put_routeable [OF client_routeable [OF assms(1)] disjI1 [OF m]]
  have ok: "client_ok env (pc\<lparr>pc_mgr := m\<rparr>)" by (rule client_ok_mgr [OF assms r(1)])
  obtain e pc2 where t: "startTunStack env (pc\<lparr>pc_mgr := m\<rparr>) = (e, pc2)" by (metis surj_pair)
  with ok have "client_ok env pc2" using tun_stack_ok(1) by blast
  with Inr m ok t r(2) route_open_ok [of env pc2 ob'] show ?thesis
    by (auto simp: pc_AddOutbound_def Let_def split: option.splits)
qed (use assms in \<open>simp add: pc_AddOutbound_def\<close>)

lemma UpdateOutbound_returns:
  assumes "client_ok env pc" shows "client_returns env (pc_UpdateOutbound D env ob pc)"
proof (cases "CheckPeer env (so_Peer ob) (so_Token ob)")
  case (Inr peerName)
  obtain err ob' m where m: "mgr_UpdateOutbound D (ce_p2p env) (ob\<lparr>so_PeerName := peerName\<rparr>) (pc_mgr pc) = (err, ob', m)" by (metis surj_pair)
  note r = mgr_put_routeable [OF client_routeable [OF assms(1)] disjI2 [OF m]]
  have ok: "client_ok env (pc\<lparr>pc_mgr := m\<rparr>)" by (rule client_ok_mgr [OF assms r(1)])
  obtain e pc2 where t: "startTunStack env (pc\<lparr>pc_mgr := m\<rparr>) = (e, pc2)" by (metis surj_pair)
  with ok have "client_ok env pc2" using tun_stack_ok(1) by blast
  with Inr m ok t r(2) route_open_ok [of env pc2 ob'] show ?thesis
    by (auto simp: pc_UpdateOutbound_def Let_def split: option.splits)
qed (use assms in \<open>simp add: pc_UpdateOutbound_def\<close>)

lemma DeleteOutbound_returns:
  assumes "client_ok env pc" shows "client_returns env (pc_DeleteOutbound D env i pc)"
proof -
  obtain ob err m where m: "mgr_DeleteOutbound D i (pc_mgr pc) = ((ob, err), m)" by (metis surj_pair)
  note r = mgr_delete_routeable [OF client_routeable [OF assms] m]
  have ok: "client_ok env (pc\<lparr>pc_mgr := m\<rparr>)" by (rule client_ok_mgr [OF assms r(1)])
  then have l: "router_live (ce_avl env) (pc_router pc)" by (simp add: client_ok_def)
  show ?thesis
  proof (cases "\<exists>x. ob = Some x \<and> err = None")
    case True
    then obtain x where x: "ob = Some x" "err = None" by blast
    from router_del [OF l r(2) [OF x(1)]] m x ok show ?thesis by (auto simp: pc_DeleteOutbound_def client_ok_def)
  next
    case False
    with m ok show ?thesis by (cases ob; cases err) (auto simp: pc_DeleteOutbound_def)
  qed
qed

lemma start_loop_returns:
  "client_ok env pc \<Longrightarrow> \<forall>ob \<in> set obs. so_routeNet ob \<noteq> None \<Longrightarrow> \<exists>pc'. start_loop D env obs pc = Return pc' \<and> client_ok env pc'"
proof (induction obs arbitrary: pc)
  case (Cons ob obs)
  obtain e pc1 where t: "startTunStack env pc = (e, pc1)" by (metis surj_pair)
  with Cons.prems(1) have ok: "client_ok env pc1" using tun_stack_ok(1) by blast
  consider "\<not> so_Open ob" | err where "so_Open ob" "e = Some err" | "so_Open ob" "e = None" by fastforce
  then show ?case
  proof cases
    case 1
    with Cons show ?thesis by simp
  next
    case 2
    obtain x ob' m where u: "mgr_UpdateOutbound D (ce_p2p env) (ob\<lparr>so_Open := False\<rparr>) (pc_mgr pc1) = (x, ob', m)" by (metis surj_pair)
    from mgr_put_routeable(1) [OF client_routeable [OF ok] disjI2 [OF u]] have "client_ok env (pc1\<lparr>pc_mgr := m\<rparr>)" by (rule client_ok_mgr [OF ok])
    from Cons.IH [OF this] Cons.prems(2) 2 t u show ?thesis by simp
  next
    case 3
    obtain pc2 where "route_open env ob pc1 = Return pc2" "client_ok env pc2" using route_open_ok [OF ok, of ob] Cons.prems(2) by auto
    with Cons.IH [of pc2] Cons.prems(2) 3 t show ?thesis by simp
  qed
qed simp

lemma stop_loop_returns:
  "client_ok env pc \<Longrightarrow> \<forall>ob \<in> set obs. so_routeNet ob \<noteq> None \<Longrightarrow> \<exists>pc'. stop_loop env obs pc = Return pc' \<and> client_ok env pc'"
proof (induction obs arbitrary: pc)
  case (Cons ob obs)
  show ?case
  proof (cases "so_Open ob")
    case True
    obtain e pc2 where "DeleteOutboundRoute env ob pc = Return (e, pc2)" "client_ok env pc2"
      using DeleteOutboundRoute_ok [OF Cons.prems(1), of ob] Cons.prems(2) by auto
    with Cons.IH [of pc2] Cons.prems(2) True show ?thesis by simp
  qed (use Cons in simp)
qed simp

lemma listed_routeable:
  assumes "routeable (fst m)" and "ranges (visit (made (fst m))) (made (fst m))"
  shows "\<forall>ob \<in> set (ListOutbounds visit m). so_routeNet ob \<noteq> None"
  using assms mset_eq_setD [of "visit (made (fst m))" "made (fst m)"] by (fastforce simp: ListOutbounds_def routeable_def ranges_def)

lemma Stop_returns:
  assumes "gw_ok E g" and "\<And>xs. ranges (ge_visitObs E xs) xs"
  shows "\<exists>g'. Stop E g = Return g' \<and> gw_ok E g'"
proof -
  have ok: "client_ok (ge_cli E) (cli_of g)" "gw_pam g \<noteq> None" using assms(1) by (simp_all add: gw_ok_def)
  from stop_loop_returns [OF ok(1) listed_routeable [OF client_routeable [OF ok(1)], of "ge_visitObs E"], OF assms(2)]
  obtain pc where pc: "stop_loop (ge_cli E) (ListOutbounds (ge_visitObs E) (pc_mgr (cli_of g))) (cli_of g) = Return pc" "client_ok (ge_cli E) pc"
    by blast
  obtain e pc' where t: "stopTunStack (ge_cli E) pc = (e, pc')" by (metis surj_pair)
  with pc ok(2) tun_stack_ok(2) [OF t] show ?thesis by (auto simp: Stop_def pc_Stop_def)
qed

section \<open>The handlers\<close>

definition handled_ok :: "'db gw_env \<Rightarrow> 'db handled \<Rightarrow> bool" where
  "handled_ok E r \<longleftrightarrow> (\<exists>rsp g. r = Return (rsp, g) \<and> gw_ok E g)"

lemma handled_Return [shape, simp]: "handled_ok E (Return (rsp, g)) \<longleftrightarrow> gw_ok E g"
  by (simp add: handled_ok_def)

lemma handled_with_body [shape]: "gw_ok E g \<Longrightarrow> (\<And>x. handled_ok E (k x)) \<Longrightarrow> handled_ok E (with_body E dec q g k)"
  by (simp add: with_body_def split: sum.splits option.splits)

lemma gw_client: "gw_ok E g \<Longrightarrow> client_ok (ge_cli E) (cli_of g)"
  by (simp add: gw_ok_def)

lemma handled_client_call: "gw_ok E g \<Longrightarrow> client_returns (ge_cli E) r \<Longrightarrow> handled_ok E (client_call E r ok g)"
  by (auto simp: client_call_def client_returns_def gw_ok_fields set_cli_def client_ok_def)

lemma handled_save_app: "gw_ok E g \<Longrightarrow> handled_ok E (save_app E app (g\<lparr>gw_pm := pm\<rparr>))"
proof -
  assume g: "gw_ok E g"
  then obtain as where as: "gw_pam g = Some as" by (auto simp: gw_ok_def)
  obtain e m where m: "pam_savePortmap (ge_D E) (Some (AList.update (ID_Uint64 (pa_ID app)) app as), gw_db g) = (e, m)" by (metis surj_pair)
  then have "fst m \<noteq> None" by (auto simp: pam_savePortmap_def split: prod.splits)
  with g as m show ?thesis by (simp add: save_app_def UpdatePortmapApp_def pam_of_def)
qed

lemma apps_handled:
  assumes "gw_ok E g"
  shows "handled_ok E (addApp E rnd q g)" "handled_ok E (updateApp E q g)" "handled_ok E (deleteApp E q g)" "handled_ok E (listApps E g)"
    "handled_ok E (getApp q g)"
proof -
  show "handled_ok E (addApp E rnd q g)" "handled_ok E (updateApp E q g)"
    using assms by (auto simp: addApp_def updateApp_def Let_def intro!: handled_with_body handled_save_app split: prod.splits option.splits sum.splits)
  have "fst m \<noteq> None" if "pam_DelPortmapApp (ge_D E) i (pam_of g) = (e, m)" for i e m
    using that assms by (auto simp: pam_DelPortmapApp_def pam_savePortmap_def pam_of_def gw_ok_def split: prod.splits)
  then show "handled_ok E (deleteApp E q g)"
    unfolding deleteApp_def Let_def by (intro handled_with_body assms) (use assms in \<open>simp split: prod.splits\<close>)
  show "handled_ok E (listApps E g)" "handled_ok E (getApp q g)"
    using assms by (auto simp: listApps_def getApp_def split: prod.splits option.splits)
qed

lemma resources_handled:
  assumes "gw_ok E g"
  shows "handled_ok E (listResources E g)" "handled_ok E (getResource q g)" "handled_ok E (addResource E rnd q g)"
    "handled_ok E (updateResource E q g)" "handled_ok E (deleteResource E q g)"
  using assms
  by (auto simp: listResources_def getResource_def addResource_def updateResource_def deleteResource_def
      intro!: handled_with_body split: prod.splits option.splits)

lemma settings_handled:
  assumes "gw_ok E g"
  shows "handled_ok E (getGatewayInfo E rnd rnd2 g)" "handled_ok E (updateGatewayName E q g)" "handled_ok E (getProxyConfig g)"
    "handled_ok E (updateProxyConfig E q g)" "handled_ok E (listOutbounds E g)" "gw_ok E (snd (handleLogin E tok q g))"
    "gw_ok E (snd (handleLogout q g))" "gw_ok E (snd (handleChangePassword E q g))"
proof -
  show "handled_ok E (getGatewayInfo E rnd rnd2 g)" "handled_ok E (updateGatewayName E q g)"
    using assms by (auto simp: getGatewayInfo_def updateGatewayName_def setGatewayName_def setToken_def Let_def intro!: handled_with_body
        dest: gw_ok_getToken gw_ok_db_put split: prod.splits option.splits sum.splits)
  show "handled_ok E (getProxyConfig g)" "handled_ok E (updateProxyConfig E q g)" "handled_ok E (listOutbounds E g)"
    using assms by (auto simp: getProxyConfig_def updateProxyConfig_def listOutbounds_def intro!: handled_with_body split: prod.splits option.splits)
  show "gw_ok E (snd (handleLogin E tok q g))" by (rule login_cases [of E q g tok]) (use assms in simp_all)
  show "gw_ok E (snd (handleLogout q g))" "gw_ok E (snd (handleChangePassword E q g))"
    using assms by (auto simp: handleLogout_def handleChangePassword_def dest: gw_ok_db_put split: prod.splits option.splits sum.splits)
qed

text \<open>The outbounds: a request that names one that is there, or a panic.\<close>

definition present :: "ID \<Rightarrow> 'db Gateway \<Rightarrow> bool" where
  "present i g \<longleftrightarrow> map_of (made (gw_obs g)) i \<noteq> None"

lemma found_outbound:
  assumes "gw_ok E g" and "\<And>ob g'. gw_ok E g' \<Longrightarrow> so_routeNet ob \<noteq> None \<Longrightarrow> handled_ok E (k ob g')"
  shows "if present i g then handled_ok E (find_outbound i g k) else find_outbound i g k = Panic"
proof (cases "map_of (made (gw_obs g)) i")
  case (Some ob)
  have "gw_ok E (set_cli ((cli_of g)\<lparr>pc_mgr := (Some (made (gw_obs g)), gw_db g)\<rparr>) g)"
    unfolding gw_ok_set_cli using assms(1) by (simp add: gw_ok_fields client_ok_def cli_of_def routeable_def made_def split: option.splits)
  moreover have "so_routeNet ob \<noteq> None" using routeable_at [OF _ Some] assms(1) by (simp add: gw_ok_fields)
  ultimately show ?thesis
    using Some assms(2) by (simp add: find_outbound_def GetOutbound_def present_def cli_of_def Let_def)
qed (simp add: find_outbound_def GetOutbound_def present_def cli_of_def)

lemma addOutbound_handled: "gw_ok E g \<Longrightarrow> handled_ok E (addOutbound E rnd q g)"
  unfolding addOutbound_def by (intro handled_with_body handled_client_call AddOutbound_returns gw_client)

text \<open>The identifier of an outbound that a request names behind the checks of its handler.\<close>

fun named_outbound :: "endpoint \<Rightarrow> http_request \<Rightarrow> 'db Gateway \<Rightarrow> ID option" where
  "named_outbound EpGetOutbound q g =
     (case ParseUint (hq_id q) of (n, Some _) \<Rightarrow> None | (n, None) \<Rightarrow> if gw_proxySvc g = None then None else Some (of_nat n))"
| "named_outbound EpUpdateOutbound q g =
     (case body_of dec_socksOutbound q of None \<Rightarrow> None | Some ob \<Rightarrow> if so_ID ob = 0 then None else Some (so_ID ob))"
| "named_outbound EpDeleteOutbound q g = (case body_of dec_id q of None \<Rightarrow> None | Some i \<Rightarrow> if i = 0 then None else Some i)"
| "named_outbound _ q g = None"

definition misses_outbound :: "endpoint \<Rightarrow> http_request \<Rightarrow> 'db Gateway \<Rightarrow> bool" where
  "misses_outbound ep q g \<longleftrightarrow> (\<exists>i. named_outbound ep q g = Some i \<and> \<not> present i g)"

lemma body_or_panic:
  assumes "gw_ok E g" and "\<And>x. if P x then k x = Panic else handled_ok E (k x)"
  shows "if \<exists>x. body_of dec q = Some x \<and> P x then with_body E dec q g k = Panic else handled_ok E (with_body E dec q g k)"
  using assms(1) assms(2) by (auto simp: with_body_def body_of_def split: sum.splits option.splits)

lemma outbounds_handled:
  assumes "gw_ok E g"
  shows "if misses_outbound EpGetOutbound q g then getOutbound q g = Panic else handled_ok E (getOutbound q g)"
    and "if misses_outbound EpUpdateOutbound q g then updateOutbound E q g = Panic else handled_ok E (updateOutbound E q g)"
    and "if misses_outbound EpDeleteOutbound q g then deleteOutbound E q g = Panic else handled_ok E (deleteOutbound E q g)"
proof -
  show "if misses_outbound EpGetOutbound q g then getOutbound q g = Panic else handled_ok E (getOutbound q g)"
    using assms found_outbound [OF assms, of "\<lambda>ob g'. Return (api_data [] (enc_socksOutbound ob), g')"]
    by (auto simp: getOutbound_def misses_outbound_def split: prod.splits option.splits)
  have u: "handled_ok E (case (if so_Open existing then DeleteOutboundRoute (ge_cli E) existing (cli_of g1) else Return (None, cli_of g1)) of
      Panic \<Rightarrow> Panic | Return (_, pc) \<Rightarrow> client_call E (pc_UpdateOutbound (ge_D E) (ge_cli E) ob pc) (api_msg 0 ''ok'') g1)"
    if h: "gw_ok E g1" "so_routeNet existing \<noteq> None" for existing ob g1
    using DeleteOutboundRoute_ok [OF gw_client [OF h(1)] h(2)] gw_client [OF h(1)]
    by (auto intro!: handled_client_call h(1) UpdateOutbound_returns)
  have m: "misses_outbound EpUpdateOutbound q g \<longleftrightarrow> (\<exists>ob. body_of dec_socksOutbound q = Some ob \<and> so_ID ob \<noteq> 0 \<and> \<not> present (so_ID ob) g)"
    "misses_outbound EpDeleteOutbound q g \<longleftrightarrow> (\<exists>i. body_of dec_id q = Some i \<and> i \<noteq> 0 \<and> \<not> present i g)"
    by (auto simp: misses_outbound_def split: option.splits if_splits)
  show "if misses_outbound EpUpdateOutbound q g then updateOutbound E q g = Panic else handled_ok E (updateOutbound E q g)"
    unfolding m updateOutbound_def
  proof (rule body_or_panic [OF assms])
    fix ob :: socksOutbound
    let ?k = "\<lambda>existing g1. case (if so_Open existing then DeleteOutboundRoute (ge_cli E) existing (cli_of g1) else Return (None, cli_of g1)) of
      Panic \<Rightarrow> Panic | Return (_, pc) \<Rightarrow> client_call E (pc_UpdateOutbound (ge_D E) (ge_cli E) ob pc) (api_msg 0 ''ok'') g1"
    from found_outbound [OF assms, of ?k "so_ID ob", OF u] assms
    show "if so_ID ob \<noteq> 0 \<and> \<not> present (so_ID ob) g
        then (if so_ID ob = 0 then Return (api_msg 400 ''outbound id is required'', g) else find_outbound (so_ID ob) g ?k) = Panic
        else handled_ok E (if so_ID ob = 0 then Return (api_msg 400 ''outbound id is required'', g) else find_outbound (so_ID ob) g ?k)"
      by (auto split: if_splits)
  qed
  show "if misses_outbound EpDeleteOutbound q g then deleteOutbound E q g = Panic else handled_ok E (deleteOutbound E q g)"
    unfolding m deleteOutbound_def
  proof (rule body_or_panic [OF assms])
    fix i :: ID
    let ?k = "\<lambda>existing g1. client_call E (pc_DeleteOutbound (ge_D E) (ge_cli E) i (cli_of g1)) (api_msg 0 ''ok'') g1"
    have d: "handled_ok E (?k existing g1)" if "gw_ok E g1" for existing g1
      using that by (intro handled_client_call DeleteOutbound_returns gw_client)
    from found_outbound [OF assms, of ?k i, OF d] assms
    show "if i \<noteq> 0 \<and> \<not> present i g
        then (if i = 0 then Return (api_msg 400 ''outbound id is required'', g) else find_outbound i g ?k) = Panic
        else handled_ok E (if i = 0 then Return (api_msg 400 ''outbound id is required'', g) else find_outbound i g ?k)"
      by (auto split: if_splits)
  qed
qed

section \<open>Every endpoint\<close>

definition site_returns :: "'db gw_env \<Rightarrow> (http_response \<times> 'db site) outcome \<Rightarrow> bool" where
  "site_returns E r \<longleftrightarrow> (\<exists>rsp g fs. r = Return (rsp, g, fs) \<and> gw_ok E g)"

lemma site_returns_simps [simp]:
  "site_returns E (Return (rsp, g, fs)) = gw_ok E g" "site_returns E (on_gateway r fs) = handled_ok E r" "on_gateway Panic fs = Panic"
  by (auto simp: site_returns_def handled_ok_def on_gateway_def split: outcome.splits)

lemma endpoint_ok:
  assumes "gw_ok E g"
  shows "if misses_outbound ep q g then run_endpoint E w ep q (g, fs) = Panic else site_returns E (run_endpoint E w ep q (g, fs))"
proof (cases "ep \<in> {EpGetOutbound, EpUpdateOutbound, EpDeleteOutbound}")
  case True
  have o: "if b then on_gateway r fs = Panic else site_returns E (on_gateway r fs)" if "if b then r = Panic else handled_ok E r" for b r
    using that by (cases b) simp_all
  from True outbounds_handled [OF assms] show ?thesis by (auto intro!: o)
next
  case False
  then have m: "\<not> misses_outbound ep q g" by (cases ep) (simp_all add: misses_outbound_def)
  have p: "handled_ok E (Return h)" if "gw_ok E (snd h)" for h
    using that by (cases h) simp
  note h = apps_handled [OF assms] resources_handled [OF assms] settings_handled(1-5) [OF assms] addOutbound_handled [OF assms]
    p [OF settings_handled(6) [OF assms]] p [OF settings_handled(7) [OF assms]] p [OF settings_handled(8) [OF assms]]
  from False m assms show ?thesis by (cases ep) (simp_all add: h split: prod.splits)
qed

definition panics_on :: "world \<Rightarrow> http_request \<Rightarrow> 'db Gateway \<Rightarrow> bool" where
  "panics_on w q g \<longleftrightarrow>
     (\<exists>ep i. authMiddleware q g = None \<and> wd_mux w routes (hq_Method q) (hq_Path q) = Some (ep, i) \<and> misses_outbound ep (q\<lparr>hq_id := i\<rparr>) g)"

lemma serve_ok:
  assumes "gw_ok E g"
  shows "if panics_on w q g then serve E w q (g, fs) = Panic else site_returns E (serve E w q (g, fs))"
proof (cases "authMiddleware q g = None \<and> wd_mux w routes (hq_Method q) (hq_Path q) \<noteq> None")
  case True
  then obtain ep i where r: "wd_mux w routes (hq_Method q) (hq_Path q) = Some (ep, i)" by auto
  with True endpoint_ok [OF assms, of ep "q\<lparr>hq_id := i\<rparr>" w fs] show ?thesis by (simp add: serve_def panics_on_def)
next
  case False
  with assms show ?thesis by (auto simp: serve_def panics_on_def split: option.splits)
qed

section \<open>The start\<close>

text \<open>A database whose tables come back whole: no outbound is \<open>null\<close> or has a network that cannot be read, and the applications are not \<open>null\<close>.\<close>

definition loads_whole :: "'db gw_env \<Rightarrow> 'db \<Rightarrow> bool" where
  "loads_whole E db \<longleftrightarrow>
     (case NewSocksOutboundsManager (ge_D E) (ce_p2p (ge_cli E)) db of
        Panic \<Rightarrow> False | Return (Inl _) \<Rightarrow> True | Return (Inr m) \<Rightarrow> routeable (fst m))
     \<and> (case LoadPortmapApps (ge_D E) (ge_visitApps E) (NewPortmapAppMgr db) of Inl _ \<Rightarrow> True | Inr (_, m) \<Rightarrow> fst m \<noteq> None)"

lemma loads_whole_same:
  assumes "db_Get (ge_D E) db' keySocksOutbound = db_Get (ge_D E) db keySocksOutbound"
    and "db_Get (ge_D E) db' keyPortmapApps = db_Get (ge_D E) db keyPortmapApps"
  shows "loads_whole E db' = loads_whole E db"
  using assms
  by (auto simp: loads_whole_def NewSocksOutboundsManager_def loadOutbounds_def LoadPortmapApps_def NewPortmapAppMgr_def split: sum.splits option.splits)

lemma loads_whole_fresh:
  "db_Get (ge_D E) db keySocksOutbound = Inl ErrNotFound \<Longrightarrow> db_Get (ge_D E) db keyPortmapApps = Inl ErrNotFound \<Longrightarrow> loads_whole E db"
  by (simp add: loads_whole_def NewSocksOutboundsManager_def loadOutbounds_def LoadPortmapApps_def NewPortmapAppMgr_def routeable_def made_def)

definition env_ok :: "'db gw_env \<Rightarrow> bool" where
  "env_ok E \<longleftrightarrow> leveldb_spec (ge_D E) \<and> avltree_spec (ce_avl (ge_cli E)) \<and> (\<forall>xs. ranges (ge_visitObs E xs) xs)"

lemma newProxyRouter_live: "avltree_spec A \<Longrightarrow> router_live A (newProxyRouter A)"
  by (simp add: router_live_def newProxyRouter_def router_init_def avl_laws(1) router_inv_def disjoint_ranges_def ordered_def entries_def)

lemma start_client_ok:
  assumes "env_ok E" and "loads_whole E (gw_db g)"
  shows "\<exists>err g'. start_client E g = Return (err, g') \<and> gw_pam g' = gw_pam g
    \<and> (err = None \<longrightarrow> router_live (ce_avl (ge_cli E)) (gw_router g') \<and> routeable (gw_obs g'))"
proof (cases "NewSocksOutboundsManager (ge_D E) (ce_p2p (ge_cli E)) (gw_db g)")
  case Panic
  with assms(2) show ?thesis by (simp add: loads_whole_def)
next
  case (Return x)
  show ?thesis
  proof (cases x)
    case (Inl err)
    with Return show ?thesis by (simp add: start_client_def newProxyClient_def)
  next
    case (Inr m)
    let ?pc = "\<lparr>pc_mgr = m, pc_router = newProxyRouter (ce_avl (ge_cli E)), pc_tunStackRunning = False, pc_osRoutes = []\<rparr> :: 'a proxyClient"
    have r: "routeable (fst m)" using assms(2) Return Inr by (simp add: loads_whole_def)
    with assms(1) newProxyRouter_live have ok: "client_ok (ge_cli E) ?pc" by (auto simp: client_ok_def env_ok_def)
    from start_loop_returns [OF ok listed_routeable [OF r, of "ge_visitObs E"]] assms(1) obtain pc
      where "start_loop (ge_D E) (ge_cli E) (ListOutbounds (ge_visitObs E) m) ?pc = Return pc" "client_ok (ge_cli E) pc"
      unfolding env_ok_def by blast
    with Return Inr show ?thesis
      by (simp add: start_client_def newProxyClient_def pc_Start_def set_cli_def client_ok_def)
  qed
qed

lemma start_listeners_ok: "gw_ok E g \<Longrightarrow> \<exists>g'. start_listeners E apps g = Return g' \<and> gw_ok E g'"
proof (induction apps arbitrary: g)
  case (Cons a apps)
  obtain p err pm where l: "AddListener (ge_listen E) (pa_Network a) (pa_LocalIP a) (pa_LocalPort a) (gw_pm g) = ((p, err), pm)"
    by (metis surj_pair)
  show ?case
  proof (cases "\<not> pa_Running a \<or> err = None")
    case True
    with l Cons.IH [of g] Cons.IH [of "g\<lparr>gw_pm := pm\<rparr>"] Cons.prems show ?thesis by auto
  next
    case False
    then obtain e where e: "err = Some e" by blast
    obtain as where as: "gw_pam g = Some as" using Cons.prems by (auto simp: gw_ok_def)
    let ?a = "a\<lparr>pa_Err := [], pa_Running := False\<rparr>"
    obtain x m where m: "pam_savePortmap (ge_D E) (Some (AList.update (ID_Uint64 (pa_ID ?a)) ?a as), gw_db g) = (x, m)" by (metis surj_pair)
    then have "fst m \<noteq> None" by (auto simp: pam_savePortmap_def split: prod.splits)
    then have "gw_ok E (set_pam m (g\<lparr>gw_pm := pm\<rparr>))" using Cons.prems by simp
    from Cons.IH [OF this] m as l False e show ?thesis
      by (simp add: UpdatePortmapApp_def pam_of_def)
  qed
qed simp

definition run_ok :: "'db gw_env \<Rightarrow> (run_end \<times> 'db Gateway) outcome \<Rightarrow> bool" where
  "run_ok E r \<longleftrightarrow> (\<exists>re g. r = Return (re, g) \<and> (re = Serving \<longrightarrow> gw_ok E g))"

lemma run_ok_simps [simp]: "run_ok E (Return (Returned err, g))" "run_ok E (Return (Serving, g)) = gw_ok E g"
  by (simp_all add: run_ok_def)

lemma run_or_return: "(\<And>g'. r = (None, g') \<Longrightarrow> run_ok E (k g')) \<Longrightarrow> run_ok E (or_return r k)"
  by (cases r) (auto simp: or_return_def split: option.splits)

lemma Run_ok:
  assumes "env_ok E" and "open_db S = Inr db" and "loads_whole E db"
  shows "run_ok E (Run E S g)"
  unfolding Run_def assms(2) sum.case
proof (intro run_or_return, goal_cases)
  case (1 g0 g1)
  have D: "leveldb_spec (ge_D E)" using assms(1) by (simp add: env_ok_def)
  note p = init_password_frame [OF D 1(2)]
  show ?case
  proof (cases "load_seed S")
    case (Inr us)
    show ?thesis unfolding Inr sum.case
    proof (intro run_or_return, goal_cases)
      case (1 g2 g3)
      note e = start_engine_frame [OF D 1(1)] and r = load_resources_db [OF 1(2)]
      show ?case
      proof (cases "load_apps E g3")
        case a: (Inr x)
        obtain apps g4 where x: "x = (apps, g4)" by (cases x)
        have db: "gw_db g4 = gw_db g3" using load_apps_db [of E g3 apps g4] a x by simp
        have "loads_whole E (gw_db g3) = loads_whole E db"
          using p(1) e(1) r by (intro loads_whole_same) (simp_all add: same_but_def db_keys)
        with assms(3) have w: "loads_whole E (gw_db g3)" by simp
        then have pam: "gw_pam g4 \<noteq> None" using a x by (auto simp: load_apps_def loads_whole_def set_pam_def split: sum.splits prod.splits)
        obtain err g5 where c: "start_client E g4 = Return (err, g5)" "gw_pam g5 = gw_pam g4"
          "err = None \<Longrightarrow> router_live (ce_avl (ge_cli E)) (gw_router g5) \<and> routeable (gw_obs g5)"
          using start_client_ok [OF assms(1), of g4] w db by auto
        show ?thesis unfolding a x sum.case prod.case c(1) outcome.case
        proof (intro run_or_return, goal_cases)
          case (1 g5' g6)
          then have "gw_ok E g5" using c pam by (simp add: gw_ok_fields)
          with 1 have "gw_ok E g6" by (auto simp: start_service_def Let_def split: sum.splits)
          then obtain g7 where "start_listeners E apps (g6\<lparr>gw_pm := \<lparr>pm_listeners = [], pm_closed = []\<rparr>\<rparr>) = Return g7" "gw_ok E g7"
            using start_listeners_ok [of E "g6\<lparr>gw_pm := \<lparr>pm_listeners = [], pm_closed = []\<rparr>\<rparr>" apps] by auto
          then show ?case by (auto intro!: run_or_return)
        qed
      qed simp
    qed
  qed simp
qed

section \<open>Histories\<close>

text \<open>
  The states of a gateway that serves: from a start on a database whose tables come back whole, through requests, the passing of
  time, and what other nodes ask for. A request whose handler panics is not a step.
\<close>

inductive lives :: "'db gw_env \<Rightarrow> 'db site \<Rightarrow> bool" for E where
  start: "lives E (g', fs)"
    if "open_db S = Inr db" and "loads_whole E db" and "Run E S (new_process trial nodb now) = Return (Serving, g')"
| tick: "lives E (advance t g, fs)" if "lives E (g, fs)"
| request: "lives E (g', fs')" if "lives E (g, fs)" and "serve E w q (g, fs) = Return (rsp, g', fs')"
| stream: "lives E (snd (handlePortmapHandshake hs g), fs)" if "lives E (g, fs)"
| ask: "lives E (g', fs)" if "lives E (g, fs)" and "authorizeHandler E rnd s g = Return (s', g')"
| login: "lives E (snd (socks_auth E rnd authID g), fs)" if "lives E (g, fs)"

lemma nodes_keep_ok:
  assumes "gw_ok E g"
  shows "gw_ok E (advance t g)" "gw_ok E (snd (handlePortmapHandshake hs g))" "gw_ok E (snd (socks_auth E rnd authID g))"
proof -
  show "gw_ok E (advance t g)" using assms by (simp add: advance_def Let_def gw_ok_fields)
  show "gw_ok E (snd (handlePortmapHandshake hs g))"
    using assms by (simp add: handlePortmapHandshake_def split: option.splits prod.splits)
  show "gw_ok E (snd (socks_auth E rnd authID g))"
    using assms gw_ok_getToken [of E rnd g] by (auto simp: socks_auth_def proxyAuth_def split: prod.splits sum.splits)
qed

lemma authorize_keeps_ok:
  assumes "gw_ok E g" and "authorizeHandler E rnd s g = Return (s', g')"
  shows "gw_ok E g'"
proof -
  have "gw_ok E g1" if "handlePortmapAuth E info s1 g = Return (s2, g1)" for info s1 s2 g1
    using that assms(1) by (auto simp: handlePortmapAuth_def Let_def split: option.splits prod.splits if_splits)
  moreover have "gw_ok E g1" if "handleProxyAuth E rnd info s1 g = Return (s2, g1)" for info s1 s2 g1
    using that assms(1) by (auto simp: handleProxyAuth_def Let_def dest: gw_ok_getToken split: option.splits sum.splits prod.splits if_splits)
  ultimately show ?thesis using assms
    by (auto simp: authorizeHandler_def split: prod.splits option.splits outcome.splits if_splits)
qed

lemma lives_ok:
  assumes "lives E st" and "env_ok E"
  shows "gw_ok E (fst st)"
  using assms(1)
proof (induction rule: lives.induct)
  case (start S db trial nodb now g' fs)
  from Run_ok [OF assms(2) start(1,2), of "new_process trial nodb now"] start(3) show ?case by simp
next
  case (request g fs w q rsp g' fs')
  then have "gw_ok E g" by simp
  from serve_ok [OF this, of w q fs] request(2) show ?case by (simp split: if_splits)
next
  case (ask g fs rnd s s' g')
  then show ?case using authorize_keeps_ok by auto
qed (simp_all add: nodes_keep_ok)

section \<open>Properties\<close>

text \<open>
  C14: what a request can make a gateway panic on. Through every history from a start on tables that come back whole, the handling
  of a request panics exactly when the request passes the middleware, its route looks at, updates or deletes an outbound, its
  identifier can be read and is one that these handlers look up, and no outbound has it. Every other request gets a
  response: no handler finds a nil map, an outbound without a network or a router out of order.
\<close>

theorem only_missing_outbounds_panic:
  assumes "lives E (g, fs)" and "env_ok E"
  shows "serve E w q (g, fs) = Panic \<longleftrightarrow> panics_on w q g"
  using serve_ok [of E g w q fs] lives_ok [OF assms] by (auto simp: site_returns_def split: if_splits)

text \<open>A gateway that was started on such tables can always be stopped.\<close>

theorem live_gateway_stops:
  assumes "lives E (g, fs)" and "env_ok E"
  shows "\<exists>g'. Stop E g = Return g'"
  using Stop_returns [of E g] lives_ok [OF assms] assms(2) by (auto simp: env_ok_def)

text \<open>The start on such tables does not panic.\<close>

theorem start_never_panics:
  assumes "env_ok E" and "open_db S = Inr db" and "loads_whole E db"
  shows "Run E S g \<noteq> Panic"
  using Run_ok [OF assms, of g] by (auto simp: run_ok_def)

text \<open>A new gateway, a login, and a request to delete the outbound \<open>7\<close>, which is not there.\<close>

definition delete_request :: http_request where
  "delete_request = login_request\<lparr>hq_Path := ''/proxy_client/delete'', hq_Authorization := ''tok'',
     hq_Body := Inr (jprint (JObj [(''id'', ID_MarshalJSON 7)]))\<rparr>"

lemma delete_request_body: "body_of dec_id delete_request = Some 7"
proof -
  let ?j = "JObj [(''id'', ID_MarshalJSON 7)]"
  have "wf_json ?j" "json_depth ?j \<le> 10000" by simp_all
  then have "unmarshal dec_id (jprint ?j) = dec_id ?j" by (rule unmarshal_jprint)
  then show ?thesis by (simp add: body_of_def delete_request_def dec_id_def id_field_def decode_struct_def find_field_def)
qed

lemma sample_env_ok: "env_ok sample_env"
  using list_db_spec spine_tree_spec by (simp add: env_ok_def sample_env_def answering_env_def ranges_def)

text \<open>A gateway that was started without outbounds has none.\<close>

lemma start_listeners_obs: "start_listeners E apps g = Return g' \<Longrightarrow> gw_obs g' = gw_obs g"
proof (induction apps arbitrary: g)
  case (Cons a apps)
  obtain p err pm where l: "AddListener (ge_listen E) (pa_Network a) (pa_LocalIP a) (pa_LocalPort a) (gw_pm g) = ((p, err), pm)"
    by (metis surj_pair)
  show ?case
    using Cons.prems l Cons.IH by (cases err) (fastforce simp: set_pam_def split: if_splits outcome.splits)+
qed simp

lemma Run_no_outbounds:
  assumes "leveldb_spec (ge_D E)" and "open_db S = Inr db" and "Run E S g = Return (Serving, g')"
    and "db_Get (ge_D E) db keySocksOutbound = Inl ErrNotFound" and "ge_visitObs E [] = []"
  shows "made (gw_obs g') = []"
  using assms(3)
proof (rule Run_serving, goal_cases)
  case (1 db' us g1 g2 g3 apps g4 g5 g6)
  then have "db_Get (ge_D E) (gw_db g4) keySocksOutbound = Inl ErrNotFound"
    using assms(2,4) init_password_frame(1) [OF assms(1) 1(2)] start_engine_frame(1) [OF assms(1) 1(3)] load_resources_db [OF 1(4)] load_apps_db [OF 1(5)]
    by (simp add: same_but_def db_keys)
  with 1(6) assms(5) have "made (gw_obs g5) = []"
    by (auto simp: start_client_def newProxyClient_def NewSocksOutboundsManager_def loadOutbounds_def pc_Start_def ListOutbounds_def set_cli_def made_def)
  with 1(7) start_listeners_obs [OF 1(8)] show ?case by (auto simp: start_service_def Let_def split: sum.splits)
qed

lemma sample_lives:
  obtains g where "lives sample_env (g, sample_files)" and "map_of (made (gw_sessions g)) ''tok'' = Some True" and "\<not> present 7 g"
proof -
  obtain g0 where g0: "Run sample_env (sample_start []) (new_process False [] 0) = Return (Serving, g0)" "\<not> gw_trial g0" "gw_sessions g0 = None"
    "db_Get list_db (gw_db g0) dbKeyAdminPassword = Inr ''admin123''" by (rule sample_Run)
  have w: "loads_whole sample_env []" by (rule loads_whole_fresh) (simp_all add: sample_env_def list_db_def)
  have l: "lives sample_env (g0, sample_files)" by (rule lives.start [OF sample_start_opens(1) w g0(1)])
  have "made (gw_obs g0) = []"
    by (rule Run_no_outbounds [OF _ sample_start_opens(1) g0(1)]) (use list_db_spec in \<open>simp_all add: sample_env_def list_db_def\<close>)
  moreover obtain rsp where s: "serve sample_env sample_world login_request (g0, sample_files) =
      Return (rsp, g0\<lparr>gw_sessions := Some [(''tok'', True)], gw_timers := (gw_now g0 + session_seconds, ''tok'') # gw_timers g0\<rparr>, sample_files)"
    using sample_login_served(1) [OF g0(3,4)] by blast
  ultimately show thesis by (intro that [OF lives.request [OF l s]]) (simp_all add: made_def present_def)
qed

theorem only_missing_outbounds_panic_witness:
  "\<exists>g. lives sample_env (g, sample_files) \<and> serve sample_env sample_world delete_request (g, sample_files) = Panic
    \<and> serve sample_env sample_world login_request (g, sample_files) \<noteq> Panic"
proof -
  obtain g where g: "lives sample_env (g, sample_files)" "map_of (made (gw_sessions g)) ''tok'' = Some True" "\<not> present 7 g"
    by (rule sample_lives)
  have "authMiddleware delete_request g = None"
    using g(2) by (simp add: authMiddleware_def delete_request_def login_request_def request_token_def Let_def)
  moreover have "wd_mux sample_world routes (hq_Method delete_request) (hq_Path delete_request) = Some (EpDeleteOutbound, [])"
    by (simp add: sample_world_def exact_mux_def routes_def delete_request_def login_request_def)
  moreover have "body_of dec_id (delete_request\<lparr>hq_id := []\<rparr>) = Some 7" using delete_request_body by (simp add: body_of_def)
  ultimately have "panics_on sample_world delete_request g" using g(3) by (simp add: panics_on_def misses_outbound_def)
  moreover have "hq_Method login_request = ''POST''" "hq_Path login_request = ''/login/''" by (simp_all add: login_request_def)
  then have "\<not> panics_on sample_world login_request g" using sample_routes(1) by (simp add: panics_on_def misses_outbound_def)
  ultimately show ?thesis
    using only_missing_outbounds_panic [OF g(1) sample_env_ok] g(1) by blast
qed

theorem live_gateway_stops_witness: "\<exists>g g'. lives sample_env (g, sample_files) \<and> Stop sample_env g = Return g'"
  using sample_lives live_gateway_stops [OF _ sample_env_ok] by metis

end
