(* ===== verification/P2PEngine.thy ===== *)
theory P2PEngine
  imports SocksServer GoText
begin

text \<open>
  The package \<open>p2pengine\<close> (\<open>engine.go\<close>, \<open>noise.go\<close>): how a node opens its data store, its libp2p host and its hash table,
  which port it takes for its own, which bootstrap addresses it uses, and what it does when a peer goes.
  libp2p, the hash table and the data store are parameters. With the SOCKS service it decides how long the session of a
  peer lasts.
\<close>

section \<open>Opening a node\<close>

text \<open>The values of the protocols \<open>ip6\<close> and \<open>tcp\<close> in a multiaddress, where it has them.\<close>

record multiaddr =
  ma_ip6 :: "string option"
  ma_tcp :: "string option"

text \<open>The options of the host that depend on the arguments, and those of the hash table.\<close>

record host_opts =
  ho_security :: string
  ho_prologue :: string
  ho_identity :: string
  ho_clientMode :: bool
  ho_noLimits :: bool
  ho_listen :: "string option"

record dht_opts =
  do_prefix :: string
  do_server :: bool
  do_datastore :: "string option"

record engine_lib =
  el_NewDatastore :: "string list \<Rightarrow> string \<Rightarrow> error option"
  el_GenerateEd25519Key :: "string \<Rightarrow> error + string"
  el_NewResourceManager :: "error option"
  el_New :: "host_opts \<Rightarrow> error + multiaddr list"
  el_dhtNew :: "dht_opts \<Rightarrow> error option"
  el_AddrInfo :: "string \<Rightarrow> error + string"
  el_noiseID :: string

text \<open>The data stores and the hosts that the process holds open; a host is known by its key.\<close>

record engine_world =
  ew_datastores :: "string list"
  ew_hosts :: "string list"

record P2PEngine =
  pe_host :: string
  pe_dht :: dht_opts
  pe_realPort :: int

definition SeedSize :: nat where
  "SeedSize = 32"

definition NoisePrologue :: string where
  "NoisePrologue = ''uptp-noise''"

text \<open>The port: that of the first IPv6 address with a TCP port that can be read.\<close>

fun real_port :: "multiaddr list \<Rightarrow> int \<Rightarrow> int" where
  "real_port [] realPort = realPort"
| "real_port (addr # addrs) realPort =
     (case ma_ip6 addr of
        None \<Rightarrow> real_port addrs realPort
      | Some _ \<Rightarrow>
          (case ma_tcp addr of
             None \<Rightarrow> real_port addrs realPort
           | Some tcp \<Rightarrow> (case Atoi tcp of (n, None) \<Rightarrow> n | (n, Some err) \<Rightarrow> real_port addrs n)))"

text \<open>The bootstrap peers are read anew each time the hash table asks for them; what cannot be parsed is left out.\<close>

fun bootstrapFunc :: "engine_lib \<Rightarrow> string list \<Rightarrow> string list" where
  "bootstrapFunc L [] = []"
| "bootstrapFunc L (b # bs) = (case el_AddrInfo L b of Inl err \<Rightarrow> bootstrapFunc L bs | Inr ai \<Rightarrow> ai # bootstrapFunc L bs)"

definition host_options :: "engine_lib \<Rightarrow> int \<Rightarrow> string \<Rightarrow> bool \<Rightarrow> host_opts" where
  "host_options L listenPort priv clientMode =
     \<lparr>ho_security = el_noiseID L, ho_prologue = NoisePrologue, ho_identity = priv, ho_clientMode = clientMode,
      ho_noLimits = (\<not> clientMode \<and> el_NewResourceManager L = None),
      ho_listen = (if clientMode then None else Some (''/ip6/::/tcp/'' @ Itoa listenPort))\<rparr>"

text \<open>
  \<open>NewP2PEngine\<close>. The deferred function closes the host when an error is returned behind its creation; the data
  store is not closed on any path.
\<close>

definition NewP2PEngine ::
  "engine_lib \<Rightarrow> int \<Rightarrow> string \<Rightarrow> string \<Rightarrow> bool \<Rightarrow> engine_world \<Rightarrow> (error + P2PEngine) \<times> engine_world" where
  "NewP2PEngine L listenPort seed dhtDBPath clientMode w =
     (if length seed < SeedSize then (Inl (ErrNew ''wrong seed''), w)
      else case (if dhtDBPath \<noteq> [] then el_NewDatastore L (ew_datastores w) dhtDBPath else None) of
        Some err \<Rightarrow> (Inl err, w)
      | None \<Rightarrow>
          let w1 = (if dhtDBPath \<noteq> [] then w\<lparr>ew_datastores := dhtDBPath # ew_datastores w\<rparr> else w)
          in case el_GenerateEd25519Key L (take SeedSize seed) of
               Inl err \<Rightarrow> (Inl err, w1)
             | Inr priv \<Rightarrow>
                 (case el_New L (host_options L listenPort priv clientMode) of
                    Inl err \<Rightarrow> (Inl err, w1)
                  | Inr addrs \<Rightarrow>
                      let opts = \<lparr>do_prefix = ''/uptp'', do_server = (\<not> clientMode),
                                  do_datastore = (if dhtDBPath \<noteq> [] then Some dhtDBPath else None)\<rparr>
                      in case el_dhtNew L opts of
                           Some err \<Rightarrow> (Inl err, w1)
                         | None \<Rightarrow> (Inr \<lparr>pe_host = priv, pe_dht = opts, pe_realPort = real_port addrs 0\<rparr>,
                                    w1\<lparr>ew_hosts := priv # ew_hosts w1\<rparr>)))"

definition GetListenPort :: "P2PEngine \<Rightarrow> int" where
  "GetListenPort pe = pe_realPort pe"

text \<open>\<open>Close\<close> closes the host and then the hash table, whose error it returns.\<close>

definition pe_Close :: "error option \<Rightarrow> P2PEngine \<Rightarrow> engine_world \<Rightarrow> error option \<times> engine_world" where
  "pe_Close dhtErr pe w = (dhtErr, w\<lparr>ew_hosts := remove1 (pe_host pe) (ew_hosts w)\<rparr>)"

section \<open>Peers that come and go\<close>

text \<open>
  A change of connectedness: the peer, and whether it is connected now. \<open>remove\<close> is \<open>RemovePeer\<close> of the peer store. A
  subscription that fails leaves nil, whose channel cannot be read.
\<close>

definition connect_event :: "('ps \<Rightarrow> string \<Rightarrow> 'ps) \<Rightarrow> string \<times> bool \<Rightarrow> 'ps \<Rightarrow> 'ps" where
  "connect_event remove evt ps = (if snd evt then ps else remove ps (fst evt))"

definition listenAndHandleConnectEvent ::
  "('ps \<Rightarrow> string \<Rightarrow> 'ps) \<Rightarrow> error option \<Rightarrow> (string \<times> bool) list \<Rightarrow> 'ps \<Rightarrow> 'ps outcome" where
  "listenAndHandleConnectEvent remove subErr evts ps =
     (if subErr \<noteq> None then Panic else Return (fold (connect_event remove) evts ps))"

text \<open>\<open>RemovePeer\<close> removes what the peer store keeps of one peer.\<close>

definition remove_spec :: "'ps peerstore_ops \<Rightarrow> ('ps \<Rightarrow> string \<Rightarrow> 'ps) \<Rightarrow> bool" where
  "remove_spec P remove \<longleftrightarrow> (\<forall>s p p' k. ps_Get P (remove s p) p' k = (if p' = p then None else ps_Get P s p' k))"

text \<open>A node that serves SOCKS streams while peers come and go.\<close>

datatype node_event = Stream string "byte conn" "bool list" | Connectedness string bool

fun node_run ::
  "socks_lib \<Rightarrow> 'ps peerstore_ops \<Rightarrow> ('ps \<Rightarrow> string \<Rightarrow> 'ps) \<Rightarrow> net_env \<Rightarrow> (uint64 \<Rightarrow> bool) \<Rightarrow> outboundDialer
     \<Rightarrow> node_event list \<Rightarrow> 'ps \<Rightarrow> 'ps outcome" where
  "node_run L P remove env AuthFunc ob [] ps = Return ps"
| "node_run L P remove env AuthFunc ob (Stream pid s sched # evs) ps =
     (case handler L P env AuthFunc ob sched pid s ps of
        Panic \<Rightarrow> Panic
      | Return (_, ps') \<Rightarrow> node_run L P remove env AuthFunc ob evs ps')"
| "node_run L P remove env AuthFunc ob (Connectedness pid c # evs) ps =
     node_run L P remove env AuthFunc ob evs (connect_event remove (pid, c) ps)"

definition stays :: "string \<Rightarrow> node_event list \<Rightarrow> bool" where
  "stays pid evs \<longleftrightarrow> Connectedness pid False \<notin> set evs"

fun session_after :: "(byte conn \<Rightarrow> bool) \<Rightarrow> string \<Rightarrow> node_event list \<Rightarrow> bool \<Rightarrow> bool" where
  "session_after auth pid [] b = b"
| "session_after auth pid (Stream p s sched # evs) b = session_after auth pid evs (b \<or> p = pid \<and> auth s)"
| "session_after auth pid (Connectedness p c # evs) b = session_after auth pid evs (b \<and> (p \<noteq> pid \<or> c))"

lemma session_after_iff:
  "session_after auth pid evs b \<longleftrightarrow>
     b \<and> stays pid evs \<or> (\<exists>xs s sched ys. evs = xs @ Stream pid s sched # ys \<and> auth s \<and> stays pid ys)"
proof (induction evs arbitrary: b)
  case (Cons e evs)
  have split: "(\<exists>xs s sched ys. e # evs = xs @ Stream pid s sched # ys \<and> auth s \<and> stays pid ys) \<longleftrightarrow>
      (\<exists>s sched. e = Stream pid s sched \<and> auth s \<and> stays pid evs)
      \<or> (\<exists>xs s sched ys. evs = xs @ Stream pid s sched # ys \<and> auth s \<and> stays pid ys)"
    unfolding Cons_eq_append_conv by blast
  show ?case unfolding split
  proof (cases e)
    case (Stream p s sched)
    then show "session_after auth pid (e # evs) b \<longleftrightarrow> b \<and> stays pid (e # evs)
        \<or> (\<exists>s sched. e = Stream pid s sched \<and> auth s \<and> stays pid evs)
        \<or> (\<exists>xs s sched ys. evs = xs @ Stream pid s sched # ys \<and> auth s \<and> stays pid ys)"
      using Cons.IH [of "b \<or> p = pid \<and> auth s"] by (auto simp: stays_def)
  next
    case (Connectedness p c)
    then show "session_after auth pid (e # evs) b \<longleftrightarrow> b \<and> stays pid (e # evs)
        \<or> (\<exists>s sched. e = Stream pid s sched \<and> auth s \<and> stays pid evs)
        \<or> (\<exists>xs s sched ys. evs = xs @ Stream pid s sched # ys \<and> auth s \<and> stays pid ys)"
      using Cons.IH [of "b \<and> (p \<noteq> pid \<or> c)"] by (auto simp: stays_def)
  qed
qed (simp add: stays_def)

lemma precheck_remove:
  assumes "remove_spec P remove"
  shows "socks5Precheck P (connect_event remove (p, c) ps) pid \<longleftrightarrow> socks5Precheck P ps pid \<or> p = pid \<and> \<not> c"
  using assms by (auto simp: remove_spec_def socks5Precheck_def connect_event_def)

lemma node_run_sessions:
  assumes "peerstore_spec P" and "remove_spec P remove" and "node_run L P remove env AuthFunc ob evs ps = Return ps'"
  shows "\<not> socks5Precheck P ps' pid \<longleftrightarrow> session_after (authenticates L AuthFunc) pid evs (\<not> socks5Precheck P ps pid)"
  using assms(3)
proof (induction evs arbitrary: ps)
  case (Cons e evs)
  show ?case
  proof (cases e)
    case (Stream p s sched)
    with Cons.prems obtain r ps1 where h: "handler L P env AuthFunc ob sched p s ps = Return (r, ps1)"
      and rest: "node_run L P remove env AuthFunc ob evs ps1 = Return ps'" by (auto split: outcome.splits)
    have "\<not> socks5Precheck P ps1 pid \<longleftrightarrow> \<not> socks5Precheck P ps pid \<or> p = pid \<and> authenticates L AuthFunc s"
      using handler_session [OF h] precheck_put [OF assms(1), of ps p pid] by (auto split: if_splits)
    with Cons.IH [OF rest] Stream show ?thesis by simp
  next
    case (Connectedness p c)
    with Cons.prems have "node_run L P remove env AuthFunc ob evs (connect_event remove (p, c) ps) = Return ps'" by simp
    from Cons.IH [OF this] precheck_remove [OF assms(2), of p c ps pid] Connectedness show ?thesis by auto
  qed
qed simp

section \<open>Properties\<close>

text \<open>
  C10: a SOCKS session lasts as long as the connection. Whatever streams are served while peers come and go, a peer is let
  in without authentication exactly when one of its own streams presented an accepted identifier and the peer has not
  been disconnected since, or it had a session before and was never disconnected.
\<close>

theorem session_ends_with_connection:
  assumes "peerstore_spec P" and "remove_spec P remove" and "node_run L P remove env AuthFunc ob evs ps = Return ps'"
  shows "\<not> socks5Precheck P ps' pid \<longleftrightarrow>
    \<not> socks5Precheck P ps pid \<and> stays pid evs
    \<or> (\<exists>xs s sched ys authID. evs = xs @ Stream pid s sched # ys \<and> presented_id L s = Some authID \<and> AuthFunc authID \<and> stays pid ys)"
  unfolding node_run_sessions [OF assms] session_after_iff authenticates_iff by blast

definition fun_remove :: "(string \<times> string \<Rightarrow> ps_value option) \<Rightarrow> string \<Rightarrow> (string \<times> string \<Rightarrow> ps_value option)" where
  "fun_remove s p = (\<lambda>k. if fst k = p then None else s k)"

lemma fun_remove_spec: "remove_spec fun_store fun_remove"
  by (simp add: remove_spec_def fun_store_def fun_remove_def)

definition login_stream :: "byte conn" where
  "login_stream = conn_of ([5, 1, 2] @ [1, 0, 8] @ [1, 0, 0, 0, 0, 0, 0, 0])"

theorem session_ends_with_connection_witness:
  "\<exists>ps'. node_run mini_lib fun_store fun_remove open_env (\<lambda>x. x = 1) DirectDialer
        [Stream ''a'' login_stream [], Stream ''b'' login_stream [], Connectedness ''b'' False] Map.empty = Return ps'
     \<and> \<not> socks5Precheck fun_store ps' ''a'' \<and> socks5Precheck fun_store ps' ''b''"
proof -
  let ?evs = "[Stream ''a'' login_stream [], Stream ''b'' login_stream [], Connectedness ''b'' False]"
  have i: "presented_id mini_lib login_stream = Some 1" by code_simp
  have "case node_run mini_lib fun_store fun_remove open_env (\<lambda>x. x = 1) DirectDialer ?evs Map.empty of
          Return _ \<Rightarrow> True | Panic \<Rightarrow> False" by code_simp
  then obtain ps' where r: "node_run mini_lib fun_store fun_remove open_env (\<lambda>x. x = 1) DirectDialer ?evs Map.empty = Return ps'"
    by (auto split: outcome.splits)
  note c = session_ends_with_connection [OF fun_store_spec fun_remove_spec r]
  have "\<not> socks5Precheck fun_store ps' ''a''"
    unfolding c by (rule disjI2, rule exI [of _ "[]"]) (use i in \<open>simp add: stays_def\<close>)
  moreover have "socks5Precheck fun_store Map.empty ''b''" by (simp add: socks5Precheck_def fun_store_def)
  then have "socks5Precheck fun_store ps' ''b''"
    using c [of "''b''"] by (auto simp: stays_def Cons_eq_append_conv)
  ultimately show ?thesis using r by blast
qed

text \<open>
  The engine's own port is the one of its first IPv6 address with a TCP port, and 0 when it has none: the texts of ports
  that libp2p gives can all be read.
\<close>

lemma real_port_first:
  assumes "\<forall>a \<in> set addrs. \<forall>t. ma_tcp a = Some t \<longrightarrow> (\<exists>n :: int. 0 \<le> n \<and> n < 65536 \<and> t = Itoa n)"
  shows "real_port addrs 0 =
    (case find (\<lambda>a. ma_ip6 a \<noteq> None \<and> ma_tcp a \<noteq> None) addrs of None \<Rightarrow> 0 | Some a \<Rightarrow> fst (Atoi (the (ma_tcp a))))"
  using assms
proof (induction addrs)
  case (Cons a addrs)
  have num: "Atoi (Itoa n) = (n, None)" if "0 \<le> n" "n < 65536" for n
    unfolding Atoi_def by (rule ParseInt_Itoa) (use that in \<open>simp add: int64_ok_def\<close>)
  show ?case
  proof (cases "ma_ip6 a \<noteq> None \<and> ma_tcp a \<noteq> None")
    case True
    then obtain ip t where t: "ma_ip6 a = Some ip" "ma_tcp a = Some t" by blast
    with Cons.prems obtain n where "0 \<le> n" "n < 65536" "t = Itoa n" by auto
    with num t show ?thesis by simp
  next
    case False
    with Cons show ?thesis by (auto split: option.splits)
  qed
qed simp

text \<open>
  A start that fails behind its data store is the last one of the process on that path. \<open>NewP2PEngine\<close> does not close the
  store it has opened, and a store that is open cannot be opened again: whatever the arguments and the network are
  later, each further start with the same path returns an error.
\<close>

theorem failed_engine_keeps_datastore:
  assumes "\<forall>ds p. p \<in> set ds \<longrightarrow> el_NewDatastore L ds p \<noteq> None" and "path \<noteq> []"
    and "SeedSize \<le> length seed" and "el_NewDatastore L (ew_datastores w) path = None"
    and "NewP2PEngine L port seed path clientMode w = (Inl err, w')"
    and "el_NewDatastore L' = el_NewDatastore L"
  shows "\<exists>err'. NewP2PEngine L' port' seed' path clientMode' w' = (Inl err', w')"
proof -
  have "path \<in> set (ew_datastores w')"
    using assms(2-5) by (auto simp: NewP2PEngine_def Let_def split: sum.splits option.splits)
  with assms(1) obtain e where "el_NewDatastore L (ew_datastores w') path = Some e" by blast
  with assms(2,6) show ?thesis by (auto simp: NewP2PEngine_def)
qed

definition offline_lib :: engine_lib where
  "offline_lib = \<lparr>el_NewDatastore = (\<lambda>ds p. if p \<in> set ds then Some (ErrNew ''resource temporarily unavailable'') else None),
     el_GenerateEd25519Key = (\<lambda>seed. Inr seed), el_NewResourceManager = None, el_New = (\<lambda>_. Inl (ErrNew ''no route'')),
     el_dhtNew = (\<lambda>_. None), el_AddrInfo = (\<lambda>s. Inr s), el_noiseID = ''/noise''\<rparr>"

theorem failed_engine_keeps_datastore_witness:
  "\<exists>err w'. NewP2PEngine offline_lib 0 (replicate 32 CHR ''a'') ''dht.db'' True \<lparr>ew_datastores = [], ew_hosts = []\<rparr> = (Inl err, w')
    \<and> (\<exists>err'. NewP2PEngine (offline_lib\<lparr>el_New := \<lambda>_. Inr []\<rparr>) 0 (replicate 32 CHR ''a'') ''dht.db'' True w' = (Inl err', w'))"
proof -
  obtain err w' where r: "NewP2PEngine offline_lib 0 (replicate 32 CHR ''a'') ''dht.db'' True \<lparr>ew_datastores = [], ew_hosts = []\<rparr> = (Inl err, w')"
    by (simp add: NewP2PEngine_def offline_lib_def SeedSize_def)
  have "\<exists>err'. NewP2PEngine (offline_lib\<lparr>el_New := \<lambda>_. Inr []\<rparr>) 0 (replicate 32 CHR ''a'') ''dht.db'' True w' = (Inl err', w')"
    by (rule failed_engine_keeps_datastore [OF _ _ _ _ r]) (simp_all add: offline_lib_def SeedSize_def)
  with r show ?thesis by blast
qed

end
