(* ===== verification/Flags.thy ===== *)
theory Flags
  imports GoText
begin

text \<open>
  The flags of the programs: what the sources use of the standard package \<open>flag\<close> (\<open>FlagSet.Bool\<close>, \<open>Int\<close> and \<open>Parse\<close> with
  \<open>ExitOnError\<close>), and the numbers it reads, which may have a prefix for their base and underscores between
  their digits.
\<close>

section \<open>Numbers with a base prefix\<close>

definition digit_of :: "char \<Rightarrow> nat option" where
  "digit_of c =
     (let n = char_nat c
      in if is_digit c then Some (digit_val c)
         else if 97 \<le> n \<and> n \<le> 122 then Some (n - 87)
         else if 65 \<le> n \<and> n \<le> 90 then Some (n - 55)
         else None)"

text \<open>The digits of \<open>strconv.ParseUint(s, 0, 64)\<close>: underscores are passed over; \<open>None\<close> is any of its errors.\<close>

fun base_loop :: "nat \<Rightarrow> nat \<Rightarrow> string \<Rightarrow> nat option" where
  "base_loop b n [] = Some n"
| "base_loop b n (c # cs) =
     (if c = CHR ''_'' then base_loop b n cs
      else case digit_of c of
        None \<Rightarrow> None
      | Some d \<Rightarrow> if b \<le> d \<or> maxUint64 < n * b + d then None else base_loop b (n * b + d) cs)"

definition base_of :: "string \<Rightarrow> nat \<times> string" where
  "base_of s =
     (if s = [] \<or> hd s \<noteq> CHR ''0'' then (10, s)
      else if 3 \<le> length s \<and> s ! 1 \<in> {CHR ''b'', CHR ''B''} then (2, drop 2 s)
      else if 3 \<le> length s \<and> s ! 1 \<in> {CHR ''o'', CHR ''O''} then (8, drop 2 s)
      else if 3 \<le> length s \<and> s ! 1 \<in> {CHR ''x'', CHR ''X''} then (16, drop 2 s)
      else (8, drop 1 s))"

text \<open>\<open>underscoreOK\<close>: an underscore stands between digits, a base prefix counting as one.\<close>

datatype saw = SawStart | SawDigit | SawUnderscore | SawOther

fun underscore_scan :: "bool \<Rightarrow> saw \<Rightarrow> string \<Rightarrow> bool" where
  "underscore_scan hex prev [] \<longleftrightarrow> prev \<noteq> SawUnderscore"
| "underscore_scan hex prev (c # cs) \<longleftrightarrow>
     (if is_digit c \<or> hex \<and> (case digit_of c of None \<Rightarrow> False | Some d \<Rightarrow> d < 16) then underscore_scan hex SawDigit cs
      else if c = CHR ''_'' then prev = SawDigit \<and> underscore_scan hex SawUnderscore cs
      else prev \<noteq> SawUnderscore \<and> underscore_scan hex SawOther cs)"

definition underscoreOK :: "string \<Rightarrow> bool" where
  "underscoreOK s =
     (if 2 \<le> length s \<and> hd s = CHR ''0'' \<and> s ! 1 \<in> {CHR ''b'', CHR ''B'', CHR ''o'', CHR ''O'', CHR ''x'', CHR ''X''}
      then underscore_scan (s ! 1 \<in> {CHR ''x'', CHR ''X''}) SawDigit (drop 2 s)
      else underscore_scan False SawStart s)"

definition ParseUint0 :: "string \<Rightarrow> nat option" where
  "ParseUint0 s =
     (if s = [] then None
      else case base_of s of
        (b, body) \<Rightarrow>
          (case base_loop b 0 body of
             None \<Rightarrow> None
           | Some n \<Rightarrow> if CHR ''_'' \<in> set body \<and> \<not> underscoreOK s then None else Some n))"

text \<open>\<open>strconv.ParseInt(s, 0, 64)\<close>.\<close>

definition ParseInt0 :: "string \<Rightarrow> int option" where
  "ParseInt0 s =
     (let (neg, body) =
            (case s of
               c # cs \<Rightarrow> if c = CHR ''+'' then (False, cs) else if c = CHR ''-'' then (True, cs) else (False, s)
             | [] \<Rightarrow> (False, s))
      in case ParseUint0 body of
           None \<Rightarrow> None
         | Some un \<Rightarrow>
             if \<not> neg \<and> 2 ^ 63 \<le> un \<or> neg \<and> 2 ^ 63 < un then None
             else Some (if neg then - int un else int un))"

text \<open>A decimal text is read as its number.\<close>

lemma base_loop_decimal:
  assumes "\<forall>c \<in> set cs. is_digit c"
  shows "base_loop 10 n cs = (case parse_uint_loop n cs of (m, None) \<Rightarrow> Some m | (m, Some err) \<Rightarrow> None)"
  using assms
proof (induction cs arbitrary: n)
  case (Cons c cs)
  then have c: "is_digit c" "c \<noteq> CHR ''_''" by (auto simp: is_digit_def)
  then have "digit_val c < 10" by (auto simp: is_digit_def digit_val_def)
  with Cons c show ?case by (simp add: digit_of_def Let_def)
qed simp

lemma ParseUint0_digits:
  assumes "n \<le> maxUint64" shows "ParseUint0 (nat_digits n) = Some n"
proof (cases "n = 0")
  case True
  have "nat_digits 0 = [CHR ''0'']" using nat_digits_zero [of 0] by (simp add: nat_digits.simps [of 0])
  with True show ?thesis by (simp add: ParseUint0_def base_of_def)
next
  case False
  have d: "\<forall>c \<in> set (nat_digits n). is_digit c" using nat_digits_all by blast
  then have "CHR ''_'' \<notin> set (nat_digits n)" by (auto simp: is_digit_def)
  moreover have "base_of (nat_digits n) = (10, nat_digits n)" using False nat_digits_zero [of n] by (simp add: base_of_def)
  moreover have "base_loop 10 0 (nat_digits n) = Some n"
    using parse_uint_loop_digits [OF assms, of "[]"] by (simp add: base_loop_decimal [OF d])
  ultimately show ?thesis by (simp add: ParseUint0_def)
qed

lemma ParseInt0_Itoa [simp]:
  assumes "int64_ok i" shows "ParseInt0 (Itoa i) = Some i"
proof (cases "i < 0")
  case True
  then have n: "nat (- i) \<le> 2 ^ 63" using assms by (auto simp: int64_ok_def)
  then have "ParseUint0 (nat_digits (nat (- i))) = Some (nat (- i))" by (intro ParseUint0_digits) (simp add: maxUint64_def)
  with n True show ?thesis by (simp add: ParseInt0_def Itoa_def)
next
  case False
  then have n: "nat i < 2 ^ 63" using assms by (auto simp: int64_ok_def)
  then have "ParseUint0 (nat_digits (nat i)) = Some (nat i)" by (intro ParseUint0_digits) (simp add: maxUint64_def)
  with n False nat_digits_no_sign [of "nat i"] show ?thesis
    by (cases "nat_digits (nat i)") (auto simp: ParseInt0_def Itoa_def)
qed

section \<open>Parsing the arguments\<close>

text \<open>\<open>strconv.ParseBool\<close>.\<close>

definition ParseBool :: "string \<Rightarrow> bool option" where
  "ParseBool s =
     (if s \<in> {''1'', ''t'', ''T'', ''true'', ''TRUE'', ''True''} then Some True
      else if s \<in> {''0'', ''f'', ''F'', ''false'', ''FALSE'', ''False''} then Some False
      else None)"

text \<open>A flag writes its value into the settings. Parsing ends with the settings or ends the process.\<close>

datatype 's flag = BoolFlag "bool \<Rightarrow> 's \<Rightarrow> 's" | IntFlag "int \<Rightarrow> 's \<Rightarrow> 's"

datatype 's parse_end = Parsed 's | Quit int

definition flag_value :: "string \<Rightarrow> string \<times> string option" where
  "flag_value name =
     (takeWhile (\<lambda>c. c \<noteq> CHR ''='') name,
      if CHR ''='' \<in> set name then Some (tl (dropWhile (\<lambda>c. c \<noteq> CHR ''='') name)) else None)"

text \<open>\<open>Parse\<close>: the first argument that is no flag, and an argument \<open>--\<close>, end the flags.\<close>

fun parse_flags :: "(string \<times> 's flag) list \<Rightarrow> string list \<Rightarrow> 's \<Rightarrow> 's parse_end" where
  "parse_flags F [] s = Parsed s"
| "parse_flags F (a # as) s =
     (if length a < 2 \<or> hd a \<noteq> CHR ''-'' \<or> a = ''--'' then Parsed s
      else let name0 = (if a ! 1 = CHR ''-'' then drop 2 a else drop 1 a)
      in if name0 = [] \<or> hd name0 = CHR ''-'' \<or> hd name0 = CHR ''='' then Quit 2
      else case flag_value name0 of
        (name, v) \<Rightarrow>
          (case map_of F name of
             None \<Rightarrow> Quit (if name = ''help'' \<or> name = ''h'' then 0 else 2)
           | Some (BoolFlag put) \<Rightarrow>
               (case (case v of None \<Rightarrow> Some True | Some x \<Rightarrow> ParseBool x) of
                  None \<Rightarrow> Quit 2
                | Some b \<Rightarrow> parse_flags F as (put b s))
           | Some (IntFlag put) \<Rightarrow>
               (case v of
                  Some x \<Rightarrow> (case ParseInt0 x of None \<Rightarrow> Quit 2 | Some n \<Rightarrow> parse_flags F as (put n s))
                | None \<Rightarrow>
                    (case as of
                       [] \<Rightarrow> Quit 2
                     | x # as' \<Rightarrow> (case ParseInt0 x of None \<Rightarrow> Quit 2 | Some n \<Rightarrow> parse_flags F as' (put n s))))))"

text \<open>How a setting is written, and that it is read back.\<close>

definition bool_word :: "string \<Rightarrow> bool \<Rightarrow> string list" where
  "bool_word name b = [CHR ''-'' # name @ ''='' @ (if b then ''true'' else ''false'')]"

definition int_words :: "string \<Rightarrow> int \<Rightarrow> string list" where
  "int_words name n = [CHR ''-'' # name, Itoa n]"

definition flag_name :: "string \<Rightarrow> bool" where
  "flag_name name \<longleftrightarrow> name \<noteq> [] \<and> hd name \<noteq> CHR ''-'' \<and> CHR ''='' \<notin> set name"

lemma flag_value_simps:
  "CHR ''='' \<notin> set name \<Longrightarrow> flag_value name = (name, None)"
  "CHR ''='' \<notin> set name \<Longrightarrow> flag_value (name @ CHR ''='' # v) = (name, Some v)"
proof -
  assume n: "CHR ''='' \<notin> set name"
  then have "takeWhile (\<lambda>c. c \<noteq> CHR ''='') name = name" by (auto simp: takeWhile_eq_all_conv)
  with n show "flag_value name = (name, None)" by (simp add: flag_value_def)
  have "\<forall>c \<in> set name. c \<noteq> CHR ''=''" using n by auto
  then show "flag_value (name @ CHR ''='' # v) = (name, Some v)"
    by (simp add: flag_value_def takeWhile_append2 dropWhile_append2)
qed

lemma parse_bool_word:
  assumes "flag_name name" and "map_of F name = Some (BoolFlag put)"
  shows "parse_flags F (bool_word name b @ as) s = parse_flags F as (put b s)"
proof -
  obtain c cs where n: "name = c # cs" "c \<noteq> CHR ''-''" "c \<noteq> CHR ''=''" "CHR ''='' \<notin> set (c # cs)"
    using assms(1) by (cases name) (auto simp: flag_name_def)
  have v: "flag_value (c # cs @ CHR ''='' # x) = (c # cs, Some x)" for x using flag_value_simps(2) [OF n(4), of x] by simp
  from assms(2) n v show ?thesis by (cases b) (simp_all add: bool_word_def Let_def ParseBool_def)
qed

lemma parse_bare_word:
  assumes "flag_name name" and "map_of F name = Some (BoolFlag put)"
  shows "parse_flags F ((CHR ''-'' # name) # as) s = parse_flags F as (put True s)"
proof -
  obtain c cs where n: "name = c # cs" "c \<noteq> CHR ''-''" "c \<noteq> CHR ''=''" "CHR ''='' \<notin> set (c # cs)"
    using assms(1) by (cases name) (auto simp: flag_name_def)
  with assms(2) flag_value_simps(1) [OF n(4)] show ?thesis by (simp add: Let_def)
qed

lemma parse_int_words:
  assumes "flag_name name" and "map_of F name = Some (IntFlag put)" and "int64_ok n"
  shows "parse_flags F (int_words name n @ as) s = parse_flags F as (put n s)"
proof -
  obtain c cs where n: "name = c # cs" "c \<noteq> CHR ''-''" "c \<noteq> CHR ''=''" "CHR ''='' \<notin> set (c # cs)"
    using assms(1) by (cases name) (auto simp: flag_name_def)
  with assms(2,3) flag_value_simps(1) [OF n(4)] show ?thesis by (simp add: int_words_def Let_def)
qed

text \<open>From here on a line is parsed by the lemmas; its steps are unfolded on demand.\<close>

lemmas parse_flags_step = parse_flags.simps(2)

declare parse_flags.simps(2) [simp del]

end
