(* ===== verification/Daemon.thy ===== *)
theory Daemon
  imports Upgrade
begin

text \<open>
  \<open>gateway/cmd/daemon.go\<close>: the service that keeps a worker process running, and its attempt to put an old
  binary back when the worker cannot be started. Processes and files are parameters; the binary and its
  backup are those of the upgrade.
\<close>

section \<open>Operations\<close>

text \<open>The worker gets the arguments of the daemon without the first \<open>-d\<close>; \<open>None\<close> is the nil slice.\<close>

fun worker_args :: "string list \<Rightarrow> string list option" where
  "worker_args [] = None"
| "worker_args (a # as) = (if a = ''-d'' then Some as else map_option ((#) a) (worker_args as))"

text \<open>The log of the worker's standard error and its backup; \<open>None\<close> when the file is missing.\<close>

record crash_logs =
  cl_log :: "string option"
  cl_bak :: "string option"

record daemon =
  dm_binPath :: string
  dm_args :: "string list option"
  dm_stopped :: bool
  dm_proc :: bool
  dm_logs :: crash_logs
  dm_bin :: bin_files

text \<open>The daemon that \<open>daemonStart\<close> hands to the service, with the logs and the binary it finds.\<close>

definition daemonStart :: "string \<Rightarrow> string list \<Rightarrow> crash_logs \<Rightarrow> bin_files \<Rightarrow> daemon" where
  "daemonStart binPath osArgs logs bin =
     \<lparr>dm_binPath = binPath, dm_args = worker_args osArgs, dm_stopped = False, dm_proc = False, dm_logs = logs, dm_bin = bin\<rparr>"

text \<open>What starting the worker comes to: an error, or a process that runs and leaves this on its standard error.\<close>

datatype worker = CreateFails error | StartFails error | Exits string

definition rotate_logs :: "crash_logs \<Rightarrow> crash_logs" where
  "rotate_logs l =
     (case cl_log l of
        None \<Rightarrow> l
      | Some content \<Rightarrow> if content = [] then l else \<lparr>cl_log = None, cl_bak = Some content\<rparr>)"

definition startWorker :: "worker \<Rightarrow> daemon \<Rightarrow> error option \<times> daemon" where
  "startWorker w d =
     (let d1 = d\<lparr>dm_logs := rotate_logs (dm_logs d)\<rparr>
      in case w of
           CreateFails err \<Rightarrow> (Some err, d1)
         | StartFails err \<Rightarrow> (Some err, d1\<lparr>dm_logs := (dm_logs d1)\<lparr>cl_log := Some []\<rparr>\<rparr>)
         | Exits stderr \<Rightarrow> (None, d1\<lparr>dm_logs := (dm_logs d1)\<lparr>cl_log := Some stderr\<rparr>, dm_proc := False\<rparr>))"

text \<open>
  \<open>os.Stat\<close> gives a file information (is the file a directory?) and an error, \<open>os.IsExist\<close> judges the error,
  which may be nil. A nil information that is asked for its kind panics. Renaming puts the backup in the
  place of the binary.
\<close>

record stat_env =
  st_Executable :: "error option"
  st_Stat :: "bool option \<times> error option"
  st_IsExist :: "error option \<Rightarrow> bool"
  st_Rename :: "error option"

definition checkAndRevert :: "stat_env \<Rightarrow> daemon \<Rightarrow> daemon outcome" where
  "checkAndRevert S d =
     (if st_Executable S \<noteq> None then Return d
      else case st_Stat S of
        (fi, err) \<Rightarrow>
          if \<not> st_IsExist S err then Return d
          else (case fi of
                  None \<Rightarrow> Panic
                | Some isDir \<Rightarrow>
                    if isDir \<or> st_Rename S \<noteq> None then Return d
                    else Return (d\<lparr>dm_bin := \<lparr>bf_bin = bf_bak (dm_bin d), bf_bak = None, bf_exec = True\<rparr>\<rparr>)))"

text \<open>
  The loop of \<open>run\<close>: before each round it looks whether the service was stopped. A round is given by whether
  a stop came before it and by what its worker does; the result says whether the loop has ended.
\<close>

fun daemon_run ::
  "(daemon \<Rightarrow> daemon outcome) \<Rightarrow> (bool \<times> worker) list \<Rightarrow> daemon \<Rightarrow> (bool \<times> daemon) outcome" where
  "daemon_run revert [] d = Return (False, d)"
| "daemon_run revert ((stop, w) # rounds) d =
     (if dm_stopped d \<or> stop then Return (True, d\<lparr>dm_stopped := dm_stopped d \<or> stop\<rparr>)
      else case startWorker w d of
        (Some err, d') \<Rightarrow> (case revert d' of Panic \<Rightarrow> Panic | Return d'' \<Rightarrow> Return (True, d''))
      | (None, d') \<Rightarrow> daemon_run revert rounds d')"

definition daemon_Stop :: "daemon \<Rightarrow> daemon" where
  "daemon_Stop d = d\<lparr>dm_stopped := True, dm_proc := False\<rparr>"

section \<open>Properties\<close>

text \<open>
  The worker is started again after every exit: the loop ends only when the service was stopped before a round or a worker
  could not be started, and the standard error of the last worker that ran is in the log.
\<close>

lemma daemon_run_exits:
  assumes "\<not> dm_stopped d"
  shows "daemon_run revert (map (\<lambda>out. (False, Exits out)) outs @ rounds) d =
    daemon_run revert rounds (fold (\<lambda>out d. snd (startWorker (Exits out) d)) outs d)"
  using assms
proof (induction outs arbitrary: d)
  case (Cons out outs)
  have "\<not> dm_stopped (snd (startWorker (Exits out) d))" using Cons.prems by (simp add: startWorker_def Let_def)
  with Cons show ?case by (simp add: startWorker_def Let_def)
qed simp

lemma daemon_run_bin:
  assumes "\<And>d d'. revert d = Return d' \<Longrightarrow> dm_bin d' = dm_bin d" and "daemon_run revert rounds d = Return (ended, d')"
  shows "dm_bin d' = dm_bin d"
  using assms(2)
proof (induction rounds arbitrary: d)
  case (Cons r rounds)
  obtain stop w where r: "r = (stop, w)" by (cases r)
  obtain err d1 where s: "startWorker w d = (err, d1)" by (cases "startWorker w d")
  then have b: "dm_bin d1 = dm_bin d" by (cases w) (auto simp: startWorker_def Let_def)
  show ?case
    using Cons.prems Cons.IH [of d1] assms(1) [of d1] s b r
    by (auto split: if_splits option.splits outcome.splits)
qed simp

text \<open>
  C38: a binary that an upgrade has lost is not put back. The daemon looks for the backup with
  \<open>os.IsExist\<close> on the error of \<open>os.Stat\<close>, which is nil when the backup is there and then never says yes: whatever
  its workers do, it leaves the missing binary and the backup as they are.
\<close>

theorem lost_binary_not_restored:
  assumes "ue_Executable U = None" and "ue_Rename U = None" and "ue_Open U \<noteq> None \<or> ue_Create U \<noteq> None"
    and "\<not> st_IsExist S None" and "st_Stat S = (Some False, None)"
    and "daemon_run (checkAndRevert S) rounds (d\<lparr>dm_bin := snd (install U new fs)\<rparr>) = Return (ended, d')"
  shows "bf_bin (dm_bin d') = None \<and> bf_bak (dm_bin d') = bf_bin fs"
proof -
  have "dm_bin d' = dm_bin (d\<lparr>dm_bin := snd (install U new fs)\<rparr>)"
    by (rule daemon_run_bin [OF _ assms(6)]) (use assms(4,5) in \<open>auto simp: checkAndRevert_def split: if_splits\<close>)
  with assms(1-3) show ?thesis by (auto simp: install_def Let_def)
qed

definition idle_daemon :: daemon where
  "idle_daemon = daemonStart ''/opt/uptp'' [''/opt/uptp'', ''-d''] \<lparr>cl_log = None, cl_bak = None\<rparr>
                   \<lparr>bf_bin = Some ''old'', bf_bak = None, bf_exec = True\<rparr>"

definition sample_stat :: stat_env where
  "sample_stat = \<lparr>st_Executable = None, st_Stat = (Some False, None), st_IsExist = (\<lambda>err. err = Some (ErrNew ''file exists'')), st_Rename = None\<rparr>"

theorem lost_binary_not_restored_witness:
  "\<exists>d'. daemon_run (checkAndRevert sample_stat) [(False, StartFails ErrNotFound)]
      (idle_daemon\<lparr>dm_bin := snd (install (newer_env\<lparr>ue_Open := Some ErrNotFound\<rparr>) ''new'' (dm_bin idle_daemon))\<rparr>) = Return (True, d')
    \<and> bf_bin (dm_bin d') = None \<and> bf_bak (dm_bin d') = Some ''old''"
proof -
  let ?U = "newer_env\<lparr>ue_Open := Some ErrNotFound\<rparr>"
  obtain d' where r: "daemon_run (checkAndRevert sample_stat) [(False, StartFails ErrNotFound)]
      (idle_daemon\<lparr>dm_bin := snd (install ?U ''new'' (dm_bin idle_daemon))\<rparr>) = Return (True, d')"
    by (simp add: idle_daemon_def daemonStart_def startWorker_def Let_def checkAndRevert_def sample_stat_def)
  have "bf_bin (dm_bin d') = None \<and> bf_bak (dm_bin d') = bf_bin (dm_bin idle_daemon)"
    by (rule lost_binary_not_restored [OF _ _ _ _ _ r]) (simp_all add: newer_env_def sample_stat_def)
  with r show ?thesis by (auto simp: idle_daemon_def daemonStart_def)
qed

end
