(* ===== verification/SocksClient.thy ===== *)
theory SocksClient
  imports SocksServer Outbounds
begin

text \<open>
  \<open>socks5/client.go\<close>: dialling through the SOCKS service of a peer, for connections and for packets, and the
  connections that result. The messages are those of \<open>github.com/txthinking/socks5\<close>, whose writers and
  readers are parameters; \<open>net.SplitHostPort\<close> and \<open>net.LookupPort\<close> are modelled.
\<close>

section \<open>Addresses\<close>

definition addr_error :: "string \<Rightarrow> string \<Rightarrow> error" where
  "addr_error addr why = ErrNew (if addr = [] then why else ''address '' @ addr @ '': '' @ why)"

abbreviation (input) missingPort :: string where "missingPort \<equiv> ''missing port in address''"
abbreviation (input) tooManyColons :: string where "tooManyColons \<equiv> ''too many colons in address''"

text \<open>A bracket between quotation marks, as the messages have it.\<close>

definition quoted :: "char \<Rightarrow> string" where
  "quoted c = [CHR 0x27, c, CHR 0x27]"

definition IndexByte :: "string \<Rightarrow> char \<Rightarrow> nat option" where
  "IndexByte s c = (if c \<in> set s then Some (length (takeWhile (\<lambda>x. x \<noteq> c) s)) else None)"

definition LastIndexByte :: "string \<Rightarrow> char \<Rightarrow> nat option" where
  "LastIndexByte s c =
     (if c \<in> set s then Some (length s - 1 - length (takeWhile (\<lambda>x. x \<noteq> c) (rev s))) else None)"

text \<open>\<open>net.SplitHostPort\<close>: what is left to check once the host is known, with the positions \<open>j\<close> and \<open>k\<close>.\<close>

definition split_rest :: "string \<Rightarrow> nat \<Rightarrow> string \<Rightarrow> nat \<Rightarrow> nat \<Rightarrow> error + string \<times> string" where
  "split_rest hp i host j k =
     (if CHR ''['' \<in> set (drop j hp) then Inl (addr_error hp (''unexpected '' @ quoted (CHR ''['') @ '' in address''))
      else if CHR '']'' \<in> set (drop k hp) then Inl (addr_error hp (''unexpected '' @ quoted (CHR '']'') @ '' in address''))
      else Inr (host, drop (i + 1) hp))"

definition SplitHostPort :: "string \<Rightarrow> error + string \<times> string" where
  "SplitHostPort hp =
     (case LastIndexByte hp (CHR '':'') of
        None \<Rightarrow> Inl (addr_error hp missingPort)
      | Some i \<Rightarrow>
          if hp ! 0 = CHR ''['' then
            (case IndexByte hp (CHR '']'') of
               None \<Rightarrow> Inl (addr_error hp (''missing '' @ quoted (CHR '']'') @ '' in address''))
             | Some e \<Rightarrow>
                 if e + 1 = length hp then Inl (addr_error hp missingPort)
                 else if e + 1 = i then split_rest hp i (drop 1 (take e hp)) 1 (e + 1)
                 else if hp ! (e + 1) = CHR '':'' then Inl (addr_error hp tooManyColons)
                 else Inl (addr_error hp missingPort))
          else if CHR '':'' \<in> set (take i hp) then Inl (addr_error hp tooManyColons)
          else split_rest hp i (take i hp) 0 0)"

text \<open>
  \<open>parsePort\<close>: the digits of a service, on 32 bits and cut off at \<open>2 ^ 30\<close>. \<open>None\<close> when a character is no
  digit, so that the name has to be looked up.
\<close>

fun port_loop :: "uint32 \<Rightarrow> string \<Rightarrow> uint32 option" where
  "port_loop n [] = Some n"
| "port_loop n (d # ds) =
     (if \<not> is_digit d then None
      else if 0x40000000 \<le> n then Some 0xFFFFFFFF
      else let n' = n * 10; nn = n' + of_nat (digit_val d)
        in if nn < n' then Some 0xFFFFFFFF else port_loop nn ds)"

definition parsePort :: "string \<Rightarrow> int option" where
  "parsePort service =
     (if service = [] then Some 0
      else let neg = (hd service = CHR ''-'');
               ds = (if hd service = CHR ''+'' \<or> neg then tl service else service)
        in map_option (\<lambda>n :: uint32.
             let port = (if \<not> neg \<and> 0x40000000 \<le> n then 0x3FFFFFFF
                         else if neg \<and> 0x40000000 < n then 0x40000000 else uint n)
             in if neg then - port else port) (port_loop 0 ds))"

text \<open>\<open>net.LookupPort\<close>; the table of service names is a parameter.\<close>

definition LookupPort :: "(string \<Rightarrow> string \<Rightarrow> error + int) \<Rightarrow> string \<Rightarrow> string \<Rightarrow> error + int" where
  "LookupPort lookup network service =
     (let checked = (\<lambda>port. if port < 0 \<or> 65535 < port then Inl (addr_error service ''invalid port'') else Inr port)
      in case parsePort service of
           Some port \<Rightarrow> checked port
         | None \<Rightarrow>
             let network' = (if network = [] then ''ip'' else network)
             in if network' \<notin> {''tcp'', ''tcp4'', ''tcp6'', ''udp'', ''udp4'', ''udp6'', ''ip''}
                then Inl (addr_error network' ''unknown network'')
                else case lookup network' service of Inl err \<Rightarrow> Inl err | Inr port \<Rightarrow> checked port)"

text \<open>\<open>net.JoinHostPort\<close> puts a host with a colon in brackets.\<close>

definition JoinHostPort :: "string \<Rightarrow> string \<Rightarrow> string" where
  "JoinHostPort host port = (if CHR '':'' \<in> set host then CHR ''['' # host @ '']:'' @ port else host @ CHR '':'' # port)"

section \<open>The dialer\<close>

text \<open>
  The client's half of the SOCKS library, the host's \<open>NewStream\<close> and the table of service names. A
  \<open>NewRequest\<close> that is written is given by its command, address type, address and port.
\<close>

record Reply =
  rp_Rep :: byte
  rp_Atyp :: byte
  rp_BndAddr :: "byte list"
  rp_BndPort :: "byte list"

record dial_env =
  de_addr :: socks_addr
  NegotiationRequest_WriteTo :: "byte list \<Rightarrow> byte conn \<Rightarrow> error option \<times> byte conn"
  NewNegotiationReplyFrom :: "byte conn \<Rightarrow> (error + byte) \<times> byte conn"
  UserPassNegotiationRequest_WriteTo :: "byte list \<Rightarrow> byte list \<Rightarrow> byte conn \<Rightarrow> error option \<times> byte conn"
  NewUserPassNegotiationReplyFrom :: "byte conn \<Rightarrow> (error + byte) \<times> byte conn"
  Request_WriteTo :: "byte \<Rightarrow> byte \<Rightarrow> byte list \<Rightarrow> byte list \<Rightarrow> byte conn \<Rightarrow> error option \<times> byte conn"
  NewReplyFrom :: "byte conn \<Rightarrow> (error + Reply) \<times> byte conn"
  de_ErrUserPassAuth :: error
  de_NewStream :: "string \<Rightarrow> error + byte conn"
  de_lookupPort :: "string \<Rightarrow> string \<Rightarrow> error + int"

record ProxyAddr =
  pa_network :: string
  pa_address :: string

record streamConn =
  sc_rw :: tun_end
  sc_la :: ProxyAddr
  sc_ra :: ProxyAddr

record packetConn =
  pk_rw :: "byte conn"
  pk_la :: ProxyAddr

definition NewDialer :: "string \<Rightarrow> byte list \<Rightarrow> byte list \<Rightarrow> PeerWithAuth" where
  "NewDialer peerID username password = \<lparr>pw_ID = peerID, pw_UserName = username, pw_Password = password\<rparr>"

text \<open>
  The negotiation both dial functions start with; only \<open>dialContext\<close> goes on when the server asks for no
  authentication (\<open>noneOk\<close>). The stream is reset on an error, but not while authenticating.
\<close>

definition client_negotiate ::
  "dial_env \<Rightarrow> PeerWithAuth \<Rightarrow> bool \<Rightarrow> byte conn \<Rightarrow> error option \<times> byte conn" where
  "client_negotiate C peer noneOk s =
     (case NegotiationRequest_WriteTo C [MethodUsernamePassword] s of
        (Some err, s1) \<Rightarrow> (Some err, conn_reset s1)
      | (None, s1) \<Rightarrow>
          (case NewNegotiationReplyFrom C s1 of
             (Inl err, s2) \<Rightarrow> (Some err, conn_reset s2)
           | (Inr method, s2) \<Rightarrow>
               if method = MethodUsernamePassword then
                 (case UserPassNegotiationRequest_WriteTo C (pw_UserName peer) (pw_Password peer) s2 of
                    (Some err, s3) \<Rightarrow> (Some err, s3)
                  | (None, s3) \<Rightarrow>
                      (case NewUserPassNegotiationReplyFrom C s3 of
                         (Inl err, s4) \<Rightarrow> (Some err, s4)
                       | (Inr status, s4) \<Rightarrow>
                           if status \<noteq> UserPassStatusSuccess then (Some (de_ErrUserPassAuth C), s4)
                           else (None, s4)))
               else if noneOk \<and> method = MethodNone then (None, s2)
               else (Some (ErrNew ''no acceptable authentication methods''), conn_reset s2)))"

text \<open>\<open>net.ParseIP\<close> on the host decides the address type; a host that is no address is sent as it is.\<close>

definition host_bytes :: "string \<Rightarrow> byte list" where
  "host_bytes s = map (\<lambda>c. of_nat (char_nat c)) s"

definition client_addr :: "(byte list \<Rightarrow> byte list) \<Rightarrow> (byte list \<Rightarrow> byte list) \<Rightarrow> string \<Rightarrow> byte \<times> byte list" where
  "client_addr v4 v6 host =
     (case ParseAddr host of
        Some ip \<Rightarrow> if ip_To4 ip \<noteq> [] then (ATYPIPv4, v4 (ip_To4 ip)) else (ATYPIPv6, v6 ip)
      | None \<Rightarrow> (ATYPDomain, host_bytes host))"

text \<open>The request and its answer, up to the reply of success.\<close>

definition client_request ::
  "dial_env \<Rightarrow> byte \<Rightarrow> (byte list \<Rightarrow> byte list) \<Rightarrow> (byte list \<Rightarrow> byte list) \<Rightarrow> string \<Rightarrow> string \<Rightarrow> byte conn
     \<Rightarrow> (error + Reply) \<times> byte conn" where
  "client_request C cmd v4 v6 network address s =
     (case SplitHostPort address of
        Inl err \<Rightarrow> (Inl err, conn_reset s)
      | Inr (host, port) \<Rightarrow>
          let (atyp, addr) = client_addr v4 v6 host
          in case LookupPort (de_lookupPort C) network port of
               Inl err \<Rightarrow> (Inl err, conn_reset s)
             | Inr portNum \<Rightarrow>
                 (case Request_WriteTo C cmd atyp addr (be_bytes16 (of_int portNum)) s of
                    (Some err, s1) \<Rightarrow> (Inl err, conn_reset s1)
                  | (None, s1) \<Rightarrow>
                      (case NewReplyFrom C s1 of
                         (Inl err, s2) \<Rightarrow> (Inl err, conn_reset s2)
                       | (Inr reply, s2) \<Rightarrow>
                           if rp_Rep reply \<noteq> RepSuccess then (Inl (ErrNew ''SOCKS connect failed''), conn_reset s2)
                           else (Inr reply, s2))))"

definition bound_address :: "dial_env \<Rightarrow> Reply \<Rightarrow> string" where
  "bound_address C reply = ToAddress (de_addr C) (rp_Atyp reply) (rp_BndAddr reply) (rp_BndPort reply)"

text \<open>
  \<open>dialContext\<close>: the connection or the error, and the stream as it is left, if one was opened.
\<close>

definition dialContext ::
  "dial_env \<Rightarrow> PeerWithAuth \<Rightarrow> string \<Rightarrow> string \<Rightarrow> (error + streamConn) \<times> byte conn option" where
  "dialContext C peer network address =
     (if length network < 3 then (Inl (ErrNew ''unsupport network type''), None)
      else case de_NewStream C (pw_ID peer) of
        Inl err \<Rightarrow> (Inl err, None)
      | Inr s \<Rightarrow>
          (case client_negotiate C peer True s of
             (Some err, s1) \<Rightarrow> (Inl err, Some s1)
           | (None, s1) \<Rightarrow>
               let cmd = (if take 3 network = ''udp'' then CmdConnectUDP else CmdConnect)
               in case client_request C cmd (\<lambda>ip. ip) (\<lambda>ip. ip) network address s1 of
                    (Inl err, s2) \<Rightarrow> (Inl err, Some s2)
                  | (Inr reply, s2) \<Rightarrow>
                      (Inr \<lparr>sc_rw = \<lparr>te_kind = (if network = ''udp'' then KPacket else KStream), te_conn = s2\<rparr>,
                            sc_la = \<lparr>pa_network = network, pa_address = bound_address C reply\<rparr>,
                            sc_ra = \<lparr>pa_network = network, pa_address = address\<rparr>\<rparr>,
                       Some s2)))"

definition Dialer_DialContext ::
  "dial_env \<Rightarrow> PeerWithAuth \<Rightarrow> string \<Rightarrow> string \<Rightarrow> (error + streamConn) \<times> byte conn option" where
  "Dialer_DialContext C peer network address = dialContext C peer network address"

definition DialUDPConn ::
  "dial_env \<Rightarrow> PeerWithAuth \<Rightarrow> string \<Rightarrow> string \<Rightarrow> (error + streamConn) \<times> byte conn option" where
  "DialUDPConn C peer network address = dialContext C peer network address"

text \<open>\<open>net.IPv4zero\<close> is the address of sixteen bytes that \<open>net.IPv4\<close> makes; so is \<open>net.IPv6zero\<close>.\<close>

definition IPv4zero :: "byte list" where
  "IPv4zero = replicate 10 0 @ [0xff, 0xff] @ replicate 4 0"

definition IPv6zero :: "byte list" where
  "IPv6zero = replicate 16 0"

definition Dialer_DialUDP ::
  "dial_env \<Rightarrow> PeerWithAuth \<Rightarrow> string \<Rightarrow> string \<Rightarrow> string \<Rightarrow> (error + packetConn) \<times> byte conn option" where
  "Dialer_DialUDP C peer network localAddr remoteAddr =
     (if length network < 3 then (Inl (ErrNew ''unsupport network type''), None)
      else case de_NewStream C (pw_ID peer) of
        Inl err \<Rightarrow> (Inl err, None)
      | Inr s \<Rightarrow>
          (case client_negotiate C peer False s of
             (Some err, s1) \<Rightarrow> (Inl err, Some s1)
           | (None, s1) \<Rightarrow>
               (case client_request C CmdPacketConn (\<lambda>_. IPv4zero) (\<lambda>_. IPv6zero) network localAddr s1 of
                  (Inl err, s2) \<Rightarrow> (Inl err, Some s2)
                | (Inr reply, s2) \<Rightarrow>
                    (Inr \<lparr>pk_rw = s2, pk_la = \<lparr>pa_network = network, pa_address = bound_address C reply\<rparr>\<rparr>, Some s2))))"

section \<open>The connections\<close>

definition sc_Read :: "nat \<Rightarrow> streamConn \<Rightarrow> (byte list \<times> error option \<times> streamConn) outcome" where
  "sc_Read n c =
     (case end_read n (sc_rw c) of Panic \<Rightarrow> Panic | Return (bs, err, e) \<Rightarrow> Return (bs, err, c\<lparr>sc_rw := e\<rparr>))"

definition sc_Write :: "byte list \<Rightarrow> streamConn \<Rightarrow> nat \<times> error option \<times> streamConn" where
  "sc_Write b c = (case end_write b (sc_rw c) of (n, err, e) \<Rightarrow> (n, err, c\<lparr>sc_rw := e\<rparr>))"

definition sc_ReadFrom :: "nat \<Rightarrow> streamConn \<Rightarrow> (byte list \<times> ProxyAddr \<times> error option \<times> streamConn) outcome" where
  "sc_ReadFrom n c =
     (case end_read n (sc_rw c) of
        Panic \<Rightarrow> Panic
      | Return (bs, err, e) \<Rightarrow> Return (bs, sc_ra c, err, c\<lparr>sc_rw := e\<rparr>))"

definition sc_WriteTo :: "byte list \<Rightarrow> ProxyAddr \<Rightarrow> streamConn \<Rightarrow> nat \<times> error option \<times> streamConn" where
  "sc_WriteTo p addr c = (case end_write p (sc_rw c) of (n, err, e) \<Rightarrow> (n, err, c\<lparr>sc_rw := e\<rparr>))"

definition sc_LocalAddr :: "streamConn \<Rightarrow> ProxyAddr" where "sc_LocalAddr c = sc_la c"

definition sc_RemoteAddr :: "streamConn \<Rightarrow> ProxyAddr" where "sc_RemoteAddr c = sc_ra c"

text \<open>\<open>ReadFrom(p)\<close>: the payload is a part of \<open>p\<close> that is then copied to its front.\<close>

definition pk_ReadFrom ::
  "dial_env \<Rightarrow> byte list \<Rightarrow> packetConn \<Rightarrow> ((error + nat \<times> ProxyAddr) \<times> byte list \<times> packetConn) outcome" where
  "pk_ReadFrom C p c =
     (case socks5ReadFrom (de_addr C) p (pk_rw c) of
        Panic \<Rightarrow> Panic
      | Return (Inl err, p', rw) \<Rightarrow> Return (Inl err, p', c\<lparr>pk_rw := rw\<rparr>)
      | Return (Inr (payload, from), p', rw) \<Rightarrow>
          Return (Inr (length payload, \<lparr>pa_network = pa_network (pk_la c), pa_address = from\<rparr>),
            payload @ drop (length payload) p', c\<lparr>pk_rw := rw\<rparr>))"

definition pk_WriteTo :: "dial_env \<Rightarrow> byte list \<Rightarrow> ProxyAddr \<Rightarrow> packetConn \<Rightarrow> nat \<times> error option \<times> packetConn" where
  "pk_WriteTo C p addr c =
     (case socks5WriteTo (de_addr C) p (pa_address addr) (pk_rw c) of
        (Some err, rw) \<Rightarrow> (0, Some err, c\<lparr>pk_rw := rw\<rparr>)
      | (None, rw) \<Rightarrow> (length p, None, c\<lparr>pk_rw := rw\<rparr>))"

definition pk_LocalAddr :: "packetConn \<Rightarrow> ProxyAddr" where "pk_LocalAddr c = pk_la c"

section \<open>Printed addresses are parsed\<close>

declare nat_digits.simps [simp del]

lemma SplitHostPort_host_port:
  assumes "set host \<inter> {CHR '':'', CHR ''['', CHR '']''} = {}" and "set port \<inter> {CHR '':'', CHR ''['', CHR '']''} = {}"
  shows "SplitHostPort (host @ CHR '':'' # port) = Inr (host, port)"
proof -
  have "takeWhile (\<lambda>x. x \<noteq> CHR '':'') (rev port @ CHR '':'' # rev host) = rev port"
    using assms(2) by (subst takeWhile_append2) auto
  then have i: "LastIndexByte (host @ CHR '':'' # port) (CHR '':'') = Some (length host)"
    by (simp add: LastIndexByte_def)
  have b: "(host @ CHR '':'' # port) ! 0 \<noteq> CHR ''[''" using assms(1) by (cases host) auto
  show ?thesis using assms by (auto simp: SplitHostPort_def i b split_rest_def)
qed

lemma IPv4_String_chars: "set (IPv4_String a) \<inter> {CHR '':'', CHR ''['', CHR '']''} = {}"
  using digits_disjoint by (fastforce simp: IPv4_String_def be_bytes32_def)

lemma JoinHostPort_v4: "JoinHostPort (IPv4_String a) port = IPv4_String a @ CHR '':'' # port"
  using IPv4_String_chars [of a] by (auto simp: JoinHostPort_def)

lemma SplitHostPort_brackets:
  assumes "set host \<inter> brackets = {}" and "set port \<inter> {CHR '':'', CHR ''['', CHR '']''} = {}"
  shows "SplitHostPort (CHR ''['' # host @ '']:'' @ port) = Inr (host, port)"
proof -
  let ?hp = "CHR ''['' # host @ '']:'' @ port"
  have "takeWhile (\<lambda>x. x \<noteq> CHR '':'') (rev port @ CHR '':'' # CHR '']'' # rev host @ [CHR ''[''])= rev port"
    using assms(2) by (subst takeWhile_append2) auto
  then have i: "LastIndexByte ?hp (CHR '':'') = Some (length host + 2)" by (simp add: LastIndexByte_def)
  have "takeWhile (\<lambda>x. x \<noteq> CHR '']'') (host @ CHR '']'' # CHR '':'' # port) = host"
    using assms(1) by (subst takeWhile_append2) (auto simp: brackets_def)
  then have e: "IndexByte ?hp (CHR '']'') = Some (length host + 1)" by (simp add: IndexByte_def)
  have "CHR ''['' \<notin> set (drop 1 ?hp)" "CHR '']'' \<notin> set (drop (length host + 2) ?hp)"
    using assms by (auto simp: brackets_def)
  with i e show ?thesis by (simp add: SplitHostPort_def split_rest_def)
qed

text \<open>The address of a flow is taken apart again, whichever version it is of.\<close>

lemma SplitHostPort_Join:
  assumes "ParseAddr host = Some ip"
  shows "SplitHostPort (JoinHostPort host (nat_digits n)) = Inr (host, nat_digits n)"
proof (cases "CHR '':'' \<in> set host")
  case True
  with SplitHostPort_brackets [OF ParseAddr_chars [OF assms], of "nat_digits n"] digits_disjoint show ?thesis by (simp add: JoinHostPort_def)
next
  case False
  with ParseAddr_chars [OF assms] have "set host \<inter> {CHR '':'', CHR ''['', CHR '']''} = {}" by (auto simp: brackets_def)
  with SplitHostPort_host_port [OF this, of "nat_digits n"] False digits_disjoint show ?thesis by (simp add: JoinHostPort_def)
qed

lemma port_loop_digits:
  assumes "n \<le> 65535"
  shows "port_loop 0 (nat_digits n @ ds) = port_loop (of_nat n) ds"
  using assms
proof (induction n arbitrary: ds rule: nat_digits.induct)
  case (1 n)
  have d: "digit_val (digit_char (n mod 10)) = n mod 10" "is_digit (digit_char (n mod 10))" by simp_all
  show ?case
  proof (cases "n < 10")
    case True
    then show ?thesis using d by (simp add: nat_digits.simps [of n] Let_def word_less_nat_alt unat_of_nat)
  next
    case False
    let ?q = "of_nat (n div 10) :: uint32"
    have u: "unat ?q = n div 10" "unat (of_nat (n mod 10) :: uint32) = n mod 10" "unat (?q * 10) = n div 10 * 10"
      "unat (?q * 10 + of_nat (n mod 10)) = n"
      using "1.prems" by (simp_all add: unat_of_nat unat_word_ariths)
    have small: "\<not> 0x40000000 \<le> ?q" using "1.prems" u(1) by (simp add: word_le_nat_alt)
    have grow: "\<not> ?q * 10 + of_nat (n mod 10) < ?q * 10" using u(3,4) by (simp add: word_less_nat_alt)
    have nn: "?q * 10 + of_nat (n mod 10) = (of_nat n :: uint32)"
      using u(4) "1.prems" by (simp add: word_unat_eq_iff unat_of_nat)
    have "port_loop 0 (nat_digits n @ ds) = port_loop ?q (digit_char (n mod 10) # ds)"
      using False "1.IH" [of "digit_char (n mod 10) # ds"] "1.prems" by (simp add: nat_digits.simps [of n])
    with small grow nn d show ?thesis by (simp add: Let_def)
  qed
qed

lemma parsePort_digits:
  assumes "n \<le> 65535"
  shows "parsePort (nat_digits n) = Some (int n)"
proof -
  have c: "hd (nat_digits n) \<noteq> CHR ''-'' \<and> hd (nat_digits n) \<noteq> CHR ''+''"
    using nat_digits_all [of "hd (nat_digits n)" n] by (auto simp: is_digit_def)
  have "port_loop 0 (nat_digits n) = Some (of_nat n)" using port_loop_digits [OF assms, of "[]"] by simp
  then show ?thesis using assms c
    by (simp add: parsePort_def Let_def word_le_nat_alt unat_of_nat uint_nat)
qed

lemma LookupPort_digits: "LookupPort lookup network (nat_digits (unat (p :: uint16))) = Inr (uint p)"
proof -
  have "unat p < 65536" using unsigned_less [of p, where ?'a = nat] by simp
  then have "unat p \<le> 65535" by simp
  from parsePort_digits [OF this] have "parsePort (nat_digits (unat p)) = Some (uint p)" by simp
  moreover have "\<not> (uint p < 0 \<or> 65535 < uint p)" using unsigned_less [of p, where ?'a = int] by simp
  ultimately show ?thesis by (simp add: LookupPort_def Let_def)
qed

section \<open>The two halves of the protocol\<close>

text \<open>
  The messages of RFC 1928 and RFC 1929, which the library implements: what its writers put on a
  connection and what its readers take from one.
\<close>

definition wire_negotiation :: "byte list \<Rightarrow> byte list" where
  "wire_negotiation methods = [5, of_nat (length methods)] @ methods"

definition wire_method :: "byte \<Rightarrow> byte list" where
  "wire_method m = [5, m]"

definition wire_userpass :: "byte list \<Rightarrow> byte list \<Rightarrow> byte list" where
  "wire_userpass u p = [1, of_nat (length u)] @ u @ [of_nat (length p)] @ p"

definition wire_request :: "byte \<Rightarrow> byte \<Rightarrow> byte list \<Rightarrow> byte list \<Rightarrow> byte list" where
  "wire_request cmd atyp addr port = [5, cmd, 0, atyp] @ addr @ port"

definition writes :: "(byte conn \<Rightarrow> error option \<times> byte conn) \<Rightarrow> byte list \<Rightarrow> bool" where
  "writes w bs \<longleftrightarrow>
     (\<forall>c err c'. w c = (err, c') \<longrightarrow> pending c' = pending c \<and> (wr_room c = None \<longrightarrow> err = None \<and> wr_room c' = None)
        \<and> (err = None \<longrightarrow> wr_data c' = wr_data c @ bs))"

definition reads :: "(byte conn \<Rightarrow> 'a \<times> byte conn) \<Rightarrow> byte list \<Rightarrow> 'a \<Rightarrow> bool" where
  "reads r bs x \<longleftrightarrow>
     (\<forall>c rest. pending c = bs @ rest \<longrightarrow>
        (\<exists>c'. r c = (x, c') \<and> pending c' = rest \<and> wr_data c' = wr_data c \<and> wr_room c' = wr_room c))"

definition only_reads :: "(byte conn \<Rightarrow> 'a \<times> byte conn) \<Rightarrow> bool" where
  "only_reads r \<longleftrightarrow> (\<forall>c. wr_data (snd (r c)) = wr_data c)"

definition client_lib_spec :: "dial_env \<Rightarrow> bool" where
  "client_lib_spec C \<longleftrightarrow>
     (\<forall>ms. writes (NegotiationRequest_WriteTo C ms) (wire_negotiation ms))
     \<and> (\<forall>m. reads (NewNegotiationReplyFrom C) (wire_method m) (Inr m))
     \<and> (\<forall>u p. writes (UserPassNegotiationRequest_WriteTo C u p) (wire_userpass u p))
     \<and> (\<forall>cmd atyp addr port. atyp = ATYPIPv4 \<or> atyp = ATYPIPv6 \<longrightarrow>
          writes (Request_WriteTo C cmd atyp addr port) (wire_request cmd atyp addr port))
     \<and> only_reads (NewUserPassNegotiationReplyFrom C) \<and> only_reads (NewReplyFrom C)"

definition server_lib_spec :: "socks_lib \<Rightarrow> bool" where
  "server_lib_spec L \<longleftrightarrow>
     (\<forall>ms. ms \<noteq> [] \<and> length ms < 256 \<longrightarrow> reads (NewNegotiationRequestFrom L) (wire_negotiation ms) None)
     \<and> (\<forall>m. writes (NegotiationReply_WriteTo L m) (wire_method m))
     \<and> (\<forall>u p. u \<noteq> [] \<and> length u < 256 \<and> p \<noteq> [] \<and> length p < 256 \<longrightarrow>
          reads (NewUserPassNegotiationRequestFrom L) (wire_userpass u p)
            (Inr \<lparr>up_Plen = of_nat (length p), up_Passwd = p\<rparr>))
     \<and> (\<forall>st. \<exists>bs. writes (UserPassNegotiationReply_WriteTo L st) bs)
     \<and> (\<forall>cmd atyp addr port. (atyp = ATYPIPv4 \<and> length addr = 4 \<or> atyp = ATYPIPv6 \<and> length addr = 16) \<and> length port = 2 \<longrightarrow>
          reads (NewRequestFrom L) (wire_request cmd atyp addr port)
            (Inr \<lparr>rq_Cmd = cmd, rq_Atyp = atyp, rq_DstAddr = addr, rq_DstPort = port\<rparr>))
     \<and> (\<forall>cmd a p. Request_Address L \<lparr>rq_Cmd = cmd, rq_Atyp = ATYPIPv4, rq_DstAddr = be_bytes32 a, rq_DstPort = be_bytes16 p\<rparr>
          = IPv4_String a @ CHR '':'' # nat_digits (unat p))
     \<and> (\<forall>cmd ip p. length ip = 16 \<and> ip_To4 ip = [] \<longrightarrow>
          (\<exists>h. Request_Address L \<lparr>rq_Cmd = cmd, rq_Atyp = ATYPIPv6, rq_DstAddr = ip, rq_DstPort = be_bytes16 p\<rparr>
             = JoinHostPort h (nat_digits (unat p)) \<and> ParseAddr h = Some ip))
     \<and> (\<forall>rep atyp addr port. \<exists>bs. writes (Reply_WriteTo L rep atyp addr port) bs)"

lemma server_lib_laws:
  assumes "server_lib_spec L"
  shows "ms \<noteq> [] \<Longrightarrow> length ms < 256 \<Longrightarrow> reads (NewNegotiationRequestFrom L) (wire_negotiation ms) None"
    and "writes (NegotiationReply_WriteTo L m) (wire_method m)"
    and "u \<noteq> [] \<Longrightarrow> length u < 256 \<Longrightarrow> p \<noteq> [] \<Longrightarrow> length p < 256
      \<Longrightarrow> reads (NewUserPassNegotiationRequestFrom L) (wire_userpass u p) (Inr \<lparr>up_Plen = of_nat (length p), up_Passwd = p\<rparr>)"
    and "\<exists>bs. writes (UserPassNegotiationReply_WriteTo L st) bs" and "\<exists>bs. writes (Reply_WriteTo L rep atyp addr port) bs"
    and "atyp = ATYPIPv4 \<and> length addr = 4 \<or> atyp = ATYPIPv6 \<and> length addr = 16 \<Longrightarrow> length port = 2
      \<Longrightarrow> reads (NewRequestFrom L) (wire_request cmd atyp addr port) (Inr \<lparr>rq_Cmd = cmd, rq_Atyp = atyp, rq_DstAddr = addr, rq_DstPort = port\<rparr>)"
    and "Request_Address L \<lparr>rq_Cmd = cmd, rq_Atyp = ATYPIPv4, rq_DstAddr = be_bytes32 a, rq_DstPort = be_bytes16 q\<rparr>
      = IPv4_String a @ CHR '':'' # nat_digits (unat q)"
    and "length ip = 16 \<Longrightarrow> ip_To4 ip = [] \<Longrightarrow> \<exists>h. Request_Address L \<lparr>rq_Cmd = cmd, rq_Atyp = ATYPIPv6, rq_DstAddr = ip, rq_DstPort = be_bytes16 q\<rparr>
      = JoinHostPort h (nat_digits (unat q)) \<and> ParseAddr h = Some ip"
  using assms unfolding server_lib_spec_def by simp_all

lemma writesD:
  assumes "writes w bs" and "w c = (err, c')"
  shows "pending c' = pending c" and "wr_room c = None \<Longrightarrow> err = None \<and> wr_room c' = None"
    and "err = None \<Longrightarrow> wr_data c' = wr_data c @ bs"
  using assms by (auto simp: writes_def)

lemma readsE:
  assumes "reads r bs x" and "pending c = bs @ rest"
  obtains c' where "r c = (x, c')" "pending c' = rest" "wr_data c' = wr_data c" "wr_room c' = wr_room c"
  using assms unfolding reads_def by blast

lemma writes_freeE:
  assumes "writes w bs" and "wr_room c = None"
  obtains c' where "w c = (None, c')" "pending c' = pending c" "wr_room c' = None" "wr_data c' = wr_data c @ bs"
  using assms unfolding writes_def by (metis surj_pair)

lemma only_readsD: "only_reads r \<Longrightarrow> r c = (x, c') \<Longrightarrow> wr_data c' = wr_data c"
  by (metis only_reads_def snd_conv)

text \<open>What the client has sent when the negotiation and the request succeed.\<close>

lemma client_negotiate_sent:
  assumes "client_lib_spec C" and "client_negotiate C peer noneOk s = (None, s')"
    and "pending s = wire_method m @ more_bytes"
  shows "wr_data s' = wr_data s @ wire_negotiation [MethodUsernamePassword]
           @ (if m = MethodUsernamePassword then wire_userpass (pw_UserName peer) (pw_Password peer) else [])"
proof -
  obtain err s1 where w: "NegotiationRequest_WriteTo C [MethodUsernamePassword] s = (err, s1)" by force
  from assms(2) w have e: "err = None" by (cases err) (auto simp: client_negotiate_def)
  have W: "writes (NegotiationRequest_WriteTo C [MethodUsernamePassword]) (wire_negotiation [MethodUsernamePassword])"
    and R: "reads (NewNegotiationReplyFrom C) (wire_method m) (Inr m)"
    and U: "writes (UserPassNegotiationRequest_WriteTo C (pw_UserName peer) (pw_Password peer)) (wire_userpass (pw_UserName peer) (pw_Password peer))"
    and O: "only_reads (NewUserPassNegotiationReplyFrom C)"
    using assms(1) by (auto simp: client_lib_spec_def)
  note s1 = writesD [OF W w]
  obtain s2 where s2: "NewNegotiationReplyFrom C s1 = (Inr m, s2)" "wr_data s2 = wr_data s1"
    using readsE [OF R, of s1 more_bytes] s1(1) assms(3) by metis
  show ?thesis
    using assms(2) w e s1(3) s2 writesD(3) [OF U] only_readsD [OF O]
    by (fastforce simp: client_negotiate_def split: prod.splits option.splits sum.splits if_splits)
qed

lemma client_request_sent:
  assumes "client_lib_spec C" and "client_request C cmd v4 v6 network address s = (Inr reply, s')"
    and "SplitHostPort address = Inr (host, port)" and "client_addr v4 v6 host = (atyp, addr)" and "atyp = ATYPIPv4 \<or> atyp = ATYPIPv6"
    and "LookupPort (de_lookupPort C) network port = Inr n"
  shows "wr_data s' = wr_data s @ wire_request cmd atyp addr (be_bytes16 (of_int n))"
proof -
  have W: "writes (Request_WriteTo C cmd atyp addr (be_bytes16 (of_int n))) (wire_request cmd atyp addr (be_bytes16 (of_int n)))"
    and O: "only_reads (NewReplyFrom C)"
    using assms(1,5) by (auto simp: client_lib_spec_def)
  show ?thesis
    using assms(2-4,6) writesD(3) [OF W] only_readsD [OF O]
    by (fastforce simp: client_request_def split: prod.splits option.splits sum.splits if_splits)
qed

text \<open>What the server makes of it.\<close>

lemma server_negotiate_reads:
  assumes "server_lib_spec L" and "wr_room s = None"
    and "pending s = wire_negotiation [MethodUsernamePassword]
           @ (if need then wire_userpass (le_bytes64 token) (le_bytes64 token) else []) @ rest"
    and "AuthFunc token"
  obtains s' ps' where "socks5Negotiate L P AuthFunc pid need s ps = Return (None, s', ps')"
    "pending s' = rest" "wr_room s' = None"
proof -
  let ?auth = "if need then wire_userpass (le_bytes64 token) (le_bytes64 token) else []"
  have R: "reads (NewNegotiationRequestFrom L) (wire_negotiation [MethodUsernamePassword]) None"
    and W: "\<And>m. writes (NegotiationReply_WriteTo L m) (wire_method m)"
    and le: "length (le_bytes64 token) = 8" and ne: "le_bytes64 token \<noteq> []"
    using server_lib_laws(1,2) [OF assms(1)] by (auto simp: le_bytes64_def)
  have U: "reads (NewUserPassNegotiationRequestFrom L) (wire_userpass (le_bytes64 token) (le_bytes64 token))
      (Inr \<lparr>up_Plen = of_nat (length (le_bytes64 token)), up_Passwd = le_bytes64 token\<rparr>)"
    by (rule server_lib_laws(3) [OF assms(1)]) (simp_all add: le ne)
  obtain bs where St: "writes (UserPassNegotiationReply_WriteTo L UserPassStatusSuccess) bs"
    using server_lib_laws(4) [OF assms(1)] by blast
  obtain s1 where s1: "NewNegotiationRequestFrom L s = (None, s1)" "pending s1 = ?auth @ rest" "wr_room s1 = None"
    using readsE [OF R, of s "?auth @ rest"] assms(2,3) by metis
  obtain s2 where s2: "NegotiationReply_WriteTo L (if need then MethodUsernamePassword else MethodNone) s1 = (None, s2)"
    "pending s2 = ?auth @ rest" "wr_room s2 = None"
    using writes_freeE [OF W s1(3)] s1(2) by metis
  show thesis
  proof (cases need)
    case False
    with s1 s2 that [of s2 ps] show thesis by (simp add: socks5Negotiate_def)
  next
    case True
    then obtain s3 where s3: "NewUserPassNegotiationRequestFrom L s2 = (Inr \<lparr>up_Plen = 8, up_Passwd = le_bytes64 token\<rparr>, s3)"
      "pending s3 = rest" "wr_room s3 = None"
      using readsE [OF U, of s2 rest] s2(2,3) le by auto
    obtain s4 where s4: "UserPassNegotiationReply_WriteTo L UserPassStatusSuccess s3 = (None, s4)" "pending s4 = rest" "wr_room s4 = None"
      using writes_freeE [OF St s3(3)] s3(2) by metis
    have "socks5Auth P AuthFunc pid \<lparr>up_Plen = 8, up_Passwd = le_bytes64 token\<rparr> ps
        = Return (True, ps_Put P ps pid socks5ConnectSessionKey SessionInfo)"
      using assms(4) le_uint64_le_bytes64 [of token "[]"] le by (simp add: socks5Auth_def)
    with True s1 s2 s3 s4 show thesis by (intro that [of s4]) (simp_all add: socks5Negotiate_def)
  qed
qed

section \<open>Dialling end to end\<close>

text \<open>The request for an address of four or sixteen bytes; an IPv4 address in sixteen bytes is sent as the four.\<close>

definition flow_ip :: "byte list \<Rightarrow> byte list" where
  "flow_ip ip = (if ip_To4 ip \<noteq> [] then ip_To4 ip else ip)"

definition flow_request :: "byte \<Rightarrow> byte list \<Rightarrow> uint16 \<Rightarrow> Request" where
  "flow_request cmd ip port =
     \<lparr>rq_Cmd = cmd, rq_Atyp = (if ip_To4 ip \<noteq> [] then ATYPIPv4 else ATYPIPv6), rq_DstAddr = flow_ip ip, rq_DstPort = be_bytes16 port\<rparr>"

definition flow_wire :: "byte \<Rightarrow> byte list \<Rightarrow> uint16 \<Rightarrow> byte list" where
  "flow_wire cmd ip port = wire_request cmd (if ip_To4 ip \<noteq> [] then ATYPIPv4 else ATYPIPv6) (flow_ip ip) (be_bytes16 port)"

lemma ip_To4_length: "ip_To4 ip \<noteq> [] \<Longrightarrow> length (ip_To4 ip) = 4"
  by (auto simp: ip_To4_def split: if_splits)

lemma client_addr_flow:
  "ParseAddr host = Some ip \<Longrightarrow> client_addr (\<lambda>ip. ip) (\<lambda>ip. ip) host = (if ip_To4 ip \<noteq> [] then ATYPIPv4 else ATYPIPv6, flow_ip ip)"
  by (simp add: client_addr_def flow_ip_def)

lemma server_reads_flow:
  assumes "server_lib_spec L" and "ParseAddr host = Some ip"
  shows "reads (NewRequestFrom L) (flow_wire cmd ip port) (Inr (flow_request cmd ip port))"
proof -
  have "length (flow_ip ip) = (if ip_To4 ip \<noteq> [] then 4 else 16)"
    using ParseAddr_length [OF assms(2)] ip_To4_length [of ip] by (auto simp: flow_ip_def ip_To4_def)
  then show ?thesis
    unfolding flow_wire_def flow_request_def by (intro server_lib_laws(6) [OF assms(1)]) (simp_all add: be_bytes16_def)
qed

lemma no_bit: "\<not> bit (x :: byte) (8 + n)" "\<not> bit x (16 + n)" "\<not> bit x (24 + n)"
  by (auto dest: bit_imp_le_length)

lemma four_bytes: "length bs = 4 \<Longrightarrow> \<exists>a. bs = be_bytes32 a"
proof -
  assume "length bs = 4"
  then obtain x y z u where bs: "bs = [x, y, z, u]" by (auto simp: numeral_eq_Suc length_Suc_conv)
  let ?a = "push_bit 24 (ucast x) OR push_bit 16 (ucast y) OR push_bit 8 (ucast z) OR ucast u :: uint32"
  have "be_bytes32 ?a = bs" unfolding bs be_bytes32_def
    by (auto intro!: bit_word_eqI simp: bit_simps no_bit)
  then show ?thesis by metis
qed

lemma flow_address:
  assumes "server_lib_spec L" and "ParseAddr host = Some ip"
  shows "\<exists>h. Request_Address L (flow_request cmd ip port) = JoinHostPort h (nat_digits (unat port)) \<and> ParseAddr h = Some (flow_ip ip)"
proof (cases "ip_To4 ip = []")
  case True
  with ParseAddr_length [OF assms(2)] have "length ip = 16" by (auto simp: ip_To4_def)
  with True server_lib_laws(8) [OF assms(1)] show ?thesis by (simp add: flow_request_def flow_ip_def)
next
  case False
  from four_bytes [OF ip_To4_length [OF this]] obtain a where a: "ip_To4 ip = be_bytes32 a" by blast
  have ne: "be_bytes32 a \<noteq> []" by (simp add: be_bytes32_def)
  have "Request_Address L (flow_request cmd ip port) = JoinHostPort (IPv4_String a) (nat_digits (unat port))"
    using server_lib_laws(7) [OF assms(1)] a ne by (simp add: flow_request_def flow_ip_def JoinHostPort_v4)
  then show ?thesis using ParseAddr_String [of a] a ne by (auto simp: flow_ip_def)
qed

text \<open>
  From the dial to the server: over TCP or UDP, what the client has sent when its dial succeeds makes the server ask for that address.
  Over UDP the stream goes on with packets that the copy has room for.
\<close>

lemma dial_reaches:
  fixes port :: uint16
  assumes "client_lib_spec C" and "server_lib_spec L"
    and "pw_UserName peer = le_bytes64 token" and "pw_Password peer = le_bytes64 token"
    and "de_NewStream C (pw_ID peer) = Inr s" and "wr_data s = []"
    and "pending s = wire_method (if socks5Precheck P ps pid then MethodUsernamePassword else MethodNone) @ answers"
    and "dialContext C peer (if udp then ''udp'' else ''tcp'') address = (Inr conn, Some s')"
    and "SplitHostPort address = Inr (host, nat_digits (unat port))" and "ParseAddr host = Some ip"
    and "pending srv = wr_data s' @ rest" and "wr_room srv = None" and "AuthFunc token" and "udp \<Longrightarrow> packet_bytes rest"
  shows "\<exists>res ps'. handler L P env AuthFunc ob sched pid srv ps = Return (Inr res, ps')
    \<and> rr_dialed res = [(if udp then ''udp'' else ''tcp'', Request_Address L (flow_request (if udp then CmdConnectUDP else CmdConnect) ip port))]"
proof -
  let ?need = "socks5Precheck P ps pid" and ?cmd = "if udp then CmdConnectUDP else CmdConnect"
  let ?auth = "if ?need then wire_userpass (le_bytes64 token) (le_bytes64 token) else []"
  obtain e s1 where n: "client_negotiate C peer True s = (e, s1)" by (cases "client_negotiate C peer True s")
  have "e = None" using assms(5,8) n by (cases e; cases udp) (simp_all add: dialContext_def)
  with n have s1: "client_negotiate C peer True s = (None, s1)" by simp
  obtain r s2 where q: "client_request C ?cmd (\<lambda>ip. ip) (\<lambda>ip. ip) (if udp then ''udp'' else ''tcp'') address s1 = (r, s2)" by fastforce
  then have "(\<exists>reply. r = Inr reply) \<and> s2 = s'" using assms(5,8) s1 by (cases r; cases udp) (simp_all add: dialContext_def)
  with q obtain reply where rq: "client_request C ?cmd (\<lambda>ip. ip) (\<lambda>ip. ip) (if udp then ''udp'' else ''tcp'') address s1 = (Inr reply, s')" by blast
  have sent1: "wr_data s1 = wire_negotiation [MethodUsernamePassword] @ ?auth"
    using client_negotiate_sent [OF assms(1) s1 assms(7)] assms(3,4,6) by simp
  have "wr_data s' = wr_data s1 @ flow_wire ?cmd ip port"
    using client_request_sent [OF assms(1) rq assms(9) client_addr_flow [OF assms(10)] _ LookupPort_digits] by (simp add: flow_wire_def)
  with sent1 assms(11) have p: "pending srv = wire_negotiation [MethodUsernamePassword] @ ?auth @ flow_wire ?cmd ip port @ rest" by simp
  obtain t ps' where t: "socks5Negotiate L P AuthFunc pid ?need srv ps = Return (None, t, ps')" "pending t = flow_wire ?cmd ip port @ rest"
    using server_negotiate_reads [where need = "socks5Precheck P ps pid" and rest = "flow_wire ?cmd ip port @ rest" and AuthFunc = AuthFunc and token = token,
        OF assms(2,12) p assms(13)] by metis
  obtain rw where rw: "NewRequestFrom L t = (Inr (flow_request ?cmd ip port), rw)" "pending rw = rest"
    using readsE [OF server_reads_flow [OF assms(2,10), of ?cmd port] t(2)] by metis
  have reply: "pending (snd (Reply_WriteTo L RepSuccess a addr port' rw)) = pending rw" for a addr port'
  proof -
    obtain bs where "writes (Reply_WriteTo L RepSuccess a addr port') bs" using server_lib_laws(5) [OF assms(2)] by blast
    from writesD(1) [OF this] show ?thesis by (cases "Reply_WriteTo L RepSuccess a addr port' rw") simp
  qed
  have "\<exists>res. socks5RequestConnect L env ob sched t = Return res \<and> rr_dialed res = [(if udp then ''udp'' else ''tcp'', Request_Address L (flow_request ?cmd ip port))]"
  proof (cases udp)
    case True
    with connect_udp_dials [OF rw(1) _ _ reply, of env ob sched] assms(14) rw(2) show ?thesis by (simp add: flow_request_def)
  next
    case False
    with connect_dials [OF rw(1), of env ob sched] show ?thesis by (simp add: flow_request_def)
  qed
  with t show ?thesis by (auto simp: handler_def shouldLogError_def)
qed

section \<open>Instances for evaluation\<close>

text \<open>
  The messages as they stand in RFC 1928 and RFC 1929, requests with addresses of both versions and replies with IPv4 addresses
  only. An IPv6 address is printed with all its groups of four hexadecimal digits.
\<close>

definition hex_char :: "nat \<Rightarrow> char" where
  "hex_char n = char_of (if n < 10 then 48 + n else 87 + n)"

definition byte_hex :: "byte \<Rightarrow> string" where
  "byte_hex b = [hex_char (unat b div 16), hex_char (unat b mod 16)]"

fun IPv6_text :: "byte list \<Rightarrow> string" where
  "IPv6_text [a, b] = byte_hex a @ byte_hex b"
| "IPv6_text (a # b # ip) = byte_hex a @ byte_hex b @ CHR '':'' # IPv6_text ip"
| "IPv6_text _ = []"

lemma hex_digit_char: "n < 16 \<Longrightarrow> hex_digit (hex_char n) = Some n"
  by (auto simp: hex_char_def hex_digit_def char_nat_def Let_def)

lemma byte_hex_digits: "unat (b :: byte) div 16 < 16" "unat b mod 16 < 16"
proof -
  have "unat b < 16 * 16" using unsigned_less [of b, where ?'a = nat] by simp
  then show "unat b div 16 < 16" by (rule less_mult_imp_div_less)
qed simp

lemma hex_run_group:
  assumes "r = [] \<or> hd r = CHR '':''"
  shows "hex_run (byte_hex a @ byte_hex b @ r) = byte_hex a @ byte_hex b"
proof -
  have "hex_digit c \<noteq> None" if "c \<in> set (byte_hex a @ byte_hex b)" for c
    using that hex_digit_char [OF byte_hex_digits(1)] hex_digit_char [OF byte_hex_digits(2)] by (auto simp: byte_hex_def)
  moreover have "takeWhile (\<lambda>c. hex_digit c \<noteq> None) r = []"
    using assms by (cases r) (simp_all add: hex_digit_def char_nat_def)
  ultimately show ?thesis
    using takeWhile_append2 [of "byte_hex a @ byte_hex b" "\<lambda>c. hex_digit c \<noteq> None" r] by (simp add: hex_run_def)
qed

lemma hex_value_group:
  "of_nat (hex_value (byte_hex a @ byte_hex b) div 256) = a" "of_nat (hex_value (byte_hex a @ byte_hex b)) = b"
proof -
  have v: "hex_value (byte_hex a @ byte_hex b) = unat a * 256 + unat b"
    using byte_hex_digits [of a] byte_hex_digits [of b] by (simp add: hex_value_def byte_hex_def hex_digit_char)
  have "unat b < 256" using unsigned_less [of b, where ?'a = nat] by simp
  then show "of_nat (hex_value (byte_hex a @ byte_hex b) div 256) = a" unfolding v by simp
  have "(of_nat (unat a * 256 + unat b) :: byte) = of_nat (unat a) * of_nat 256 + of_nat (unat b)" by (simp only: of_nat_add of_nat_mult)
  also have "(of_nat 256 :: byte) = 0" by simp
  finally show "of_nat (hex_value (byte_hex a @ byte_hex b)) = b" unfolding v by simp
qed

lemma v6_loop_text:
  "length ip + length rest = 16 \<Longrightarrow> even (length rest) \<Longrightarrow> rest \<noteq> [] \<Longrightarrow> v6_loop ip None (IPv6_text rest) = Some (ip @ rest, None, [])"
proof (induction rest arbitrary: ip rule: IPv6_text.induct)
  case (1 a b)
  then show ?case
    using hex_run_group [of "[]" a b] hex_value_group [of a b] by (subst v6_loop.simps) (simp add: Let_def byte_hex_def)
next
  case (2 a b c rest)
  have run: "hex_run (byte_hex a @ byte_hex b @ CHR '':'' # IPv6_text (c # rest)) = byte_hex a @ byte_hex b"
    by (rule hex_run_group) simp
  have ne: "IPv6_text (c # rest) \<noteq> [] \<and> hd (IPv6_text (c # rest)) \<noteq> CHR '':''"
  proof -
    obtain d rest' where r: "rest = d # rest'" using "2.prems"(2) by (cases rest) auto
    have "hex_char (unat c div 16) \<noteq> CHR '':''"
      using hex_digit_char [OF byte_hex_digits(1) [of c]] by (auto simp: hex_digit_def char_nat_def)
    then show ?thesis by (cases rest') (simp_all add: r byte_hex_def)
  qed
  have "v6_loop (ip @ [a, b]) None (IPv6_text (c # rest)) = Some ((ip @ [a, b]) @ c # rest, None, [])"
    by (rule "2.IH") (use "2.prems" in simp_all)
  with "2.prems" run ne hex_value_group [of a b] show ?case
    by (subst v6_loop.simps) (simp add: Let_def byte_hex_def)
qed simp_all

lemma ParseAddr_IPv6_text:
  assumes "length ip = 16" shows "ParseAddr (IPv6_text ip) = Some ip"
proof -
  obtain a b c ip' where ip: "ip = a # b # c # ip'" using assms by (auto simp: numeral_eq_Suc length_Suc_conv)
  have x: "x \<noteq> CHR ''.'' \<and> x \<noteq> CHR '':'' \<and> x \<noteq> CHR ''%''" if "x \<in> set (byte_hex d)" for x d
    using that hex_digit_char [OF byte_hex_digits(1) [of d]] hex_digit_char [OF byte_hex_digits(2) [of d]]
    by (auto simp: byte_hex_def hex_digit_def char_nat_def)
  have "CHR ''%'' \<notin> set (IPv6_text bs)" for bs
    by (induction bs rule: IPv6_text.induct) (use x in auto)
  moreover have "List.find (\<lambda>c. c = CHR ''.'' \<or> c = CHR '':'' \<or> c = CHR ''%'') ((byte_hex a @ byte_hex b) @ CHR '':'' # IPv6_text (c # ip')) = Some (CHR '':'')"
    using x by (intro find_first) auto
  then have "List.find (\<lambda>c. c = CHR ''.'' \<or> c = CHR '':'' \<or> c = CHR ''%'') (IPv6_text ip) = Some (CHR '':'')" by (simp add: ip)
  moreover have "\<not> HasPrefix (IPv6_text ip) ''::''" using x [of _ a] by (auto simp: ip HasPrefix_def byte_hex_def)
  moreover have "v6_loop [] None (IPv6_text ip) = Some ([] @ ip, None, [])" by (rule v6_loop_text) (use assms ip in auto)
  ultimately show ?thesis using assms by (simp add: ParseAddr_def parseIPv6_def Let_def)
qed

lemma read_full_front:
  assumes "pending c = bs @ rest"
  obtains c' where "read_full (length bs) c = (bs, None, c')" "pending c' = rest" "wr_data c' = wr_data c" "wr_room c' = wr_room c"
proof -
  obtain chs where "read_full (length bs) c = (bs, None, c\<lparr>rd_chunks := chs\<rparr>)" "concat chs = rest"
    using read_full_enough [of "length bs" c] assms by auto
  then show thesis by (intro that [of "c\<lparr>rd_chunks := chs\<rparr>"]) (simp_all add: pending_def)
qed

lemma read_full_frontN:
  assumes "pending c = bs @ rest" and "length bs = n"
  obtains c' where "read_full n c = (bs, None, c')" "pending c' = rest" "wr_data c' = wr_data c" "wr_room c' = wr_room c"
  using read_full_front [OF assms(1)] assms(2) by blast

definition rfc_read_negotiation :: "byte conn \<Rightarrow> error option \<times> byte conn" where
  "rfc_read_negotiation c =
     (case read_full 2 c of
        (_, Some err, c1) \<Rightarrow> (Some err, c1)
      | (bs, None, c1) \<Rightarrow> (case read_full (unat (bs ! 1)) c1 of (_, err, c2) \<Rightarrow> (err, c2)))"

definition rfc_read_userpass :: "byte conn \<Rightarrow> (error + UserPassNegotiationRequest) \<times> byte conn" where
  "rfc_read_userpass c =
     (case read_full 2 c of
        (_, Some err, c1) \<Rightarrow> (Inl err, c1)
      | (bs, None, c1) \<Rightarrow>
          (case read_full (unat (bs ! 1) + 1) c1 of
             (_, Some err, c2) \<Rightarrow> (Inl err, c2)
           | (us, None, c2) \<Rightarrow>
               (case read_full (unat (last us)) c2 of
                  (_, Some err, c3) \<Rightarrow> (Inl err, c3)
                | (pw, None, c3) \<Rightarrow> (Inr \<lparr>up_Plen = last us, up_Passwd = pw\<rparr>, c3))))"

definition rfc_read_pair :: "byte conn \<Rightarrow> (error + byte) \<times> byte conn" where
  "rfc_read_pair c =
     (case read_full 2 c of (_, Some err, c') \<Rightarrow> (Inl err, c') | (bs, None, c') \<Rightarrow> (Inr (bs ! 1), c'))"

definition rfc_read_request :: "byte conn \<Rightarrow> (error + Request) \<times> byte conn" where
  "rfc_read_request c =
     (case read_full 4 c of
        (_, Some err, c1) \<Rightarrow> (Inl err, c1)
      | (bs, None, c1) \<Rightarrow>
          let n = (if bs ! 3 = ATYPIPv6 then 16 else 4)
          in case read_full (n + 2) c1 of
               (_, Some err, c2) \<Rightarrow> (Inl err, c2)
             | (as, None, c2) \<Rightarrow> (Inr \<lparr>rq_Cmd = bs ! 1, rq_Atyp = bs ! 3, rq_DstAddr = take n as, rq_DstPort = drop n as\<rparr>, c2))"

definition rfc_read_reply :: "byte conn \<Rightarrow> (error + Reply) \<times> byte conn" where
  "rfc_read_reply c =
     (case read_full 10 c of
        (_, Some err, c') \<Rightarrow> (Inl err, c')
      | (bs, None, c') \<Rightarrow>
          (Inr \<lparr>rp_Rep = bs ! 1, rp_Atyp = bs ! 3, rp_BndAddr = take 4 (drop 4 bs), rp_BndPort = drop 8 bs\<rparr>, c'))"

definition rfc_server :: socks_lib where
  "rfc_server = mini_lib
     \<lparr>NewNegotiationRequestFrom := rfc_read_negotiation,
      NegotiationReply_WriteTo := (\<lambda>m. write_only (wire_method m)),
      NewUserPassNegotiationRequestFrom := rfc_read_userpass,
      UserPassNegotiationReply_WriteTo := (\<lambda>st. write_only [1, st]),
      NewRequestFrom := rfc_read_request,
      Request_Address := (\<lambda>r. JoinHostPort (if rq_Atyp r = ATYPIPv6 then IPv6_text (rq_DstAddr r)
                                             else Join (CHR ''.'') (map (\<lambda>b. nat_digits (unat b)) (rq_DstAddr r)))
                              (nat_digits (unat (be_uint16 (rq_DstPort r)))))\<rparr>"

definition rfc_client :: "byte list \<Rightarrow> dial_env" where
  "rfc_client answers =
     \<lparr>de_addr = one_addr,
      NegotiationRequest_WriteTo = (\<lambda>ms. write_only (wire_negotiation ms)),
      NewNegotiationReplyFrom = rfc_read_pair,
      UserPassNegotiationRequest_WriteTo = (\<lambda>u p. write_only (wire_userpass u p)),
      NewUserPassNegotiationReplyFrom = rfc_read_pair,
      Request_WriteTo = (\<lambda>cmd atyp addr port. write_only (wire_request cmd atyp addr port)),
      NewReplyFrom = rfc_read_reply,
      de_ErrUserPassAuth = ErrNew ''Invalid Username or Password for Auth'',
      de_NewStream = (\<lambda>pid. Inr (conn_of answers)),
      de_lookupPort = (\<lambda>n s. Inl (ErrNew ''unknown port''))\<rparr>"

lemma writes_write_only: "writes (write_only bs) bs"
  by (auto simp: writes_def write_only_def conn_write_def pending_def split: option.splits if_splits)

lemma read_loop_wr_data: "read_loop n acc c = (bs, err, c') \<Longrightarrow> wr_data c' = wr_data c"
proof (induction n acc c arbitrary: bs err c' rule: read_loop.induct)
  case (1 n acc c)
  show ?case
  proof (cases "n \<le> length acc \<or> rd_chunks c = []")
    case True
    with "1.prems" show ?thesis by (auto simp: read_loop.simps [of n acc c] conn_read_def split: if_splits)
  next
    case False
    then obtain xs e d where r: "conn_read (n - length acc) c = (xs, None, d)" and d: "wr_data d = wr_data c"
      by (cases "rd_chunks c") (auto simp: conn_read_def)
    have "read_loop n (acc @ xs) d = (bs, err, c')"
      using "1.prems" False r by (simp add: read_loop.simps [of n acc c])
    from "1.IH" [OF _ r [symmetric] refl refl this] False d show ?thesis by simp
  qed
qed

lemma read_full_wr_data: "read_full n c = (bs, err, c') \<Longrightarrow> wr_data c' = wr_data c"
  by (auto simp: read_full_def split: prod.splits option.splits dest: read_loop_wr_data)

lemma rfc_reads_pair: "reads rfc_read_pair [b, m] (Inr m)"
  unfolding reads_def
proof (intro allI impI)
  fix c :: "byte conn" and rest assume "pending c = [b, m] @ rest"
  then obtain c' where "read_full 2 c = ([b, m], None, c')" "pending c' = rest" "wr_data c' = wr_data c" "wr_room c' = wr_room c"
    by (rule read_full_frontN [where n = 2]) simp
  then show "\<exists>c'. rfc_read_pair c = (Inr m, c') \<and> pending c' = rest \<and> wr_data c' = wr_data c \<and> wr_room c' = wr_room c"
    by (simp add: rfc_read_pair_def)
qed

lemma rfc_reads_negotiation:
  assumes "length ms < 256"
  shows "reads rfc_read_negotiation (wire_negotiation ms) None"
  unfolding reads_def
proof (intro allI impI)
  fix c :: "byte conn" and rest
  assume "pending c = wire_negotiation ms @ rest"
  then have "pending c = [5, of_nat (length ms)] @ ms @ rest" by (simp add: wire_negotiation_def)
  then obtain c1 where c1: "read_full 2 c = ([5, of_nat (length ms)], None, c1)" "pending c1 = ms @ rest" "wr_data c1 = wr_data c" "wr_room c1 = wr_room c"
    by (rule read_full_frontN [where n = 2]) simp
  moreover from c1(2) obtain c2 where "read_full (length ms) c1 = (ms, None, c2)" "pending c2 = rest" "wr_data c2 = wr_data c1" "wr_room c2 = wr_room c1"
    by (rule read_full_front)
  ultimately show "\<exists>c'. rfc_read_negotiation c = (None, c') \<and> pending c' = rest \<and> wr_data c' = wr_data c \<and> wr_room c' = wr_room c"
    using assms by (simp add: rfc_read_negotiation_def unat_of_nat)
qed

lemma rfc_reads_userpass:
  assumes "length u < 256" and "length p < 256"
  shows "reads rfc_read_userpass (wire_userpass u p) (Inr \<lparr>up_Plen = of_nat (length p), up_Passwd = p\<rparr>)"
  unfolding reads_def
proof (intro allI impI)
  fix c :: "byte conn" and rest
  assume "pending c = wire_userpass u p @ rest"
  then have "pending c = [1, of_nat (length u)] @ (u @ [of_nat (length p)]) @ p @ rest" by (simp add: wire_userpass_def)
  then obtain c1 where c1: "read_full 2 c = ([1, of_nat (length u)], None, c1)" "pending c1 = (u @ [of_nat (length p)]) @ p @ rest"
    "wr_data c1 = wr_data c" "wr_room c1 = wr_room c"
    by (rule read_full_frontN [where n = 2]) simp
  moreover from c1(2) obtain c2 where c2: "read_full (length u + 1) c1 = (u @ [of_nat (length p)], None, c2)" "pending c2 = p @ rest"
    "wr_data c2 = wr_data c1" "wr_room c2 = wr_room c1"
    by (rule read_full_frontN [where n = "length u + 1"]) simp
  moreover from c2(2) obtain c3 where "read_full (length p) c2 = (p, None, c3)" "pending c3 = rest" "wr_data c3 = wr_data c2" "wr_room c3 = wr_room c2"
    by (rule read_full_front)
  ultimately show "\<exists>c'. rfc_read_userpass c = (Inr \<lparr>up_Plen = of_nat (length p), up_Passwd = p\<rparr>, c')
      \<and> pending c' = rest \<and> wr_data c' = wr_data c \<and> wr_room c' = wr_room c"
    using assms by (simp add: rfc_read_userpass_def unat_of_nat)
qed

lemma rfc_reads_request:
  assumes "atyp = ATYPIPv4 \<and> length addr = 4 \<or> atyp = ATYPIPv6 \<and> length addr = 16" and "length port = 2"
  shows "reads rfc_read_request (wire_request cmd atyp addr port) (Inr \<lparr>rq_Cmd = cmd, rq_Atyp = atyp, rq_DstAddr = addr, rq_DstPort = port\<rparr>)"
  unfolding reads_def
proof (intro allI impI)
  fix c :: "byte conn" and rest
  assume "pending c = wire_request cmd atyp addr port @ rest"
  then have "pending c = [5, cmd, 0, atyp] @ (addr @ port) @ rest" by (simp add: wire_request_def)
  then obtain c1 where c1: "read_full 4 c = ([5, cmd, 0, atyp], None, c1)" "pending c1 = (addr @ port) @ rest" "wr_data c1 = wr_data c" "wr_room c1 = wr_room c"
    by (rule read_full_frontN [where n = 4]) simp
  obtain c2 where "read_full (length (addr @ port)) c1 = (addr @ port, None, c2)" "pending c2 = rest" "wr_data c2 = wr_data c1" "wr_room c2 = wr_room c1"
    by (rule read_full_front [OF c1(2)])
  with c1 assms show "\<exists>c'. rfc_read_request c = (Inr \<lparr>rq_Cmd = cmd, rq_Atyp = atyp, rq_DstAddr = addr, rq_DstPort = port\<rparr>, c')
      \<and> pending c' = rest \<and> wr_data c' = wr_data c \<and> wr_room c' = wr_room c"
    by (auto simp: rfc_read_request_def Let_def)
qed

lemma rfc_address:
  "Request_Address rfc_server \<lparr>rq_Cmd = cmd, rq_Atyp = ATYPIPv4, rq_DstAddr = be_bytes32 a, rq_DstPort = be_bytes16 p\<rparr> = IPv4_String a @ CHR '':'' # nat_digits (unat p)"
  "length ip = 16 \<Longrightarrow> Request_Address rfc_server \<lparr>rq_Cmd = cmd, rq_Atyp = ATYPIPv6, rq_DstAddr = ip, rq_DstPort = be_bytes16 p\<rparr>
     = JoinHostPort (IPv6_text ip) (nat_digits (unat p)) \<and> ParseAddr (IPv6_text ip) = Some ip"
  using JoinHostPort_v4 [of a "nat_digits (unat p)"] ParseAddr_IPv6_text [of ip] by (simp_all add: rfc_server_def IPv4_String_def)

lemma rfc_client_spec: "client_lib_spec (rfc_client answers)"
proof -
  have "only_reads rfc_read_pair" "only_reads rfc_read_reply"
    by (auto simp: only_reads_def rfc_read_pair_def rfc_read_reply_def split: prod.splits option.splits dest: read_full_wr_data)
  then show ?thesis
    by (simp add: client_lib_spec_def rfc_client_def writes_write_only wire_method_def rfc_reads_pair)
qed

lemma rfc_server_spec: "server_lib_spec rfc_server"
proof -
  have "NewNegotiationRequestFrom rfc_server = rfc_read_negotiation" "NegotiationReply_WriteTo rfc_server = (\<lambda>m. write_only (wire_method m))"
    "NewUserPassNegotiationRequestFrom rfc_server = rfc_read_userpass" "UserPassNegotiationReply_WriteTo rfc_server = (\<lambda>st. write_only [1, st])"
    "NewRequestFrom rfc_server = rfc_read_request" "Reply_WriteTo rfc_server = (\<lambda>rep a addr port. write_only ([5, rep, 0, a] @ addr @ port))"
    by (simp_all add: rfc_server_def mini_lib_def)
  then show ?thesis
    unfolding server_lib_spec_def
    by (intro conjI allI impI) (auto simp: rfc_address rfc_reads_negotiation rfc_reads_userpass intro: rfc_reads_request writes_write_only)
qed

section \<open>Properties\<close>

text \<open>
  Dialling end to end. A peer that has been given the service's token dials an address and a port
  over TCP. When the dial succeeds, then the server that reads what the client has sent, whether it
  asked for the password or knew the peer already, dials that address and that port and nothing else.
\<close>

theorem dial_reaches_target:
  fixes port :: uint16
  assumes "client_lib_spec C" and "server_lib_spec L"
    and "pw_UserName peer = le_bytes64 token" and "pw_Password peer = le_bytes64 token"
    and "de_NewStream C (pw_ID peer) = Inr s" and "wr_data s = []"
    and "pending s = wire_method (if socks5Precheck P ps pid then MethodUsernamePassword else MethodNone) @ answers"
    and "dialContext C peer ''tcp'' (IPv4_String a @ CHR '':'' # nat_digits (unat port)) = (Inr conn, Some s')"
    and "pending srv = wr_data s' @ rest" and "wr_room srv = None" and "AuthFunc token"
  shows "\<exists>res ps'. handler L P env AuthFunc ob sched pid srv ps = Return (Inr res, ps')
    \<and> rr_dialed res = [(''tcp'', IPv4_String a @ CHR '':'' # nat_digits (unat port))]"
proof -
  have h: "SplitHostPort (IPv4_String a @ CHR '':'' # nat_digits (unat port)) = Inr (IPv4_String a, nat_digits (unat port))"
    using SplitHostPort_Join [OF ParseAddr_String, of a "unat port"] by (simp add: JoinHostPort_v4)
  have "flow_request CmdConnect (be_bytes32 a) port = \<lparr>rq_Cmd = CmdConnect, rq_Atyp = ATYPIPv4, rq_DstAddr = be_bytes32 a, rq_DstPort = be_bytes16 port\<rparr>"
    by (simp add: flow_request_def flow_ip_def ip_To4_def be_bytes32_def)
  then have "Request_Address L (flow_request CmdConnect (be_bytes32 a) port) = IPv4_String a @ CHR '':'' # nat_digits (unat port)"
    using server_lib_laws(7) [OF assms(2)] by simp
  with dial_reaches [where udp = False and AuthFunc = AuthFunc and token = token, OF assms(1-7) _ h ParseAddr_String assms(9-11), of conn env ob sched] assms(8)
  show ?thesis by simp
qed

definition sample_peer :: PeerWithAuth where
  "sample_peer = NewDialer ''gw'' (le_bytes64 7) (le_bytes64 7)"

definition sample_answers :: "byte list" where
  "sample_answers = wire_method MethodUsernamePassword @ [1, 0] @ [5, 0, 0, 1, 0, 0, 0, 0, 0, 0]"

lemma sample_dial:
  obtains conn s' where "dialContext (rfc_client sample_answers) sample_peer ''tcp'' (IPv4_String 0x0A000001 @ CHR '':'' # nat_digits (unat (53 :: uint16)))
      = (Inr conn, Some s')"
    and "wr_data s' = wire_negotiation [2] @ wire_userpass (le_bytes64 7) (le_bytes64 7) @ wire_request 1 1 [10, 0, 0, 1] [0, 53]"
proof -
  have "case dialContext (rfc_client sample_answers) sample_peer ''tcp'' (IPv4_String 0x0A000001 @ CHR '':'' # nat_digits (unat (53 :: uint16))) of
      (Inr _, Some s') \<Rightarrow> wr_data s' = wire_negotiation [2] @ wire_userpass (le_bytes64 7) (le_bytes64 7) @ wire_request 1 1 [10, 0, 0, 1] [0, 53]
    | _ \<Rightarrow> False"
    by code_simp
  then show thesis using that by (auto split: prod.splits sum.splits option.splits)
qed

theorem dial_reaches_target_witness:
  "\<exists>res ps'. handler rfc_server fun_store open_env (\<lambda>x. x = 7) DirectDialer [] ''me''
      (conn_of (wire_negotiation [2] @ wire_userpass (le_bytes64 7) (le_bytes64 7) @ wire_request 1 1 [10, 0, 0, 1] [0, 53]))
      Map.empty = Return (Inr res, ps')
    \<and> rr_dialed res = [(''tcp'', ''10.0.0.1:53'')]"
proof -
  let ?srv = "conn_of (wire_negotiation [2] @ wire_userpass (le_bytes64 7) (le_bytes64 7) @ wire_request 1 1 [10, 0, 0, 1] [0, 53])"
  obtain conn s' where d: "dialContext (rfc_client sample_answers) sample_peer ''tcp'' (IPv4_String 0x0A000001 @ CHR '':'' # nat_digits (unat (53 :: uint16)))
      = (Inr conn, Some s')" and w: "pending ?srv = wr_data s' @ []"
    using sample_dial by (metis append_Nil2 pending_conn_of)
  have t: "IPv4_String 0x0A000001 @ CHR '':'' # nat_digits (unat (53 :: uint16)) = ''10.0.0.1:53''" by code_simp
  have "\<exists>res ps'. handler rfc_server fun_store open_env (\<lambda>x. x = 7) DirectDialer [] ''me'' ?srv Map.empty = Return (Inr res, ps')
    \<and> rr_dialed res = [(''tcp'', IPv4_String 0x0A000001 @ CHR '':'' # nat_digits (unat (53 :: uint16)))]"
    by (rule dial_reaches_target [where s = "conn_of sample_answers" and answers = "[1, 0] @ [5, 0, 0, 1, 0, 0, 0, 0, 0, 0]", OF rfc_client_spec rfc_server_spec _ _ _ _ _ d w])
      (simp_all add: sample_peer_def NewDialer_def rfc_client_def fun_store_def socks5Precheck_def sample_answers_def conn_of_def pending_def)
  with t show ?thesis by simp
qed

text \<open>
  A login that the server refuses leaves the stream as it is: neither reset nor closed, and no longer
  reachable by the caller.
\<close>

theorem refused_login_leaks_stream:
  assumes "3 \<le> length network" and "de_NewStream C (pw_ID peer) = Inr s"
    and "NegotiationRequest_WriteTo C [MethodUsernamePassword] s = (None, s1)"
    and "NewNegotiationReplyFrom C s1 = (Inr MethodUsernamePassword, s2)"
    and "UserPassNegotiationRequest_WriteTo C (pw_UserName peer) (pw_Password peer) s2 = (None, s3)"
    and "NewUserPassNegotiationReplyFrom C s3 = (Inr status, s4)" and "status \<noteq> UserPassStatusSuccess"
  shows "dialContext C peer network address = (Inl (de_ErrUserPassAuth C), Some s4)
    \<and> Dialer_DialUDP C peer network localAddr remoteAddr = (Inl (de_ErrUserPassAuth C), Some s4)"
  using assms by (simp add: dialContext_def Dialer_DialUDP_def client_negotiate_def)

text \<open>
  A packet connection cannot ask for a local port. \<open>net.IPv4zero\<close> has sixteen bytes and is announced
  as an IPv4 address, so the server reads the address and the port 0.0.0.0:0 out of its front, and the
  rest of it and the port asked for stay on the stream, where packets are expected.
\<close>

theorem DialUDP_loses_port:
  fixes port :: uint16
  assumes "client_lib_spec C" and "server_lib_spec L"
    and "pw_UserName peer = le_bytes64 token" and "pw_Password peer = le_bytes64 token"
    and "de_NewStream C (pw_ID peer) = Inr s" and "wr_data s = []"
    and "pending s = wire_method MethodUsernamePassword @ answers"
    and "Dialer_DialUDP C peer ''udp'' (IPv4_String a @ CHR '':'' # nat_digits (unat port)) remoteAddr = (Inr conn, Some s')"
    and "pending srv = wr_data s' @ rest" and "wr_room srv = None" and "AuthFunc token"
  shows "\<exists>t ps' t'. socks5Negotiate L P AuthFunc pid True srv ps = Return (None, t, ps')
    \<and> NewRequestFrom L t = (Inr \<lparr>rq_Cmd = CmdPacketConn, rq_Atyp = ATYPIPv4, rq_DstAddr = [0, 0, 0, 0], rq_DstPort = [0, 0]\<rparr>, t')
    \<and> pending t' = [0, 0, 0, 0, 0xff, 0xff, 0, 0, 0, 0] @ be_bytes16 port @ rest"
proof -
  let ?addr = "IPv4_String a @ CHR '':'' # nat_digits (unat port)"
  let ?auth = "wire_userpass (le_bytes64 token) (le_bytes64 token)"
  let ?req = "wire_request CmdPacketConn ATYPIPv4 [0, 0, 0, 0] [0, 0]"
  let ?more = "[0, 0, 0, 0, 0xff, 0xff, 0, 0, 0, 0] @ be_bytes16 port @ rest"
  obtain s1 where s1: "client_negotiate C peer False s = (None, s1)"
    using assms(5,8) by (auto simp: Dialer_DialUDP_def split: prod.splits option.splits)
  obtain reply where rq: "client_request C CmdPacketConn (\<lambda>_. IPv4zero) (\<lambda>_. IPv6zero) ''udp'' ?addr s1 = (Inr reply, s')"
    using assms(5,8) s1 by (auto simp: Dialer_DialUDP_def split: prod.splits sum.splits)
  have sent1: "wr_data s1 = wire_negotiation [MethodUsernamePassword] @ ?auth"
    using client_negotiate_sent [OF assms(1) s1 assms(7)] assms(3,4,6) by simp
  have host: "ip_To4 (be_bytes32 a) \<noteq> []" by (simp add: ip_To4_def be_bytes32_def)
  have "wr_data s' = wr_data s1 @ wire_request CmdPacketConn ATYPIPv4 IPv4zero (be_bytes16 port)"
    using client_request_sent [OF assms(1) rq SplitHostPort_host_port _ _ LookupPort_digits]
      IPv4_String_chars digits_disjoint host by (simp add: client_addr_def ParseAddr_String)
  moreover have "wire_request CmdPacketConn ATYPIPv4 IPv4zero (be_bytes16 port) @ rest = ?req @ ?more"
    by (simp add: wire_request_def IPv4zero_def eval_nat_numeral)
  ultimately have p: "pending srv = wire_negotiation [MethodUsernamePassword] @ (if True then ?auth else []) @ ?req @ ?more"
    using sent1 assms(9) by simp
  obtain t ps' where t: "socks5Negotiate L P AuthFunc pid True srv ps = Return (None, t, ps')" "pending t = ?req @ ?more"
    using server_negotiate_reads [where need = True and rest = "?req @ ?more" and AuthFunc = AuthFunc and token = token, OF assms(2,10) p assms(11)]
    by metis
  have R: "reads (NewRequestFrom L) ?req (Inr \<lparr>rq_Cmd = CmdPacketConn, rq_Atyp = ATYPIPv4, rq_DstAddr = [0, 0, 0, 0], rq_DstPort = [0, 0]\<rparr>)"
    by (rule server_lib_laws(6) [OF assms(2)]) simp_all
  from readsE [OF R t(2)] t(1) show ?thesis by metis
qed

theorem DialUDP_loses_port_witness:
  "\<exists>t ps' t'. socks5Negotiate rfc_server fun_store (\<lambda>x. x = 7) ''me'' True
      (conn_of (wire_negotiation [2] @ wire_userpass (le_bytes64 7) (le_bytes64 7) @ wire_request 5 1 IPv4zero [0, 53])) Map.empty
      = Return (None, t, ps')
    \<and> NewRequestFrom rfc_server t = (Inr \<lparr>rq_Cmd = 5, rq_Atyp = 1, rq_DstAddr = [0, 0, 0, 0], rq_DstPort = [0, 0]\<rparr>, t')
    \<and> pending t' = [0, 0, 0, 0, 0xff, 0xff, 0, 0, 0, 0] @ be_bytes16 53 @ []"
proof -
  let ?sent = "wire_negotiation [2] @ wire_userpass (le_bytes64 7) (le_bytes64 7) @ wire_request 5 1 IPv4zero [0, 53]"
  have "case Dialer_DialUDP (rfc_client sample_answers) sample_peer ''udp'' (IPv4_String 0 @ CHR '':'' # nat_digits (unat (53 :: uint16))) [] of
      (Inr _, Some s') \<Rightarrow> wr_data s' = ?sent | _ \<Rightarrow> False"
    by code_simp
  then obtain conn s' where d: "Dialer_DialUDP (rfc_client sample_answers) sample_peer ''udp''
      (IPv4_String 0 @ CHR '':'' # nat_digits (unat (53 :: uint16))) [] = (Inr conn, Some s')" and w: "pending (conn_of ?sent) = wr_data s' @ []"
    by (auto split: prod.splits sum.splits option.splits)
  show ?thesis
    by (rule DialUDP_loses_port [where s = "conn_of sample_answers" and answers = "[1, 0] @ [5, 0, 0, 1, 0, 0, 0, 0, 0, 0]", OF rfc_client_spec rfc_server_spec _ _ _ _ _ d w])
      (simp_all add: sample_peer_def NewDialer_def rfc_client_def sample_answers_def conn_of_def pending_def)
qed

end
