(* ===== verification/Agent.thy ===== *)
theory Agent
  imports SocksClient Startup
begin

text \<open>
  The package \<open>agent\<close> (\<open>agent.go\<close>, \<open>proxy.go\<close>, \<open>export.go\<close>): a client without a web interface, which keeps port
  map applications and a list of proxy gateways, listens for the applications and sends the flows of a
  tun device through one of the gateways. It shares the application manager, the port mapping and the
  authorisation with the gateway.
\<close>

section \<open>Proxy gateways\<close>

record proxyGateway =
  pg_peer :: PeerWithAuth
  pg_Name :: string
  pg_PeerID :: string
  pg_Token :: uint64
  pg_Route :: string
  pg_Dns :: string

definition zero_proxyGateway :: proxyGateway where
  "zero_proxyGateway = \<lparr>pg_peer = zero_peer, pg_Name = [], pg_PeerID = [], pg_Token = 0, pg_Route = [], pg_Dns = []\<rparr>"

definition enc_proxyGateway :: "proxyGateway \<Rightarrow> json" where
  "enc_proxyGateway p = JObj
     [(''name'', JStr (pg_Name p)), (''peer_id'', JStr (pg_PeerID p)), (''token'', JNum (FormatUint (pg_Token p))),
      (''route'', JStr (pg_Route p)), (''dns'', JStr (pg_Dns p))]"

text \<open>A number goes into a \<open>uint64\<close> when its text is an unsigned integer of 64 bits.\<close>

definition uint_field :: "((uint64 \<Rightarrow> uint64) \<Rightarrow> 's \<Rightarrow> 's) \<Rightarrow> json \<Rightarrow> 's \<Rightarrow> 's option" where
  "uint_field upd j s =
     (case j of
        JNull \<Rightarrow> Some s
      | JNum x \<Rightarrow> (case ParseUint x of (n, None) \<Rightarrow> Some (upd (\<lambda>_. of_nat n) s) | _ \<Rightarrow> None)
      | _ \<Rightarrow> None)"

definition proxyGateway_fields :: "proxyGateway field list" where
  "proxyGateway_fields =
     [(''name'', str_field pg_Name_update), (''peer_id'', str_field pg_PeerID_update), (''token'', uint_field pg_Token_update),
      (''route'', str_field pg_Route_update), (''dns'', str_field pg_Dns_update)]"

definition dec_proxyGateway :: "json \<Rightarrow> proxyGateway option" where
  "dec_proxyGateway j = decode_struct proxyGateway_fields j zero_proxyGateway"

text \<open>A list of pointers: \<open>null\<close> is the nil slice, a \<open>null\<close> element a nil pointer.\<close>

fun dec_pointers :: "json list \<Rightarrow> proxyGateway option list option" where
  "dec_pointers [] = Some []"
| "dec_pointers (j # js) =
     (case ((if j = JNull then Some None else map_option Some (dec_proxyGateway j)), dec_pointers js) of
        (Some p, Some ps) \<Rightarrow> Some (p # ps)
      | _ \<Rightarrow> None)"

definition dec_proxys :: "json \<Rightarrow> proxyGateway option list option option" where
  "dec_proxys j = (case j of JNull \<Rightarrow> Some None | JArr js \<Rightarrow> map_option Some (dec_pointers js) | _ \<Rightarrow> None)"

text \<open>The manager: its list, \<open>None\<close> the nil slice, and its database.\<close>

type_synonym 'db proxyMgr = "proxyGateway list option \<times> 'db"

definition keyProxys :: string where
  "keyProxys = ''proxys''"

definition listed :: "proxyGateway list option \<Rightarrow> proxyGateway list" where
  "listed ps = (case ps of None \<Rightarrow> [] | Some xs \<Rightarrow> xs)"

definition credentials :: "string \<Rightarrow> uint64 \<Rightarrow> PeerWithAuth" where
  "credentials pid token = \<lparr>pw_ID = pid, pw_UserName = le_bytes64 token, pw_Password = le_bytes64 token\<rparr>"

definition fill_proxy :: "p2p_env \<Rightarrow> proxyGateway \<Rightarrow> proxyGateway" where
  "fill_proxy h p =
     (case peer_Decode h (pg_PeerID p) of
        Inl _ \<Rightarrow> p\<lparr>pg_peer := (pg_peer p)\<lparr>pw_ID := []\<rparr>\<rparr>
      | Inr pid \<Rightarrow> p\<lparr>pg_peer := credentials pid (pg_Token p)\<rparr>)"

definition loadProxys :: "'db leveldb \<Rightarrow> p2p_env \<Rightarrow> 'db proxyMgr \<Rightarrow> (error + 'db proxyMgr) outcome" where
  "loadProxys D h m =
     (case db_Get D (snd m) keyProxys of
        Inl err \<Rightarrow> Return (if err \<noteq> ErrNotFound then Inl err else Inr m)
      | Inr v \<Rightarrow>
          (case unmarshal dec_proxys v of
             None \<Rightarrow> Return (Inl ErrJSON)
           | Some None \<Rightarrow> Return (Inr (None, snd m))
           | Some (Some ps) \<Rightarrow>
               if None \<in> set ps then Panic else Return (Inr (Some (map (fill_proxy h \<circ> the) ps), snd m))))"

definition saveProxys :: "'db leveldb \<Rightarrow> 'db proxyMgr \<Rightarrow> error option \<times> 'db proxyMgr" where
  "saveProxys D m =
     (case fst m of
        None \<Rightarrow> (case db_Delete D (snd m) keyProxys of (err, db') \<Rightarrow> (err, None, db'))
      | Some ps \<Rightarrow>
          (case db_Put D (snd m) keyProxys (jprint (JArr (map enc_proxyGateway ps))) of (err, db') \<Rightarrow> (err, Some ps, db')))"

definition addProxy :: "'db leveldb \<Rightarrow> proxyGateway \<Rightarrow> 'db proxyMgr \<Rightarrow> error option \<times> 'db proxyMgr" where
  "addProxy D p m = saveProxys D (Some (listed (fst m) @ [p]), snd m)"

definition getProxyByIndex :: "int \<Rightarrow> 'db proxyMgr \<Rightarrow> proxyGateway option outcome" where
  "getProxyByIndex idx m =
     (if int (length (listed (fst m))) \<le> idx then Return None
      else if idx < 0 then Panic
      else Return (Some (listed (fst m) ! nat idx)))"

text \<open>The copies of the list; an empty one is the nil slice.\<close>

definition getProxys :: "'db proxyMgr \<Rightarrow> proxyGateway list option" where
  "getProxys m = (if listed (fst m) = [] then None else Some (listed (fst m)))"

definition delProxyByIndex :: "'db leveldb \<Rightarrow> int \<Rightarrow> 'db proxyMgr \<Rightarrow> (error option \<times> 'db proxyMgr) outcome" where
  "delProxyByIndex D index m =
     (let ps = listed (fst m) in
      if int (length ps) \<le> index then Return (None, m)
      else if index < 0 then Panic
      else Return (saveProxys D (Some (take (nat index) ps @ drop (nat index + 1) ps), snd m)))"

section \<open>The agent\<close>

text \<open>
  \<open>ag_dbOpen\<close> says whether \<open>ag.db\<close> is set; \<open>ag_am\<close> and \<open>ag_proxys\<close> are \<open>None\<close> while the managers are nil.
  \<open>ag_dialer\<close> is what \<open>tunstack.SetProxyDialer\<close> was given last.
\<close>

record 'db agent =
  ag_p2p :: bool
  ag_pm :: "Portmap option"
  ag_db :: 'db
  ag_dbOpen :: bool
  ag_am :: "(uint64, PortmapApp) gomap option option"
  ag_proxys :: "proxyGateway list option option"
  ag_running :: bool
  ag_dialer :: "PeerWithAuth option"

record 'db agent_env =
  ae_D :: "'db leveldb"
  ae_start :: "'db start_env"
  ae_p2p :: p2p_env
  ae_listen :: listen_env
  ae_visit :: "(uint64, PortmapApp) gomap \<Rightarrow> (uint64, PortmapApp) gomap"
  ae_Error :: "error \<Rightarrow> string"
  ae_tunStart :: "string \<Rightarrow> error option"
  ae_tunStop :: "error option"
  ae_Ping :: "string \<Rightarrow> error option"

definition agentIns :: "'db \<Rightarrow> 'db agent" where
  "agentIns nodb = \<lparr>ag_p2p = False, ag_pm = None, ag_db = nodb, ag_dbOpen = False, ag_am = None, ag_proxys = None,
                    ag_running = False, ag_dialer = None\<rparr>"

text \<open>Once closed, the database refuses everything; the managers still hold it.\<close>

definition closed_db :: "'db leveldb" where
  "closed_db = \<lparr>db_Get = (\<lambda>db k. Inl (ErrNew ''leveldb: closed'')), db_Put = (\<lambda>db k v. (Some (ErrNew ''leveldb: closed''), db)),
                db_Delete = (\<lambda>db k. (Some (ErrNew ''leveldb: closed''), db))\<rparr>"

definition store_of :: "'db agent_env \<Rightarrow> 'db agent \<Rightarrow> 'db leveldb" where
  "store_of E ag = (if ag_dbOpen ag then ae_D E else closed_db)"

text \<open>A call of the application manager; a nil manager panics.\<close>

definition with_am ::
  "('db PortmapAppMgr \<Rightarrow> (error option \<times> 'db PortmapAppMgr) outcome) \<Rightarrow> 'db agent \<Rightarrow> (error option \<times> 'db agent) outcome" where
  "with_am call ag =
     (case ag_am ag of
        None \<Rightarrow> Panic
      | Some apps \<Rightarrow>
          (case call (apps, ag_db ag) of
             Panic \<Rightarrow> Panic
           | Return (err, m) \<Rightarrow> Return (err, ag\<lparr>ag_am := Some (fst m), ag_db := snd m\<rparr>)))"

definition agent_bootstrap :: string where
  "agent_bootstrap = ''/ip6/2402:4e00:101a:d400:0:9a33:9051:1549/tcp/2025/p2p/12D3KooWPqvupWVWbcjwKkvfBwPi19KerGwEfmWxdyrqRd7AtCaa''"

fun agent_listeners :: "'db agent_env \<Rightarrow> PortmapApp list \<Rightarrow> 'db agent \<Rightarrow> 'db agent outcome" where
  "agent_listeners E [] ag = Return ag"
| "agent_listeners E (a # apps) ag =
     (if \<not> pa_Running a then agent_listeners E apps ag
      else case ag_pm ag of
        None \<Rightarrow> Panic
      | Some pm \<Rightarrow>
          (case AddListener (ae_listen E) (pa_Network a) (pa_LocalIP a) (pa_LocalPort a) pm of
             ((_, None), pm') \<Rightarrow> agent_listeners E apps (ag\<lparr>ag_pm := Some pm'\<rparr>)
           | ((_, Some err), pm') \<Rightarrow>
               (case with_am (UpdatePortmapApp (store_of E ag) (a\<lparr>pa_Err := [], pa_Running := False\<rparr>)) (ag\<lparr>ag_pm := Some pm'\<rparr>) of
                  Panic \<Rightarrow> Panic
                | Return (_, ag') \<Rightarrow> agent_listeners E apps ag')))"

definition initAppMgr :: "'db agent_env \<Rightarrow> 'db agent \<Rightarrow> (error + PortmapApp list) \<times> 'db agent" where
  "initAppMgr E ag =
     (let m = NewPortmapAppMgr (ag_db ag)
      in case LoadPortmapApps (store_of E ag) (ae_visit E) m of
           Inl err \<Rightarrow> (Inl err, ag\<lparr>ag_am := Some (fst m)\<rparr>)
         | Inr (apps, m') \<Rightarrow> (Inr apps, ag\<lparr>ag_am := Some (fst m')\<rparr>))"

definition startPortmap :: "'db agent_env \<Rightarrow> 'db agent \<Rightarrow> (error option \<times> 'db agent) outcome" where
  "startPortmap E ag =
     (case initAppMgr E ag of
        (Inl err, ag1) \<Rightarrow> Return (Some err, ag1)
      | (Inr apps, ag1) \<Rightarrow>
          (case agent_listeners E apps (ag1\<lparr>ag_pm := Some \<lparr>pm_listeners = [], pm_closed = []\<rparr>\<rparr>) of
             Panic \<Rightarrow> Panic
           | Return ag2 \<Rightarrow> Return (None, ag2)))"

definition agent_start :: "'db agent_env \<Rightarrow> bool \<Rightarrow> 'db agent \<Rightarrow> (error option \<times> 'db agent) outcome" where
  "agent_start E withPortmap ag =
     (if ag_running ag then Return (None, ag)
      else case open_db (ae_start E) of
        Inl err \<Rightarrow> Return (Some err, ag)
      | Inr db \<Rightarrow>
          let ag1 = ag\<lparr>ag_db := db, ag_dbOpen := True\<rparr>
          in case load_seed (ae_start E) of
               Inl ret \<Rightarrow> Return (ret, ag1)
             | Inr us \<Rightarrow>
                 (case se_NewP2PEngine (ae_start E) 0 us [agent_bootstrap] of
                    Inl err \<Rightarrow> Return (Some err, ag1\<lparr>ag_p2p := False\<rparr>)
                  | Inr _ \<Rightarrow>
                      (case (if withPortmap then startPortmap E (ag1\<lparr>ag_p2p := True\<rparr>) else Return (None, ag1\<lparr>ag_p2p := True\<rparr>)) of
                         Panic \<Rightarrow> Panic
                       | Return (_, ag2) \<Rightarrow>
                           (case loadProxys (store_of E ag2) (ae_p2p E) (None, ag_db ag2) of
                              Panic \<Rightarrow> Panic
                            | Return (Inl err) \<Rightarrow> Return (Some err, ag2\<lparr>ag_proxys := Some None\<rparr>)
                            | Return (Inr m) \<Rightarrow> Return (None, ag2\<lparr>ag_proxys := Some (fst m), ag_running := True\<rparr>)))))"

text \<open>Closing lets go of the port mapping (its listeners are closed with it), of the engine and of the database.\<close>

definition agent_close :: "'db agent \<Rightarrow> 'db agent" where
  "agent_close ag = ag\<lparr>ag_pm := None, ag_p2p := False, ag_dbOpen := False\<rparr>"

section \<open>Applications\<close>

text \<open>\<open>rnd\<close> is what \<open>rand.Uint64\<close> returns.\<close>

definition agent_addApp :: "'db agent_env \<Rightarrow> uint64 \<Rightarrow> PortmapApp \<Rightarrow> 'db agent \<Rightarrow> (error option \<times> 'db agent) outcome" where
  "agent_addApp E rnd a0 ag =
     (let a = a0\<lparr>pa_ID := rnd\<rparr> in
      if \<not> ag_p2p ag then Panic
      else case fst (ResourceAuthorize (ae_p2p E) (pa_PeerID a)
             \<lparr>aq_Type = AuthorizeTypePortmap, aq_Portmap = Some \<lparr>ai_ResourceID = pa_ResID a\<rparr>, aq_Proxy = None\<rparr>) of
        Inl err \<Rightarrow> Return (Some err, ag)
      | Inr rsp \<Rightarrow>
          if as_Err rsp \<noteq> [] then Return (Some (ErrNew (as_Err rsp)), ag)
          else (case as_Portmap rsp of
                  None \<Rightarrow> Return (Some (ErrNew ''portmap resource auth failed''), ag)
                | Some p \<Rightarrow>
                    let a1 = (if ap_IsTrial p then a else a\<lparr>pa_TargetAddr := [], pa_TargetPort := 0\<rparr>)\<lparr>pa_PeerName := as_NodeName rsp\<rparr>
                    in if \<not> pa_Running a1 then with_am (UpdatePortmapApp (store_of E ag) a1) ag
                       else (case ag_pm ag of
                               None \<Rightarrow> Panic
                             | Some pm \<Rightarrow>
                                 (case AddListener (ae_listen E) (pa_Network a1) (pa_LocalIP a1) (pa_LocalPort a1) pm of
                                    ((_, err), pm') \<Rightarrow>
                                      let a2 = (case err of None \<Rightarrow> a1 | Some e \<Rightarrow> a1\<lparr>pa_Running := False, pa_Err := ae_Error E e\<rparr>)
                                      in with_am (UpdatePortmapApp (store_of E ag) a2) (ag\<lparr>ag_pm := Some pm'\<rparr>)))))"

text \<open>
  \<open>updateAPP\<close>: the copy of the stored application is overwritten before it is compared with the new one.
\<close>

definition updateAPP :: "'db agent_env \<Rightarrow> PortmapApp \<Rightarrow> 'db agent \<Rightarrow> (error option \<times> 'db agent) outcome" where
  "updateAPP E a ag =
     (if pa_ID a = 0 then Return (Some (ErrNew ''app id is empty''), ag)
      else case ag_am ag of
        None \<Rightarrow> Panic
      | Some apps \<Rightarrow>
          (case GetPortmapApp (ID_Uint64 (pa_ID a)) (apps, ag_db ag) of
             None \<Rightarrow> Return (Some (ErrNew ''app not exists''), ag)
           | Some old \<Rightarrow>
               let e1 = old\<lparr>pa_Running := pa_Running a, pa_Name := pa_Name a, pa_Network := pa_Network a,
                            pa_LocalIP := pa_LocalIP a, pa_LocalPort := pa_LocalPort a\<rparr>;
                   exist = (if pa_TargetAddr e1 \<noteq> [] then e1\<lparr>pa_TargetAddr := pa_TargetAddr a, pa_TargetPort := pa_TargetPort a\<rparr> else e1)
               in case ag_pm ag of
                    None \<Rightarrow> Panic
                  | Some pm \<Rightarrow>
                      if pa_Running a then
                        let pm1 = (if pa_Running exist \<and> pa_Network exist \<noteq> pa_Network a \<or> pa_LocalIP exist \<noteq> pa_LocalIP a
                                      \<or> pa_LocalPort exist \<noteq> pa_LocalPort a
                                   then DeleteListener (pa_Network exist) (pa_LocalIP exist) (pa_LocalPort exist) pm else pm)
                        in (case AddListener (ae_listen E) (pa_Network a) (pa_LocalIP a) (pa_LocalPort a) pm1 of
                              ((_, err), pm') \<Rightarrow>
                                let e2 = (case err of None \<Rightarrow> exist | Some e \<Rightarrow> exist\<lparr>pa_Running := False, pa_Err := ae_Error E e\<rparr>)
                                in with_am (UpdatePortmapApp (store_of E ag) e2) (ag\<lparr>ag_pm := Some pm'\<rparr>))
                      else with_am (UpdatePortmapApp (store_of E ag) exist)
                             (ag\<lparr>ag_pm := Some (DeleteListener (pa_Network a) (pa_LocalIP a) (pa_LocalPort a) pm)\<rparr>)))"

definition delApp :: "'db agent_env \<Rightarrow> PortmapApp \<Rightarrow> 'db agent \<Rightarrow> (error option \<times> 'db agent) outcome" where
  "delApp E a ag =
     (if \<not> ag_running ag then Return (Some (ErrNew ''agent not running''), ag)
      else case ag_pm ag of
        None \<Rightarrow> Panic
      | Some pm \<Rightarrow>
          with_am (\<lambda>m. Return (pam_DelPortmapApp (store_of E ag) (ID_Uint64 (pa_ID a)) m))
            (ag\<lparr>ag_pm := Some (DeleteListener (pa_Network a) (pa_LocalIP a) (pa_LocalPort a) pm)\<rparr>))"

definition getApps :: "'db agent_env \<Rightarrow> 'db agent \<Rightarrow> PortmapApp list option outcome" where
  "getApps E ag =
     (if \<not> ag_running ag then Return None
      else case ag_am ag of
        None \<Rightarrow> Panic
      | Some apps \<Rightarrow> Return (Some (GetPortmapApps (ae_visit E) (apps, ag_db ag))))"

section \<open>Proxying\<close>

definition with_proxys ::
  "('db proxyMgr \<Rightarrow> (error option \<times> 'db proxyMgr) outcome) \<Rightarrow> 'db agent \<Rightarrow> (error option \<times> 'db agent) outcome" where
  "with_proxys call ag =
     (case ag_proxys ag of
        None \<Rightarrow> Panic
      | Some ps \<Rightarrow>
          (case call (ps, ag_db ag) of
             Panic \<Rightarrow> Panic
           | Return (err, m) \<Rightarrow> Return (err, ag\<lparr>ag_proxys := Some (fst m), ag_db := snd m\<rparr>)))"

definition addProxyGateway :: "'db agent_env \<Rightarrow> string \<Rightarrow> string \<Rightarrow> 'db agent \<Rightarrow> (error option \<times> 'db agent) outcome" where
  "addProxyGateway E peerID token ag =
     (case peer_Decode (ae_p2p E) peerID of
        Inl err \<Rightarrow> Return (Some err, ag)
      | Inr pid \<Rightarrow>
          (case ParseUint token of
             (_, Some err) \<Rightarrow> Return (Some err, ag)
           | (n, None) \<Rightarrow>
               let uToken = of_nat n
               in if \<not> ag_p2p ag then Panic
                  else (case fst (ResourceAuthorize (ae_p2p E) peerID
                          \<lparr>aq_Type = AuthorizeTypeProxy, aq_Portmap = None, aq_Proxy = Some \<lparr>ai_Token = uToken, ai_Route = [], ai_Dns = []\<rparr>\<rparr>) of
                     Inl err \<Rightarrow> Return (Some err, ag)
                   | Inr rsp \<Rightarrow>
                       if as_Err rsp \<noteq> [] then Return (Some (ErrNew (as_Err rsp)), ag)
                       else (case as_Proxy rsp of
                               None \<Rightarrow> Return (Some (ErrNew ''proxy auth failed''), ag)
                             | Some p \<Rightarrow>
                                 with_proxys (\<lambda>m. Return (addProxy (store_of E ag)
                                   \<lparr>pg_peer = credentials pid uToken, pg_Name = as_NodeName rsp, pg_PeerID = peerID, pg_Token = uToken,
                                    pg_Route = ap_Route p, pg_Dns = ap_Dns p\<rparr> m)) ag))))"

definition delProxyGateway :: "'db agent_env \<Rightarrow> int \<Rightarrow> 'db agent \<Rightarrow> (error option \<times> 'db agent) outcome" where
  "delProxyGateway E index ag = with_proxys (delProxyByIndex (store_of E ag) index) ag"

definition getProxyGatewayList :: "'db agent \<Rightarrow> proxyGateway list option outcome" where
  "getProxyGatewayList ag =
     (case ag_proxys ag of None \<Rightarrow> Panic | Some ps \<Rightarrow> Return (getProxys (ps, ag_db ag)))"

text \<open>Exported names: the unexported \<open>peer\<close> is not part of the text.\<close>

definition GetProxyGatewaysJson :: "'db agent \<Rightarrow> string outcome" where
  "GetProxyGatewaysJson ag =
     (case getProxyGatewayList ag of
        Panic \<Rightarrow> Panic
      | Return None \<Rightarrow> Return []
      | Return (Some l) \<Rightarrow> Return (jprint (JArr (map enc_proxyGateway l))))"

definition proxy_at :: "int \<Rightarrow> 'db agent \<Rightarrow> proxyGateway option outcome" where
  "proxy_at idx ag = (case ag_proxys ag of None \<Rightarrow> Panic | Some ps \<Rightarrow> getProxyByIndex idx (ps, ag_db ag))"

definition startTunProxy :: "'db agent_env \<Rightarrow> string \<Rightarrow> int \<Rightarrow> 'db agent \<Rightarrow> (error option \<times> 'db agent) outcome" where
  "startTunProxy E tunDevice gatewayIdx ag =
     (case proxy_at gatewayIdx ag of
        Panic \<Rightarrow> Panic
      | Return None \<Rightarrow> Return (Some (ErrNew ''gateway not found''), ag)
      | Return (Some pg) \<Rightarrow>
          (case ae_tunStart E tunDevice of
             Some err \<Rightarrow> Return (Some err, ag)
           | None \<Rightarrow>
               if \<not> ag_p2p ag then Panic
               else Return (None, ag\<lparr>ag_dialer := Some (NewDialer (pw_ID (pg_peer pg)) (pw_UserName (pg_peer pg)) (pw_Password (pg_peer pg)))\<rparr>)))"

definition stopTunProxy :: "'db agent_env \<Rightarrow> 'db agent \<Rightarrow> error option \<times> 'db agent" where
  "stopTunProxy E ag = (ae_tunStop E, ag\<lparr>ag_dialer := None\<rparr>)"

definition pingProxyGateway :: "'db agent_env \<Rightarrow> int \<Rightarrow> 'db agent \<Rightarrow> error option outcome" where
  "pingProxyGateway E idx ag =
     (case proxy_at idx ag of
        Panic \<Rightarrow> Panic
      | Return None \<Rightarrow> Return (Some (ErrNew ''gateway not found''))
      | Return (Some pg) \<Rightarrow> if \<not> ag_p2p ag then Panic else Return (ae_Ping E (pw_ID (pg_peer pg))))"

text \<open>
  The dialer of the tun stack, on the network and the destination of a flow: what it asks of the SOCKS
  dialer. A destination is given by its printed address; \<open>net.JoinHostPort\<close> puts one with a colon in brackets.
\<close>

definition proxyDialer_DialContext ::
  "dial_env \<Rightarrow> PeerWithAuth \<Rightarrow> (string \<times> string \<times> uint16) option \<Rightarrow> (error + streamConn) \<times> byte conn option" where
  "proxyDialer_DialContext C d metadata =
     (case metadata of
        None \<Rightarrow> (Inl (ErrNew ''metadata is nil''), None)
      | Some (network, dstIP, dstPort) \<Rightarrow> Dialer_DialContext C d network (JoinHostPort dstIP (nat_digits (unat dstPort))))"

definition proxyDialer_DialUDP ::
  "dial_env \<Rightarrow> PeerWithAuth \<Rightarrow> (string \<times> string \<times> uint16) option \<Rightarrow> (error + streamConn) \<times> byte conn option" where
  "proxyDialer_DialUDP C d metadata =
     (case metadata of
        None \<Rightarrow> (Inl (ErrNew ''metadata is nil''), None)
      | Some (network, dstIP, dstPort) \<Rightarrow> DialUDPConn C d network (dstIP @ CHR '':'' # nat_digits (unat dstPort)))"

section \<open>The list of gateways as a durable list\<close>

declare nat_digits.simps [simp del]

definition valid_proxy :: "p2p_env \<Rightarrow> proxyGateway \<Rightarrow> bool" where
  "valid_proxy h p \<longleftrightarrow> utf8_valid (pg_Name p) \<and> utf8_valid (pg_PeerID p) \<and> utf8_valid (pg_Route p) \<and> utf8_valid (pg_Dns p)
     \<and> (\<exists>pid. peer_Decode h (pg_PeerID p) = Inr pid \<and> pg_peer p = credentials pid (pg_Token p))"

lemma FormatUint_Itoa: "FormatUint x = Itoa (uint x)"
  by (simp add: FormatUint_def Itoa_def)

lemma dec_enc_proxy:
  assumes "valid_proxy h p"
  shows "\<exists>q. dec_proxyGateway (enc_proxyGateway p) = Some q \<and> fill_proxy h q = p" and "enc_proxyGateway p \<noteq> JNull"
    and "wf_json (enc_proxyGateway p)" and "json_depth (enc_proxyGateway p) = 1"
proof -
  have "dec_proxyGateway (enc_proxyGateway p) = Some (p\<lparr>pg_peer := zero_peer\<rparr>)"
    by (simp add: dec_proxyGateway_def enc_proxyGateway_def proxyGateway_fields_def decode_struct_def find_field_def
        str_field_def uint_field_def zero_proxyGateway_def)
  moreover have "fill_proxy h (p\<lparr>pg_peer := zero_peer\<rparr>) = p"
    using assms by (auto simp: valid_proxy_def fill_proxy_def)
  ultimately show "\<exists>q. dec_proxyGateway (enc_proxyGateway p) = Some q \<and> fill_proxy h q = p" by blast
  show "enc_proxyGateway p \<noteq> JNull" "wf_json (enc_proxyGateway p)" "json_depth (enc_proxyGateway p) = 1"
    using assms FormatUint_Itoa [of "pg_Token p"] by (auto simp: enc_proxyGateway_def valid_proxy_def)
qed

text \<open>What the manager does through a history, and what a list does.\<close>

datatype list_op = LAdd proxyGateway | LDel nat | LRestart

fun proxys_step :: "'db leveldb \<Rightarrow> p2p_env \<Rightarrow> list_op \<Rightarrow> 'db proxyMgr \<Rightarrow> 'db proxyMgr outcome" where
  "proxys_step D h (LAdd p) m = Return (snd (addProxy D p m))"
| "proxys_step D h (LDel i) m = (case delProxyByIndex D (int i) m of Panic \<Rightarrow> Panic | Return (_, m') \<Rightarrow> Return m')"
| "proxys_step D h LRestart m =
     (case loadProxys D h (None, snd m) of Panic \<Rightarrow> Panic | Return (Inl _) \<Rightarrow> Panic | Return (Inr m') \<Rightarrow> Return m')"

fun list_step :: "list_op \<Rightarrow> proxyGateway list \<Rightarrow> proxyGateway list" where
  "list_step (LAdd p) xs = xs @ [p]"
| "list_step (LDel i) xs = take i xs @ drop (Suc i) xs"
| "list_step LRestart xs = xs"

fun list_valid :: "p2p_env \<Rightarrow> list_op \<Rightarrow> bool" where
  "list_valid h (LAdd p) = valid_proxy h p"
| "list_valid h _ = True"

definition proxys_wf :: "'db leveldb \<Rightarrow> p2p_env \<Rightarrow> 'db proxyMgr \<Rightarrow> bool" where
  "proxys_wf D h m \<longleftrightarrow> leveldb_spec D \<and> leveldb_writable D \<and> list_all (valid_proxy h) (listed (fst m))
     \<and> db_Get D (snd m) keyProxys = (if fst m = None then Inl ErrNotFound else Inr (jprint (JArr (map enc_proxyGateway (listed (fst m))))))"

lemma saveProxys_ok:
  assumes "leveldb_spec D" and "leveldb_writable D" and "list_all (valid_proxy h) ps"
  obtains db' where "saveProxys D (Some ps, db) = (None, Some ps, db')" and "proxys_wf D h (Some ps, db')"
  using put_writes [OF assms(1,2), of db keyProxys "jprint (JArr (map enc_proxyGateway ps))"] assms that
  by (auto simp: saveProxys_def proxys_wf_def listed_def)

lemma dec_pointers_enc:
  assumes "list_all (valid_proxy h) ps"
  obtains qs where "dec_pointers (map enc_proxyGateway ps) = Some (map Some qs)" and "map (fill_proxy h) qs = ps"
proof -
  have "\<exists>qs. dec_pointers (map enc_proxyGateway ps) = Some (map Some qs) \<and> map (fill_proxy h) qs = ps"
    using assms
  proof (induction ps)
    case (Cons p ps)
    then obtain qs where "dec_pointers (map enc_proxyGateway ps) = Some (map Some qs)" "map (fill_proxy h) qs = ps" by auto
    moreover obtain q where "dec_proxyGateway (enc_proxyGateway p) = Some q" "fill_proxy h q = p"
      using dec_enc_proxy(1) [of h p] Cons.prems by auto
    ultimately show ?case using dec_enc_proxy(2) [of h p] Cons.prems by (intro exI [of _ "q # qs"]) simp
  qed simp
  with that show thesis by blast
qed

lemma loadProxys_ok:
  assumes "proxys_wf D h m"
  obtains ps where "loadProxys D h (None, snd m) = Return (Inr (ps, snd m))" and "listed ps = listed (fst m)" and "proxys_wf D h (ps, snd m)"
proof (cases "fst m")
  case None
  with assms show thesis by (intro that [of None]) (simp_all add: loadProxys_def proxys_wf_def listed_def)
next
  case (Some ps)
  then have v: "list_all (valid_proxy h) ps" and g: "db_Get D (snd m) keyProxys = Inr (jprint (JArr (map enc_proxyGateway ps)))"
    using assms by (simp_all add: proxys_wf_def listed_def)
  obtain qs where qs: "dec_pointers (map enc_proxyGateway ps) = Some (map Some qs)" "map (fill_proxy h) qs = ps"
    by (rule dec_pointers_enc [OF v])
  have w: "wf_json (JArr (map enc_proxyGateway ps))" using v dec_enc_proxy(3) by (auto simp: list_all_iff)
  have "foldr max (map json_depth (map enc_proxyGateway ps)) 0 \<le> 1"
    using v dec_enc_proxy(4) by (induction ps) auto
  then have "json_depth (JArr (map enc_proxyGateway ps)) \<le> 10000" by simp
  with w qs have u: "unmarshal dec_proxys (jprint (JArr (map enc_proxyGateway ps))) = Some (Some (map Some qs))"
    by (simp add: dec_proxys_def)
  have "map (fill_proxy h \<circ> the) (map Some qs) = ps" using qs(2) by (simp add: comp_def)
  then have "loadProxys D h (None, snd m) = Return (Inr (Some ps, snd m))" using g u by (simp add: loadProxys_def image_iff)
  with Some assms show thesis by (intro that [of "Some ps"]) (simp_all add: proxys_wf_def)
qed

interpretation pl: simulation "proxys_step D h" "list_valid h" list_step "\<lambda>m xs. proxys_wf D h m \<and> listed (fst m) = xs" for D h
proof
  fix m :: "'a proxyMgr" and xs op
  assume m: "proxys_wf D h m \<and> listed (fst m) = xs" and ok: "list_valid h op"
  have D: "leveldb_spec D" "leveldb_writable D" and v: "list_all (valid_proxy h) xs" using m by (auto simp: proxys_wf_def)
  show "\<exists>m'. proxys_step D h op m = Return m' \<and> proxys_wf D h m' \<and> listed (fst m') = list_step op xs"
  proof (cases op)
    case (LAdd p)
    have "list_all (valid_proxy h) (xs @ [p])" using v ok LAdd by simp
    then obtain db' where "saveProxys D (Some (xs @ [p]), snd m) = (None, Some (xs @ [p]), db')" "proxys_wf D h (Some (xs @ [p]), db')"
      by (rule saveProxys_ok [OF D])
    with LAdd m show ?thesis by (auto simp: addProxy_def listed_def)
  next
    case (LDel i)
    show ?thesis
    proof (cases "i < length xs")
      case False
      with LDel m show ?thesis by (simp add: delProxyByIndex_def Let_def)
    next
      case True
      let ?ps = "take i xs @ drop (Suc i) xs"
      have "list_all (valid_proxy h) ?ps" using v by (auto simp: list_all_iff dest: in_set_takeD in_set_dropD)
      then obtain db' where "saveProxys D (Some ?ps, snd m) = (None, Some ?ps, db')" "proxys_wf D h (Some ?ps, db')"
        by (rule saveProxys_ok [OF D])
      with True LDel m show ?thesis by (auto simp: delProxyByIndex_def Let_def listed_def)
    qed
  next
    case LRestart
    from m obtain ps where "loadProxys D h (None, snd m) = Return (Inr (ps, snd m))" "listed ps = xs" "proxys_wf D h (ps, snd m)"
      by (auto elim: loadProxys_ok)
    with LRestart show ?thesis by simp
  qed
qed

section \<open>Flows through a gateway\<close>

lemma addProxyGateway_adds:
  assumes "leveldb_writable (ae_D E)" and "ag_dbOpen ag" and "ag_proxys ag = Some ps"
    and "addProxyGateway E peerID token ag = Return (None, ag1)"
  obtains pid rsp p n where "peer_Decode (ae_p2p E) peerID = Inr pid" and "ParseUint token = (n, None)"
    and "fst (ResourceAuthorize (ae_p2p E) peerID
           \<lparr>aq_Type = AuthorizeTypeProxy, aq_Portmap = None, aq_Proxy = Some \<lparr>ai_Token = of_nat n, ai_Route = [], ai_Dns = []\<rparr>\<rparr>) = Inr rsp"
    and "as_Err rsp = []" and "as_Proxy rsp \<noteq> None" and "ag_p2p ag1"
    and "ag_proxys ag1 = Some (Some (listed ps @ [p]))" and "pg_peer p = credentials pid (of_nat n)"
proof -
  obtain pid where d: "peer_Decode (ae_p2p E) peerID = Inr pid" using assms(4) by (auto simp: addProxyGateway_def split: sum.splits)
  obtain n where n: "ParseUint token = (n, None)" using assms(4) d by (auto simp: addProxyGateway_def split: prod.splits option.splits)
  have p: "ag_p2p ag" using assms(4) d n by (auto simp: addProxyGateway_def Let_def split: if_splits)
  obtain rsp where r: "fst (ResourceAuthorize (ae_p2p E) peerID
      \<lparr>aq_Type = AuthorizeTypeProxy, aq_Portmap = None, aq_Proxy = Some \<lparr>ai_Token = of_nat n, ai_Route = [], ai_Dns = []\<rparr>\<rparr>) = Inr rsp"
    using assms(4) d n p by (auto simp: addProxyGateway_def Let_def split: sum.splits)
  have e: "as_Err rsp = []" using assms(4) d n p r by (auto simp: addProxyGateway_def Let_def split: if_splits)
  obtain q where q: "as_Proxy rsp = Some q" using assms(4) d n p r e by (auto simp: addProxyGateway_def Let_def split: option.splits)
  let ?p = "\<lparr>pg_peer = credentials pid (of_nat n), pg_Name = as_NodeName rsp, pg_PeerID = peerID, pg_Token = of_nat n, pg_Route = ap_Route q, pg_Dns = ap_Dns q\<rparr>"
  have a: "with_proxys (\<lambda>m. Return (addProxy (store_of E ag) ?p m)) ag = Return (None, ag1)"
    using assms(4) d n p r e q by (simp add: addProxyGateway_def Let_def)
  have "ag_proxys ag1 = Some (Some (listed ps @ [?p])) \<and> ag_p2p ag1 = ag_p2p ag"
    using a assms(3) by (auto simp: with_proxys_def addProxy_def saveProxys_def split: prod.splits)
  with that d n r e q p show thesis by simp
qed

lemma startTunProxy_dials:
  assumes "ag_proxys ag = Some ps" and "i < length (listed ps)" and "startTunProxy E dev (int i) ag = Return (None, ag')"
  shows "ag_dialer ag' = Some (pg_peer (listed ps ! i))"
  using assms
  by (auto simp: startTunProxy_def proxy_at_def getProxyByIndex_def NewDialer_def split: option.splits if_splits)


section \<open>Flows\<close>

text \<open>What the tun stack asks of the SOCKS dialer: the address of a flow joined with its port, whichever its network and version.\<close>

lemma udp6_dial_fails:
  assumes "CHR '':'' \<in> set dstIP" and "hd dstIP \<noteq> CHR ''[''"
  shows "\<exists>err s. proxyDialer_DialUDP C d (Some (network, dstIP, dstPort)) = (Inl err, s)"
proof -
  let ?hp = "dstIP @ CHR '':'' # nat_digits (unat dstPort)"
  have "takeWhile (\<lambda>x. x \<noteq> CHR '':'') (rev (nat_digits (unat dstPort)) @ CHR '':'' # rev dstIP) = rev (nat_digits (unat dstPort))"
    using digits_disjoint [of "unat dstPort"] by (subst takeWhile_append2) auto
  then have i: "LastIndexByte ?hp (CHR '':'') = Some (length dstIP)" by (simp add: LastIndexByte_def)
  have "?hp ! 0 \<noteq> CHR ''[''" using assms by (cases dstIP) auto
  with i assms(1) obtain e where e: "SplitHostPort ?hp = Inl e" by (simp add: SplitHostPort_def)
  then have r: "client_request C cmd v4 v6 nw ?hp s = (Inl e, conn_reset s)" for cmd v4 v6 nw s by (simp add: client_request_def)
  show ?thesis
    by (auto simp: proxyDialer_DialUDP_def DialUDPConn_def dialContext_def r Let_def split: sum.splits prod.splits option.splits)
qed

lemma flow_dial:
  assumes "(if udp then proxyDialer_DialUDP C d (Some (''udp'', host, port)) else proxyDialer_DialContext C d (Some (''tcp'', host, port))) = (Inr conn, s')"
    and "ParseAddr host = Some ip"
  shows "dialContext C d (if udp then ''udp'' else ''tcp'') (JoinHostPort host (nat_digits (unat port))) = (Inr conn, s')"
proof (cases udp)
  case True
  have "hd host \<noteq> CHR ''[''" if "CHR '':'' \<in> set host"
    using that ParseAddr_chars [OF assms(2)] by (cases host) (auto simp: brackets_def)
  with udp6_dial_fails [of host C d "''udp''" port] True assms(1) have "CHR '':'' \<notin> set host" by auto
  with True assms(1) show ?thesis by (simp add: proxyDialer_DialUDP_def DialUDPConn_def JoinHostPort_def)
next
  case False
  with assms(1) show ?thesis by (simp add: proxyDialer_DialContext_def Dialer_DialContext_def)
qed

section \<open>Properties\<close>

text \<open>
  C27: the agent keeps its gateways as a list. Through every history of additions, deletions by index and
  restarts, on a database that had none, the manager never panics and has exactly the list the history
  makes, each gateway with its peer and its credentials; an index past the end finds nothing.
\<close>

theorem proxys_durable:
  assumes "leveldb_spec D" and "leveldb_writable D" and "db_Get D db keyProxys = Inl ErrNotFound" and "list_all (list_valid h) ops"
  shows "\<exists>m. runs (proxys_step D h) ops (None, db) = Return m
    \<and> (\<forall>i. getProxyByIndex (int i) m =
         Return (if i < length (fold list_step ops []) then Some (fold list_step ops [] ! i) else None))"
proof -
  have "proxys_wf D h (None, db) \<and> listed (fst (None, db)) = []" using assms(1-3) by (simp add: proxys_wf_def listed_def)
  from pl.runs_simulate [OF this assms(4)] show ?thesis by (auto simp: getProxyByIndex_def listed_def)
qed

definition home_proxy :: proxyGateway where
  "home_proxy = zero_proxyGateway\<lparr>pg_peer := credentials ''peer'' 9, pg_PeerID := ''peer'', pg_Token := 9\<rparr>"

theorem proxys_durable_witness:
  "\<exists>m. runs (proxys_step list_db answering_p2p) [LAdd home_proxy, LRestart, LAdd home_proxy, LDel 0, LRestart] (None, []) = Return m
    \<and> getProxyByIndex 0 m = Return (Some home_proxy) \<and> getProxyByIndex 1 m = Return None"
proof -
  let ?ops = "[LAdd home_proxy, LRestart, LAdd home_proxy, LDel 0, LRestart]"
  have v: "list_all (list_valid answering_p2p) ?ops"
    by (simp add: valid_proxy_def home_proxy_def zero_proxyGateway_def answering_p2p_def)
  have f: "fold list_step ?ops [] = [home_proxy]" by simp
  obtain m where m: "runs (proxys_step list_db answering_p2p) ?ops (None, []) = Return m"
    and i: "\<And>i. getProxyByIndex (int i) m = Return (if i < length [home_proxy] then Some ([home_proxy] ! i) else None)"
    using proxys_durable [OF list_db_spec list_db_empty v, unfolded f] by blast
  from i [of 0] i [of 1] m show ?thesis by simp
qed

text \<open>
  The dialer for datagrams prints an IPv6 address without brackets, which cannot be split again: a UDP flow
  to an IPv6 destination always fails, after a stream has been opened for it.
\<close>

theorem udp6_flows_fail:
  assumes "CHR '':'' \<in> set dstIP" and "hd dstIP \<noteq> CHR ''[''"
  shows "\<exists>err s. proxyDialer_DialUDP C d (Some (network, dstIP, dstPort)) = (Inl err, s)"
  using assms by (rule udp6_dial_fails)

text \<open>
  C9: a flow of the tun device reaches its destination through the gateway it was given. The gateway is one that accepted the token when it
  was added. When the agent's dialer opens a connection for a flow, over TCP or UDP, to an address of either version and a port, the SOCKS service that
  accepts this token and reads what the agent sent dials that address and that port on that network; over UDP the agent goes on with packets of at
  most 32 KiB. The dialer opens no UDP flow to an IPv6 address (\<open>udp6_flows_fail\<close>).
\<close>

theorem agent_flow_reaches_target:
  fixes port :: uint16
  assumes "leveldb_writable (ae_D E)" and "ag_dbOpen ag" and "ag_proxys ag = Some ps"
    and "addProxyGateway E peerID (FormatUint token) ag = Return (None, ag1)"
    and "startTunProxy E dev (int (length (listed ps))) ag1 = Return (None, ag2)" and "ag_dialer ag2 = Some d"
    and "client_lib_spec C" and "server_lib_spec L" and "de_NewStream C (pw_ID d) = Inr s" and "wr_data s = []"
    and "pending s = wire_method (if socks5Precheck P pst pid then MethodUsernamePassword else MethodNone) @ answers"
    and "(if udp then proxyDialer_DialUDP C d (Some (''udp'', host, port)) else proxyDialer_DialContext C d (Some (''tcp'', host, port))) = (Inr conn, Some s')"
    and "ParseAddr host = Some ip"
    and "pending srv = wr_data s' @ rest" and "wr_room srv = None" and "AuthFunc token" and "udp \<Longrightarrow> packet_bytes rest"
  shows "peer_Decode (ae_p2p E) peerID = Inr (pw_ID d)
    \<and> (\<exists>rsp. fst (ResourceAuthorize (ae_p2p E) peerID
           \<lparr>aq_Type = AuthorizeTypeProxy, aq_Portmap = None, aq_Proxy = Some \<lparr>ai_Token = token, ai_Route = [], ai_Dns = []\<rparr>\<rparr>) = Inr rsp
         \<and> as_Err rsp = [] \<and> as_Proxy rsp \<noteq> None)
    \<and> (\<exists>res pst' h. handler L P env AuthFunc ob sched pid srv pst = Return (Inr res, pst')
         \<and> rr_dialed res = [(if udp then ''udp'' else ''tcp'', JoinHostPort h (nat_digits (unat port)))]
         \<and> ParseAddr h = Some (if ip_To4 ip \<noteq> [] then ip_To4 ip else ip))"
proof -
  obtain q rsp p where r: "peer_Decode (ae_p2p E) peerID = Inr q"
    "fst (ResourceAuthorize (ae_p2p E) peerID
       \<lparr>aq_Type = AuthorizeTypeProxy, aq_Portmap = None, aq_Proxy = Some \<lparr>ai_Token = token, ai_Route = [], ai_Dns = []\<rparr>\<rparr>) = Inr rsp"
    "as_Err rsp = []" "as_Proxy rsp \<noteq> None" "ag_proxys ag1 = Some (Some (listed ps @ [p]))" "pg_peer p = credentials q token"
    by (rule addProxyGateway_adds [OF assms(1-4)]) auto
  have d: "d = credentials q token"
    using startTunProxy_dials [OF r(5) _ assms(5)] assms(6) r(6) by (simp add: listed_def)
  have c: "pw_UserName d = le_bytes64 token" "pw_Password d = le_bytes64 token" "pw_ID d = q" by (simp_all add: d credentials_def)
  note dial = flow_dial [OF assms(12,13)]
  obtain h where h: "Request_Address L (flow_request (if udp then CmdConnectUDP else CmdConnect) ip port) = JoinHostPort h (nat_digits (unat port))"
    "ParseAddr h = Some (flow_ip ip)" using flow_address [OF assms(8,13)] by blast
  from dial_reaches [where AuthFunc = AuthFunc and token = token, OF assms(7,8) c(1,2) assms(9-11) dial SplitHostPort_Join [OF assms(13)] assms(13-17), of env ob sched]
  obtain res pst' where "handler L P env AuthFunc ob sched pid srv pst = Return (Inr res, pst')"
    "rr_dialed res = [(if udp then ''udp'' else ''tcp'', JoinHostPort h (nat_digits (unat port)))]" unfolding h(1) by blast
  with h(2) have "\<exists>res pst' h. handler L P env AuthFunc ob sched pid srv pst = Return (Inr res, pst')
         \<and> rr_dialed res = [(if udp then ''udp'' else ''tcp'', JoinHostPort h (nat_digits (unat port)))]
         \<and> ParseAddr h = Some (if ip_To4 ip \<noteq> [] then ip_To4 ip else ip)" unfolding flow_ip_def by blast
  with r(1-4) c(3) show ?thesis by blast
qed

definition sample_agent_env :: "(string \<times> string) list agent_env" where
  "sample_agent_env = \<lparr>ae_D = list_db, ae_start = sample_start [], ae_p2p = answering_p2p, ae_listen = echo_listen, ae_visit = (\<lambda>m. m),
     ae_Error = (\<lambda>_. ''error''), ae_tunStart = (\<lambda>_. None), ae_tunStop = None, ae_Ping = (\<lambda>_. None)\<rparr>"

definition sample_agent :: "(string \<times> string) list agent" where
  "sample_agent = (agentIns [])\<lparr>ag_p2p := True, ag_pm := Some no_listeners, ag_dbOpen := True, ag_am := Some (Some []),
     ag_proxys := Some None, ag_running := True\<rparr>"

lemma answering_authorizes: "peerID \<noteq> [] \<Longrightarrow> fst (ResourceAuthorize answering_p2p peerID req) = Inr ok_resp"
proof -
  have v: "valid_resp ok_resp" by (simp add: valid_resp_def ok_resp_def zero_AuthorizeResp_def)
  have n: "length (jprint (enc_AuthorizeResp ok_resp)) \<le> 1024" "jprint (enc_AuthorizeResp ok_resp) \<noteq> []" by code_simp+
  show "peerID \<noteq> [] \<Longrightarrow> ?thesis"
    using n respc.decode_encode [OF v] by (simp add: ResourceAuthorize_def answering_p2p_def conn_of_def conn_write_def conn_read_def)
qed

lemma sample_added:
  obtains ag1 ag2 where "addProxyGateway sample_agent_env ''gw'' (FormatUint 7) sample_agent = Return (None, ag1)"
    and "startTunProxy sample_agent_env ''tun0'' 0 ag1 = Return (None, ag2)" and "ag_dialer ag2 = Some sample_peer"
proof -
  define p where "p = \<lparr>pg_peer = credentials ''gw'' 7, pg_Name = ''home'', pg_PeerID = ''gw'', pg_Token = 7, pg_Route = ''0.0.0.0/0'', pg_Dns = ''8.8.8.8''\<rparr>"
  define ag1 where "ag1 = sample_agent\<lparr>ag_proxys := Some (Some [p]), ag_db := [(keyProxys, jprint (JArr [enc_proxyGateway p]))]\<rparr>"
  have d: "peer_Decode answering_p2p ''gw'' = Inr ''gw''" by (simp add: answering_p2p_def)
  have "addProxyGateway sample_agent_env ''gw'' (FormatUint 7) sample_agent = Return (None, ag1)"
    using answering_authorizes [of "''gw''"] d
    by (simp add: addProxyGateway_def sample_agent_env_def sample_agent_def agentIns_def Let_def ok_resp_def zero_AuthorizeResp_def
        with_proxys_def store_of_def addProxy_def saveProxys_def listed_def list_db_def ag1_def p_def)
  moreover have "startTunProxy sample_agent_env ''tun0'' 0 ag1 = Return (None, ag1\<lparr>ag_dialer := Some sample_peer\<rparr>)"
    by (simp add: startTunProxy_def proxy_at_def getProxyByIndex_def listed_def ag1_def p_def sample_agent_env_def sample_agent_def agentIns_def
        credentials_def sample_peer_def NewDialer_def)
  ultimately show thesis by (rule that) simp
qed

lemma sample_flow:
  fixes port :: uint16
  assumes "ParseAddr host = Some ip" and "udp \<longrightarrow> CHR '':'' \<notin> set host"
  shows "\<exists>conn s'. (if udp then proxyDialer_DialUDP (rfc_client sample_answers) sample_peer (Some (''udp'', host, port))
        else proxyDialer_DialContext (rfc_client sample_answers) sample_peer (Some (''tcp'', host, port))) = (Inr conn, Some s')
    \<and> wr_data s' = wire_negotiation [2] @ wire_userpass (le_bytes64 7) (le_bytes64 7) @ flow_wire (if udp then CmdConnectUDP else CmdConnect) ip port"
proof -
  let ?C = "rfc_client sample_answers" and ?cmd = "if udp then CmdConnectUDP else CmdConnect" and ?nw = "if udp then ''udp'' else ''tcp''"
  let ?address = "JoinHostPort host (nat_digits (unat port))"
  have "case client_negotiate ?C sample_peer True (conn_of sample_answers) of
      (e, s1) \<Rightarrow> e = None \<and> pending s1 = [5, 0, 0, 1, 0, 0, 0, 0, 0, 0] \<and> wr_room s1 = None
        \<and> wr_data s1 = wire_negotiation [2] @ wire_userpass (le_bytes64 7) (le_bytes64 7)"
    by code_simp
  then obtain s1 where s1: "client_negotiate ?C sample_peer True (conn_of sample_answers) = (None, s1)" "pending s1 = [5, 0, 0, 1, 0, 0, 0, 0, 0, 0] @ []"
    "wr_room s1 = None" "wr_data s1 = wire_negotiation [2] @ wire_userpass (le_bytes64 7) (le_bytes64 7)" by auto
  obtain s2 where s2: "write_only (flow_wire ?cmd ip port) s1 = (None, s2)" "pending s2 = pending s1" "wr_data s2 = wr_data s1 @ flow_wire ?cmd ip port"
    using writes_freeE [OF writes_write_only s1(3)] by metis
  have "pending s2 = [5, 0, 0, 1, 0, 0, 0, 0, 0, 0] @ []" using s1(2) s2(2) by simp
  then obtain s3 where s3: "read_full 10 s2 = ([5, 0, 0, 1, 0, 0, 0, 0, 0, 0], None, s3)" "wr_data s3 = wr_data s2"
    by (rule read_full_frontN [where n = 10]) simp_all
  have lib: "Request_WriteTo ?C = (\<lambda>cmd atyp addr port. write_only (wire_request cmd atyp addr port))" "NewReplyFrom ?C = rfc_read_reply"
    "de_NewStream ?C = (\<lambda>_. Inr (conn_of sample_answers))" by (simp_all add: rfc_client_def)
  obtain reply where "client_request ?C ?cmd (\<lambda>ip. ip) (\<lambda>ip. ip) ?nw ?address s1 = (Inr reply, s3)"
    using SplitHostPort_Join [OF assms(1), of "unat port"] client_addr_flow [OF assms(1)] LookupPort_digits [of "de_lookupPort ?C" ?nw port] s2(1) s3(1)
    by (simp add: client_request_def lib rfc_read_reply_def flow_wire_def)
  then have "\<exists>conn. dialContext ?C sample_peer ?nw ?address = (Inr conn, Some s3)"
    using s1(1) by (cases udp) (simp_all add: dialContext_def lib)
  moreover have "host @ CHR '':'' # nat_digits (unat port) = ?address" if udp using that assms(2) by (simp add: JoinHostPort_def)
  ultimately show ?thesis
    using s1(4) s2(3) s3(2)
    by (cases udp) (auto simp: proxyDialer_DialUDP_def DialUDPConn_def proxyDialer_DialContext_def Dialer_DialContext_def)
qed

definition sample_v6 :: "byte list" where
  "sample_v6 = [0xfe, 0x80, 0, 0, 0, 0, 0, 0, 0, 0, 0, 0, 0, 0, 0, 1]"

lemma sample_v6_parsed: "ParseAddr (IPv6_text sample_v6) = Some sample_v6"
  by (rule ParseAddr_IPv6_text) (simp add: sample_v6_def)

theorem agent_flow_reaches_target_witness:
  "(\<exists>res pst' h. handler rfc_server fun_store open_env (\<lambda>x. x = 7) DirectDialer [True, False] ''me''
      (conn_of ((wire_negotiation [2] @ wire_userpass (le_bytes64 7) (le_bytes64 7) @ flow_wire CmdConnect sample_v6 443) @ [3, 4]))
      Map.empty = Return (Inr res, pst')
    \<and> rr_dialed res = [(''tcp'', JoinHostPort h (nat_digits (unat (443 :: uint16))))] \<and> ParseAddr h = Some sample_v6)
   \<and> (\<exists>res pst' h. handler rfc_server fun_store open_env (\<lambda>x. x = 7) DirectDialer [True, False] ''me''
      (conn_of ((wire_negotiation [2] @ wire_userpass (le_bytes64 7) (le_bytes64 7) @ flow_wire CmdConnectUDP (be_bytes32 0x0A000001) 53) @ prw_bytes [3, 4]))
      Map.empty = Return (Inr res, pst')
    \<and> rr_dialed res = [(''udp'', JoinHostPort h (nat_digits (unat (53 :: uint16))))] \<and> ParseAddr h = Some (be_bytes32 0x0A000001))"
proof -
  obtain ag1 ag2 where a: "addProxyGateway sample_agent_env ''gw'' (FormatUint 7) sample_agent = Return (None, ag1)"
    "startTunProxy sample_agent_env ''tun0'' (int (length (listed None))) ag1 = Return (None, ag2)" "ag_dialer ag2 = Some sample_peer"
    using sample_added by (auto simp: listed_def)
  have db: "leveldb_writable (ae_D sample_agent_env)" "ag_dbOpen sample_agent" "ag_proxys sample_agent = Some None"
    using list_db_spec by (simp_all add: sample_agent_env_def sample_agent_def)
  have st: "de_NewStream (rfc_client sample_answers) (pw_ID sample_peer) = Inr (conn_of sample_answers)" "wr_data (conn_of sample_answers) = []"
    by (simp_all add: rfc_client_def conn_of_def)
  have pend: "pending (conn_of sample_answers) = wire_method (if socks5Precheck fun_store Map.empty ''me'' then MethodUsernamePassword else MethodNone)
      @ [1, 0] @ [5, 0, 0, 1, 0, 0, 0, 0, 0, 0]"
    by (simp add: sample_answers_def fun_store_def socks5Precheck_def)
  have v6: "ip_To4 sample_v6 = []" by code_simp
  have to4: "ip_To4 (be_bytes32 x) = be_bytes32 x" "be_bytes32 x \<noteq> []" for x by (simp_all add: ip_To4_def be_bytes32_def)
  have room: "wr_room (conn_of bs) = None" for bs :: "byte list" by (simp add: conn_of_def)
  have pk: "packet_bytes (prw_bytes [3, 4])" unfolding packet_bytes_def by (intro exI [of _ "[[3, 4]]"]) (simp add: copyBufSize_def)
  note reach = agent_flow_reaches_target [where AuthFunc = "\<lambda>x. x = 7" and env = open_env and ob = DirectDialer and sched = "[True, False]",
      OF db a rfc_client_spec rfc_server_spec st pend]
  obtain conn s' where d: "(if False then proxyDialer_DialUDP (rfc_client sample_answers) sample_peer (Some (''udp'', IPv6_text sample_v6, 443))
      else proxyDialer_DialContext (rfc_client sample_answers) sample_peer (Some (''tcp'', IPv6_text sample_v6, 443))) = (Inr conn, Some s')"
    "wr_data s' = wire_negotiation [2] @ wire_userpass (le_bytes64 7) (le_bytes64 7) @ flow_wire CmdConnect sample_v6 443"
    using sample_flow [OF sample_v6_parsed, of False 443] by auto
  from reach [OF d(1) sample_v6_parsed, where rest = "[3, 4]", unfolded d(2), OF pending_conn_of room refl]
  have tcp: "\<exists>res pst' h. handler rfc_server fun_store open_env (\<lambda>x. x = 7) DirectDialer [True, False] ''me''
      (conn_of ((wire_negotiation [2] @ wire_userpass (le_bytes64 7) (le_bytes64 7) @ flow_wire CmdConnect sample_v6 443) @ [3, 4])) Map.empty = Return (Inr res, pst')
    \<and> rr_dialed res = [(''tcp'', JoinHostPort h (nat_digits (unat (443 :: uint16))))] \<and> ParseAddr h = Some sample_v6"
    by (simp add: v6)
  have "CHR '':'' \<notin> set (IPv4_String 0x0A000001)" using IPv4_String_chars [of "0x0A000001"] by auto
  then obtain conn2 s2 where d2: "(if True then proxyDialer_DialUDP (rfc_client sample_answers) sample_peer (Some (''udp'', IPv4_String 0x0A000001, 53))
      else proxyDialer_DialContext (rfc_client sample_answers) sample_peer (Some (''tcp'', IPv4_String 0x0A000001, 53))) = (Inr conn2, Some s2)"
    "wr_data s2 = wire_negotiation [2] @ wire_userpass (le_bytes64 7) (le_bytes64 7) @ flow_wire CmdConnectUDP (be_bytes32 0x0A000001) 53"
    using sample_flow [OF ParseAddr_String, of True "0x0A000001" 53] by auto
  from reach [OF d2(1) ParseAddr_String, where rest = "prw_bytes [3, 4]", unfolded d2(2), OF pending_conn_of room refl pk]
  have "\<exists>res pst' h. handler rfc_server fun_store open_env (\<lambda>x. x = 7) DirectDialer [True, False] ''me''
      (conn_of ((wire_negotiation [2] @ wire_userpass (le_bytes64 7) (le_bytes64 7) @ flow_wire CmdConnectUDP (be_bytes32 0x0A000001) 53) @ prw_bytes [3, 4]))
      Map.empty = Return (Inr res, pst')
    \<and> rr_dialed res = [(''udp'', JoinHostPort h (nat_digits (unat (53 :: uint16))))] \<and> ParseAddr h = Some (be_bytes32 0x0A000001)"
    by (simp add: to4)
  with tcp show ?thesis by (rule conjI)
qed

text \<open>
  An update of a running application closes no listener: when it moves to another address or port, the old
  listener stays open and goes on to be served.
\<close>

theorem updateAPP_keeps_listener:
  assumes "ag_pm ag = Some pm" and "ag_am ag = Some apps" and "GetPortmapApp (ID_Uint64 (pa_ID a)) (apps, ag_db ag) = Some old"
    and "pa_Running a" and "listening old pm" and "updateAPP E a ag = Return (err, ag')"
  shows "pa_ID a \<noteq> 0 \<longrightarrow> (\<exists>pm'. ag_pm ag' = Some pm' \<and> listening old pm' \<and> pm_closed pm' = pm_closed pm)"
proof
  assume i: "pa_ID a \<noteq> 0"
  obtain p e pm' where l: "AddListener (ae_listen E) (pa_Network a) (pa_LocalIP a) (pa_LocalPort a) pm = ((p, e), pm')" by (metis surj_pair)
  then have keep: "listening old pm'" "pm_closed pm' = pm_closed pm"
    using assms(5) by (auto simp: AddListener_def listening_def split: sum.splits option.splits)
  have "ag_pm ag' = Some pm'"
    using assms i l by (auto simp: updateAPP_def Let_def with_am_def split: if_splits outcome.splits)
  with keep show "\<exists>pm'. ag_pm ag' = Some pm' \<and> listening old pm' \<and> pm_closed pm' = pm_closed pm" by blast
qed

text \<open>
  An agent that has been closed cannot be started again: it still counts as running, so that starting it
  reports success and does nothing, and the next application that is added panics on the missing engine.
\<close>

theorem closed_agent_stays_closed:
  assumes "agent_start E withPortmap ag = Return (None, ag1)" and "load_seed (ae_start E) \<noteq> Inl None"
  shows "agent_start E' withPortmap' (agent_close ag1) = Return (None, agent_close ag1)
    \<and> agent_addApp E' rnd a (agent_close ag1) = Panic"
proof -
  have "ag_running ag1"
    using assms by (auto simp: agent_start_def Let_def split: if_splits sum.splits outcome.splits)
  then show ?thesis by (simp add: agent_close_def agent_start_def agent_addApp_def Let_def)
qed

end
