(* ===== verification/Logger.thy ===== *)
theory Logger
  imports GoText
begin

text \<open>
  The packages \<open>logger\<close> (\<open>logger/log.go\<close>), a logger that writes to a file it rotates and to the console, and \<open>logging\<close>
  (\<open>logging/log.go\<close>), the default logger of the process. A call of \<open>Printf\<close> is its format and its parameters. The
  file operations and the constants of the nbio package are parameters.
\<close>

section \<open>The file logger\<close>

datatype 'v param = Pid int | Param 'v

type_synonym 'v entry = "string \<times> 'v param list"

definition LogFileAndConsole :: int where
  "LogFileAndConsole = 0"

definition LogFile :: int where
  "LogFile = 1"

definition LogConsole :: int where
  "LogConsole = 2"

text \<open>
  \<open>lg_lg\<close> says whether \<open>lg\<close> is set; \<open>lg_logFile\<close> is \<open>None\<close> for a nil file, otherwise whether the handle is still open.
\<close>

record logger =
  lg_lg :: bool
  lg_logFile :: "bool option"
  lg_lineEnding :: string
  lg_level :: int
  lg_maxLogSize :: int
  lg_pid :: int
  lg_logDir :: string
  lg_mode :: int

text \<open>The log file and its backup (\<open>None\<close> when missing), standard error and standard output.\<close>

record 'v log_world =
  lw_file :: "'v entry list option"
  lw_backup :: "'v entry list option"
  lw_console :: "'v entry list"
  lw_stdout :: "(string \<times> 'v list) list"

record log_env =
  le_OpenFile :: "string \<Rightarrow> error option"
  le_windows :: bool
  le_Getpid :: int

definition content :: "'v entry list option \<Rightarrow> 'v entry list" where
  "content f = (case f of None \<Rightarrow> [] | Some es \<Rightarrow> es)"

text \<open>\<open>NewLogger\<close>; \<open>None\<close> when \<open>log.Fatal\<close> ends the process. The test is one of the level, not of the mode.\<close>

definition NewLogger ::
  "log_env \<Rightarrow> string \<Rightarrow> string \<Rightarrow> int \<Rightarrow> int \<Rightarrow> int \<Rightarrow> 'v log_world \<Rightarrow> (logger \<times> 'v log_world) option" where
  "NewLogger E path filePrefix level maxLogSize mode w =
     (let logdir = (if path = [] then ''log/'' else path @ ''/log/'');
          le = (if le_windows E then [CHR 0x0D, CHR 0x0A] else [CHR 0x0A]);
          l = \<lparr>lg_lg = False, lg_logFile = None, lg_lineEnding = le, lg_level = level, lg_maxLogSize = maxLogSize,
               lg_pid = le_Getpid E, lg_logDir = [], lg_mode = mode\<rparr>
      in if level \<noteq> LogConsole then
           (case le_OpenFile E (logdir @ filePrefix @ ''.log'') of
              Some err \<Rightarrow> None
            | None \<Rightarrow> Some (l\<lparr>lg_lg := True, lg_logFile := Some True, lg_logDir := logdir\<rparr>, w\<lparr>lw_file := Some (content (lw_file w))\<rparr>))
         else Some (l, w))"

definition lg_SetLevel :: "int \<Rightarrow> logger \<Rightarrow> logger" where
  "lg_SetLevel lvl l = l\<lparr>lg_level := lvl\<rparr>"

text \<open>What \<open>lg.Printf\<close> writes: nothing to a handle that is closed, as its error is dropped.\<close>

definition file_Printf :: "logger \<Rightarrow> 'v entry \<Rightarrow> 'v log_world \<Rightarrow> 'v log_world outcome" where
  "file_Printf l e w =
     (if \<not> lg_lg l then Panic
      else Return (if lg_logFile l = Some True then w\<lparr>lw_file := Some (content (lw_file w) @ [e])\<rparr> else w))"

definition log_entry :: "string \<Rightarrow> string \<Rightarrow> 'v list \<Rightarrow> logger \<Rightarrow> 'v entry" where
  "log_entry tag format v l = (''%d ['' @ tag @ ''] '' @ format @ lg_lineEnding l, Pid (lg_pid l) # map Param v)"

text \<open>The body that the four methods share, at the level \<open>lvl\<close> with their tag.\<close>

definition log_at :: "int \<Rightarrow> string \<Rightarrow> string \<Rightarrow> 'v list \<Rightarrow> logger \<Rightarrow> 'v log_world \<Rightarrow> 'v log_world outcome" where
  "log_at lvl tag format v l w =
     (if lg_level l \<le> lvl then
        (case (if lg_mode l = LogFile \<or> lg_mode l = LogFileAndConsole then file_Printf l (log_entry tag format v l) w else Return w) of
           Panic \<Rightarrow> Panic
         | Return w1 \<Rightarrow>
             Return (if lg_mode l = LogConsole \<or> lg_mode l = LogFileAndConsole
                     then w1\<lparr>lw_console := lw_console w1 @ [log_entry tag format v l]\<rparr> else w1))
      else Return w)"

record nbio_levels =
  nl_Debug :: int
  nl_Info :: int
  nl_Warn :: int
  nl_Error :: int

definition lg_Debug :: "nbio_levels \<Rightarrow> string \<Rightarrow> 'v list \<Rightarrow> logger \<Rightarrow> 'v log_world \<Rightarrow> 'v log_world outcome" where
  "lg_Debug N = log_at (nl_Debug N) ''DBG''"

definition lg_Info :: "nbio_levels \<Rightarrow> string \<Rightarrow> 'v list \<Rightarrow> logger \<Rightarrow> 'v log_world \<Rightarrow> 'v log_world outcome" where
  "lg_Info N = log_at (nl_Info N) ''INF''"

definition lg_Warn :: "nbio_levels \<Rightarrow> string \<Rightarrow> 'v list \<Rightarrow> logger \<Rightarrow> 'v log_world \<Rightarrow> 'v log_world outcome" where
  "lg_Warn N = log_at (nl_Warn N) ''WRN''"

definition lg_Error :: "nbio_levels \<Rightarrow> string \<Rightarrow> 'v list \<Rightarrow> logger \<Rightarrow> 'v log_world \<Rightarrow> 'v log_world outcome" where
  "lg_Error N = log_at (nl_Error N) ''ERR''"

lemmas log_methods = lg_Debug_def lg_Info_def lg_Warn_def lg_Error_def

section \<open>Rotation\<close>

text \<open>One round of the check: how the file operations end, and the size of a file with given entries.\<close>

record rotate_env =
  re_Stat :: "error option"
  re_Remove :: "error option"
  re_Rename :: "error option"
  re_OpenFile :: "error option"

definition checkFile :: "('v entry list \<Rightarrow> int) \<Rightarrow> rotate_env \<Rightarrow> logger \<times> 'v log_world \<Rightarrow> logger \<times> 'v log_world" where
  "checkFile Size R s =
     (case s of (l, w) \<Rightarrow>
        if lg_logFile l \<noteq> Some True \<or> re_Stat R \<noteq> None then (l, w)
        else if Size (content (lw_file w)) \<le> lg_maxLogSize l then (l, w)
        else
          let w1 = (if re_Remove R = None then w\<lparr>lw_backup := None\<rparr> else w);
              w2 = (if re_Rename R = None then w1\<lparr>lw_file := None, lw_backup := lw_file w1\<rparr> else w1)
          in case re_OpenFile R of
               None \<Rightarrow> (l, w2\<lparr>lw_file := Some (content (lw_file w2))\<rparr>)
             | Some err \<Rightarrow> (l\<lparr>lg_logFile := Some False\<rparr>, w2))"

text \<open>The loop that checks once a minute runs for a logger of a file that has a limit.\<close>

definition checkFileLoop :: "('v entry list \<Rightarrow> int) \<Rightarrow> rotate_env \<Rightarrow> logger \<times> 'v log_world \<Rightarrow> logger \<times> 'v log_world" where
  "checkFileLoop Size R s =
     (if lg_mode (fst s) \<noteq> LogConsole \<and> 0 < lg_maxLogSize (fst s) then checkFile Size R s else s)"

section \<open>The default logger\<close>

text \<open>The levels of the package \<open>logging\<close>.\<close>

definition LevelAll :: int where "LevelAll = 0"
definition LevelDebug :: int where "LevelDebug = 1"
definition LevelInfo :: int where "LevelInfo = 2"
definition LevelWarn :: int where "LevelWarn = 3"
definition LevelError :: int where "LevelError = 4"
definition LevelNone :: int where "LevelNone = 5"

lemmas levels = LevelAll_def LevelDebug_def LevelInfo_def LevelWarn_def LevelError_def LevelNone_def

datatype Logger = PlainLogger int | FileLogger logger

definition valid_level :: "int \<Rightarrow> bool" where
  "valid_level lvl \<longleftrightarrow> lvl \<in> {LevelAll, LevelDebug, LevelInfo, LevelWarn, LevelError, LevelNone}"

definition DefaultLogger :: "Logger option" where
  "DefaultLogger = Some (PlainLogger LevelInfo)"

definition SetLogger :: "Logger option \<Rightarrow> Logger option \<Rightarrow> Logger option" where
  "SetLogger l d = l"

definition invalid_level :: "int \<Rightarrow> ('v log_world \<Rightarrow> 'v log_world)" where
  "invalid_level lvl w = w\<lparr>lw_stdout := lw_stdout w @ [(''invalid log level: '' @ Itoa lvl, [])]\<rparr>"

text \<open>\<open>logger.SetLevel\<close> of the plain logger.\<close>

definition plain_SetLevel :: "int \<Rightarrow> int \<Rightarrow> 'v log_world \<Rightarrow> int \<times> 'v log_world" where
  "plain_SetLevel lvl level w = (if valid_level lvl then (lvl, w) else (level, invalid_level lvl w))"

definition SetLevel :: "int \<Rightarrow> Logger option \<Rightarrow> 'v log_world \<Rightarrow> (Logger option \<times> 'v log_world) outcome" where
  "SetLevel lvl d w =
     (if \<not> valid_level lvl then Return (d, invalid_level lvl w)
      else case d of
        None \<Rightarrow> Panic
      | Some (PlainLogger level) \<Rightarrow> (case plain_SetLevel lvl level w of (level', w') \<Rightarrow> Return (Some (PlainLogger level'), w'))
      | Some (FileLogger l) \<Rightarrow> Return (Some (FileLogger (lg_SetLevel lvl l)), w))"

text \<open>\<open>now\<close> is the text of the time.\<close>

definition plain_at :: "int \<Rightarrow> string \<Rightarrow> string \<Rightarrow> string \<Rightarrow> 'v list \<Rightarrow> int \<Rightarrow> 'v log_world \<Rightarrow> 'v log_world" where
  "plain_at lvl tag now format v level w =
     (if level \<le> lvl then w\<lparr>lw_stdout := lw_stdout w @ [(now @ '' ['' @ tag @ ''] '' @ format @ [CHR 0x0A], v)]\<rparr> else w)"

definition plain_Debug :: "string \<Rightarrow> string \<Rightarrow> 'v list \<Rightarrow> int \<Rightarrow> 'v log_world \<Rightarrow> 'v log_world" where
  "plain_Debug = plain_at LevelDebug ''DBG''"

definition plain_Info :: "string \<Rightarrow> string \<Rightarrow> 'v list \<Rightarrow> int \<Rightarrow> 'v log_world \<Rightarrow> 'v log_world" where
  "plain_Info = plain_at LevelInfo ''INF''"

definition plain_Warn :: "string \<Rightarrow> string \<Rightarrow> 'v list \<Rightarrow> int \<Rightarrow> 'v log_world \<Rightarrow> 'v log_world" where
  "plain_Warn = plain_at LevelWarn ''WRN''"

definition plain_Error :: "string \<Rightarrow> string \<Rightarrow> 'v list \<Rightarrow> int \<Rightarrow> 'v log_world \<Rightarrow> 'v log_world" where
  "plain_Error = plain_at LevelError ''ERR''"

text \<open>\<open>logging.Debug\<close> and its three siblings: the method of the plain logger and that of the file logger.\<close>

definition default_at ::
  "(string \<Rightarrow> string \<Rightarrow> 'v list \<Rightarrow> int \<Rightarrow> 'v log_world \<Rightarrow> 'v log_world)
    \<Rightarrow> (string \<Rightarrow> 'v list \<Rightarrow> logger \<Rightarrow> 'v log_world \<Rightarrow> 'v log_world outcome) \<Rightarrow> string \<Rightarrow> string \<Rightarrow> 'v list
    \<Rightarrow> Logger option \<Rightarrow> 'v log_world \<Rightarrow> 'v log_world outcome" where
  "default_at plain method now format v d w =
     (case d of
        None \<Rightarrow> Return w
      | Some (PlainLogger level) \<Rightarrow> Return (plain now format v level w)
      | Some (FileLogger l) \<Rightarrow> method format v l w)"

definition logging_Debug :: "nbio_levels \<Rightarrow> string \<Rightarrow> string \<Rightarrow> 'v list \<Rightarrow> Logger option \<Rightarrow> 'v log_world \<Rightarrow> 'v log_world outcome" where
  "logging_Debug N = default_at plain_Debug (lg_Debug N)"

definition logging_Info :: "nbio_levels \<Rightarrow> string \<Rightarrow> string \<Rightarrow> 'v list \<Rightarrow> Logger option \<Rightarrow> 'v log_world \<Rightarrow> 'v log_world outcome" where
  "logging_Info N = default_at plain_Info (lg_Info N)"

definition logging_Warn :: "nbio_levels \<Rightarrow> string \<Rightarrow> string \<Rightarrow> 'v list \<Rightarrow> Logger option \<Rightarrow> 'v log_world \<Rightarrow> 'v log_world outcome" where
  "logging_Warn N = default_at plain_Warn (lg_Warn N)"

definition logging_Error :: "nbio_levels \<Rightarrow> string \<Rightarrow> string \<Rightarrow> 'v list \<Rightarrow> Logger option \<Rightarrow> 'v log_world \<Rightarrow> 'v log_world outcome" where
  "logging_Error N = default_at plain_Error (lg_Error N)"

section \<open>Histories\<close>

datatype 'v log_op = Log int string string "'v list" | Level int | Check rotate_env

fun logger_step :: "('v entry list \<Rightarrow> int) \<Rightarrow> 'v log_op \<Rightarrow> logger \<times> 'v log_world \<Rightarrow> (logger \<times> 'v log_world) outcome" where
  "logger_step Size (Log lvl tag format v) s =
     (case log_at lvl tag format v (fst s) (snd s) of Panic \<Rightarrow> Panic | Return w \<Rightarrow> Return (fst s, w))"
| "logger_step Size (Level lvl) s = Return (lg_SetLevel lvl (fst s), snd s)"
| "logger_step Size (Check R) s = Return (checkFileLoop Size R s)"

text \<open>The entries that the calls of a history put into the file, by the level at each call.\<close>

fun logged :: "'v log_op list \<Rightarrow> logger \<Rightarrow> 'v entry list" where
  "logged [] l = []"
| "logged (Log lvl tag format v # ops) l = (if lg_level l \<le> lvl then [log_entry tag format v l] else []) @ logged ops l"
| "logged (Level lvl # ops) l = logged ops (lg_SetLevel lvl l)"
| "logged (Check R # ops) l = logged ops l"

fun check_succeeds :: "'v log_op \<Rightarrow> bool" where
  "check_succeeds (Check R) \<longleftrightarrow> re_Rename R = None \<and> re_OpenFile R = None"
| "check_succeeds _ \<longleftrightarrow> True"

text \<open>The backup and the file end the history \<open>past\<close>, and what is missing in front of them was pushed out by a full backup.\<close>

definition retains :: "('v entry list \<Rightarrow> int) \<Rightarrow> int \<Rightarrow> 'v entry list \<Rightarrow> 'v log_world \<Rightarrow> bool" where
  "retains Size maxLogSize past w \<longleftrightarrow>
     (\<exists>old. past = old @ content (lw_backup w) @ content (lw_file w) \<and> (old \<noteq> [] \<longrightarrow> maxLogSize < Size (content (lw_backup w))))"

definition file_logger :: "logger \<Rightarrow> bool" where
  "file_logger l \<longleftrightarrow> lg_lg l \<and> lg_logFile l = Some True \<and> (lg_mode l = LogFile \<or> lg_mode l = LogFileAndConsole)"

lemma content_Some [simp]: "content (Some es) = es"
  by (simp add: content_def)

lemma log_at_file:
  assumes "file_logger l"
  obtains w' where "log_at lvl tag format v l w = Return w'" and "lw_backup w' = lw_backup w"
    and "content (lw_file w') = content (lw_file w) @ (if lg_level l \<le> lvl then [log_entry tag format v l] else [])"
  using assms by (cases "lg_level l \<le> lvl") (auto simp: log_at_def file_Printf_def file_logger_def LogFile_def LogFileAndConsole_def)

lemma retains_append:
  assumes "retains Size m past w" and "lw_backup w' = lw_backup w" and "content (lw_file w') = content (lw_file w) @ es"
  shows "retains Size m (past @ es) w'"
  using assms by (auto simp: retains_def)

lemma retains_check:
  assumes "retains Size (lg_maxLogSize l) past w" and "re_Rename R = None" and "re_OpenFile R = None"
  obtains w' where "checkFileLoop Size R (l, w) = (l, w')" and "retains Size (lg_maxLogSize l) past w'"
proof (cases "checkFileLoop Size R (l, w) = (l, w)")
  case True
  with assms(1) that show ?thesis by blast
next
  case False
  then have big: "lg_maxLogSize l < Size (content (lw_file w))"
    by (auto simp: checkFileLoop_def checkFile_def split: if_splits)
  from False assms(2,3) obtain w' where w': "checkFileLoop Size R (l, w) = (l, w')" "lw_file w' = Some []" "lw_backup w' = lw_file w"
    by (auto simp: checkFileLoop_def checkFile_def Let_def content_def split: if_splits)
  from assms(1) obtain old where "past = (old @ content (lw_backup w)) @ content (lw_file w)" by (auto simp: retains_def)
  with big w'(2,3) have "retains Size (lg_maxLogSize l) past w'" by (auto simp: retains_def)
  with that w'(1) show ?thesis by blast
qed

text \<open>The logger against everything that was ever logged, with the settings at each moment.\<close>

fun past_step :: "'v log_op \<Rightarrow> 'v entry list \<times> logger \<Rightarrow> 'v entry list \<times> logger" where
  "past_step (Log lvl tag format v) (past, l) = (past @ (if lg_level l \<le> lvl then [log_entry tag format v l] else []), l)"
| "past_step (Level lvl) (past, l) = (past, lg_SetLevel lvl l)"
| "past_step (Check R) (past, l) = (past, l)"

lemma past_logged: "fst (fold past_step ops (past, l)) = past @ logged ops l"
proof (induction ops arbitrary: past l)
  case (Cons op ops)
  then show ?case by (cases op) simp_all
qed simp

interpretation lgr: simulation "logger_step Size" check_succeeds past_step
  "\<lambda>s a. fst s = snd a \<and> file_logger (fst s) \<and> lg_maxLogSize (fst s) = m \<and> retains Size m (fst a) (snd s)" for Size m
proof
  fix s :: "logger \<times> 'a log_world" and a and op :: "'a log_op"
  assume "fst s = snd a \<and> file_logger (fst s) \<and> lg_maxLogSize (fst s) = m \<and> retains Size m (fst a) (snd s)" and ok: "check_succeeds op"
  then obtain l w past where s: "s = (l, w)" "a = (past, l)" and l: "file_logger l" "lg_maxLogSize l = m" and w: "retains Size (lg_maxLogSize l) past w"
    by (cases s; cases a) auto
  show "\<exists>s'. logger_step Size op s = Return s' \<and> fst s' = snd (past_step op a) \<and> file_logger (fst s') \<and> lg_maxLogSize (fst s') = m
    \<and> retains Size m (fst (past_step op a)) (snd s')"
  proof (cases op)
    case (Log lvl tag format v)
    obtain w1 where w1: "log_at lvl tag format v l w = Return w1" "lw_backup w1 = lw_backup w"
      "content (lw_file w1) = content (lw_file w) @ (if lg_level l \<le> lvl then [log_entry tag format v l] else [])"
      by (rule log_at_file [OF l(1)])
    from retains_append [OF w w1(2,3)] w1(1) l Log s show ?thesis by simp
  next
    case (Level lvl)
    with l w s show ?thesis by (simp add: lg_SetLevel_def file_logger_def)
  next
    case (Check R)
    with ok have "re_Rename R = None" "re_OpenFile R = None" by simp_all
    from retains_check [OF w this] obtain w1 where "checkFileLoop Size R (l, w) = (l, w1)" "retains Size (lg_maxLogSize l) past w1" .
    with l Check s show ?thesis by simp
  qed
qed

lemma logger_run_retains:
  assumes "file_logger l" and "retains Size (lg_maxLogSize l) past w" and "\<forall>op \<in> set ops. check_succeeds op"
  shows "\<exists>l' w'. runs (logger_step Size) ops (l, w) = Return (l', w') \<and> retains Size (lg_maxLogSize l) (past @ logged ops l) w'"
  using lgr.runs_simulate [of "(l, w)" "(past, l)" "lg_maxLogSize l" Size ops] assms past_logged [of ops past l] by (auto simp: list_all_iff)

lemma NewLogger_file:
  assumes "NewLogger E path filePrefix level maxLogSize mode w = Some (l, w1)" and "level \<noteq> LogConsole"
    and "mode = LogFile \<or> mode = LogFileAndConsole"
  shows "file_logger l" and "lg_maxLogSize l = maxLogSize" and "lw_backup w1 = lw_backup w" and "content (lw_file w1) = content (lw_file w)"
  using assms by (auto simp: NewLogger_def Let_def file_logger_def split: option.splits)

section \<open>Properties\<close>

text \<open>
  C30: the log keeps its end. Whatever is logged to a new file logger, at whatever levels, and however often the file is
  rotated: no call panics, and the backup followed by the file is the end of everything that was there or was logged
  since; entries in front of it are gone only when a backup larger than the limit stands between.
\<close>

theorem logger_retains:
  assumes "NewLogger E path filePrefix level maxLogSize mode w = Some (l, w1)" and "level \<noteq> LogConsole"
    and "mode = LogFile \<or> mode = LogFileAndConsole" and "\<forall>op \<in> set ops. check_succeeds op"
  shows "\<exists>l' w' old. runs (logger_step Size) ops (l, w1) = Return (l', w')
    \<and> content (lw_backup w) @ content (lw_file w) @ logged ops l = old @ content (lw_backup w') @ content (lw_file w')
    \<and> (old \<noteq> [] \<longrightarrow> maxLogSize < Size (content (lw_backup w')))"
proof -
  note n = NewLogger_file [OF assms(1-3)]
  have "retains Size (lg_maxLogSize l) (content (lw_backup w) @ content (lw_file w)) w1" using n(3,4) by (simp add: retains_def)
  from logger_run_retains [OF n(1) this assms(4)] n(2) show ?thesis by (auto simp: retains_def)
qed

definition empty_logs :: "nat log_world" where
  "empty_logs = \<lparr>lw_file = None, lw_backup = None, lw_console = [], lw_stdout = []\<rparr>"

definition plain_files :: log_env where
  "plain_files = \<lparr>le_OpenFile = (\<lambda>_. None), le_windows = False, le_Getpid = 7\<rparr>"

definition rotating :: rotate_env where
  "rotating = \<lparr>re_Stat = None, re_Remove = None, re_Rename = None, re_OpenFile = None\<rparr>"

theorem logger_retains_witness:
  "\<exists>l w1. NewLogger plain_files [] ''a'' 0 1 LogFile empty_logs = Some (l, w1)
    \<and> (\<exists>l' w' old. runs (logger_step (\<lambda>es. int (length es))) [Log 2 ''INF'' ''x'' [], Log 4 ''ERR'' ''y'' [1], Check rotating, Log 3 ''WRN'' ''z'' []] (l, w1)
            = Return (l', w')
        \<and> logged [Log 2 ''INF'' ''x'' [], Log 4 ''ERR'' ''y'' [1], Check rotating, Log 3 ''WRN'' ''z'' []] l
            = old @ content (lw_backup w') @ content (lw_file w') \<and> length (content (lw_file w')) = 1)"
proof -
  obtain l w1 where n: "NewLogger plain_files [] ''a'' 0 1 LogFile empty_logs = Some (l, w1)"
    by (simp add: NewLogger_def plain_files_def LogConsole_def)
  let ?ops = "[Log 2 ''INF'' ''x'' [], Log 4 ''ERR'' ''y'' [1], Check rotating, Log 3 ''WRN'' ''z'' [] :: nat log_op]"
  have "\<forall>op \<in> set ?ops. check_succeeds op" by (simp add: rotating_def)
  from logger_retains [OF n _ _ this, where Size = "\<lambda>es. int (length es)"] obtain l' w' old where
    r: "runs (logger_step (\<lambda>es. int (length es))) ?ops (l, w1) = Return (l', w')" "logged ?ops l = old @ content (lw_backup w') @ content (lw_file w')"
    by (auto simp: LogConsole_def content_def empty_logs_def)
  have "length (content (lw_file w')) = 1"
    using r(1) n by (auto simp: NewLogger_def plain_files_def LogConsole_def LogFile_def LogFileAndConsole_def log_at_def file_Printf_def
        checkFileLoop_def checkFile_def rotating_def Let_def content_def empty_logs_def)
  with n r show ?thesis by blast
qed

text \<open>
  A gateway told to log from the level Info on, to a file, panics at its first message: the logger opens no
  file for the level 2, which is the number of the mode of a logger of the console only.
\<close>

theorem info_level_panics:
  assumes "mode = LogFile \<or> mode = LogFileAndConsole" and "LevelInfo \<le> lvl"
  shows "\<exists>l. NewLogger E path filePrefix LevelInfo maxLogSize mode w = Some (l, w) \<and> log_at lvl tag format v l w = Panic"
  using assms by (auto simp: NewLogger_def Let_def LogConsole_def LevelInfo_def log_at_def file_Printf_def LogFile_def LogFileAndConsole_def)

theorem info_level_panics_witness:
  "\<exists>l. NewLogger plain_files [] ''uptp-gateway'' LevelInfo 1048576 LogFile empty_logs = Some (l, empty_logs)
    \<and> log_at 2 ''INF'' ''uptp gateway run begin'' [] l empty_logs = Panic"
  using info_level_panics [of LogFile 2] by (simp add: LevelInfo_def)

text \<open>
  A file that cannot be opened again after a rotation ends the log: nothing is written to it any more, and no
  call says so.
\<close>

theorem log_lost_after_failed_open:
  assumes "lg_lg l" and "lg_logFile l = Some True" and "re_Stat R = None" and "re_OpenFile R = Some err"
    and "lg_maxLogSize l < Size (content (lw_file w))"
    and "checkFile Size R (l, w) = (l', w')" and "log_at lvl tag format v l' w' = Return w''"
  shows "lw_file w'' = lw_file w'"
  using assms by (auto simp: checkFile_def Let_def log_at_def file_Printf_def split: if_splits)

end
