(* ===== verification/CommandLine.thy ===== *)
theory CommandLine
  imports Flags Daemon Agent Logger
begin

text \<open>
  The programs: \<open>gateway/cmd\<close> (\<open>main.go\<close>, \<open>install.go\<close>, \<open>sys_linux.go\<close>) and \<open>agent/cmd\<close> (\<open>main.go\<close>, \<open>config.go\<close>). The
  service manager and the file operations are parameters. A gateway in daemon mode hands its flags on to its worker.
\<close>

section \<open>The gateway\<close>

record runConfig =
  rc_daemonMode :: bool
  rc_verbose :: bool
  rc_logLevel :: int
  rc_trial :: bool

definition gateway_flags :: "(string \<times> runConfig flag) list" where
  "gateway_flags =
     [(''d'', BoolFlag (\<lambda>b rc. rc\<lparr>rc_daemonMode := b\<rparr>)), (''v'', BoolFlag (\<lambda>b rc. rc\<lparr>rc_verbose := b\<rparr>)),
      (''trial'', BoolFlag (\<lambda>b rc. rc\<lparr>rc_trial := b\<rparr>)), (''log-level'', IntFlag (\<lambda>n rc. rc\<lparr>rc_logLevel := n\<rparr>))]"

definition zero_runConfig :: runConfig where
  "zero_runConfig = \<lparr>rc_daemonMode = False, rc_verbose = False, rc_logLevel = 0, rc_trial = False\<rparr>"

text \<open>Without arguments the flags and their defaults are not looked at.\<close>

definition parseRunParams :: "string list \<Rightarrow> runConfig parse_end" where
  "parseRunParams args =
     (if args = [] then Parsed zero_runConfig else parse_flags gateway_flags args (zero_runConfig\<lparr>rc_logLevel := LevelWarn\<rparr>))"

text \<open>
  What the command line asks for: a command, the end of the process by the flags, the daemon, or a run with the mode of its log.
  Without a program name the slice of the arguments panics.
\<close>

datatype gateway_command = Install | Uninstall | Control string | Nothing | Quits int | Daemon runConfig | Gateway int runConfig

definition gateway_main :: "string list \<Rightarrow> gateway_command outcome" where
  "gateway_main osArgs =
     (let cmd = (if 1 < length osArgs then osArgs ! 1 else [])
      in if cmd = ''install'' then Return Install
         else if cmd = ''uninstall'' then Return Uninstall
         else if cmd = ''start'' \<or> cmd = ''restart'' \<or> cmd = ''stop'' then Return (Control cmd)
         else if cmd = ''isletid'' then Return Nothing
         else if osArgs = [] then Panic
         else case parseRunParams (tl osArgs) of
                Quit n \<Rightarrow> Return (Quits n)
              | Parsed rc \<Rightarrow>
                  if rc_daemonMode rc then Return (Daemon rc)
                  else Return (Gateway (if rc_verbose rc then LogFileAndConsole else LogFile) rc))"

text \<open>
  The first lines of \<open>Run\<close>: the logger of the process, and its first message.
\<close>

definition run_begin :: "nbio_levels \<Rightarrow> log_env \<Rightarrow> runConfig \<Rightarrow> int \<Rightarrow> 'v log_world \<Rightarrow> 'v log_world outcome option" where
  "run_begin N E rc logMod w =
     (case NewLogger E ''.'' ''uptp-gateway'' (rc_logLevel rc) (1024 * 1024) logMod w of
        None \<Rightarrow> None
      | Some (gLog, w1) \<Rightarrow> Some (logging_Info N [] ''uptp gateway run begin'' [] (SetLogger (Some (FileLogger gLog)) DefaultLogger) w1))"

section \<open>Installing the service\<close>

definition defaultInstallPath :: string where
  "defaultInstallPath = ''/usr/local/uptp-gateway''"

definition defaultBinName :: string where
  "defaultBinName = ''uptpgw''"

definition target_path :: string where
  "target_path = defaultInstallPath @ ''/'' @ defaultBinName"

text \<open>The files and the state of the service manager; \<open>ie_Copy\<close> is a copy that fails, with the bytes it has written by then.\<close>

record 'svc inst_world =
  iw_files :: "string \<Rightarrow> string option"
  iw_svc :: 'svc

record 'svc inst_env =
  ie_MkdirAll :: "error option"
  ie_Chdir :: "error option"
  ie_Remove :: "string \<Rightarrow> error option"
  ie_OpenFile :: "error option"
  ie_Copy :: "(nat \<times> error) option"
  ie_Control :: "string \<Rightarrow> 'svc \<Rightarrow> error option \<times> 'svc"

definition serviceControl :: "'svc inst_env \<Rightarrow> string \<Rightarrow> 'svc inst_world \<Rightarrow> error option \<times> 'svc inst_world" where
  "serviceControl E ctrl w = (case ie_Control E ctrl (iw_svc w) of (err, svc) \<Rightarrow> (err, w\<lparr>iw_svc := svc\<rparr>))"

definition os_Remove :: "'svc inst_env \<Rightarrow> string \<Rightarrow> 'svc inst_world \<Rightarrow> 'svc inst_world" where
  "os_Remove E path w = (if ie_Remove E path = None then w\<lparr>iw_files := (iw_files w)(path := None)\<rparr> else w)"

definition uninstall :: "'svc inst_env \<Rightarrow> 'svc inst_world \<Rightarrow> 'svc inst_world" where
  "uninstall E w =
     (case serviceControl E ''stop'' w of (_, w1) \<Rightarrow>
        (case serviceControl E ''uninstall'' w1 of
           (Some err, w2) \<Rightarrow> w2
         | (None, w2) \<Rightarrow> os_Remove E target_path (os_Remove E (target_path @ ''0'') w2)))"

text \<open>\<open>install\<close> from the program at \<open>binPath\<close>, with the code it exits with.\<close>

definition cmd_install :: "'svc inst_env \<Rightarrow> string \<Rightarrow> 'svc inst_world \<Rightarrow> int \<times> 'svc inst_world" where
  "cmd_install E binPath w =
     (if ie_MkdirAll E \<noteq> None \<or> ie_Chdir E \<noteq> None then (1, w)
      else let w1 = uninstall E w
           in case iw_files w1 binPath of
                None \<Rightarrow> (1, w1)
              | Some prog \<Rightarrow>
                  if ie_OpenFile E \<noteq> None then (1, w1)
                  else let src = (if binPath = target_path then [] else prog);
                           w2 = w1\<lparr>iw_files := (iw_files w1)(target_path \<mapsto> [])\<rparr>
                       in case ie_Copy E of
                            Some (n, err) \<Rightarrow> (1, w2\<lparr>iw_files := (iw_files w2)(target_path \<mapsto> take n src)\<rparr>)
                          | None \<Rightarrow>
                              (case serviceControl E ''install'' (w2\<lparr>iw_files := (iw_files w2)(target_path \<mapsto> src)\<rparr>) of
                                 (Some err, w3) \<Rightarrow> (1, w3)
                               | (None, w3) \<Rightarrow>
                                   (case serviceControl E ''start'' w3 of
                                      (Some err, w4) \<Rightarrow> (1, w4)
                                    | (None, w4) \<Rightarrow> (0, w4))))"

section \<open>The agent\<close>

record agentConfig =
  ac_verbose :: bool
  ac_logLevel :: int

definition agent_flags :: "(string \<times> agentConfig flag) list" where
  "agent_flags =
     [(''v'', BoolFlag (\<lambda>b rc. rc\<lparr>ac_verbose := b\<rparr>)), (''log-level'', IntFlag (\<lambda>n rc. rc\<lparr>ac_logLevel := n\<rparr>))]"

definition agent_parseRunParams :: "string list \<Rightarrow> agentConfig parse_end" where
  "agent_parseRunParams args =
     (if args = [] then Parsed \<lparr>ac_verbose = False, ac_logLevel = 0\<rparr>
      else parse_flags agent_flags args \<lparr>ac_verbose = False, ac_logLevel = LevelWarn\<rparr>)"

datatype agent_result = AgentQuits int | Usage | Ended "error option" | Waiting

definition parseInt :: "string \<Rightarrow> int" where
  "parseInt s = fst (Atoi s)"

text \<open>
  \<open>add\<close> reads the arguments up to the ninth, having asked for eight. No command starts the agent.
\<close>

definition agent_main :: "'db agent_env \<Rightarrow> uint64 \<Rightarrow> string list \<Rightarrow> 'db agent \<Rightarrow> (agent_result \<times> 'db agent) outcome" where
  "agent_main E rnd osArgs ag =
     (if osArgs = [] then Panic
      else case agent_parseRunParams (tl osArgs) of Quit n \<Rightarrow> Return (AgentQuits n, ag) | Parsed rc \<Rightarrow>
      let cmd = (if 1 < length osArgs then osArgs ! 1 else [])
      in if cmd = ''add'' then
           (if length osArgs < 8 then Return (Usage, ag)
            else if length osArgs < 9 then Panic
            else case agent_addApp E rnd
                   (zero_PortmapApp\<lparr>pa_Name := osArgs ! 2, pa_PeerID := osArgs ! 3, pa_Network := osArgs ! 4, pa_LocalIP := osArgs ! 5,
                      pa_LocalPort := parseInt (osArgs ! 6), pa_TargetAddr := osArgs ! 7, pa_TargetPort := parseInt (osArgs ! 8),
                      pa_Running := True\<rparr>) ag of
              Panic \<Rightarrow> Panic
            | Return (err, ag') \<Rightarrow> Return (Ended err, ag'))
         else if cmd = ''del'' then
           (if length osArgs < 3 then Return (Usage, ag)
            else case delApp E (zero_PortmapApp\<lparr>pa_Name := osArgs ! 2\<rparr>) ag of
              Panic \<Rightarrow> Panic
            | Return (err, ag') \<Rightarrow> Return (Ended err, ag'))
         else case agent_start E True ag of
           Panic \<Rightarrow> Panic
         | Return (Some err, ag') \<Rightarrow> Return (Ended (Some err), ag')
         | Return (None, ag') \<Rightarrow> Return (Waiting, ag'))"

section \<open>Properties\<close>

text \<open>
  The commands of the agent never change an application. On the agent of a new process, \<open>add\<close> with enough arguments panics and \<open>del\<close> reports
  that the agent does not run; neither touches the agent, whatever the network and the database hold.
\<close>

theorem agent_commands_do_nothing:
  assumes "1 < length osArgs" and "osArgs ! 1 = ''add'' \<or> osArgs ! 1 = ''del''"
  shows "agent_main E rnd osArgs (agentIns nodb) =
    (if osArgs ! 1 = ''add'' then (if length osArgs < 8 then Return (Usage, agentIns nodb) else Panic)
     else if length osArgs < 3 then Return (Usage, agentIns nodb)
     else Return (Ended (Some (ErrNew ''agent not running'')), agentIns nodb))"
proof -
  obtain p args where o: "osArgs = p # osArgs ! 1 # args"
    using assms(1) by (cases osArgs; cases "tl osArgs") auto
  have "agent_parseRunParams (tl osArgs) = Parsed \<lparr>ac_verbose = False, ac_logLevel = LevelWarn\<rparr>"
    by (subst o) (use assms(2) in \<open>auto simp: agent_parseRunParams_def parse_flags_step\<close>)
  with assms show ?thesis by (auto simp: agent_main_def agent_addApp_def delApp_def agentIns_def Let_def)
qed

theorem agent_commands_do_nothing_witness:
  "agent_main sample_agent_env 1 [''uptp-agent'', ''del'', ''ssh''] (agentIns []) = Return (Ended (Some (ErrNew ''agent not running'')), agentIns [])"
  using agent_commands_do_nothing [of "[''uptp-agent'', ''del'', ''ssh'']" sample_agent_env 1 "[]"] by simp

text \<open>
  An installation puts the program it runs from into its place and starts the service, when every step succeeds.
\<close>

theorem install_copies_program:
  assumes "cmd_install E binPath w = (0, w')" and "binPath \<noteq> target_path"
  shows "iw_files w' target_path = iw_files (uninstall E w) binPath \<and> iw_files w' target_path \<noteq> None"
  using assms
  by (auto simp: cmd_install_def serviceControl_def Let_def split: if_splits option.splits prod.splits)

text \<open>
  Installing again from the installed program destroys the installation: the service is removed, the program
  deleted, and then there is nothing to copy.
\<close>

theorem reinstall_in_place_destroys:
  assumes "ie_MkdirAll E = None" and "ie_Chdir E = None" and "ie_Remove E target_path = None"
    and "ie_Control E ''stop'' (iw_svc w) = (e, s1)" and "ie_Control E ''uninstall'' s1 = (None, s2)"
  shows "\<exists>w'. cmd_install E target_path w = (1, w') \<and> iw_files w' target_path = None \<and> iw_svc w' = s2"
  using assms by (auto simp: cmd_install_def uninstall_def serviceControl_def os_Remove_def Let_def)

definition unit_service :: "bool inst_env" where
  "unit_service = \<lparr>ie_MkdirAll = None, ie_Chdir = None, ie_Remove = (\<lambda>_. None), ie_OpenFile = None, ie_Copy = None,
     ie_Control = (\<lambda>c s. if c = ''install'' then (None, True) else if c = ''uninstall'' then (None, False) else (None, s))\<rparr>"

theorem reinstall_in_place_destroys_witness:
  "\<exists>w'. cmd_install unit_service target_path \<lparr>iw_files = [target_path \<mapsto> ''prog''], iw_svc = True\<rparr> = (1, w')
    \<and> iw_files w' target_path = None \<and> \<not> iw_svc w'"
  using reinstall_in_place_destroys [of unit_service "\<lparr>iw_files = [target_path \<mapsto> ''prog''], iw_svc = True\<rparr>" None True False]
  by (simp add: unit_service_def)

text \<open>Settings as words of a command line.\<close>

datatype setting = SetVerbose bool | SetTrial bool | SetLevel int

fun words :: "setting \<Rightarrow> string list" where
  "words (SetVerbose b) = bool_word ''v'' b"
| "words (SetTrial b) = bool_word ''trial'' b"
| "words (SetLevel n) = int_words ''log-level'' n"

fun put_setting :: "setting \<Rightarrow> runConfig \<Rightarrow> runConfig" where
  "put_setting (SetVerbose b) rc = rc\<lparr>rc_verbose := b\<rparr>"
| "put_setting (SetTrial b) rc = rc\<lparr>rc_trial := b\<rparr>"
| "put_setting (SetLevel n) rc = rc\<lparr>rc_logLevel := n\<rparr>"

fun setting_ok :: "setting \<Rightarrow> bool" where
  "setting_ok (SetLevel n) = int64_ok n"
| "setting_ok _ = True"

lemma gateway_flag:
  "map_of gateway_flags ''d'' = Some (BoolFlag (\<lambda>b rc. rc\<lparr>rc_daemonMode := b\<rparr>))"
  "map_of gateway_flags ''v'' = Some (BoolFlag (\<lambda>b rc. rc\<lparr>rc_verbose := b\<rparr>))"
  "map_of gateway_flags ''trial'' = Some (BoolFlag (\<lambda>b rc. rc\<lparr>rc_trial := b\<rparr>))"
  "map_of gateway_flags ''log-level'' = Some (IntFlag (\<lambda>n rc. rc\<lparr>rc_logLevel := n\<rparr>))"
  by (simp_all add: gateway_flags_def)

lemma flag_names: "flag_name ''d''" "flag_name ''v''" "flag_name ''trial''" "flag_name ''log-level''"
  by (simp_all add: flag_name_def)

lemma parse_words:
  "list_all setting_ok ss \<Longrightarrow> parse_flags gateway_flags (concat (map words ss) @ as) rc = parse_flags gateway_flags as (fold put_setting ss rc)"
proof (induction ss arbitrary: rc)
  case (Cons s ss)
  have "parse_flags gateway_flags (words s @ bs) rc = parse_flags gateway_flags bs (put_setting s rc)" for bs
    using Cons.prems by (cases s) (simp_all add: parse_bool_word [OF flag_names(2) gateway_flag(2)]
        parse_bool_word [OF flag_names(3) gateway_flag(3)] parse_int_words [OF flag_names(4) gateway_flag(4)])
  with Cons show ?case by simp
qed simp

lemma parse_d: "parse_flags gateway_flags (''-d'' # as) rc = parse_flags gateway_flags as (rc\<lparr>rc_daemonMode := True\<rparr>)"
  using parse_bare_word [OF flag_names(1) gateway_flag(1)] by simp

lemma words_not_d: "''-d'' \<notin> set (words s)"
proof (cases s)
  case (SetLevel n)
  have "Itoa n \<noteq> ''-d''"
  proof
    assume "Itoa n = ''-d''"
    then have "nat_digits (nat (- n)) = ''d'' \<or> nat_digits (nat n) = ''-d''" by (auto simp: Itoa_def split: if_splits)
    then have "is_digit (CHR ''d'') \<or> is_digit (CHR ''-'')"
      using nat_digits_all [of "CHR ''d''" "nat (- n)"] nat_digits_all [of "CHR ''-''" "nat n"] by auto
    then show False by (simp add: is_digit_def)
  qed
  with SetLevel show ?thesis by (simp add: int_words_def)
qed (auto simp: bool_word_def)

lemma worker_args_words:
  assumes "''-d'' \<notin> set xs" shows "worker_args (xs @ ''-d'' # ys) = Some (xs @ ys)"
  using assms by (induction xs) auto

lemma put_settings_daemon: "rc_daemonMode (fold put_setting ss rc) = rc_daemonMode rc"
proof (induction ss arbitrary: rc)
  case (Cons s ss)
  then show ?case by (cases s) simp_all
qed simp

lemma put_settings_update: "fold put_setting ss (rc\<lparr>rc_daemonMode := b\<rparr>) = (fold put_setting ss rc)\<lparr>rc_daemonMode := b\<rparr>"
proof (induction ss arbitrary: rc)
  case (Cons s ss)
  have "put_setting s (rc\<lparr>rc_daemonMode := b\<rparr>) = (put_setting s rc)\<lparr>rc_daemonMode := b\<rparr>" by (cases s) simp_all
  with Cons show ?case by simp
qed simp

text \<open>Arguments that begin with a flag are no command.\<close>

lemma gateway_main_flags:
  assumes "args = [] \<or> hd (hd args) = CHR ''-''" and "parseRunParams args = Parsed rc"
  shows "gateway_main (prog # args) =
    Return (if rc_daemonMode rc then Daemon rc else Gateway (if rc_verbose rc then LogFileAndConsole else LogFile) rc)"
proof (cases args)
  case Nil
  with assms(2) show ?thesis by (simp add: gateway_main_def)
next
  case (Cons a as)
  with assms(1) have "a \<notin> {''install'', ''uninstall'', ''start'', ''restart'', ''stop'', ''isletid''}" by auto
  with Cons assms(2) show ?thesis by (simp add: gateway_main_def Let_def)
qed

lemma words_first: "concat (map words ss) = [] \<or> hd (hd (concat (map words ss))) = CHR ''-''" "concat (map words ss) = [] \<longleftrightarrow> ss = []"
proof -
  have w: "words s \<noteq> [] \<and> hd (hd (words s)) = CHR ''-''" for s by (cases s) (simp_all add: bool_word_def int_words_def)
  then show "concat (map words ss) = [] \<or> hd (hd (concat (map words ss))) = CHR ''-''" by (cases ss) (auto simp: hd_append)
  from w show "concat (map words ss) = [] \<longleftrightarrow> ss = []" by (cases ss) auto
qed

text \<open>
  C15: the worker of a daemon runs with the settings of the daemon. Whatever settings stand before and behind \<open>-d\<close> on the command
  line, the daemon hands its worker the same line without it, and the worker runs the gateway, not a daemon again, with
  exactly these settings. The exception is the line that the installation uses: with \<open>-d\<close> alone the worker has
  no arguments, takes no defaults, and logs at every level where the daemon logs warnings.
\<close>

theorem worker_keeps_settings:
  assumes "prog \<noteq> ''-d''" and "list_all setting_ok (ss1 @ ss2)"
    and "osArgs = prog # concat (map words ss1) @ ''-d'' # concat (map words ss2)"
    and "rc = fold put_setting (ss1 @ ss2) (zero_runConfig\<lparr>rc_logLevel := LevelWarn\<rparr>)"
  shows "gateway_main osArgs = Return (Daemon (rc\<lparr>rc_daemonMode := True\<rparr>))
    \<and> (\<exists>args. worker_args osArgs = Some args
        \<and> gateway_main args =
           (if ss1 @ ss2 = [] then Return (Gateway LogFile zero_runConfig)
            else Return (Gateway (if rc_verbose rc then LogFileAndConsole else LogFile) rc)))"
proof -
  let ?rc0 = "zero_runConfig\<lparr>rc_logLevel := LevelWarn\<rparr>"
  let ?args = "concat (map words ss1) @ ''-d'' # concat (map words ss2)"
  have ok: "list_all setting_ok ss1" "list_all setting_ok ss2" using assms(2) by simp_all
  have nd: "\<not> rc_daemonMode rc" by (simp add: assms(4) put_settings_daemon zero_runConfig_def)
  have p2: "parse_flags gateway_flags (concat (map words ss2)) s = Parsed (fold put_setting ss2 s)" for s
    using parse_words [OF ok(2), of "[]" s] by simp
  have p: "parseRunParams ?args = Parsed (rc\<lparr>rc_daemonMode := True\<rparr>)"
    by (simp add: parseRunParams_def parse_words [OF ok(1)] parse_d p2 put_settings_update assms(4))
  have h: "?args = [] \<or> hd (hd ?args) = CHR ''-''" using words_first [of ss1] by (auto simp: hd_append)
  have d: "gateway_main osArgs = Return (Daemon (rc\<lparr>rc_daemonMode := True\<rparr>))"
    using gateway_main_flags [OF h p, of prog] by (simp add: assms(3))
  have w: "worker_args osArgs = Some (prog # concat (map words (ss1 @ ss2)))"
    using worker_args_words [of "prog # concat (map words ss1)" "concat (map words ss2)"] words_not_d assms(1) by (auto simp: assms(3))
  have "parseRunParams (concat (map words (ss1 @ ss2))) = Parsed (if ss1 @ ss2 = [] then zero_runConfig else rc)"
    using parse_words [OF assms(2), of "[]" ?rc0] words_first(2) [of "ss1 @ ss2"] by (simp add: parseRunParams_def assms(4))
  from gateway_main_flags [OF words_first(1) this, of prog] nd have
    "gateway_main (prog # concat (map words (ss1 @ ss2))) =
      (if ss1 @ ss2 = [] then Return (Gateway LogFile zero_runConfig)
       else Return (Gateway (if rc_verbose rc then LogFileAndConsole else LogFile) rc))"
    by (simp add: zero_runConfig_def)
  with d w show ?thesis by blast
qed

theorem worker_keeps_settings_witness:
  "gateway_main [''uptpgw'', ''-v=true'', ''-d'', ''-log-level'', ''4'']
      = Return (Daemon \<lparr>rc_daemonMode = True, rc_verbose = True, rc_logLevel = 4, rc_trial = False\<rparr>)
   \<and> worker_args [''uptpgw'', ''-v=true'', ''-d'', ''-log-level'', ''4''] = Some [''uptpgw'', ''-v=true'', ''-log-level'', ''4'']
   \<and> gateway_main [''uptpgw'', ''-v=true'', ''-log-level'', ''4'']
      = Return (Gateway LogFileAndConsole \<lparr>rc_daemonMode = False, rc_verbose = True, rc_logLevel = 4, rc_trial = False\<rparr>)"
proof -
  have i: "Itoa 4 = ''4''" by code_simp
  from worker_keeps_settings [of "''uptpgw''" "[SetVerbose True]" "[SetLevel 4]", OF _ _ refl refl] show ?thesis
    by (simp add: bool_word_def int_words_def int64_ok_def zero_runConfig_def i)
qed

text \<open>
  Only the word \<open>-d\<close> itself is taken away. A daemon that was asked for in another spelling gives its worker no arguments at all.
\<close>

theorem other_spelling_loses_arguments:
  assumes "''-d'' \<notin> set osArgs"
  shows "worker_args osArgs = None"
  using assms by (induction osArgs) auto

theorem other_spelling_loses_arguments_witness:
  "gateway_main [''uptpgw'', ''--d'', ''-v''] = Return (Daemon \<lparr>rc_daemonMode = True, rc_verbose = True, rc_logLevel = 3, rc_trial = False\<rparr>)
   \<and> worker_args [''uptpgw'', ''--d'', ''-v''] = None"
  using other_spelling_loses_arguments [of "[''uptpgw'', ''--d'', ''-v'']"]
  by (simp add: gateway_main_def parseRunParams_def parse_flags_step gateway_flags_def flag_value_def zero_runConfig_def LevelWarn_def LogFile_def)

text \<open>And where the word stands behind an argument that is no flag, the worker is a daemon again, and so on without end.\<close>

theorem daemon_of_daemons:
  assumes "osArgs = [prog, ''-d=true'', x, ''-d'']" and "prog \<noteq> ''-d''" and "x = [] \<or> hd x \<noteq> CHR ''-''"
  shows "\<exists>args rc. worker_args osArgs = Some args \<and> gateway_main args = Return (Daemon rc)"
proof -
  have p: "parse_flags gateway_flags [x] rc = Parsed rc" for rc using assms(3) by (cases x) (auto simp: parse_flags_step)
  have "parseRunParams [''-d=true'', x] = Parsed (zero_runConfig\<lparr>rc_logLevel := LevelWarn, rc_daemonMode := True\<rparr>)"
    using parse_bool_word [OF flag_names(1) gateway_flag(1), of True "[x]"] by (simp add: parseRunParams_def bool_word_def p)
  from gateway_main_flags [OF _ this, of prog] have "\<exists>rc. gateway_main [prog, ''-d=true'', x] = Return (Daemon rc)" by auto
  moreover have "x \<noteq> ''-d''" using assms(3) by auto
  ultimately show ?thesis using assms(1,2) by auto
qed

theorem daemon_of_daemons_witness:
  "\<exists>rc. gateway_main [''uptpgw'', ''-d=true'', ''x''] = Return (Daemon rc)"
  using daemon_of_daemons [of "[''uptpgw'', ''-d=true'', ''x'', ''-d'']" "''uptpgw''" "''x''"] by simp

text \<open>
  The gateway cannot be run at the log level Info: its first message panics.
\<close>

theorem gateway_info_level_panics:
  assumes "gateway_main osArgs = Return (Gateway logMod rc)" and "rc_logLevel rc = LevelInfo" and "LevelInfo \<le> nl_Info N"
  shows "run_begin N E rc logMod w = Some Panic"
proof -
  have m: "logMod = LogFile \<or> logMod = LogFileAndConsole"
    using assms(1) by (auto simp: gateway_main_def Let_def split: if_splits parse_end.splits)
  then show ?thesis
    using assms(2,3)
    by (auto simp: run_begin_def NewLogger_def Let_def LogConsole_def LevelInfo_def logging_Info_def default_at_def SetLogger_def lg_Info_def log_at_def
        file_Printf_def LogFile_def LogFileAndConsole_def)
qed

theorem gateway_info_level_panics_witness:
  "gateway_main [''uptp-gateway'', ''-log-level'', ''2''] = Return (Gateway LogFile (zero_runConfig\<lparr>rc_logLevel := 2\<rparr>))
    \<and> run_begin \<lparr>nl_Debug = 1, nl_Info = 2, nl_Warn = 3, nl_Error = 4\<rparr> plain_files (zero_runConfig\<lparr>rc_logLevel := 2\<rparr>) LogFile empty_logs = Some Panic"
proof -
  have i: "Itoa 2 = ''2''" by code_simp
  have "parseRunParams [''-log-level'', ''2''] = Parsed (zero_runConfig\<lparr>rc_logLevel := 2\<rparr>)"
    using parse_words [of "[SetLevel 2]" "[]"] by (simp add: parseRunParams_def int_words_def int64_ok_def i)
  then have m: "gateway_main [''uptp-gateway'', ''-log-level'', ''2''] = Return (Gateway LogFile (zero_runConfig\<lparr>rc_logLevel := 2\<rparr>))"
    using gateway_main_flags [of "[''-log-level'', ''2'']"] by (simp add: zero_runConfig_def)
  from gateway_info_level_panics [OF m, of "\<lparr>nl_Debug = 1, nl_Info = 2, nl_Warn = 3, nl_Error = 4\<rparr>" plain_files empty_logs] m
  show ?thesis by (simp add: LevelInfo_def)
qed

end
