(* ===== verification/Process.thy ===== *)
theory Process
  imports SiteHistory P2PEngine CommandLine
begin

text \<open>
  The process of a gateway: \<open>main\<close> of \<open>gateway/cmd/main.go\<close> behind its command line. One goroutine runs the gateway, the
  main one waits for a signal of the system or for the restart that the web interface asks for, stops the
  gateway and waits for the other. The two interleave with the requests and with the streams of other nodes as a step relation over the
  site; a panic in any goroutine but those of the web server, which recovers them, ends the process.
\<close>

section \<open>State\<close>

text \<open>
  The goroutine that runs the gateway has not got to its end of \<open>Run\<close>, serves, or has returned. The main goroutine waits in its \<open>select\<close>, has
  left it, waits for the other goroutine, or is through, or the process has died of a panic. \<open>pr_listener\<close> says whether the field \<open>apiListener\<close> is set,
  \<open>pr_streams\<close> whether the three handlers of streams are, and \<open>pr_peers\<close> is the peer store of the libp2p host.
\<close>

datatype run_phase = Starting | Up | Over "error option"
datatype main_phase = InSelect | Leaving | Joining | Exited | Crashed

record ('db, 'ps) process =
  pr_site :: "'db site"
  pr_run :: run_phase
  pr_listener :: bool
  pr_streams :: bool
  pr_peers :: 'ps
  pr_main :: main_phase

definition start_process :: "bool \<Rightarrow> 'db \<Rightarrow> nat \<Rightarrow> bin_files \<Rightarrow> 'ps \<Rightarrow> ('db, 'ps) process" where
  "start_process trial nodb now fs peers =
     \<lparr>pr_site = (new_process trial nodb now, fs), pr_run = Starting, pr_listener = False, pr_streams = False, pr_peers = peers,
      pr_main = InSelect\<rparr>"

text \<open>What the streams meet of other packages: the SOCKS codec, and the peer store with its removal of a peer.\<close>

record 'ps peer_env =
  pv_lib :: socks_lib
  pv_store :: "'ps peerstore_ops"
  pv_remove :: "'ps \<Rightarrow> string \<Rightarrow> 'ps"

text \<open>The channel has no buffer and the send does not wait: only a main goroutine in its \<open>select\<close> gets it.\<close>

definition sendExitSignal :: "main_phase \<Rightarrow> main_phase" where
  "sendExitSignal m = (case m of InSelect \<Rightarrow> Leaving | _ \<Rightarrow> m)"

definition alive :: "('db, 'ps) process \<Rightarrow> bool" where
  "alive p \<longleftrightarrow> pr_main p \<noteq> Exited \<and> pr_main p \<noteq> Crashed"

section \<open>Steps\<close>

text \<open>
  \<open>Run\<close> comes to serving or to its end, and has set the handlers of streams when only its \<open>Listen\<close> failed; \<open>Serve\<close> ends, by itself or as its
  listener was closed; a request is handled (the connections of the server outlive its listener, but not the database: the requests behind
  \<open>Stop\<close> are not modelled); time passes; a signal comes; \<open>Stop\<close> runs; \<open>Wait\<close> returns. Another node asks for an authorisation, sends a handshake
  of a port map, uses the SOCKS service, or its connection comes and goes; libp2p runs a handler of streams in a goroutine of its own and recovers nothing, so that a panic
  there ends the process. \<open>OtherPanic\<close> is a panic in a goroutine with no step of its own: the relays of the port maps, the device, the packages. \<open>None\<close>: there is no such step.
\<close>

datatype 'db process_event =
    RunBegins "'db start_env" | ServeEnds "error option" | Request world http_request | Passes nat | Signal | CallStop | WaitReturns
  | PeerAsks uint64 "char conn" | PeerSocks uint64 net_env "bool list" string "byte conn" | PeerPortmap string | PeerConnected string bool | OtherPanic

definition streams_set :: "'db gw_env \<Rightarrow> 'db start_env \<Rightarrow> 'db Gateway \<Rightarrow> bool" where
  "streams_set E S g = (case Run E (S\<lparr>se_Listen := None\<rparr>) g of Return (Serving, _) \<Rightarrow> True | _ \<Rightarrow> False)"

definition streams_open :: "('db, 'ps) process \<Rightarrow> bool" where
  "streams_open p \<longleftrightarrow> pr_streams p \<and> pr_main p \<in> {InSelect, Leaving}"

text \<open>The gateway behind a SOCKS stream: its check reads the token, and makes one where there is none.\<close>

definition after_socks :: "'db gw_env \<Rightarrow> 'ps peer_env \<Rightarrow> uint64 \<Rightarrow> string \<Rightarrow> byte conn \<Rightarrow> 'ps \<Rightarrow> 'db Gateway \<Rightarrow> 'db Gateway" where
  "after_socks E V rnd pid s peers g =
     (if socks5Precheck (pv_store V) peers pid
      then (case presented_id (pv_lib V) s of None \<Rightarrow> g | Some authID \<Rightarrow> snd (socks_auth E rnd authID g))
      else g)"

fun process_step :: "'db gw_env \<Rightarrow> 'ps peer_env \<Rightarrow> 'db process_event \<Rightarrow> ('db, 'ps) process \<Rightarrow> ('db, 'ps) process option" where
  "process_step E V (RunBegins S) p =
     (if \<not> alive p \<or> pr_run p \<noteq> Starting then None
      else case Run E S (fst (pr_site p)) of
        Panic \<Rightarrow> Some (p\<lparr>pr_main := Crashed\<rparr>)
      | Return (Returned err, g) \<Rightarrow>
          Some (p\<lparr>pr_site := (g, snd (pr_site p)), pr_run := Over err, pr_streams := streams_set E S (fst (pr_site p))\<rparr>)
      | Return (Serving, g) \<Rightarrow> Some (p\<lparr>pr_site := (g, snd (pr_site p)), pr_run := Up, pr_listener := True, pr_streams := True\<rparr>))"
| "process_step E V (ServeEnds err) p = (if alive p \<and> pr_run p = Up then Some (p\<lparr>pr_run := Over err\<rparr>) else None)"
| "process_step E V (Request w q) p =
     (if \<not> pr_listener p \<or> pr_main p \<notin> {InSelect, Leaving} then None
      else case serve E w q (pr_site p) of
        Panic \<Rightarrow> None
      | Return (rsp, st) \<Rightarrow>
          Some (p\<lparr>pr_site := st,
                  pr_main := if routed w q (fst (pr_site p)) = Some EpRestart then sendExitSignal (pr_main p) else pr_main p\<rparr>))"
| "process_step E V (Passes t) p =
     (if alive p \<and> gw_now (fst (pr_site p)) \<le> t then Some (p\<lparr>pr_site := (advance t (fst (pr_site p)), snd (pr_site p))\<rparr>) else None)"
| "process_step E V Signal p =
     (if alive p then Some (if pr_main p = InSelect then p\<lparr>pr_main := Leaving\<rparr> else p) else None)"
| "process_step E V CallStop p =
     (if pr_main p \<noteq> Leaving then None
      else if \<not> pr_listener p then Some (p\<lparr>pr_main := Crashed\<rparr>)
      else case Stop E (fst (pr_site p)) of
        Panic \<Rightarrow> Some (p\<lparr>pr_main := Crashed\<rparr>)
      | Return g \<Rightarrow> Some (p\<lparr>pr_site := (g, snd (pr_site p)), pr_main := Joining\<rparr>))"
| "process_step E V WaitReturns p =
     (case (pr_main p, pr_run p) of (Joining, Over _) \<Rightarrow> Some (p\<lparr>pr_main := Exited\<rparr>) | _ \<Rightarrow> None)"
| "process_step E V (PeerAsks rnd s) p =
     (if \<not> streams_open p then None
      else case authorizeHandler E rnd s (fst (pr_site p)) of
        Panic \<Rightarrow> Some (p\<lparr>pr_main := Crashed\<rparr>)
      | Return (s', g) \<Rightarrow> Some (p\<lparr>pr_site := (g, snd (pr_site p))\<rparr>))"
| "process_step E V (PeerSocks rnd env sched pid s) p =
     (if \<not> streams_open p then None
      else case handler (pv_lib V) (pv_store V) env (\<lambda>authID. fst (socks_auth E rnd authID (fst (pr_site p)))) (gw_obDialer (fst (pr_site p)))
             sched pid s (pr_peers p) of
        Panic \<Rightarrow> Some (p\<lparr>pr_main := Crashed\<rparr>)
      | Return (res, peers) \<Rightarrow>
          Some (p\<lparr>pr_site := (after_socks E V rnd pid s (pr_peers p) (fst (pr_site p)), snd (pr_site p)), pr_peers := peers\<rparr>))"
| "process_step E V (PeerPortmap hs) p =
     (if \<not> streams_open p then None else Some (p\<lparr>pr_site := (snd (handlePortmapHandshake hs (fst (pr_site p))), snd (pr_site p))\<rparr>))"
| "process_step E V (PeerConnected pid c) p =
     (if alive p then Some (p\<lparr>pr_peers := connect_event (pv_remove V) (pid, c) (pr_peers p)\<rparr>) else None)"
| "process_step E V OtherPanic p = (if alive p then Some (p\<lparr>pr_main := Crashed\<rparr>) else None)"

section \<open>Histories\<close>

text \<open>
  What has happened: the correct logins with their second and token, the requests with their second, whether a signal came, and
  whether a goroutine that serves another node, or one of the others, has panicked.
\<close>

record history =
  hi_logins :: "(nat \<times> string) list"
  hi_requests :: "(nat \<times> http_request) list"
  hi_signal :: bool
  hi_panic :: bool

abbreviation no_history :: history where
  "no_history \<equiv> \<lparr>hi_logins = [], hi_requests = [], hi_signal = False, hi_panic = False\<rparr>"

fun unrecovered :: "'db process_event \<Rightarrow> bool" where
  "unrecovered (PeerAsks _ _) \<longleftrightarrow> True"
| "unrecovered (PeerSocks _ _ _ _ _) \<longleftrightarrow> True"
| "unrecovered OtherPanic \<longleftrightarrow> True"
| "unrecovered _ \<longleftrightarrow> False"

fun noted :: "'db gw_env \<Rightarrow> 'db process_event \<Rightarrow> 'db Gateway \<Rightarrow> history \<Rightarrow> history" where
  "noted E (Request w q) g h =
     h\<lparr>hi_logins := (if correct_login E q g then [(gw_now g, wd_uuid w)] else []) @ hi_logins h,
       hi_requests := (gw_now g, q) # hi_requests h\<rparr>"
| "noted E Signal g h = h\<lparr>hi_signal := True\<rparr>"
| "noted E _ g h = h"

definition after_step :: "'db gw_env \<Rightarrow> 'db process_event \<Rightarrow> ('db, 'ps) process \<Rightarrow> ('db, 'ps) process \<Rightarrow> history \<Rightarrow> history" where
  "after_step E ev p p' h =
     (noted E ev (fst (pr_site p)) h)\<lparr>hi_panic := hi_panic h \<or> unrecovered ev \<and> pr_main p' = Crashed\<rparr>"

lemma after_step_sel [simp]:
  "hi_logins (after_step E ev p p' h) = hi_logins (noted E ev (fst (pr_site p)) h)"
  "hi_requests (after_step E ev p p' h) = hi_requests (noted E ev (fst (pr_site p)) h)"
  "hi_signal (after_step E ev p p' h) = hi_signal (noted E ev (fst (pr_site p)) h)"
  "hi_panic (after_step E ev p p' h) \<longleftrightarrow> hi_panic h \<or> unrecovered ev \<and> pr_main p' = Crashed"
  by (simp_all add: after_step_def)

text \<open>All requests of a process go through one router.\<close>

fun uses_mux :: "mux \<Rightarrow> 'db process_event \<Rightarrow> bool" where
  "uses_mux M (Request w q) \<longleftrightarrow> wd_mux w = M"
| "uses_mux M _ \<longleftrightarrow> True"

inductive process_run :: "'db gw_env \<Rightarrow> 'ps peer_env \<Rightarrow> mux \<Rightarrow> ('db, 'ps) process \<Rightarrow> history \<Rightarrow> bool" for E V M where
  start: "process_run E V M (start_process trial nodb now fs peers) no_history"
| step: "process_run E V M p' (after_step E ev p p' h)"
    if "process_run E V M p h" and "uses_mux M ev" and "process_step E V ev p = Some p'"

text \<open>The cases of a step, one for each way it can go. What the other nodes do leaves all but the settings, the resources and the peers as it is.\<close>

lemma socks_auth_sessions: "same_sessions g (snd (socks_auth E rnd authID g))"
  by (auto simp: socks_auth_def proxyAuth_def session_frame dest: getToken_sessions split: prod.splits sum.splits)

lemma after_socks_sessions: "same_sessions g (after_socks E V rnd pid s peers g)"
  by (simp add: after_socks_def socks_auth_sessions session_frame split: option.split)

lemma handshake_sessions: "same_sessions g (snd (handlePortmapHandshake hs g))"
  by (simp add: handlePortmapHandshake_def session_frame split: option.split prod.split)

lemma authorizeHandler_sessions:
  assumes "authorizeHandler E rnd s g = Return (s', g')" shows "same_sessions g g'"
proof -
  have "same_sessions g g1" if "handlePortmapAuth E info s1 g = Return (s2, g1)" for info s1 s2 g1
    using that by (auto simp: handlePortmapAuth_def session_frame Let_def split: option.splits prod.splits if_splits)
  moreover have "same_sessions g g1" if "handleProxyAuth E rnd info s1 g = Return (s2, g1)" for info s1 s2 g1
    using that by (auto simp: handleProxyAuth_def Let_def dest: getToken_sessions split: option.splits sum.splits prod.splits if_splits)
  ultimately show ?thesis
    using assms by (auto simp: authorizeHandler_def session_frame split: prod.splits option.splits outcome.splits if_splits)
qed

lemma process_step_cases:
  assumes "process_step E V ev p = Some p'"
  obtains (panics) S where "ev = RunBegins S" "pr_run p = Starting" "alive p" "p' = p\<lparr>pr_main := Crashed\<rparr>"
  | (fails) S err g b where "ev = RunBegins S" "pr_run p = Starting" "alive p"
      "p' = p\<lparr>pr_site := (g, snd (pr_site p)), pr_run := Over err, pr_streams := b\<rparr>"
  | (serves) S g where "ev = RunBegins S" "pr_run p = Starting" "alive p" "Run E S (fst (pr_site p)) = Return (Serving, g)"
      "p' = p\<lparr>pr_site := (g, snd (pr_site p)), pr_run := Up, pr_listener := True, pr_streams := True\<rparr>"
  | (ends) err where "ev = ServeEnds err" "pr_run p = Up" "alive p" "p' = p\<lparr>pr_run := Over err\<rparr>"
  | (request) w q rsp g' fs' where "ev = Request w q" "pr_listener p" "pr_main p \<in> {InSelect, Leaving}"
      "serve E w q (pr_site p) = Return (rsp, g', fs')"
      "p' = p\<lparr>pr_site := (g', fs'), pr_main := if routed w q (fst (pr_site p)) = Some EpRestart then sendExitSignal (pr_main p) else pr_main p\<rparr>"
  | (passes) t where "ev = Passes t" "alive p" "p' = p\<lparr>pr_site := (advance t (fst (pr_site p)), snd (pr_site p))\<rparr>"
  | (signal) "ev = Signal" "alive p" "p' = (if pr_main p = InSelect then p\<lparr>pr_main := Leaving\<rparr> else p)"
  | (stop_crashes) "ev = CallStop" "pr_main p = Leaving" "p' = p\<lparr>pr_main := Crashed\<rparr>"
  | (stops) g where "ev = CallStop" "pr_main p = Leaving" "pr_listener p" "p' = p\<lparr>pr_site := (g, snd (pr_site p)), pr_main := Joining\<rparr>"
  | (waited) err where "ev = WaitReturns" "pr_main p = Joining" "pr_run p = Over err" "p' = p\<lparr>pr_main := Exited\<rparr>"
  | (peer) g peers where "\<And>w q. ev \<noteq> Request w q" "ev \<noteq> Signal" "alive p" "same_sessions (fst (pr_site p)) g"
      "p' = p\<lparr>pr_site := (g, snd (pr_site p)), pr_peers := peers\<rparr>"
  | (goroutine) "unrecovered ev" "ev \<noteq> Signal" "alive p" "p' = p\<lparr>pr_main := Crashed\<rparr>"
proof (cases ev)
  case (RunBegins S)
  with assms show ?thesis using that(1-3) by (auto split: if_splits outcome.splits prod.splits run_end.splits)
next
  case (ServeEnds err)
  with assms show ?thesis using that(4) by (auto split: if_splits)
next
  case (Request w q)
  with assms show ?thesis using that(5) by (auto split: if_splits outcome.splits prod.splits)
next
  case (Passes t)
  with assms show ?thesis using that(6) by (auto split: if_splits)
next
  case Signal
  with assms show ?thesis using that(7) by (auto split: if_splits)
next
  case CallStop
  with assms show ?thesis using that(8,9) by (auto split: if_splits outcome.splits)
next
  case WaitReturns
  with assms show ?thesis using that(10) by (auto split: main_phase.splits run_phase.splits)
next
  case (PeerAsks rnd s)
  with assms have a: "alive p" by (auto simp: streams_open_def alive_def split: if_splits)
  show ?thesis
  proof (cases "authorizeHandler E rnd s (fst (pr_site p))")
    case Panic
    with assms PeerAsks a show ?thesis by (intro that(12)) (auto split: if_splits)
  next
    case (Return r)
    with assms PeerAsks a authorizeHandler_sessions [of E rnd s "fst (pr_site p)"] show ?thesis
      by (cases r) (auto split: if_splits intro!: that(11) [of _ "pr_peers p"])
  qed
next
  case (PeerSocks rnd env sched pid s)
  with assms have a: "alive p" by (auto simp: streams_open_def alive_def split: if_splits)
  with assms PeerSocks after_socks_sessions [of "fst (pr_site p)" E V rnd pid s "pr_peers p"] that(11,12) show ?thesis
    by (auto split: if_splits outcome.splits prod.splits)
next
  case (PeerPortmap hs)
  with assms handshake_sessions [of "fst (pr_site p)" hs] show ?thesis
    by (intro that(11) [of "snd (handlePortmapHandshake hs (fst (pr_site p)))" "pr_peers p"])
      (auto simp: streams_open_def alive_def split: if_splits)
next
  case (PeerConnected pid c)
  with assms show ?thesis
    by (intro that(11) [of "fst (pr_site p)" "connect_event (pv_remove V) (pid, c) (pr_peers p)"]) (auto simp: session_frame split: if_splits)
next
  case OtherPanic
  with assms show ?thesis by (intro that(12)) (auto split: if_splits)
qed

section \<open>Sessions and the start\<close>

lemma start_listeners_clock: "start_listeners E apps g = Return g' \<Longrightarrow> gw_timers g' = gw_timers g \<and> gw_now g' = gw_now g"
proof (induction apps arbitrary: g)
  case (Cons a apps)
  obtain p err pm where l: "AddListener (ge_listen E) (pa_Network a) (pa_LocalIP a) (pa_LocalPort a) (gw_pm g) = ((p, err), pm)"
    by (metis surj_pair)
  show ?case
    using Cons.prems l Cons.IH by (cases err) (fastforce simp: set_pam_def split: if_splits outcome.splits)+
qed simp

lemma Run_clock:
  assumes "Run E S g = Return (Serving, g')" shows "gw_timers g' = gw_timers g \<and> gw_now g' = gw_now g"
proof -
  from assms obtain db us g1 g2 g3 apps g4 g5 g6 where st:
    "init_password E (g\<lparr>gw_db := db\<rparr>) = (None, g1)" "start_engine E S us g1 = (None, g2)" "load_resources E g2 = (None, g3)"
    "load_apps E g3 = Inr (apps, g4)" "start_client E g4 = Return (None, g5)" "start_service E g5 = (None, g6)"
    "start_listeners E apps (g6\<lparr>gw_pm := \<lparr>pm_listeners = [], pm_closed = []\<rparr>\<rparr>) = Return g'"
    by (rule Run_serving)
  have "gw_timers g1 = gw_timers g \<and> gw_now g1 = gw_now g"
    using st(1) by (auto simp: init_password_def db_put_def split: sum.splits prod.splits)
  moreover have "gw_timers g2 = gw_timers g1 \<and> gw_now g2 = gw_now g1"
    using st(2) by (auto simp: start_engine_def setListenPort_def db_put_def split: sum.splits if_splits prod.splits)
  moreover have "gw_timers g3 = gw_timers g2 \<and> gw_now g3 = gw_now g2" using st(3) by (auto simp: load_resources_def set_prm_def split: sum.splits)
  moreover have "gw_timers g4 = gw_timers g3 \<and> gw_now g4 = gw_now g3" using st(4) by (auto simp: load_apps_def set_pam_def split: sum.splits)
  moreover have "gw_timers g5 = gw_timers g4 \<and> gw_now g5 = gw_now g4" using st(5) by (auto simp: start_client_def set_cli_def split: outcome.splits sum.splits)
  moreover have "gw_timers g6 = gw_timers g5 \<and> gw_now g6 = gw_now g5" using st(6) by (auto simp: start_service_def Let_def split: sum.splits)
  ultimately show ?thesis using start_listeners_clock [OF st(7)] by simp
qed

lemma Run_sessions:
  assumes "Run E S g = Return (Serving, g')" shows "gw_sessions g' = gw_sessions g"
proof -
  from assms obtain db us g1 g2 g3 apps g4 g5 g6 where st:
    "init_password E (g\<lparr>gw_db := db\<rparr>) = (None, g1)" "start_engine E S us g1 = (None, g2)" "load_resources E g2 = (None, g3)"
    "load_apps E g3 = Inr (apps, g4)" "start_client E g4 = Return (None, g5)" "start_service E g5 = (None, g6)"
    "start_listeners E apps (g6\<lparr>gw_pm := \<lparr>pm_listeners = [], pm_closed = []\<rparr>\<rparr>) = Return g'"
    by (rule Run_serving)
  have "gw_sessions g1 = gw_sessions g" using st(1) by (auto simp: init_password_def db_put_def split: sum.splits prod.splits)
  moreover have "gw_sessions g2 = gw_sessions g1"
    using st(2) by (auto simp: start_engine_def setListenPort_def db_put_def split: sum.splits if_splits prod.splits)
  ultimately show ?thesis
    using load_resources_db [OF st(3)] load_apps_db [OF st(4)] start_client_frame [OF st(5)] start_service_frame [OF st(6)]
      start_listeners_frame [OF st(7)] by simp
qed

text \<open>
  What holds in every history: the sessions come from the logins; and while there was neither a signal nor a restart request of a
  logged in administrator, the main goroutine is in its \<open>select\<close>, if the process has not died of a panic.
\<close>

definition restart_request :: "mux \<Rightarrow> history \<Rightarrow> bool" where
  "restart_request M h \<longleftrightarrow>
     (\<exists>t' q i t. (t', q) \<in> set (hi_requests h) \<and> M routes (hq_Method q) (hq_Path q) = Some (EpRestart, i)
        \<and> (t, request_token q) \<in> set (hi_logins h) \<and> t' < t + 15 * 60)"

definition process_inv :: "mux \<Rightarrow> ('db, 'ps) process \<Rightarrow> history \<Rightarrow> bool" where
  "process_inv M p h \<longleftrightarrow>
     (pr_listener p \<and> pr_main p \<in> {InSelect, Leaving} \<longrightarrow> sessions_ok (fst (pr_site p)) (hi_logins h))
     \<and> (pr_run p = Starting \<longrightarrow> \<not> pr_listener p \<and> gw_sessions (fst (pr_site p)) = None \<and> gw_timers (fst (pr_site p)) = [])
     \<and> (pr_run p = Up \<longrightarrow> pr_listener p)
     \<and> (pr_main p = InSelect \<or> hi_signal h \<or> pr_listener p \<and> restart_request M h \<or> hi_panic h \<and> pr_main p = Crashed
        \<or> pr_main p = Crashed \<and> \<not> pr_listener p \<and> pr_run p = Starting)"

lemma restart_request_mono:
  "restart_request M h \<Longrightarrow> restart_request M (after_step E ev p p' h)"
  by (cases ev) (auto simp: restart_request_def)

lemma hi_signal_mono: "hi_signal h \<Longrightarrow> hi_signal (noted E ev g h)"
  by (cases ev) simp_all

lemma noted_logins: "(\<And>w q. ev \<noteq> Request w q) \<Longrightarrow> hi_logins (noted E ev g h) = hi_logins h"
  by (cases ev) auto

lemma sessions_ok_same: "same_sessions g g' \<Longrightarrow> sessions_ok g log \<Longrightarrow> sessions_ok g' log"
  by (simp add: same_sessions_def sessions_ok_def)

lemma accepted_restart:
  assumes "sessions_ok g log" and "mux_spec (wd_mux w)" and "routed w q g = Some EpRestart"
  shows "\<exists>i t. wd_mux w routes (hq_Method q) (hq_Path q) = Some (EpRestart, i) \<and> (t, request_token q) \<in> set log \<and> gw_now g < t + 15 * 60"
proof -
  obtain i where r: "wd_mux w routes (hq_Method q) (hq_Path q) = Some (EpRestart, i)" and a: "authMiddleware q g = None"
    using assms(3) by (auto simp: routed_def split: if_splits)
  from accepted_token [OF assms(1) a protected_route [OF assms(2) r]] r show ?thesis by auto
qed

lemma request_inv:
  assumes "process_inv M p h" and "mux_spec M" and "wd_mux w = M" and "pr_listener p" and "pr_main p \<in> {InSelect, Leaving}"
    and "serve E w q (pr_site p) = Return (rsp, g', fs')"
    and "p' = p\<lparr>pr_site := (g', fs'), pr_main := if routed w q (fst (pr_site p)) = Some EpRestart then sendExitSignal (pr_main p) else pr_main p\<rparr>"
  shows "process_inv M p' (after_step E (Request w q) p p' h)"
proof -
  let ?g = "fst (pr_site p)" and ?h = "after_step E (Request w q) p p' h"
  have ok: "sessions_ok ?g (hi_logins h)" using assms(1,4,5) by (auto simp: process_inv_def)
  then have ok': "sessions_ok g' (hi_logins ?h)" using serve_sessions_ok [of ?g "hi_logins h" E w q "snd (pr_site p)" rsp g' fs'] assms(6) by simp
  have "restart_request M ?h" if "routed w q ?g = Some EpRestart"
    using accepted_restart [OF ok _ that] assms(2,3) by (fastforce simp: restart_request_def)
  then show ?thesis
    using assms(1,4,5,7) ok' restart_request_mono [of M h E "Request w q" p p']
    by (auto simp: process_inv_def sendExitSignal_def split: main_phase.splits if_splits)
qed

lemma process_run_inv:
  assumes "process_run E V M p h" and "mux_spec M" shows "process_inv M p h"
  using assms(1)
proof (induction rule: process_run.induct)
  case (start trial nodb now fs peers)
  show ?case
    by (simp add: process_inv_def start_process_def new_process_def SetTrialMod_def Instance_def sessions_ok_def)
next
  case (step p h ev p')
  note inv = step.IH [unfolded process_inv_def] and r = restart_request_mono [of M h E ev p p'] and s = hi_signal_mono [of h E ev "fst (pr_site p)"]
  from step.hyps(3) show ?case
  proof (cases rule: process_step_cases)
    case (serves S g)
    with inv have "sessions_ok g (hi_logins h)"
      using Run_clock [OF serves(4)] Run_sessions [OF serves(4)] by (simp add: sessions_ok_def)
    with serves inv r s show ?thesis by (auto simp: process_inv_def alive_def)
  next
    case (request w q rsp g' fs')
    with request_inv [OF step.IH assms(2) _ request(2-5)] step.hyps(2) show ?thesis by simp
  next
    case (passes t)
    with inv r sessions_ok_advance [of "fst (pr_site p)" "hi_logins h" t] show ?thesis
      by (auto simp: process_inv_def advance_def alive_def)
  next
    case (peer g peers)
    have l: "hi_logins (noted E ev (fst (pr_site p)) h) = hi_logins h" by (rule noted_logins) (rule peer(1))
    with peer(4) inv sessions_ok_same [OF peer(4)] r s show ?thesis
      unfolding process_inv_def peer(5) by (auto simp: same_sessions_def)
  next
    case goroutine
    then have "hi_panic (after_step E ev p p' h)" by simp
    with goroutine inv show ?thesis by (auto simp: process_inv_def)
  qed (use inv r s in \<open>auto simp: process_inv_def alive_def\<close>)
qed

text \<open>
  A process that has not come to serving neither waits for its end nor has one, and leaves its \<open>select\<close> for a signal only, if no goroutine panics.
\<close>

lemma not_serving:
  assumes "process_run E V M p h" and "\<not> pr_listener p"
  shows "pr_main p \<in> (if hi_signal h then {Leaving, Crashed} else if hi_panic h \<or> pr_run p = Starting then {InSelect, Crashed} else {InSelect})"
  using assms
proof (induction rule: process_run.induct)
  case (step p h ev p')
  from step.hyps(3) show ?case
  proof (cases rule: process_step_cases)
    case (peer g peers)
    have "hi_signal (noted E ev (fst (pr_site p)) h) = hi_signal h" using peer(2) by (cases ev) simp_all
    with peer step.IH step.prems show ?thesis by (auto simp: alive_def split: if_splits)
  next
    case goroutine
    have "hi_signal (noted E ev (fst (pr_site p)) h) = hi_signal h" using goroutine(2) by (cases ev) simp_all
    with goroutine step.IH step.prems show ?thesis by (auto simp: alive_def split: if_splits)
  qed (use step.IH step.prems in \<open>auto simp: alive_def split: if_splits\<close>)
qed (simp add: start_process_def)

section \<open>Properties\<close>

text \<open>
  C11: only an administrator ends a gateway over the web. Through every history of a process, whatever is requested, whatever other nodes send over their streams, and
  however the start, the requests, the streams, the time and the two goroutines interleave, a gateway that serves is left to run; or a signal of
  the system came; or it has got a restart request with the token of a login with the administrator's name and password less than
  fifteen minutes before; or it has died of a panic in a goroutine that is not one of the web server. The last is no empty case: \<open>question_ends_gateway\<close> has
  a question of another node that does it.
\<close>

theorem only_administrator_restarts:
  assumes "process_run E V M p h" and "mux_spec M" and "pr_listener p" and "pr_main p \<noteq> InSelect" and "\<not> hi_signal h"
  shows "(\<exists>t' q i t. (t', q) \<in> set (hi_requests h) \<and> M routes (hq_Method q) (hq_Path q) = Some (EpRestart, i)
      \<and> (t, request_token q) \<in> set (hi_logins h) \<and> t' < t + 15 * 60)
    \<or> hi_panic h \<and> pr_main p = Crashed"
  using process_run_inv [OF assms(1,2)] assms(3-5) unfolding process_inv_def restart_request_def by blast

definition restart_web :: http_request where
  "restart_web = list_request\<lparr>hq_Path := ''/gateway/restart''\<rparr>"

lemma restart_web_step:
  shows "gw_sessions g = Some [(''tok'', True)] \<Longrightarrow> authMiddleware restart_web g = None" and "wd_mux sample_world routes (hq_Method restart_web) (hq_Path restart_web) = Some (EpRestart, [])"
  by (simp_all add: restart_web_def list_request_def login_request_def authMiddleware_def request_token_def made_def Let_def
      sample_world_def exact_mux_def routes_def)

definition sample_peers :: "(string \<times> string \<Rightarrow> ps_value option) peer_env" where
  "sample_peers = \<lparr>pv_lib = mini_lib, pv_store = fun_store, pv_remove = fun_remove\<rparr>"

theorem only_administrator_restarts_witness:
  "\<exists>p h. process_run sample_env sample_peers exact_mux p h \<and> pr_main p = Leaving \<and> pr_listener p \<and> \<not> hi_signal h
    \<and> (\<exists>t' q i t. (t', q) \<in> set (hi_requests h) \<and> exact_mux routes (hq_Method q) (hq_Path q) = Some (EpRestart, i)
        \<and> (t, request_token q) \<in> set (hi_logins h) \<and> t' < t + 15 * 60)"
proof -
  obtain g where g: "Run sample_env (sample_start []) (new_process False [] 0) = Return (Serving, g)" "gw_sessions g = None"
    "db_Get list_db (gw_db g) dbKeyAdminPassword = Inr ''admin123''" by (rule sample_Run)
  let ?p0 = "start_process False [] 0 sample_files Map.empty :: ((string \<times> string) list, string \<times> string \<Rightarrow> ps_value option) process"
  let ?p1 = "?p0\<lparr>pr_site := (g, sample_files), pr_run := Up, pr_listener := True, pr_streams := True\<rparr>"
  let ?g2 = "g\<lparr>gw_sessions := Some [(''tok'', True)], gw_timers := (gw_now g + session_seconds, ''tok'') # gw_timers g\<rparr>"
  let ?p2 = "?p1\<lparr>pr_site := (?g2, sample_files)\<rparr>" and ?p3 = "?p1\<lparr>pr_site := (?g2, sample_files), pr_main := Leaving\<rparr>"
  let ?h0 = "after_step sample_env (RunBegins (sample_start [])) ?p0 ?p1 no_history"
  let ?h2 = "after_step sample_env (Request sample_world login_request) ?p1 ?p2 ?h0"
  let ?h3 = "after_step sample_env (Request sample_world restart_web) ?p2 ?p3 ?h2"
  have x: "wd_mux sample_world = exact_mux" by (simp add: sample_world_def)
  have s1: "process_step sample_env sample_peers (RunBegins (sample_start [])) ?p0 = Some ?p1"
    using g(1) by (simp add: start_process_def alive_def)
  have r1: "process_run sample_env sample_peers exact_mux ?p1 ?h0"
    using process_run.step [OF process_run.start _ s1, of exact_mux] by simp
  have "routed sample_world login_request g \<noteq> Some EpRestart"
    using sample_routes(1) by (simp add: routed_def login_request_def)
  then have s2: "process_step sample_env sample_peers (Request sample_world login_request) ?p1 = Some ?p2"
    using sample_login_served(1) [OF g(2,3)] by (auto simp: start_process_def)
  have r2: "process_run sample_env sample_peers exact_mux ?p2 ?h2" using process_run.step [OF r1 _ s2] by (simp add: x)
  have s3: "process_step sample_env sample_peers (Request sample_world restart_web) ?p2 = Some ?p3"
    by (simp add: start_process_def serve_def routed_def restart_web_step sendExitSignal_def)
  have r3: "process_run sample_env sample_peers exact_mux ?p3 ?h3" using process_run.step [OF r2 _ s3] by (simp add: x)
  have "(\<exists>t' q i t. (t', q) \<in> set (hi_requests ?h3) \<and> exact_mux routes (hq_Method q) (hq_Path q) = Some (EpRestart, i)
      \<and> (t, request_token q) \<in> set (hi_logins ?h3) \<and> t' < t + 15 * 60)
      \<or> hi_panic ?h3 \<and> pr_main ?p3 = Crashed"
    by (rule only_administrator_restarts [OF r3 exact_mux_spec]) simp_all
  with r3 show ?thesis by (intro exI [of _ ?p3] exI [of _ ?h3]) simp
qed

text \<open>
  One question of another node ends a gateway: it asks about a resource and names none, and the handler follows the nil pointer. Neither a login nor a
  token is needed.
\<close>

theorem question_ends_gateway:
  assumes "streams_open p" and "rd_chunks s = [jprint (enc_AuthorizeReq \<lparr>aq_Type = AuthorizeTypePortmap, aq_Portmap = None, aq_Proxy = None\<rparr>)]"
  shows "process_step E V (PeerAsks rnd s) p = Some (p\<lparr>pr_main := Crashed\<rparr>)"
proof -
  let ?req = "\<lparr>aq_Type = AuthorizeTypePortmap, aq_Portmap = None, aq_Proxy = None\<rparr>"
  have "length (jprint (enc_AuthorizeReq ?req)) \<le> 1024" by code_simp
  moreover have "valid_req ?req" by (simp add: valid_req_def int64_ok_def)
  ultimately have "authorizeHandler E rnd s (fst (pr_site p)) = Panic"
    using authorize_missing_part_panics [OF assms(2)] by simp
  with assms(1) show ?thesis by simp
qed

theorem question_ends_gateway_witness:
  "process_step sample_env sample_peers (PeerAsks 0 ((conn_of [])\<lparr>rd_chunks := [jprint (enc_AuthorizeReq \<lparr>aq_Type = AuthorizeTypePortmap, aq_Portmap = None, aq_Proxy = None\<rparr>)]\<rparr>))
      \<lparr>pr_site = (sample_gateway, sample_files), pr_run = Up, pr_listener = True, pr_streams = True, pr_peers = Map.empty, pr_main = InSelect\<rparr>
    = Some \<lparr>pr_site = (sample_gateway, sample_files), pr_run = Up, pr_listener = True, pr_streams = True, pr_peers = Map.empty, pr_main = Crashed\<rparr>"
  by (subst question_ends_gateway) (simp_all add: streams_open_def)

text \<open>
  C39: a gateway whose start fails neither serves nor ends. The goroutine of \<open>Run\<close> returns, and nothing tells the main one: through every history
  in which no goroutine panics it stays in its \<open>select\<close>, so that the daemon waits for it and never starts it again. When a signal ends the waiting, \<open>Stop\<close> runs into the listener that is
  nil, and the process dies of a panic; it has no orderly end, whatever other nodes send to the handlers of streams that are set by then.
\<close>

theorem failed_start_waits:
  assumes "process_run E V M p h" and "pr_run p = Over err" and "\<not> pr_listener p"
  shows "pr_main p \<in> (if hi_signal h then {Leaving, Crashed} else if hi_panic h then {InSelect, Crashed} else {InSelect})"
  using not_serving [OF assms(1,3)] assms(2) by (simp split: if_splits)

theorem failed_start_waits_witness:
  "\<exists>p. process_run sample_env sample_peers exact_mux p no_history
    \<and> pr_run p = Over (Some ErrNotFound) \<and> pr_main p = InSelect"
proof -
  let ?p0 = "start_process False [] 0 sample_files Map.empty :: ((string \<times> string) list, string \<times> string \<Rightarrow> ps_value option) process"
  let ?S = "(sample_start [])\<lparr>se_OpenFile := Inl ErrNotFound\<rparr>"
  let ?p1 = "?p0\<lparr>pr_run := Over (Some ErrNotFound)\<rparr>"
  have s1: "process_step sample_env sample_peers (RunBegins ?S) ?p0 = Some ?p1"
    by (simp add: start_process_def alive_def Run_def or_return_def open_db_def sample_start_def streams_set_def)
  have r1: "process_run sample_env sample_peers exact_mux ?p1 no_history"
    using process_run.step [OF process_run.start _ s1, of exact_mux] by (simp add: after_step_def)
  have "pr_main ?p1 \<in> (if False then {Leaving, Crashed} else if False then {InSelect, Crashed} else {InSelect})"
    using failed_start_waits [OF r1] by (simp add: start_process_def)
  with r1 show ?thesis by (intro exI [of _ ?p1]) simp
qed

end
