(* ===== verification/ProxyToken.thy ===== *)
theory ProxyToken
  imports SocksClient Startup
begin

text \<open>
  The way of a proxy token: the question that adding an outbound sends (\<open>gateway/authorize.go\<close>), the credentials the outbound
  is filled with (\<open>gateway/proxy_client.go\<close>), the login the SOCKS client makes of them (\<open>socks5/client.go\<close>) and the check the server runs them through
  (\<open>socks5/server.go\<close> with the function \<open>Run\<close> gives it).
\<close>

section \<open>The login\<close>

text \<open>What the client sends when the server asks for a user and a password, whatever is answered to them.\<close>

lemma login_sent:
  assumes "client_lib_spec C" and "wr_room st = None" and "pending st = wire_method MethodUsernamePassword @ answers"
  shows "wr_data (snd (client_negotiate C peer noneOk st))
    = wr_data st @ wire_negotiation [MethodUsernamePassword] @ wire_userpass (pw_UserName peer) (pw_Password peer)"
proof -
  have W: "writes (NegotiationRequest_WriteTo C [MethodUsernamePassword]) (wire_negotiation [MethodUsernamePassword])"
    and R: "reads (NewNegotiationReplyFrom C) (wire_method MethodUsernamePassword) (Inr MethodUsernamePassword)"
    and U: "writes (UserPassNegotiationRequest_WriteTo C (pw_UserName peer) (pw_Password peer)) (wire_userpass (pw_UserName peer) (pw_Password peer))"
    and O: "only_reads (NewUserPassNegotiationReplyFrom C)"
    using assms(1) by (auto simp: client_lib_spec_def)
  obtain s1 where s1: "NegotiationRequest_WriteTo C [MethodUsernamePassword] st = (None, s1)" "pending s1 = pending st" "wr_room s1 = None"
    "wr_data s1 = wr_data st @ wire_negotiation [MethodUsernamePassword]"
    by (rule writes_freeE [OF W assms(2)])
  obtain s2 where s2: "NewNegotiationReplyFrom C s1 = (Inr MethodUsernamePassword, s2)" "wr_data s2 = wr_data s1" "wr_room s2 = None"
    using readsE [OF R, of s1 answers] s1(2,3) assms(3) by metis
  obtain s3 where s3: "UserPassNegotiationRequest_WriteTo C (pw_UserName peer) (pw_Password peer) s2 = (None, s3)"
    "wr_data s3 = wr_data s2 @ wire_userpass (pw_UserName peer) (pw_Password peer)"
    by (rule writes_freeE [OF U s2(3)])
  obtain r s4 where s4: "NewUserPassNegotiationReplyFrom C s3 = (r, s4)" by force
  have "snd (client_negotiate C peer noneOk st) = s4" using s1(1) s2(1) s3(1) s4 by (simp add: client_negotiate_def split: sum.split)
  then show ?thesis using s1(4) s2(2) s3(2) only_readsD [OF O s4] by simp
qed

text \<open>What the server makes of a token in both fields: a session exactly when its check accepts the token.\<close>

lemma login_checked:
  assumes "server_lib_spec L" and "wr_room s = None"
    and "pending s = wire_negotiation [MethodUsernamePassword] @ wire_userpass (le_bytes64 token) (le_bytes64 token) @ rest"
  shows "\<exists>err s'. socks5Negotiate L P AuthFunc pid True s ps
      = Return (err, s', if AuthFunc token then ps_Put P ps pid socks5ConnectSessionKey SessionInfo else ps)
    \<and> (err = None \<longleftrightarrow> AuthFunc token)"
proof -
  have le: "length (le_bytes64 token) = 8" and ne: "le_bytes64 token \<noteq> []" by (simp_all add: le_bytes64_def)
  have R: "reads (NewNegotiationRequestFrom L) (wire_negotiation [MethodUsernamePassword]) None"
    by (rule server_lib_laws(1) [OF assms(1)]) simp_all
  have U: "reads (NewUserPassNegotiationRequestFrom L) (wire_userpass (le_bytes64 token) (le_bytes64 token))
      (Inr \<lparr>up_Plen = of_nat (length (le_bytes64 token)), up_Passwd = le_bytes64 token\<rparr>)"
    by (rule server_lib_laws(3) [OF assms(1)]) (simp_all add: le ne)
  obtain bs where St: "writes (UserPassNegotiationReply_WriteTo L (if AuthFunc token then UserPassStatusSuccess else UserPassStatusFailure)) bs"
    using server_lib_laws(4) [OF assms(1)] by blast
  obtain s1 where s1: "NewNegotiationRequestFrom L s = (None, s1)" "pending s1 = wire_userpass (le_bytes64 token) (le_bytes64 token) @ rest" "wr_room s1 = None"
    using readsE [OF R assms(3)] assms(2) by metis
  obtain s2 where s2: "NegotiationReply_WriteTo L MethodUsernamePassword s1 = (None, s2)" "pending s2 = pending s1" "wr_room s2 = None"
    by (rule writes_freeE [OF server_lib_laws(2) [OF assms(1)] s1(3)])
  obtain s3 where s3: "NewUserPassNegotiationRequestFrom L s2 = (Inr \<lparr>up_Plen = 8, up_Passwd = le_bytes64 token\<rparr>, s3)" "wr_room s3 = None"
    using readsE [OF U, of s2 rest] s1(2) s2(2,3) le by auto
  obtain s4 where s4: "UserPassNegotiationReply_WriteTo L (if AuthFunc token then UserPassStatusSuccess else UserPassStatusFailure) s3 = (None, s4)"
    by (rule writes_freeE [OF St s3(2)])
  have "socks5Auth P AuthFunc pid \<lparr>up_Plen = 8, up_Passwd = le_bytes64 token\<rparr> ps
      = Return (AuthFunc token, if AuthFunc token then ps_Put P ps pid socks5ConnectSessionKey SessionInfo else ps)"
    using le_uint64_le_bytes64 [of token "[]"] le by (simp add: socks5Auth_def)
  with s1(1) s2(1) s3(1) s4 show ?thesis by (cases "AuthFunc token") (simp_all add: socks5Negotiate_def)
qed

text \<open>The check \<open>Run\<close> hands to the SOCKS service: every token in trial mode, else the gateway's own.\<close>

lemma socks_auth_token: "has_token E t g \<Longrightarrow> fst (socks_auth E rnd u g) \<longleftrightarrow> gw_trial g \<or> u = t"
  by (auto simp: socks_auth_def proxyAuth_def getToken_has)

lemma filled_credentials:
  assumes "socks5OutboundFillRunningInfo h ob = (None, ob')"
  shows "pw_UserName (so_socks5Peer ob') = le_bytes64 (so_Token ob)" and "pw_Password (so_socks5Peer ob') = le_bytes64 (so_Token ob)"
  using assms by (auto simp: socks5OutboundFillRunningInfo_def Let_def ID_Uint64_def split: sum.splits option.splits)

section \<open>Properties\<close>

text \<open>
  C22: the proxy token opens the SOCKS service end to end. A node that asks with the token of an outbound (the question that adding it sends) gets
  an answer exactly when the token is the gateway's. And the bytes that the SOCKS client sends with the credentials this outbound is filled with, read by
  the server of that gateway, log the node in exactly when the token is the gateway's or the gateway runs in trial mode, where every token does: then the peer
  gets its session, and else the negotiation ends with an error and the peer store is left as it is.
\<close>

theorem proxy_token_end_to_end:
  assumes "has_token E t g" and "gw_proxySvc g = Some pc" and "rd_chunks s = [jprint (enc_AuthorizeReq (token_question (so_Token ob)))]"
    and "wr_room s = None" and "wr_data s = []" and "length (jprint (enc_AuthorizeReq (token_question (so_Token ob)))) \<le> 1024"
    and "socks5OutboundFillRunningInfo h ob = (None, ob')"
    and "client_lib_spec C" and "wr_room st = None" and "wr_data st = []" and "pending st = wire_method MethodUsernamePassword @ answers"
    and "server_lib_spec L" and "wr_room srv = None" and "pending srv = wr_data (snd (client_negotiate C (so_socks5Peer ob') noneOk st)) @ rest"
    and "socks5Precheck P ps pid"
  shows "(\<exists>s'. authorizeHandler E rnd s g = Return (s', g) \<and> (wr_data s' \<noteq> [] \<longleftrightarrow> so_Token ob = t))
    \<and> (\<exists>err srv'. socks5Negotiate L P (\<lambda>x. fst (socks_auth E rnd x g)) pid (socks5Precheck P ps pid) srv ps
          = Return (err, srv', if gw_trial g \<or> so_Token ob = t then ps_Put P ps pid socks5ConnectSessionKey SessionInfo else ps)
        \<and> (err = None \<longleftrightarrow> gw_trial g \<or> so_Token ob = t))"
proof
  show "\<exists>s'. authorizeHandler E rnd s g = Return (s', g) \<and> (wr_data s' \<noteq> [] \<longleftrightarrow> so_Token ob = t)"
    by (rule token_question_answered [OF assms(1-6)])
  have "pending srv = wire_negotiation [MethodUsernamePassword] @ wire_userpass (le_bytes64 (so_Token ob)) (le_bytes64 (so_Token ob)) @ rest"
    using assms(10,14) login_sent [OF assms(8,9,11)] filled_credentials [OF assms(7)] by simp
  from login_checked [OF assms(12,13) this, of P "\<lambda>x. fst (socks_auth E rnd x g)" pid ps]
  show "\<exists>err srv'. socks5Negotiate L P (\<lambda>x. fst (socks_auth E rnd x g)) pid (socks5Precheck P ps pid) srv ps
          = Return (err, srv', if gw_trial g \<or> so_Token ob = t then ps_Put P ps pid socks5ConnectSessionKey SessionInfo else ps)
        \<and> (err = None \<longleftrightarrow> gw_trial g \<or> so_Token ob = t)"
    using assms(15) by (simp add: socks_auth_token [OF assms(1)])
qed

theorem proxy_token_end_to_end_witness:
  "(\<exists>s'. authorizeHandler sample_env 0 ((conn_of [])\<lparr>rd_chunks := [jprint (enc_AuthorizeReq (token_question 9))]\<rparr>) sample_gateway
        = Return (s', sample_gateway) \<and> wr_data s' \<noteq> [])
    \<and> (\<exists>srv'. socks5Negotiate rfc_server fun_store (\<lambda>x. fst (socks_auth sample_env 0 x sample_gateway)) ''me'' (socks5Precheck fun_store Map.empty ''me'')
          (conn_of (wire_negotiation [2] @ wire_userpass (le_bytes64 9) (le_bytes64 9))) Map.empty
        = Return (None, srv', ps_Put fun_store Map.empty ''me'' socks5ConnectSessionKey SessionInfo))"
proof -
  let ?s = "(conn_of [])\<lparr>rd_chunks := [jprint (enc_AuthorizeReq (token_question (so_Token office)))]\<rparr>"
  let ?st = "conn_of (wire_method MethodUsernamePassword @ [1, 0]) :: byte conn"
  let ?srv = "conn_of (wire_negotiation [2] @ wire_userpass (le_bytes64 9) (le_bytes64 9)) :: byte conn"
  have o9: "so_Token office = 9" by (simp add: office_def)
  have n: "length (jprint (enc_AuthorizeReq (token_question (so_Token office)))) \<le> 1024" by code_simp
  have "ParseCIDR (so_Route office) = Some (v4_net 0x0a000000 8)" unfolding office_cidr by (rule ParseCIDR_v4) simp
  then obtain ob' where f: "socks5OutboundFillRunningInfo answering_p2p office = (None, ob')"
    by (simp add: socks5OutboundFillRunningInfo_def answering_p2p_def) (simp add: office_def Let_def)
  have p: "pending ?st = wire_method MethodUsernamePassword @ [1, 0]" by simp
  have w: "pending ?srv = wr_data (snd (client_negotiate (rfc_client []) (so_socks5Peer ob') False ?st)) @ []"
    using login_sent [OF rfc_client_spec _ p, of "[]" "so_socks5Peer ob'" False] filled_credentials [OF f] o9 by (simp add: conn_of_def pending_def)
  have "(\<exists>s'. authorizeHandler sample_env 0 ?s sample_gateway = Return (s', sample_gateway) \<and> (wr_data s' \<noteq> [] \<longleftrightarrow> so_Token office = 9))
    \<and> (\<exists>err srv'. socks5Negotiate rfc_server fun_store (\<lambda>x. fst (socks_auth sample_env 0 x sample_gateway)) ''me'' (socks5Precheck fun_store Map.empty ''me'') ?srv Map.empty
          = Return (err, srv', if gw_trial sample_gateway \<or> so_Token office = 9 then ps_Put fun_store Map.empty ''me'' socks5ConnectSessionKey SessionInfo else Map.empty)
        \<and> (err = None \<longleftrightarrow> gw_trial sample_gateway \<or> so_Token office = 9))"
    by (rule proxy_token_end_to_end [OF sample_token _ _ _ _ n f rfc_client_spec _ _ p rfc_server_spec _ w])
      (simp_all add: sample_gateway_def conn_of_def fun_store_def socks5Precheck_def)
  then show ?thesis unfolding o9 by auto
qed

end
