(* ===== verification/Node.thy ===== *)
theory Node
  imports Startup P2PEngine
begin

text \<open>
  A gateway on its p2p engine: \<open>Run\<close> of \<open>gateway/gateway.go\<close> with \<open>NewP2PEngine\<close> of \<open>p2pengine/engine.go\<close> in the place of the
  parameter it has in the theory of the start.
\<close>

definition engine_of :: "engine_lib \<Rightarrow> engine_world \<Rightarrow> int \<Rightarrow> string \<Rightarrow> string list \<Rightarrow> error + int" where
  "engine_of L w port us bs = map_sum id GetListenPort (fst (NewP2PEngine L port us ''dht.db'' False w))"

lemma ParseInt_int64: "int64_ok (fst (ParseInt s))"
  by (auto simp: ParseInt_def int64_ok_def Let_def split: prod.splits list.splits)

lemma real_port_int64: "int64_ok p \<Longrightarrow> int64_ok (real_port addrs p)"
proof (induction addrs arbitrary: p)
  case (Cons a addrs)
  show ?case
  proof (cases "ma_ip6 a = None \<or> ma_tcp a = None")
    case True
    with Cons show ?thesis by (auto split: option.splits)
  next
    case False
    then obtain ip t where t: "ma_ip6 a = Some ip" "ma_tcp a = Some t" by auto
    obtain n e where n: "Atoi t = (n, e)" by (cases "Atoi t")
    with ParseInt_int64 [of t] have "int64_ok n" by (simp add: Atoi_def)
    with Cons.IH [of n] t n show ?thesis by (cases e) simp_all
  qed
qed simp

lemma engine_port_int64: "fst (NewP2PEngine L port us path cm w) = Inr pe \<Longrightarrow> int64_ok (GetListenPort pe)"
  using real_port_int64 [of 0]
  by (auto simp: NewP2PEngine_def GetListenPort_def Let_def int64_ok_def split: if_splits option.splits sum.splits)

lemma start_engine_stores_port:
  assumes "leveldb_spec (ge_D E)" and "leveldb_writable (ge_D E)" and "start_engine E S us g = (None, g')"
    and "\<And>p bs q. se_NewP2PEngine S p us bs = Inr q \<Longrightarrow> int64_ok q"
  obtains asked bs port where "se_NewP2PEngine S asked us bs = Inr port" and "getListenPort E g = Inr asked"
    and "getListenPort E g' = Inr port"
proof -
  from assms(3) obtain asked port where a: "getListenPort E g = Inr asked" "se_NewP2PEngine S asked us (getBootstraps E g) = Inr port"
    "g' = (if asked \<noteq> port then snd (setListenPort E port g) else g)"
    by (auto simp: start_engine_def split: sum.splits)
  have "getListenPort E (snd (setListenPort E port g)) = Inr port"
  proof -
    obtain db' where db': "db_Put (ge_D E) (gw_db g) dbKeyListenPort (Itoa port) = (None, db')"
      using writable_put [OF assms(2)] by blast
    with put_get [OF assms(1) db'] ParseInt_Itoa [OF assms(4) [OF a(2)]] show ?thesis
      by (simp add: getListenPort_def setListenPort_def db_put_def Atoi_def)
  qed
  with a that show thesis by (cases "asked = port") auto
qed

section \<open>Properties\<close>

text \<open>
  A node keeps its port. After a start that serves, the port in the database is the one the engine listens on,
  whichever was asked for: the next start asks for it.
\<close>

theorem start_remembers_port:
  assumes "leveldb_spec (ge_D E)" and "leveldb_writable (ge_D E)" and "open_db S = Inr db"
    and "se_NewP2PEngine S = engine_of L w" and "Run E S (Instance nodb now) = Return (Serving, g')"
  shows "\<exists>asked us pe. fst (NewP2PEngine L asked us ''dht.db'' False w) = Inr pe \<and> getListenPort E g' = Inr (GetListenPort pe)"
proof -
  obtain us g1 g2 where st: "start_engine E S us g1 = (None, g2)" "same_but (ge_D E) {keySocksOutbound, keyPortmapApps} (gw_db g2) (gw_db g')"
    using Run_frames(6) [OF assms(1,3,5)] by blast
  have ok: "int64_ok q" if "se_NewP2PEngine S p us bs = Inr q" for p bs q
    using that engine_port_int64 [of L p us "''dht.db''" False w]
    by (cases "fst (NewP2PEngine L p us ''dht.db'' False w)") (auto simp: assms(4) engine_of_def)
  obtain asked bs port where e: "se_NewP2PEngine S asked us bs = Inr port" "getListenPort E g2 = Inr port"
    by (rule start_engine_stores_port [OF assms(1,2) st(1)]) (use ok in blast)+
  have "getListenPort E g' = getListenPort E g2" using st(2) by (simp add: getListenPort_def same_but_def db_keys)
  moreover obtain pe where "fst (NewP2PEngine L asked us ''dht.db'' False w) = Inr pe" "port = GetListenPort pe"
    using e(1) by (cases "fst (NewP2PEngine L asked us ''dht.db'' False w)") (auto simp: assms(4) engine_of_def)
  ultimately show ?thesis using e(2) by auto
qed

definition online_lib :: engine_lib where
  "online_lib = offline_lib\<lparr>el_New := \<lambda>_. Inr [\<lparr>ma_ip6 = None, ma_tcp = Some ''1''\<rparr>, \<lparr>ma_ip6 = Some ''::1'', ma_tcp = Some ''7''\<rparr>]\<rparr>"

lemma online_engine:
  "fst (NewP2PEngine online_lib p us ''dht.db'' False \<lparr>ew_datastores = [], ew_hosts = []\<rparr>) = Inr pe \<Longrightarrow> GetListenPort pe = 7"
  by (auto simp: NewP2PEngine_def GetListenPort_def online_lib_def offline_lib_def Let_def Atoi_def ParseInt_def ParseUint_def is_digit_def
      digit_val_def maxUint64_def char_nat_def split: if_splits)

theorem start_remembers_port_witness:
  "\<exists>g'. Run sample_env (sample_start []\<lparr>se_NewP2PEngine := engine_of online_lib \<lparr>ew_datastores = [], ew_hosts = []\<rparr>\<rparr>) (Instance [] 0)
      = Return (Serving, g') \<and> getListenPort sample_env g' = Inr 7"
proof -
  let ?w = "\<lparr>ew_datastores = [], ew_hosts = []\<rparr>" and ?us = "replicate 32 (CHR ''a'')"
  let ?S = "sample_start []\<lparr>se_NewP2PEngine := engine_of online_lib ?w\<rparr>"
  have "\<exists>pe. fst (NewP2PEngine online_lib 0 ?us ''dht.db'' False ?w) = Inr pe"
    by (simp add: NewP2PEngine_def online_lib_def offline_lib_def SeedSize_def Let_def)
  with online_engine [of 0 ?us] have p: "engine_of online_lib ?w 0 ?us bs = Inr 7" for bs by (auto simp: engine_of_def)
  have o: "open_db ?S = Inr []" "load_seed ?S = Inr ?us"
    using sample_start_opens [of "[]"] by (simp_all add: sample_start_def open_db_def load_seed_def)
  have "\<exists>g'. Run sample_env ?S (Instance [] 0) = Return (Serving, g')"
    by (rule Run_serves [where db = "[]" and us = ?us and port = 7 and rs = None and as = "Some []"])
      (use o p list_db_spec prm_fresh [OF list_db_spec list_db_empty] pam_fresh [OF list_db_spec list_db_empty]
        in \<open>auto simp: sample_env_def sample_start_def list_db_empty NewPortmapAppMgr_def\<close>)
  then obtain g' where r: "Run sample_env ?S (Instance [] 0) = Return (Serving, g')" by blast
  obtain asked us pe where "fst (NewP2PEngine online_lib asked us ''dht.db'' False ?w) = Inr pe" "getListenPort sample_env g' = Inr (GetListenPort pe)"
    using start_remembers_port [OF _ _ o(1) _ r, of online_lib ?w] list_db_spec by (auto simp: sample_env_def)
  with online_engine r show ?thesis by auto
qed

end
