(* ===== verification/Bootstrap.thy ===== *)
theory Bootstrap
  imports Startup P2PEngine
begin

text \<open>
  The bootstrap node (\<open>bootstrap/main.go\<close>), and the identity of a node: gateway, agent and bootstrap node keep the seed of their key in
  the file \<open>uuid\<close> and read it at every start. The library is that of \<open>P2PEngine\<close>, files and random numbers those of \<open>Startup\<close>.
\<close>

section \<open>The bootstrap node\<close>

text \<open>The same steps as \<open>load_seed\<close>, with a panic for every return.\<close>

definition bootstrap_seed :: "'db start_env \<Rightarrow> string outcome" where
  "bootstrap_seed S =
     (case se_ReadUuid S of
        (us, err) \<Rightarrow>
          if (case err of None \<Rightarrow> False | Some e \<Rightarrow> se_IsExist S e) then Panic
          else if length us < SeedSize then
            (case se_NewRandom S of
               Inl e \<Rightarrow> Panic
             | Inr u \<Rightarrow>
                 let str = filter (\<lambda>c. c \<noteq> CHR ''-'') u
                 in if length str < SeedSize then Panic
                    else (case se_WriteUuid S str of Some e \<Rightarrow> Panic | None \<Rightarrow> Return str))
          else Return us)"

text \<open>
  The node listens on its fixed port with the limits of the library, and its hash table is a server with a data store in memory. It
  then waits for ever: \<open>Return\<close> is the node it serves as.
\<close>

definition bootstrap_host :: "engine_lib \<Rightarrow> string \<Rightarrow> host_opts" where
  "bootstrap_host L priv =
     \<lparr>ho_security = el_noiseID L, ho_prologue = NoisePrologue, ho_identity = priv, ho_clientMode = False, ho_noLimits = False,
      ho_listen = Some ''/ip6/::/tcp/2025''\<rparr>"

definition bootstrap_main :: "engine_lib \<Rightarrow> 'db start_env \<Rightarrow> (host_opts \<times> dht_opts) outcome" where
  "bootstrap_main L S =
     (case bootstrap_seed S of
        Panic \<Rightarrow> Panic
      | Return us \<Rightarrow>
          (case el_GenerateEd25519Key L (take SeedSize us) of
             Inl err \<Rightarrow> Panic
           | Inr priv \<Rightarrow>
               (case el_New L (bootstrap_host L priv) of
                  Inl err \<Rightarrow> Panic
                | Inr addrs \<Rightarrow>
                    let opts = \<lparr>do_prefix = ''/uptp'', do_server = True, do_datastore = None\<rparr>
                    in case el_dhtNew L opts of
                         Some err \<Rightarrow> Panic
                       | None \<Rightarrow> Return (bootstrap_host L priv, opts))))"

lemma bootstrap_seed_load: "bootstrap_seed S = (case load_seed S of Inl _ \<Rightarrow> Panic | Inr us \<Rightarrow> Return us)"
  by (simp add: bootstrap_seed_def load_seed_def SeedSize_def Let_def not_le split: prod.splits sum.splits option.splits)

section \<open>The file of the seed\<close>

text \<open>
  A start reads the file: all of it, or the first bytes of it and an error (\<open>os.ReadFile\<close> returns both); of a file that is not there, nothing. It
  then leaves the file alone, writes a new seed to it, or fails to, which leaves \<open>torn\<close> in it.
\<close>

type_synonym read_failure = "(nat \<times> error) option"

definition reading :: "string option \<Rightarrow> read_failure \<Rightarrow> 'db start_env \<Rightarrow> 'db start_env" where
  "reading f failure S = S\<lparr>se_ReadUuid :=
     (case f of
        None \<Rightarrow> ([], Some ErrNotFound)
      | Some us \<Rightarrow> (case failure of None \<Rightarrow> (us, None) | Some (n, err) \<Rightarrow> (take n us, Some err)))\<rparr>"

definition written :: "'db start_env \<Rightarrow> string option \<Rightarrow> string option \<Rightarrow> string option" where
  "written S torn f =
     (case se_NewRandom S of
        Inl e \<Rightarrow> f
      | Inr u \<Rightarrow>
          let str = filter (\<lambda>c. c \<noteq> CHR ''-'') u
          in if length str < SeedSize then f
             else if se_WriteUuid S str = None then Some str else torn)"

definition seed_file :: "'db start_env \<Rightarrow> read_failure \<Rightarrow> string option \<Rightarrow> string option \<Rightarrow> string option" where
  "seed_file S failure torn f =
     (case se_ReadUuid (reading f failure S) of
        (us, err) \<Rightarrow>
          if (case err of None \<Rightarrow> False | Some e \<Rightarrow> se_IsExist S e) \<or> SeedSize \<le> length us then f
          else written S torn f)"

text \<open>The seeds of one start after the other.\<close>

fun seed_runs :: "('db start_env \<times> read_failure \<times> string option) list \<Rightarrow> string option \<Rightarrow> (error option + string) list" where
  "seed_runs [] f = []"
| "seed_runs ((S, failure, torn) # Ss) f = load_seed (reading f failure S) # seed_runs Ss (seed_file S failure torn f)"

text \<open>A read that fails before it has got to a seed, with an error that the code takes for a missing file.\<close>

fun misreads :: "'db start_env \<times> read_failure \<times> string option \<Rightarrow> bool" where
  "misreads (S, Some (n, err), torn) \<longleftrightarrow> n < SeedSize \<and> \<not> se_IsExist S err"
| "misreads (S, None, torn) \<longleftrightarrow> False"

text \<open>The key is made of the first \<open>SeedSize\<close> bytes. A file that holds those of a seed keeps them under every start that does not misread it.\<close>

definition holds_seed :: "string \<Rightarrow> string option \<Rightarrow> bool" where
  "holds_seed us f \<longleftrightarrow> (\<exists>fs. f = Some fs \<and> SeedSize \<le> length fs \<and> take SeedSize fs = take SeedSize us)"

lemma load_seed_holds:
  assumes "load_seed (reading f failure S) = Inr us"
  shows "holds_seed us (seed_file S failure torn f)"
  using assms
  by (auto simp: holds_seed_def load_seed_def reading_def seed_file_def written_def SeedSize_def Let_def min_def
      split: option.splits sum.splits if_splits prod.splits)

lemma holds_seed_step:
  assumes "holds_seed us f" and "\<not> misreads (S, failure, torn)"
  shows "holds_seed us (seed_file S failure torn f)"
    and "load_seed (reading f failure S) = Inr us' \<Longrightarrow> take SeedSize us' = take SeedSize us"
  using assms
  by (cases failure; auto simp: holds_seed_def load_seed_def reading_def seed_file_def SeedSize_def min_def split: if_splits)+

lemma seed_runs_length: "length (seed_runs Ss f) = length Ss"
  by (induction Ss f rule: seed_runs.induct) simp_all

lemma seed_runs_hold:
  assumes "holds_seed us f" and "j < length Ss" and "seed_runs Ss f ! j = Inr us'" and "\<And>k. k \<le> j \<Longrightarrow> \<not> misreads (Ss ! k)"
  shows "take SeedSize us' = take SeedSize us"
  using assms
proof (induction Ss f arbitrary: j rule: seed_runs.induct)
  case (2 S failure torn Ss f)
  have m: "\<not> misreads (S, failure, torn)" using 2(5) [of 0] by simp
  show ?case
  proof (cases j)
    case 0
    with 2 holds_seed_step(2) [OF 2(2) m] show ?thesis by simp
  next
    case (Suc i)
    have "\<not> misreads (Ss ! k)" if "k \<le> i" for k using that 2(5) [of "Suc k"] Suc by simp
    with 2 Suc holds_seed_step(1) [OF 2(2) m] show ?thesis by simp
  qed
qed simp

section \<open>Properties\<close>

text \<open>
  C12: a node loses its identity by a failed read only. A gateway, an agent or a bootstrap node is started any number of times, on
  any file to begin with; reading the file, drawing random numbers and writing may fail at every start, and a failed write may leave anything in
  the file. When two of the starts get to a seed and the keys made of them differ, then the later one or a start between the
  two failed to read the file, short of a seed, with an error that the code does not stop at.
\<close>

theorem identity_kept:
  assumes "i < j" and "j < length Ss" and "seed_runs Ss f ! i = Inr us" and "seed_runs Ss f ! j = Inr us'"
    and "take SeedSize us \<noteq> take SeedSize us'"
  shows "\<exists>k. i < k \<and> k \<le> j \<and> misreads (Ss ! k)"
  using assms
proof (induction Ss f arbitrary: i j rule: seed_runs.induct)
  case (2 S failure torn Ss f)
  obtain j' where j: "j = Suc j'" using 2(2) by (cases j) auto
  show ?case
  proof (cases i)
    case 0
    with 2 have h: "holds_seed us (seed_file S failure torn f)" using load_seed_holds by simp
    have "\<exists>k \<le> j'. misreads (Ss ! k)" using seed_runs_hold [OF h, of j' Ss us'] 2(3,5,6) j by auto
    with 0 j show ?thesis by (metis Suc_le_mono nth_Cons_Suc zero_less_Suc)
  next
    case (Suc i')
    with 2(1) [of i' j'] 2(2-) j have "\<exists>k. i' < k \<and> k \<le> j' \<and> misreads (Ss ! k)" by simp
    with Suc j show ?thesis by (metis Suc_le_mono Suc_mono nth_Cons_Suc)
  qed
qed simp

definition failing_starts :: "((string \<times> string) list start_env \<times> read_failure \<times> string option) list" where
  "failing_starts =
     [((sample_start [])\<lparr>se_WriteUuid := (\<lambda>_. Some ErrNotFound)\<rparr>, None, Some ''aa''), (sample_start [], None, None),
      ((sample_start [])\<lparr>se_NewRandom := Inr (replicate 32 (CHR ''b''))\<rparr>, Some (40, ErrNew ''input/output error''), None),
      ((sample_start [])\<lparr>se_NewRandom := Inr (replicate 32 (CHR ''b''))\<rparr>, Some (5, ErrNew ''input/output error''), None)]"

lemma failing_seeds:
  "seed_runs failing_starts None = [Inl (Some ErrNotFound), Inr (replicate 32 (CHR ''a'')), Inr (replicate 32 (CHR ''a'')), Inr (replicate 32 (CHR ''b''))]"
  by (simp add: failing_starts_def load_seed_def reading_def seed_file_def written_def SeedSize_def sample_start_def)

theorem identity_kept_witness: "\<exists>k. 1 < k \<and> k \<le> 3 \<and> misreads (failing_starts ! k)"
  by (rule identity_kept [where f = None and us = "replicate 32 (CHR ''a'')" and us' = "replicate 32 (CHR ''b'')"])
    (simp_all only: failing_seeds, simp_all add: failing_starts_def SeedSize_def)

text \<open>
  Such a start gives the node a new identity: the test on the error is \<open>os.IsExist\<close>, which no error of reading meets, so that any failure
  to read counts as a file that is not there, and the seed is replaced.
\<close>

theorem failed_read_replaces_identity:
  assumes "se_ReadUuid S = ([], Some err)" and "\<not> se_IsExist S err" and "se_NewRandom S = Inr u"
    and "str = filter (\<lambda>c. c \<noteq> CHR ''-'') u" and "SeedSize \<le> length str" and "se_WriteUuid S str = None"
  shows "load_seed S = Inr str \<and> bootstrap_seed S = Return str"
  using assms by (simp add: bootstrap_seed_load load_seed_def SeedSize_def)

theorem failed_read_replaces_identity_witness:
  "load_seed ((sample_start [])\<lparr>se_ReadUuid := ([], Some (ErrNew ''input/output error''))\<rparr>) = Inr (replicate 32 (CHR ''a''))"
  using failed_read_replaces_identity [of "(sample_start [])\<lparr>se_ReadUuid := ([], Some (ErrNew ''input/output error''))\<rparr>" _ "replicate 32 (CHR ''a'')", OF _ _ _ refl]
  by (simp add: sample_start_def SeedSize_def)

text \<open>
  With the same seed a bootstrap node has the key, the security and the hash table of a gateway, in the same mode.
\<close>

lemma bootstrap_serves_like_engine:
  assumes "bootstrap_main L S = Return (ho, opts)" and "load_seed S = Inr us" and "NewP2PEngine L port us path False w = (Inr pe, w')"
  shows "ho_identity ho = pe_host pe \<and> ho_security ho = el_noiseID L \<and> do_prefix opts = do_prefix (pe_dht pe) \<and> do_server opts = do_server (pe_dht pe)"
  using assms
  by (auto simp: bootstrap_main_def bootstrap_seed_load bootstrap_host_def NewP2PEngine_def Let_def split: sum.splits option.splits if_splits)

end
