(* ===== verification/Exports.thy ===== *)
theory Exports
  imports Agent
begin

text \<open>
  The interface of the package \<open>agent\<close> (\<open>agent/export.go\<close>): what the window, the Android application and the commands call. All
  of it works on the one agent of the process. The theory shows which shape an agent has after a start, with port mapping or without (the pointers that are
  set), and which exported calls keep it and do not panic.
\<close>

section \<open>The shape of a started agent\<close>

text \<open>An agent that was started with port mapping.\<close>

definition live :: "'db agent \<Rightarrow> bool" where
  "live ag \<longleftrightarrow> ag_running ag \<and> ag_p2p ag \<and> ag_dbOpen ag \<and> ag_pm ag \<noteq> None \<and> (\<exists>as. ag_am ag = Some (Some as))"

lemma live_cases:
  assumes "live ag"
  obtains pm as where "ag_pm ag = Some pm" and "ag_am ag = Some (Some as)" and "ag_running ag" and "ag_p2p ag" and "ag_dbOpen ag"
  using assms by (auto simp: live_def)

lemma with_am_update:
  assumes "live ag" and "leveldb_writable (ae_D E)" and "ag_am ag = Some (Some as)"
  shows "\<exists>ag'. with_am (UpdatePortmapApp (store_of E ag) a) ag = Return (None, ag') \<and> live ag'
    \<and> ag_am ag' = Some (Some (AList.update (pa_ID a) a as)) \<and> ag_pm ag' = ag_pm ag"
proof -
  let ?as = "AList.update (pa_ID a) a as"
  obtain db' where "db_Put (ae_D E) (ag_db ag) keyPortmapApps (jprint (encode_map enc_PortmapApp (Some ?as))) = (None, db')"
    using writable_put [OF assms(2)] by blast
  with assms show ?thesis
    by (auto simp: with_am_def UpdatePortmapApp_def pam_savePortmap_def store_of_def ID_Uint64_def live_def)
qed

lemma live_pm: "live ag \<Longrightarrow> live (ag\<lparr>ag_pm := Some pm\<rparr>)"
  by (simp add: live_def)

lemma store_of_pm [simp]: "store_of E (ag\<lparr>ag_pm := pm\<rparr>) = store_of E ag"
  by (simp add: store_of_def)

text \<open>An addition either changes no application or stores one under the new identifier; the table is never lost.\<close>

lemma addApp_live:
  assumes "live ag" and "leveldb_writable (ae_D E)" and "ag_am ag = Some (Some as)"
  shows "\<exists>err ag'. agent_addApp E rnd a ag = Return (err, ag') \<and> live ag'
    \<and> (if err \<noteq> None then ag_am ag' = ag_am ag
       else \<exists>a'. pa_ID a' = rnd \<and> pa_Name a' = pa_Name a \<and> ag_am ag' = Some (Some (AList.update rnd a' as)))"
proof -
  obtain pm where pm: "ag_pm ag = Some pm" using assms(1) by (auto simp: live_def)
  let ?req = "\<lparr>aq_Type = AuthorizeTypePortmap, aq_Portmap = Some \<lparr>ai_ResourceID = pa_ResID a\<rparr>, aq_Proxy = None\<rparr>"
  show ?thesis
  proof (cases "fst (ResourceAuthorize (ae_p2p E) (pa_PeerID a) ?req)")
    case (Inl err)
    with assms(1) show ?thesis by (simp add: agent_addApp_def live_def Let_def)
  next
    case (Inr rsp)
    show ?thesis
    proof (cases "as_Err rsp = [] \<and> as_Portmap rsp \<noteq> None")
      case False
      with Inr assms(1) show ?thesis by (auto simp: agent_addApp_def live_def Let_def)
    next
      case True
      then obtain p where p: "as_Portmap rsp = Some p" by blast
      define a1 where "a1 = (if ap_IsTrial p then a\<lparr>pa_ID := rnd\<rparr> else a\<lparr>pa_ID := rnd, pa_TargetAddr := [], pa_TargetPort := 0\<rparr>)\<lparr>pa_PeerName := as_NodeName rsp\<rparr>"
      have a1: "pa_ID a1 = rnd" "pa_Name a1 = pa_Name a" "pa_Running a1 = pa_Running a" by (simp_all add: a1_def)
      obtain q err pm' where l: "AddListener (ae_listen E) (pa_Network a) (pa_LocalIP a) (pa_LocalPort a) pm = ((q, err), pm')"
        by (metis surj_pair)
      define a2 where "a2 = (case err of None \<Rightarrow> a1 | Some e \<Rightarrow> a1\<lparr>pa_Running := False, pa_Err := ae_Error E e\<rparr>)"
      have a2: "pa_ID a2 = rnd" "pa_Name a2 = pa_Name a" using a1 by (simp_all add: a2_def split: option.splits)
      have p2p: "ag_p2p ag" using assms(1) by (simp add: live_def)
      have red: "agent_addApp E rnd a ag = (if \<not> pa_Running a then with_am (UpdatePortmapApp (store_of E ag) a1) ag
           else with_am (UpdatePortmapApp (store_of E ag) a2) (ag\<lparr>ag_pm := Some pm'\<rparr>))"
        using True Inr p pm p2p l by (cases "ap_IsTrial p"; cases err) (simp_all add: agent_addApp_def Let_def a1_def a2_def)
      show ?thesis
      proof (cases "pa_Running a")
        case False
        then show ?thesis unfolding red using with_am_update [OF assms, of a1] a1 by auto
      next
        case True
        with with_am_update [OF live_pm [OF assms(1), of pm'] assms(2), of as a2] assms(3) a2 show ?thesis unfolding red by auto
      qed
    qed
  qed
qed

text \<open>What an update makes of the stored application, but for the outcome of its listener.\<close>

definition merged :: "PortmapApp \<Rightarrow> PortmapApp \<Rightarrow> PortmapApp" where
  "merged a old =
     (let e = old\<lparr>pa_Running := pa_Running a, pa_Name := pa_Name a, pa_Network := pa_Network a, pa_LocalIP := pa_LocalIP a,
                  pa_LocalPort := pa_LocalPort a\<rparr>
      in if pa_TargetAddr old \<noteq> [] then e\<lparr>pa_TargetAddr := pa_TargetAddr a, pa_TargetPort := pa_TargetPort a\<rparr> else e)"

lemma merged_fields [simp]:
  "pa_ID (merged a old) = pa_ID old" "pa_Name (merged a old) = pa_Name a" "pa_Network (merged a old) = pa_Network a"
  "pa_LocalIP (merged a old) = pa_LocalIP a" "pa_LocalPort (merged a old) = pa_LocalPort a" "pa_Running (merged a old) = pa_Running a"
  "pa_PeerID (merged a old) = pa_PeerID old" "pa_ResID (merged a old) = pa_ResID old" "pa_PeerName (merged a old) = pa_PeerName old"
  by (simp_all add: merged_def Let_def)

text \<open>The outcome of the listener: an application that is to run and cannot listen is stored as stopped, with the error.\<close>

definition listen_error :: "'db agent_env \<Rightarrow> PortmapApp \<Rightarrow> Portmap \<Rightarrow> error option" where
  "listen_error E a pm = snd (fst (AddListener (ae_listen E) (pa_Network a) (pa_LocalIP a) (pa_LocalPort a) pm))"

definition listened :: "'db agent_env \<Rightarrow> PortmapApp \<Rightarrow> Portmap \<Rightarrow> PortmapApp \<Rightarrow> PortmapApp" where
  "listened E a pm app =
     (case listen_error E a pm of
        None \<Rightarrow> app
      | Some e \<Rightarrow> if pa_Running a then app\<lparr>pa_Running := False, pa_Err := ae_Error E e\<rparr> else app)"

lemma listened_ID [simp]: "pa_ID (listened E a pm app) = pa_ID app"
  by (simp add: listened_def split: option.splits)

lemma updateAPP_stores:
  assumes "live ag" and "leveldb_writable (ae_D E)" and "ag_am ag = Some (Some as)" and "ag_pm ag = Some pm"
    and "pa_ID a \<noteq> 0" and "map_of as (pa_ID a) = Some old"
  shows "\<exists>ag'. updateAPP E a ag = Return (None, ag') \<and> live ag' \<and> ag_am ag' = Some (Some (AList.update (pa_ID old) (listened E a pm (merged a old)) as))"
proof -
  obtain q err pm1 where l: "AddListener (ae_listen E) (pa_Network a) (pa_LocalIP a) (pa_LocalPort a) pm = ((q, err), pm1)"
    by (metis surj_pair)
  define pm' where "pm' = (if pa_Running a then pm1 else DeleteListener (pa_Network a) (pa_LocalIP a) (pa_LocalPort a) pm)"
  have get: "GetPortmapApp (ID_Uint64 (pa_ID a)) (Some as, ag_db ag) = Some old"
    using assms(6) by (simp add: GetPortmapApp_def ID_Uint64_def)
  have "updateAPP E a ag = with_am (UpdatePortmapApp (store_of E ag) (listened E a pm (merged a old))) (ag\<lparr>ag_pm := Some pm'\<rparr>)"
    using get l assms(3-5)
    by (cases "pa_Running a"; cases err; cases "pa_TargetAddr old = []")
      (simp_all add: updateAPP_def Let_def listened_def listen_error_def pm'_def merged_def)
  with with_am_update [OF live_pm [OF assms(1), of pm'] assms(2), of as "listened E a pm (merged a old)"] assms(3) show ?thesis by auto
qed

lemma updateAPP_live:
  assumes "live ag" and "leveldb_writable (ae_D E)"
  shows "\<exists>err ag'. updateAPP E a ag = Return (err, ag') \<and> live ag'"
proof -
  obtain pm as where ag: "ag_pm ag = Some pm" "ag_am ag = Some (Some as)" using assms(1) by (auto elim: live_cases)
  show ?thesis
  proof (cases "pa_ID a = 0 \<or> map_of as (pa_ID a) = None")
    case True
    with assms(1) ag show ?thesis by (auto simp: updateAPP_def GetPortmapApp_def ID_Uint64_def split: option.splits)
  next
    case False
    with updateAPP_stores [OF assms ag(2,1)] show ?thesis by blast
  qed
qed

lemma delApp_live:
  assumes "live ag" and "leveldb_writable (ae_D E)"
  shows "\<exists>ag'. delApp E a ag = Return (None, ag') \<and> live ag'"
proof -
  obtain pm as where ag: "ag_pm ag = Some pm" "ag_am ag = Some (Some as)" "ag_running ag" "ag_dbOpen ag"
    using live_cases [OF assms(1)] by metis
  obtain db' where "db_Put (ae_D E) (ag_db ag) keyPortmapApps (jprint (encode_map enc_PortmapApp (Some (AList.delete (pa_ID a) as)))) = (None, db')"
    using writable_put [OF assms(2)] by blast
  with ag assms(1) show ?thesis
    by (auto simp: delApp_def with_am_def pam_DelPortmapApp_def pam_savePortmap_def store_of_def ID_Uint64_def live_def)
qed

section \<open>The exported calls\<close>

datatype 'db agent_call =
  CStart "'db start_env" bool | CClose
| CAddApp uint64 PortmapApp | CUpdateApp PortmapApp | CDelApp PortmapApp | CGetApps
| CAddProxyGateway string string | CDelProxyGateway int | CGetProxyGateways | CGetProxyGatewaysJson
| CStartTunProxy string int | CStopTunProxy | CPingProxyGateway int

datatype answer = Done | Failed "error option" | Apps "PortmapApp list option" | Proxys "proxyGateway list option" | Text string

definition answers :: "('a \<Rightarrow> answer) \<Rightarrow> 'a outcome \<Rightarrow> 'db agent \<Rightarrow> (answer \<times> 'db agent) outcome" where
  "answers f r ag = (case r of Panic \<Rightarrow> Panic | Return x \<Rightarrow> Return (f x, ag))"

definition fails :: "(error option \<times> 'db agent) outcome \<Rightarrow> (answer \<times> 'db agent) outcome" where
  "fails r = (case r of Panic \<Rightarrow> Panic | Return (err, ag) \<Rightarrow> Return (Failed err, ag))"

text \<open>Each exported function calls the method of \<open>agentIns()\<close>; a start finds files of its own (\<open>S\<close>).\<close>

fun exported :: "'db agent_env \<Rightarrow> 'db agent_call \<Rightarrow> 'db agent \<Rightarrow> (answer \<times> 'db agent) outcome" where
  "exported E (CStart S withPortmap) ag = fails (agent_start (E\<lparr>ae_start := S\<rparr>) withPortmap ag)"
| "exported E CClose ag = Return (Done, agent_close ag)"
| "exported E (CAddApp rnd a) ag = fails (agent_addApp E rnd a ag)"
| "exported E (CUpdateApp a) ag = fails (updateAPP E a ag)"
| "exported E (CDelApp a) ag = fails (delApp E a ag)"
| "exported E CGetApps ag = answers Apps (getApps E ag) ag"
| "exported E (CAddProxyGateway peerID token) ag = fails (addProxyGateway E peerID token ag)"
| "exported E (CDelProxyGateway index) ag = fails (delProxyGateway E index ag)"
| "exported E CGetProxyGateways ag = answers Proxys (getProxyGatewayList ag) ag"
| "exported E CGetProxyGatewaysJson ag = answers Text (GetProxyGatewaysJson ag) ag"
| "exported E (CStartTunProxy tunDevice gatewayIdx) ag = fails (startTunProxy E tunDevice gatewayIdx ag)"
| "exported E CStopTunProxy ag = fails (Return (stopTunProxy E ag))"
| "exported E (CPingProxyGateway idx) ag = answers Failed (pingProxyGateway E idx ag) ag"

definition exported_step :: "'db agent_env \<Rightarrow> 'db agent_call \<Rightarrow> 'db agent \<Rightarrow> 'db agent outcome" where
  "exported_step E c ag = (case exported E c ag of Panic \<Rightarrow> Panic | Return (_, ag') \<Rightarrow> Return ag')"

section \<open>No call breaks the shape\<close>

text \<open>
  What is set in an agent that was started, with port mapping (\<open>wp\<close>) or without, and the calls that are safe on it: without port mapping
  none of those on the applications.
\<close>

definition started :: "bool \<Rightarrow> 'db agent \<Rightarrow> bool" where
  "started wp ag \<longleftrightarrow> ag_running ag \<and> ag_p2p ag \<and> ag_dbOpen ag \<and> ag_proxys ag \<noteq> None \<and> (wp \<longrightarrow> live ag)"

fun safe_call :: "bool \<Rightarrow> 'db agent_call \<Rightarrow> bool" where
  "safe_call wp CClose = False"
| "safe_call wp (CAddApp rnd a) = wp"
| "safe_call wp (CUpdateApp a) = wp"
| "safe_call wp (CDelApp a) = wp"
| "safe_call wp CGetApps = wp"
| "safe_call wp (CDelProxyGateway i) \<longleftrightarrow> 0 \<le> i"
| "safe_call wp (CStartTunProxy dev i) \<longleftrightarrow> 0 \<le> i"
| "safe_call wp (CPingProxyGateway i) \<longleftrightarrow> 0 \<le> i"
| "safe_call wp _ = True"

definition good :: "bool \<Rightarrow> (error option \<times> 'db agent) outcome \<Rightarrow> bool" where
  "good wp r \<longleftrightarrow> (\<exists>err ag. r = Return (err, ag) \<and> started wp ag)"

named_theorems started_rules

lemma good_Return [started_rules, simp]: "good wp (Return (err, ag)) \<longleftrightarrow> started wp ag"
  by (simp add: good_def)

lemma started_pm [started_rules]: "started wp ag \<Longrightarrow> started wp (ag\<lparr>ag_pm := Some pm\<rparr>)"
  by (simp add: started_def live_def)

lemma started_cases:
  assumes "started True ag"
  obtains pm as ps where "ag_pm ag = Some pm" and "ag_am ag = Some (Some as)" and "ag_running ag" and "ag_p2p ag" and "ag_dbOpen ag" and "ag_proxys ag = Some ps"
  using assms by (auto simp: started_def live_def)

lemma started_proxys:
  assumes "started wp ag" obtains ps where "ag_proxys ag = Some ps" and "ag_running ag" and "ag_p2p ag" and "started wp ag"
  using assms by (auto simp: started_def)

lemma started_dialer [simp]: "started wp (ag\<lparr>ag_dialer := d\<rparr>) = started wp ag"
  by (simp add: started_def live_def)

lemma with_am_good [started_rules]:
  assumes "started True ag" and "\<And>as. \<exists>err as' db'. call (Some as, ag_db ag) = Return (err, Some as', db')"
  shows "good True (with_am call ag)"
proof -
  obtain as where as: "ag_am ag = Some (Some as)" using assms(1) by (rule started_cases)
  obtain err as' db' where "call (Some as, ag_db ag) = Return (err, Some as', db')" using assms(2) by blast
  with as assms(1) show ?thesis by (auto simp: with_am_def started_def live_def)
qed

lemma update_returns: "\<exists>err as' db'. UpdatePortmapApp D a (Some as, db) = Return (err, Some as', db')"
  by (rule UpdatePortmapApp_some) simp

lemma with_am_update_good [started_rules]: "started True ag \<Longrightarrow> good True (with_am (UpdatePortmapApp D a) ag)"
  by (rule with_am_good) (auto intro: update_returns)

lemma with_proxys_good [started_rules]:
  assumes "started wp ag" and "\<And>ps. call (ps, ag_db ag) \<noteq> Panic"
  shows "good wp (with_proxys call ag)"
proof -
  obtain ps where ps: "ag_proxys ag = Some ps" using assms(1) by (rule started_proxys)
  obtain err m where "call (ps, ag_db ag) = Return (err, m)"
    using assms(2) [of ps] by (cases "call (ps, ag_db ag)") auto
  with ps assms(1) show ?thesis by (auto simp: with_proxys_def started_def live_def)
qed

lemma addApp_good: "started True ag \<Longrightarrow> good True (agent_addApp E rnd a ag)"
  by (erule started_cases) (auto simp: agent_addApp_def Let_def started_def live_def intro!: with_am_update_good
      split: sum.splits option.splits prod.splits if_splits)

lemma updateAPP_good: "started True ag \<Longrightarrow> good True (updateAPP E a ag)"
  by (erule started_cases) (auto simp: updateAPP_def Let_def started_def live_def intro!: with_am_update_good
      split: option.splits prod.splits if_splits)

lemma delApp_good: "started True ag \<Longrightarrow> good True (delApp E a ag)"
  by (erule started_cases) (auto simp: delApp_def pam_DelPortmapApp_def pam_savePortmap_def started_def live_def intro!: with_am_good
      split: prod.splits)

lemma addProxyGateway_good: "started wp ag \<Longrightarrow> good wp (addProxyGateway E peerID token ag)"
  by (erule started_proxys) (auto simp: addProxyGateway_def Let_def intro!: with_proxys_good
      split: sum.splits option.splits prod.splits if_splits)

lemma delProxyGateway_good: "started wp ag \<Longrightarrow> 0 \<le> i \<Longrightarrow> good wp (delProxyGateway E i ag)"
  unfolding delProxyGateway_def by (rule with_proxys_good) (auto simp: delProxyByIndex_def Let_def)

lemma startTunProxy_good: "started wp ag \<Longrightarrow> 0 \<le> i \<Longrightarrow> good wp (startTunProxy E dev i ag)"
  by (erule started_proxys) (auto simp: startTunProxy_def proxy_at_def getProxyByIndex_def split: option.splits outcome.splits)

lemma start_good: "started wp ag \<Longrightarrow> good wp (agent_start E b ag)"
  by (simp add: agent_start_def started_def)

lemma exported_good:
  assumes "started wp ag" and "safe_call wp c"
  shows "\<exists>ans ag'. exported E c ag = Return (ans, ag') \<and> started wp ag'"
proof -
  have f: "\<exists>ans ag'. fails r = Return (ans, ag') \<and> started b ag'" if "good b r" for b and r :: "(error option \<times> 'a agent) outcome"
    using that by (auto simp: good_def fails_def)
  note proxy_calls = addProxyGateway_good [OF assms(1)] delProxyGateway_good [OF assms(1)] startTunProxy_good [OF assms(1)] start_good [OF assms(1)]
  have am: "\<exists>as. ag_am ag = Some as" if wp using that assms(1) by (auto simp: started_def live_def)
  from assms(1) obtain ps where ag: "ag_proxys ag = Some ps" "ag_running ag" "ag_p2p ag" by (auto elim: started_proxys)
  have s: "\<exists>err ag'. stopTunProxy E ag = (err, ag') \<and> started wp ag'" using assms(1) by (simp add: stopTunProxy_def started_def live_def)
  show ?thesis
    using assms ag s am
    by (cases c) (auto intro!: f proxy_calls addApp_good updateAPP_good delApp_good simp: answers_def getApps_def getProxyGatewayList_def GetProxyGatewaysJson_def
        pingProxyGateway_def proxy_at_def getProxyByIndex_def good_def split: option.splits outcome.splits)
qed

interpretation xp: simulation "exported_step E" "safe_call wp" "\<lambda>_ a. a" "\<lambda>ag (_ :: unit). started wp ag" for E wp
proof
  fix ag :: "'a agent" and c :: "'a agent_call"
  assume "started wp ag" "safe_call wp c"
  from exported_good [OF this, of E] show "\<exists>ag'. exported_step E c ag = Return ag' \<and> started wp ag'"
    by (auto simp: exported_step_def)
qed

section \<open>What a start establishes\<close>

lemma agent_listeners_started:
  assumes "ag_pm ag = Some pm" and "ag_am ag = Some (Some as)"
  shows "\<exists>pm' as' db'. agent_listeners E apps ag = Return (ag\<lparr>ag_pm := Some pm', ag_am := Some (Some as'), ag_db := db'\<rparr>)"
  using assms
proof (induction apps arbitrary: ag pm as)
  case Nil
  then show ?case by (intro exI [of _ pm] exI [of _ as] exI [of _ "ag_db ag"]) simp
next
  case (Cons a apps)
  show ?case
  proof (cases "pa_Running a")
    case False
    with Cons show ?thesis by simp
  next
    case True
    obtain q err pm' where l: "AddListener (ae_listen E) (pa_Network a) (pa_LocalIP a) (pa_LocalPort a) pm = ((q, err), pm')"
      by (metis surj_pair)
    show ?thesis
    proof (cases err)
      case None
      with True l Cons.IH [of "ag\<lparr>ag_pm := Some pm'\<rparr>" pm' as] Cons.prems show ?thesis by simp
    next
      case (Some e)
      obtain err' as' db' where u: "UpdatePortmapApp (store_of E ag) (a\<lparr>pa_Err := [], pa_Running := False\<rparr>) (Some as, ag_db ag) = Return (err', Some as', db')"
        using update_returns [of "store_of E ag" "a\<lparr>pa_Err := [], pa_Running := False\<rparr>" as "ag_db ag"] by blast
      with True l Some Cons.prems Cons.IH [of "ag\<lparr>ag_pm := Some pm', ag_am := Some (Some as'), ag_db := db'\<rparr>" pm' as'] show ?thesis
        by (simp add: with_am_def)
    qed
  qed
qed

text \<open>The applications in the database can be read, and are a table, as after every history of the application manager.\<close>

definition apps_readable :: "'db agent_env \<Rightarrow> bool" where
  "apps_readable E \<longleftrightarrow>
     (\<exists>db apps as db'. open_db (ae_start E) = Inr db \<and> LoadPortmapApps (ae_D E) (ae_visit E) (NewPortmapAppMgr db) = Inr (apps, Some as, db'))"

lemma apps_readable_wf:
  assumes "pam_wf (ae_D E) (as, db)" and "open_db (ae_start E) = Inr db" and "\<And>xs. ranges (ae_visit E xs) xs"
  shows "apps_readable E"
  using pam_load [OF assms(1,3)] assms(2) unfolding apps_readable_def by (metis snd_conv)

lemma start_started:
  assumes "wp \<Longrightarrow> apps_readable E" and "\<not> ag_running ag" and "agent_start E wp ag = Return (None, ag')"
  shows "ag_running ag' \<longrightarrow> started wp ag'"
proof (cases wp)
  case True
  then obtain db apps as db' where l: "open_db (ae_start E) = Inr db" "LoadPortmapApps (ae_D E) (ae_visit E) (NewPortmapAppMgr db) = Inr (apps, Some as, db')"
    using assms(1) by (auto simp: apps_readable_def)
  let ?ag = "ag\<lparr>ag_db := db, ag_dbOpen := True, ag_p2p := True\<rparr>"
  let ?ag1 = "?ag\<lparr>ag_am := Some (Some as), ag_pm := Some \<lparr>pm_listeners = [], pm_closed = []\<rparr>\<rparr>"
  obtain pm' as' db'' where "agent_listeners E apps ?ag1 = Return (?ag1\<lparr>ag_pm := Some pm', ag_am := Some (Some as'), ag_db := db''\<rparr>)"
    using agent_listeners_started [of ?ag1 "\<lparr>pm_listeners = [], pm_closed = []\<rparr>" as E apps] by auto
  with l(2) have "startPortmap E ?ag = Return (None, ?ag1\<lparr>ag_pm := Some pm', ag_am := Some (Some as'), ag_db := db''\<rparr>)"
    by (simp add: startPortmap_def initAppMgr_def Let_def store_of_def)
  with l(1) assms(2,3) True show ?thesis
    by (auto simp: agent_start_def Let_def started_def live_def split: sum.splits outcome.splits option.splits)
next
  case False
  with assms(2,3) show ?thesis
    by (auto simp: agent_start_def Let_def started_def split: sum.splits outcome.splits option.splits)
qed

section \<open>Properties\<close>


lemma sample_agent_starts:
  "agent_start sample_agent_env True (agentIns []) = Return (None, sample_agent)"
proof -
  have e: "se_NewP2PEngine (sample_start []) p us bs = Inr 4001" for p us bs by (simp add: sample_start_def)
  show ?thesis
    by (simp add: agent_start_def sample_agent_env_def agentIns_def sample_start_opens e startPortmap_def initAppMgr_def
        NewPortmapAppMgr_def LoadPortmapApps_def store_of_def list_db_def loadProxys_def Let_def sample_agent_def no_listeners_def)
qed


text \<open>
  An agent that was started without port mapping has no application manager, and a call as plain as asking for the applications panics.
\<close>

theorem start_without_portmap_panics:
  assumes "agent_start E False (agentIns nodb) = Return (None, ag)" and "ag_running ag"
  shows "exported E CGetApps ag = Panic \<and> (\<forall>a. exported E (CDelApp a) ag = Panic)"
proof -
  have "ag_am ag = None" "ag_pm ag = None"
    using assms by (auto simp: agent_start_def agentIns_def Let_def split: sum.splits outcome.splits option.splits)
  with assms(2) show ?thesis by (simp add: getApps_def answers_def delApp_def fails_def)
qed

theorem start_without_portmap_panics_witness:
  "\<exists>ag. agent_start sample_agent_env False (agentIns []) = Return (None, ag) \<and> exported sample_agent_env CGetApps ag = Panic"
proof -
  have e: "se_NewP2PEngine (sample_start []) p us bs = Inr 4001" for p us bs by (simp add: sample_start_def)
  obtain ag where ag: "agent_start sample_agent_env False (agentIns []) = Return (None, ag)" "ag_running ag"
    by (simp add: agent_start_def sample_agent_env_def agentIns_def sample_start_opens e store_of_def list_db_def loadProxys_def Let_def)
  from start_without_portmap_panics [OF this] ag(1) show ?thesis by blast
qed

text \<open>
  A start on applications that cannot be read succeeds all the same: the error of reading them is dropped, the port mapping stays nil, and
  the first deletion panics.
\<close>

theorem start_hides_unreadable_apps:
  assumes "open_db (ae_start E) = Inr db" and "load_seed (ae_start E) = Inr us" and "se_NewP2PEngine (ae_start E) 0 us [agent_bootstrap] = Inr port"
    and "LoadPortmapApps (ae_D E) (ae_visit E) (NewPortmapAppMgr db) = Inl err" and "loadProxys (ae_D E) (ae_p2p E) (None, db) = Return (Inr m)"
  shows "\<exists>ag. agent_start E True (agentIns nodb) = Return (None, ag) \<and> ag_running ag \<and> (\<forall>a. delApp E a ag = Panic)"
  using assms by (simp add: agent_start_def agentIns_def startPortmap_def initAppMgr_def Let_def store_of_def delApp_def)

theorem start_hides_unreadable_apps_witness:
  "\<exists>ag. agent_start (sample_agent_env\<lparr>ae_start := sample_start [(keyPortmapApps, ''['')]\<rparr>) True (agentIns []) = Return (None, ag)
    \<and> (\<forall>a. delApp (sample_agent_env\<lparr>ae_start := sample_start [(keyPortmapApps, ''['')]\<rparr>) a ag = Panic)"
proof -
  let ?E = "sample_agent_env\<lparr>ae_start := sample_start [(keyPortmapApps, ''['')]\<rparr>"
  have j: "parse_json ''['' = None" by code_simp
  have l: "LoadPortmapApps (ae_D ?E) (ae_visit ?E) (NewPortmapAppMgr [(keyPortmapApps, ''['')]) = Inl ErrJSON"
    by (simp add: LoadPortmapApps_def NewPortmapAppMgr_def sample_agent_env_def list_db_def unmarshal_def j)
  have p: "loadProxys (ae_D ?E) (ae_p2p ?E) (None, [(keyPortmapApps, ''['')]) = Return (Inr (None, [(keyPortmapApps, ''['')]))"
    by (simp add: loadProxys_def sample_agent_env_def list_db_def keyProxys_def keyPortmapApps_def)
  have s: "open_db (ae_start ?E) = Inr [(keyPortmapApps, ''['')]" "load_seed (ae_start ?E) = Inr (replicate 32 (CHR ''a''))"
    "se_NewP2PEngine (ae_start ?E) 0 (replicate 32 (CHR ''a'')) [agent_bootstrap] = Inr 4001"
    by (simp_all add: sample_start_opens) (simp add: sample_start_def)
  from start_hides_unreadable_apps [OF s l p, of "[]"] show ?thesis by blast
qed

end
