(* ===== verification/AgentWindow.thy ===== *)
theory AgentWindow
  imports Exports
begin

text \<open>
  The window of the agent (\<open>agent/windows/main.go\<close>): its table of applications and what its buttons, its menu and its
  dialogs do. The widgets are those of the walk library; here a handler is given the row that is selected and how its
  dialog ends. A line of the log view is told by its kind and its arguments.
\<close>

section \<open>The table\<close>

record AppForm =
  af_Name :: string
  af_PeerID :: string
  af_ResID :: string
  af_Network :: string
  af_TargetAddr :: string
  af_TargetPort :: int
  af_LocalIP :: string
  af_LocalPort :: int
  af_Running :: bool

record AppModel =
  md_apps :: "PortmapApp list"
  md_IsRunning :: bool

datatype view_line =
  DialogFailed error | UpdateFailed error | Updated string | StartFailed error | StopFailed error | SelectFirst
| DeleteFailed error | Cancelled | FormBefore AppForm | FormInvalid error | FormAfter AppForm | AddFailed error
| Added string string uint64

record 'db window =
  wn_model :: AppModel
  wn_agent :: "'db agent"
  wn_log :: "view_line list"

definition parseUint64 :: "string \<Rightarrow> uint64" where
  "parseUint64 s = of_nat (fst (ParseUint s))"

definition SetCurrentIndex :: "int \<Rightarrow> AppModel \<Rightarrow> AppModel" where
  "SetCurrentIndex index m =
     (if 0 \<le> index \<and> index < int (length (md_apps m)) then m\<lparr>md_IsRunning := pa_Running (md_apps m ! nat index)\<rparr>
      else m\<lparr>md_IsRunning := False\<rparr>)"

definition RowCount :: "AppModel \<Rightarrow> int" where
  "RowCount m = int (length (md_apps m))"

text \<open>What a cell shows; the two states are words of the interface.\<close>

datatype cell = Words string | Number int | IsRunning | IsStopped

definition Value :: "int \<Rightarrow> int \<Rightarrow> AppModel \<Rightarrow> cell outcome" where
  "Value row col m =
     (if row < 0 \<or> int (length (md_apps m)) \<le> row then Panic
      else let app = md_apps m ! nat row
           in Return
             (if col = 0 then Words (pa_Name app)
              else if col = 1 then Words (pa_PeerName app)
              else if col = 2 then Words (pa_Network app)
              else if col = 3 then Words (pa_LocalIP app)
              else if col = 4 then Number (pa_LocalPort app)
              else if col = 5 then
                (if pa_TargetAddr app = [] \<or> pa_TargetPort app = 0 then Words []
                 else Words (pa_TargetAddr app @ '':'' @ Itoa (pa_TargetPort app)))
              else if col = 6 then (if pa_Running app then IsRunning else IsStopped)
              else if col = 7 then Words (pa_Err app)
              else Words []))"

definition refreshApps :: "'db agent_env \<Rightarrow> 'db window \<Rightarrow> 'db window outcome" where
  "refreshApps E w =
     (case getApps E (wn_agent w) of
        Panic \<Rightarrow> Panic
      | Return apps \<Rightarrow>
          Return (w\<lparr>wn_model := (wn_model w)\<lparr>md_apps := (case apps of None \<Rightarrow> [] | Some as \<Rightarrow> as)\<rparr>\<rparr>))"

section \<open>The handlers\<close>

text \<open>A dialog ends with an error, is left, or is accepted with the form filled in.\<close>

datatype dialog = DlgError error | DlgCancel | DlgOK AppForm

definition log_view :: "view_line list \<Rightarrow> 'db window \<Rightarrow> 'db window" where
  "log_view ls w = w\<lparr>wn_log := wn_log w @ ls\<rparr>"

definition selected :: "int \<Rightarrow> 'db window \<Rightarrow> PortmapApp option" where
  "selected idx w = (if idx < 0 \<or> int (length (md_apps (wn_model w))) \<le> idx then None else Some (md_apps (wn_model w) ! nat idx))"

definition of_form :: "AppForm \<Rightarrow> PortmapApp \<Rightarrow> PortmapApp" where
  "of_form form app = zero_PortmapApp\<lparr>pa_Name := af_Name form, pa_PeerID := pa_PeerID app, pa_ResID := pa_ResID app,
     pa_Network := af_Network form, pa_TargetAddr := af_TargetAddr form, pa_TargetPort := af_TargetPort form,
     pa_LocalIP := af_LocalIP form, pa_LocalPort := af_LocalPort form, pa_Running := af_Running form\<rparr>"

text \<open>A double click on a row: the dialog edits the application, which is then updated under its identifier.\<close>

definition OnItemActivated :: "'db agent_env \<Rightarrow> int \<Rightarrow> dialog \<Rightarrow> 'db window \<Rightarrow> 'db window outcome" where
  "OnItemActivated E idx dlg w =
     (case selected idx w of
        None \<Rightarrow> Return w
      | Some app \<Rightarrow>
          (case dlg of
             DlgError err \<Rightarrow> Return (log_view [DialogFailed err] w)
           | DlgCancel \<Rightarrow> Return w
           | DlgOK form \<Rightarrow>
               let updatedApp = (of_form form app)\<lparr>pa_ID := pa_ID app\<rparr>
               in case updateAPP E updatedApp (wn_agent w) of
                    Panic \<Rightarrow> Panic
                  | Return (err, ag) \<Rightarrow>
                      let w1 = log_view (case err of None \<Rightarrow> [] | Some e \<Rightarrow> [UpdateFailed e]) (w\<lparr>wn_agent := ag\<rparr>)
                      in case refreshApps E w1 of
                           Panic \<Rightarrow> Panic
                         | Return w2 \<Rightarrow> Return (log_view [Updated (pa_Name updatedApp)] w2)))"

text \<open>The entries of the menu that start and stop an application.\<close>

definition set_running :: "'db agent_env \<Rightarrow> bool \<Rightarrow> int \<Rightarrow> 'db window \<Rightarrow> 'db window outcome" where
  "set_running E running idx w =
     (case selected idx w of
        None \<Rightarrow> Return w
      | Some app0 \<Rightarrow>
          let app = app0\<lparr>pa_Running := running\<rparr>;
              w0 = w\<lparr>wn_model := (wn_model w)\<lparr>md_apps := (md_apps (wn_model w))[nat idx := app]\<rparr>\<rparr>
          in case updateAPP E app (wn_agent w0) of
               Panic \<Rightarrow> Panic
             | Return (err, ag) \<Rightarrow>
                 refreshApps E (log_view (case err of None \<Rightarrow> [] | Some e \<Rightarrow> [if running then StartFailed e else StopFailed e]) (w0\<lparr>wn_agent := ag\<rparr>)))"

text \<open>Deleting, from the menu or by the button.\<close>

definition delete_selected :: "'db agent_env \<Rightarrow> int \<Rightarrow> 'db window \<Rightarrow> 'db window outcome" where
  "delete_selected E idx w =
     (case selected idx w of
        None \<Rightarrow> Return (log_view [SelectFirst] w)
      | Some app \<Rightarrow>
          (case delApp E app (wn_agent w) of
             Panic \<Rightarrow> Panic
           | Return (Some err, ag) \<Rightarrow> Return (log_view [DeleteFailed err] (w\<lparr>wn_agent := ag\<rparr>))
           | Return (None, ag) \<Rightarrow> refreshApps E (w\<lparr>wn_agent := ag\<rparr>)))"

text \<open>The button that adds an application; \<open>submitted\<close> is the error of submitting the form.\<close>

definition add_clicked :: "'db agent_env \<Rightarrow> uint64 \<Rightarrow> dialog \<Rightarrow> error option \<Rightarrow> 'db window \<Rightarrow> 'db window outcome" where
  "add_clicked E rnd dlg submitted w =
     (case dlg of
        DlgError err \<Rightarrow> Return (log_view [DialogFailed err] w)
      | DlgCancel \<Rightarrow> Return (log_view [Cancelled] w)
      | DlgOK form \<Rightarrow>
          let w0 = log_view [FormBefore form] w
          in case submitted of
               Some err \<Rightarrow> Return (log_view [FormInvalid err] w0)
             | None \<Rightarrow>
                 let w1 = log_view [FormAfter form] w0;
                     app = (of_form form zero_PortmapApp)\<lparr>pa_PeerID := af_PeerID form, pa_ResID := parseUint64 (af_ResID form)\<rparr>
                 in case agent_addApp E rnd app (wn_agent w1) of
                      Panic \<Rightarrow> Panic
                    | Return (err, ag) \<Rightarrow>
                        let w2 = log_view (case err of None \<Rightarrow> [] | Some e \<Rightarrow> [AddFailed e]) (w1\<lparr>wn_agent := ag\<rparr>)
                        in case refreshApps E w2 of
                             Panic \<Rightarrow> Panic
                           | Return w3 \<Rightarrow> Return (log_view [Added (pa_Name app) (pa_PeerID app) (pa_ResID app)] w3))"

text \<open>The button that edits an application calls \<open>AddApp\<close>, which gives the form an identifier of its own.\<close>

definition edit_clicked :: "'db agent_env \<Rightarrow> uint64 \<Rightarrow> int \<Rightarrow> dialog \<Rightarrow> 'db window \<Rightarrow> 'db window outcome" where
  "edit_clicked E rnd idx dlg w =
     (case selected idx w of
        None \<Rightarrow> Return (log_view [SelectFirst] w)
      | Some app \<Rightarrow>
          (case dlg of
             DlgError err \<Rightarrow> Return (log_view [DialogFailed err] w)
           | DlgCancel \<Rightarrow> Return w
           | DlgOK form \<Rightarrow>
               (case agent_addApp E rnd (of_form form app) (wn_agent w) of
                  Panic \<Rightarrow> Panic
                | Return (Some err, ag) \<Rightarrow> Return (log_view [UpdateFailed err] (w\<lparr>wn_agent := ag\<rparr>))
                | Return (None, ag) \<Rightarrow>
                    (case refreshApps E (w\<lparr>wn_agent := ag\<rparr>) of
                       Panic \<Rightarrow> Panic
                     | Return w1 \<Rightarrow> Return (log_view [Updated (af_Name form)] w1)))))"

text \<open>The window before it is shown: the agent is started and the table filled.\<close>

definition window_start :: "'db agent_env \<Rightarrow> 'db agent \<Rightarrow> 'db window outcome option" where
  "window_start E ag =
     (case agent_start E True ag of
        Panic \<Rightarrow> Some Panic
      | Return (Some err, ag') \<Rightarrow> None
      | Return (None, ag') \<Rightarrow> Some (refreshApps E \<lparr>wn_model = \<lparr>md_apps = [], md_IsRunning = False\<rparr>, wn_agent = ag', wn_log = []\<rparr>))"

section \<open>Every sequence of actions\<close>

datatype action =
  Select int | Activate int dialog | Run bool int | Delete int | Add uint64 dialog "error option" | Edit uint64 int dialog

fun act :: "'db agent_env \<Rightarrow> action \<Rightarrow> 'db window \<Rightarrow> 'db window outcome" where
  "act E (Select idx) w = Return (w\<lparr>wn_model := SetCurrentIndex idx (wn_model w)\<rparr>)"
| "act E (Activate idx dlg) w = OnItemActivated E idx dlg w"
| "act E (Run running idx) w = set_running E running idx w"
| "act E (Delete idx) w = delete_selected E idx w"
| "act E (Add rnd dlg submitted) w = add_clicked E rnd dlg submitted w"
| "act E (Edit rnd idx dlg) w = edit_clicked E rnd idx dlg w"

definition showing :: "'db agent_env \<Rightarrow> 'db window \<Rightarrow> bool" where
  "showing E w \<longleftrightarrow> live (wn_agent w) \<and> getApps E (wn_agent w) = Return (Some (md_apps (wn_model w)))"

lemma showing_log [simp]: "showing E (log_view ls w) = showing E w"
  by (simp add: showing_def log_view_def)

lemma refresh_shows:
  assumes "live (wn_agent w)"
  shows "\<exists>w'. refreshApps E w = Return w' \<and> showing E w' \<and> wn_agent w' = wn_agent w"
proof -
  from assms obtain as where "ag_am (wn_agent w) = Some as" "ag_running (wn_agent w)" by (auto elim: live_cases)
  then have "refreshApps E w = Return (w\<lparr>wn_model := (wn_model w)\<lparr>md_apps := GetPortmapApps (ae_visit E) (as, ag_db (wn_agent w))\<rparr>\<rparr>)"
    and "getApps E (wn_agent w) = Return (Some (GetPortmapApps (ae_visit E) (as, ag_db (wn_agent w))))"
    by (simp_all add: refreshApps_def getApps_def)
  with assms show ?thesis by (auto simp: showing_def)
qed

text \<open>Every handler that changes the agent fills the table again.\<close>

lemma refreshed:
  assumes "live ag"
  shows "\<exists>w'. refreshApps E (log_view ls (w\<lparr>wn_agent := ag\<rparr>)) = Return w' \<and> showing E w' \<and> wn_agent w' = ag"
  using refresh_shows [of "log_view ls (w\<lparr>wn_agent := ag\<rparr>)" E] assms by (simp add: log_view_def)

lemma updateAPP_shown:
  assumes "showing E w" and "leveldb_writable (ae_D E)"
  shows "\<exists>err ag. updateAPP E a (wn_agent w) = Return (err, ag) \<and> live ag"
proof -
  have "live (wn_agent w)" using assms(1) by (simp add: showing_def)
  from updateAPP_live [OF this assms(2)] show ?thesis by blast
qed

lemma addApp_shown:
  assumes "showing E w" and "leveldb_writable (ae_D E)"
  shows "\<exists>err ag. agent_addApp E rnd a (wn_agent w) = Return (err, ag) \<and> live ag \<and> (err \<noteq> None \<longrightarrow> ag_am ag = ag_am (wn_agent w))"
proof -
  have "live (wn_agent w)" using assms(1) by (simp add: showing_def)
  then obtain as where "ag_am (wn_agent w) = Some (Some as)" by (auto elim: live_cases)
  from addApp_live [OF \<open>live (wn_agent w)\<close> assms(2) this, of rnd a] show ?thesis by auto
qed

lemma OnItemActivated_shows:
  assumes "showing E w" and "leveldb_writable (ae_D E)"
  shows "\<exists>w'. OnItemActivated E idx dlg w = Return w' \<and> showing E w'"
proof (cases "selected idx w")
  case (Some app)
  show ?thesis
  proof (cases dlg)
    case (DlgOK form)
    let ?app = "(of_form form app)\<lparr>pa_ID := pa_ID app\<rparr>"
    obtain err ag where u: "updateAPP E ?app (wn_agent w) = Return (err, ag)" "live ag"
      using updateAPP_shown [OF assms] by blast
    with refreshed [OF u(2), of E "case err of None \<Rightarrow> [] | Some e \<Rightarrow> [UpdateFailed e]" w] Some DlgOK show ?thesis
      by (auto simp: OnItemActivated_def Let_def)
  qed (use assms(1) Some in \<open>simp_all add: OnItemActivated_def\<close>)
qed (use assms(1) in \<open>simp add: OnItemActivated_def\<close>)

lemma set_running_shows:
  assumes "showing E w" and "leveldb_writable (ae_D E)"
  shows "\<exists>w'. set_running E running idx w = Return w' \<and> showing E w'"
proof (cases "selected idx w")
  case (Some app)
  let ?app = "app\<lparr>pa_Running := running\<rparr>"
  let ?w = "w\<lparr>wn_model := (wn_model w)\<lparr>md_apps := (md_apps (wn_model w))[nat idx := ?app]\<rparr>\<rparr>"
  obtain err ag where u: "updateAPP E ?app (wn_agent w) = Return (err, ag)" "live ag"
    using updateAPP_shown [OF assms] by blast
  with refreshed [OF u(2), of E "case err of None \<Rightarrow> [] | Some e \<Rightarrow> [if running then StartFailed e else StopFailed e]" ?w] Some
  show ?thesis by (auto simp: set_running_def Let_def)
qed (use assms(1) in \<open>simp add: set_running_def\<close>)

lemma delete_selected_shows:
  assumes "showing E w" and "leveldb_writable (ae_D E)"
  shows "\<exists>w'. delete_selected E idx w = Return w' \<and> showing E w'"
proof (cases "selected idx w")
  case (Some app)
  have "live (wn_agent w)" using assms(1) by (simp add: showing_def)
  then obtain ag where "delApp E app (wn_agent w) = Return (None, ag)" "live ag" using delApp_live [OF _ assms(2)] by blast
  with refresh_shows [of "w\<lparr>wn_agent := ag\<rparr>" E] Some show ?thesis by (auto simp: delete_selected_def)
qed (use assms(1) in \<open>simp add: delete_selected_def\<close>)

lemma add_clicked_shows:
  assumes "showing E w" and "leveldb_writable (ae_D E)"
  shows "\<exists>w'. add_clicked E rnd dlg submitted w = Return w' \<and> showing E w'"
proof (cases dlg)
  case (DlgOK form)
  let ?app = "(of_form form zero_PortmapApp)\<lparr>pa_PeerID := af_PeerID form, pa_ResID := parseUint64 (af_ResID form)\<rparr>"
  obtain err ag where u: "agent_addApp E rnd ?app (wn_agent w) = Return (err, ag)" "live ag"
    using addApp_shown [OF assms] by blast
  let ?w = "log_view [FormAfter form] (log_view [FormBefore form] w)"
  have "wn_agent ?w = wn_agent w" by (simp add: log_view_def)
  with u refreshed [OF u(2), of E "case err of None \<Rightarrow> [] | Some e \<Rightarrow> [AddFailed e]" ?w] DlgOK assms(1) show ?thesis
    by (cases submitted) (auto simp: add_clicked_def Let_def)
qed (use assms(1) in \<open>simp_all add: add_clicked_def\<close>)

lemma edit_clicked_shows:
  assumes "showing E w" and "leveldb_writable (ae_D E)"
  shows "\<exists>w'. edit_clicked E rnd idx dlg w = Return w' \<and> showing E w'"
proof (cases "selected idx w")
  case (Some app)
  show ?thesis
  proof (cases dlg)
    case (DlgOK form)
    obtain err ag where u: "agent_addApp E rnd (of_form form app) (wn_agent w) = Return (err, ag)" "live ag"
      "err \<noteq> None \<Longrightarrow> ag_am ag = ag_am (wn_agent w)"
      using addApp_shown [OF assms] by blast
    show ?thesis
    proof (cases err)
      case None
      with u refresh_shows [of "w\<lparr>wn_agent := ag\<rparr>" E] Some DlgOK show ?thesis by (auto simp: edit_clicked_def)
    next
      case e: (Some e)
      with u assms(1) have "showing E (w\<lparr>wn_agent := ag\<rparr>)"
        by (auto simp: showing_def getApps_def GetPortmapApps_def live_def)
      with e u(1) Some DlgOK show ?thesis by (simp add: edit_clicked_def)
    qed
  qed (use assms(1) Some in \<open>simp_all add: edit_clicked_def\<close>)
qed (use assms(1) in \<open>simp add: edit_clicked_def\<close>)

lemmas handlers_show = OnItemActivated_shows set_running_shows delete_selected_shows add_clicked_shows edit_clicked_shows

lemma act_shows:
  assumes "showing E w" and "leveldb_writable (ae_D E)"
  shows "\<exists>w'. act E a w = Return w' \<and> showing E w'"
  using handlers_show [OF assms] assms(1) by (cases a) (simp_all add: showing_def SetCurrentIndex_def)

interpretation win: total_machine "act E" "\<lambda>w. showing E w \<and> leveldb_writable (ae_D E)" for E
  by unfold_locales (use act_shows in blast)

section \<open>Instances for evaluation\<close>

definition ssh_window :: "(string \<times> string) list window" where
  "ssh_window = \<lparr>wn_model = \<lparr>md_apps = [ssh_app], md_IsRunning = False\<rparr>,
     wn_agent = sample_agent\<lparr>ag_am := Some (Some [(5, ssh_app)])\<rparr>, wn_log = []\<rparr>"

definition ssh_form :: AppForm where
  "ssh_form = \<lparr>af_Name = ''ssh'', af_PeerID = ''peer'', af_ResID = ''7'', af_Network = ''tcp'', af_TargetAddr = [], af_TargetPort = 0,
     af_LocalIP = ''127.0.0.1'', af_LocalPort = 2223, af_Running = False\<rparr>"

definition portmap_resp :: AuthorizeResp where
  "portmap_resp = zero_AuthorizeResp\<lparr>as_NodeName := ''home'', as_Portmap := Some \<lparr>ap_IsTrial = False\<rparr>\<rparr>"

definition window_env :: "(string \<times> string) list agent_env" where
  "window_env = sample_agent_env\<lparr>ae_p2p := \<lparr>peer_Decode = (\<lambda>s. Inr s), host_NewStream = (\<lambda>_. Inr (conn_of (jprint (enc_AuthorizeResp portmap_resp))))\<rparr>\<rparr>"

lemma window_authorizes: "fst (ResourceAuthorize (ae_p2p window_env) peerID req) = Inr portmap_resp"
proof -
  have v: "valid_resp portmap_resp" by (simp add: valid_resp_def portmap_resp_def zero_AuthorizeResp_def)
  have n: "length (jprint (enc_AuthorizeResp portmap_resp)) \<le> 1024" "jprint (enc_AuthorizeResp portmap_resp) \<noteq> []" by code_simp+
  show ?thesis
    using n respc.decode_encode [OF v] by (simp add: ResourceAuthorize_def window_env_def conn_of_def conn_write_def conn_read_def)
qed

lemma ssh_window_live:
  "leveldb_writable (ae_D window_env)" "live (wn_agent ssh_window)" "ag_am (wn_agent ssh_window) = Some (Some [(5, ssh_app)])"
  "selected 0 ssh_window = Some ssh_app" "map_of [(5, ssh_app)] (pa_ID ssh_app) = Some ssh_app"
  using list_db_spec
  by (simp_all add: window_env_def sample_agent_env_def ssh_window_def live_def sample_agent_def agentIns_def selected_def ssh_app_def)

section \<open>Properties\<close>

text \<open>
  C24: the window shows what the agent has. Whatever its user does, on an agent that was started with port mapping and whose
  database can be written, no handler panics and the rows are the applications of the agent.
\<close>

theorem window_shows_apps:
  assumes "leveldb_writable (ae_D E)" and "live (wn_agent w)" and "getApps E (wn_agent w) = Return (Some (md_apps (wn_model w)))"
  shows "\<exists>w'. runs (act E) acts w = Return w' \<and> live (wn_agent w') \<and> getApps E (wn_agent w') = Return (Some (md_apps (wn_model w')))"
proof -
  have "showing E w \<and> leveldb_writable (ae_D E)" using assms by (simp add: showing_def)
  from win.runs_keep [OF this, of acts] show ?thesis by (auto simp: showing_def)
qed

theorem window_shows_apps_witness:
  "\<exists>w'. runs (act window_env) [Select 0, Activate 0 (DlgOK ssh_form), Run True 0, Edit 8 0 (DlgOK ssh_form), Delete 0, Delete 7] ssh_window = Return w'
    \<and> getApps window_env (wn_agent w') = Return (Some (md_apps (wn_model w')))"
proof -
  have "getApps window_env (wn_agent ssh_window) = Return (Some (md_apps (wn_model ssh_window)))"
    by (simp add: getApps_def ssh_window_def sample_agent_def agentIns_def GetPortmapApps_def window_env_def sample_agent_env_def)
  from window_shows_apps [OF ssh_window_live(1,2) this] show ?thesis by blast
qed

text \<open>
  The button that edits an application adds another one. When its dialog is accepted and the gateway authorises the
  form, the window reports an update; the application that was selected is unchanged, under its identifier, and the
  form is stored under a new one. The double click, which edits too, stores the form in the place of the application.
\<close>

theorem edit_button_adds:
  assumes "leveldb_writable (ae_D E)" and "live (wn_agent w)" and "ag_am (wn_agent w) = Some (Some as)" and "selected idx w = Some app"
    and "map_of as (pa_ID app) = Some app" and "rnd \<noteq> pa_ID app"
    and "edit_clicked E rnd idx (DlgOK form) w = Return w'" and "Updated (af_Name form) \<in> set (wn_log w') - set (wn_log w)"
  shows "\<exists>as'. ag_am (wn_agent w') = Some (Some as') \<and> map_of as' (pa_ID app) = Some app
    \<and> (\<exists>new. map_of as' rnd = Some new \<and> pa_Name new = af_Name form)"
proof -
  obtain err ag where u: "agent_addApp E rnd (of_form form app) (wn_agent w) = Return (err, ag)" "live ag"
    "if err \<noteq> None then ag_am ag = ag_am (wn_agent w)
     else \<exists>a'. pa_ID a' = rnd \<and> pa_Name a' = pa_Name (of_form form app) \<and> ag_am ag = Some (Some (AList.update rnd a' as))"
    using addApp_live [OF assms(2,1,3), of rnd "of_form form app"] by blast
  have "err = None" using assms(4,7,8) u(1) by (cases err) (auto simp: edit_clicked_def log_view_def)
  with u obtain a' where a': "pa_Name a' = af_Name form" "ag_am ag = Some (Some (AList.update rnd a' as))" by (auto simp: of_form_def)
  obtain w1 where "refreshApps E (w\<lparr>wn_agent := ag\<rparr>) = Return w1" "wn_agent w1 = ag"
    using refresh_shows [of "w\<lparr>wn_agent := ag\<rparr>" E] u(2) by auto
  with \<open>err = None\<close> u(1) assms(4,7) have "wn_agent w' = ag" by (auto simp: edit_clicked_def log_view_def)
  with a' assms(5,6) show ?thesis by (auto simp: update_conv')
qed

theorem edit_button_adds_witness:
  "\<exists>w' as'. edit_clicked window_env 8 0 (DlgOK ssh_form) ssh_window = Return w' \<and> ag_am (wn_agent w') = Some (Some as')
    \<and> map_of as' 5 = Some ssh_app \<and> (\<exists>new. map_of as' 8 = Some new \<and> pa_Name new = ''ssh'')"
proof -
  have D: "ae_D window_env = list_db" by (simp add: window_env_def sample_agent_env_def)
  have "\<exists>w'. edit_clicked window_env 8 0 (DlgOK ssh_form) ssh_window = Return w' \<and> Updated (af_Name ssh_form) \<in> set (wn_log w')"
    by (simp add: window_authorizes selected_def D list_db_def edit_clicked_def agent_addApp_def of_form_def ssh_form_def portmap_resp_def zero_AuthorizeResp_def zero_PortmapApp_def
        with_am_def UpdatePortmapApp_def pam_savePortmap_def store_of_def refreshApps_def getApps_def log_view_def Let_def ssh_window_def sample_agent_def
        agentIns_def ssh_app_def split: prod.splits)
  then obtain w' where w': "edit_clicked window_env 8 0 (DlgOK ssh_form) ssh_window = Return w'"
    "Updated (af_Name ssh_form) \<in> set (wn_log w') - set (wn_log ssh_window)" by (auto simp: ssh_window_def)
  from edit_button_adds [OF ssh_window_live _ w'] w'(1) show ?thesis by (auto simp: ssh_app_def ssh_form_def)
qed

text \<open>The double click stores the form under the identifier of the application, and leaves the others alone.\<close>

lemma double_click_updates:
  assumes "leveldb_writable (ae_D E)" and "live (wn_agent w)" and "ag_am (wn_agent w) = Some (Some as)" and "ag_pm (wn_agent w) = Some pm"
    and "selected idx w = Some app" and "map_of as (pa_ID app) = Some app" and "pa_ID app \<noteq> 0" and "OnItemActivated E idx (DlgOK form) w = Return w'"
  shows "ag_am (wn_agent w') = Some (Some (AList.update (pa_ID app) (listened E (of_form form app) pm (merged (of_form form app) app)) as))"
proof -
  let ?app = "(of_form form app)\<lparr>pa_ID := pa_ID app\<rparr>"
  obtain ag where u: "updateAPP E ?app (wn_agent w) = Return (None, ag)" "live ag"
    "ag_am ag = Some (Some (AList.update (pa_ID app) (listened E ?app pm (merged ?app app)) as))"
    using updateAPP_stores [OF assms(2,1,3,4), of ?app app] assms(6,7) by auto
  obtain w1 where "refreshApps E (log_view [] (w\<lparr>wn_agent := ag\<rparr>)) = Return w1" "wn_agent w1 = ag"
    using refreshed [OF u(2)] by blast
  with u(1) assms(5,8) have "wn_agent w' = ag" by (auto simp: OnItemActivated_def Let_def log_view_def)
  moreover have "merged ?app app = merged (of_form form app) app" "listened E ?app pm = listened E (of_form form app) pm"
    by (simp_all add: merged_def Let_def listened_def listen_error_def fun_eq_iff split: option.splits)
  ultimately show ?thesis using u(3) by simp
qed

end
