(* ===== verification/AgentDialogs.thy ===== *)
theory AgentDialogs
  imports AgentWindow
begin

text \<open>
  The dialogs and the tray icon of the agent's window (\<open>agent/windows/main.go\<close>). A dialog is a list of widgets bound to the fields of its form;
  what the user enters goes through the data binding of the walk library, a parameter, into the form at once. The window has an icon in the tray, from which it can be shown again after
  it was closed. Layout, titles and the calls of the walk library that only draw are left out.
\<close>

section \<open>Dialogs\<close>

datatype field = FName | FPeerID | FResID | FNetwork | FTargetAddr | FTargetPort | FLocalIP | FLocalPort | FRunning

text \<open>A widget shows its field and takes input for it, or it shows a text that cannot be changed.\<close>

datatype widget = Bound field | ReadOnly string

text \<open>The form that a dialog of the application starts with, and that of a new application.\<close>

definition form_of :: "PortmapApp \<Rightarrow> AppForm" where
  "form_of app =
     \<lparr>af_Name = pa_Name app, af_PeerID = pa_PeerID app, af_ResID = FormatUint (pa_ResID app), af_Network = pa_Network app,
      af_TargetAddr = pa_TargetAddr app, af_TargetPort = pa_TargetPort app, af_LocalIP = pa_LocalIP app, af_LocalPort = pa_LocalPort app,
      af_Running = pa_Running app\<rparr>"

definition new_form :: AppForm where
  "new_form =
     \<lparr>af_Name = [], af_PeerID = [], af_ResID = [], af_Network = [], af_TargetAddr = [], af_TargetPort = 0, af_LocalIP = ''127.0.0.1'',
      af_LocalPort = 0, af_Running = True\<rparr>"

definition activate_widgets :: "PortmapApp \<Rightarrow> widget list" where
  "activate_widgets app =
     [Bound FName, ReadOnly (pa_PeerID app), ReadOnly (FormatUint (pa_ResID app)), Bound FNetwork, Bound FLocalIP, Bound FLocalPort,
      Bound FTargetAddr, Bound FTargetPort, Bound FRunning]"

definition add_widgets :: "widget list" where
  "add_widgets =
     [Bound FName, Bound FPeerID, Bound FResID, Bound FNetwork, Bound FLocalIP, Bound FLocalPort, Bound FTargetAddr, Bound FTargetPort, Bound FRunning]"

definition edit_widgets :: "widget list" where
  "edit_widgets =
     [Bound FName, Bound FPeerID, Bound FResID, Bound FNetwork, Bound FTargetAddr, Bound FTargetPort, Bound FLocalIP, Bound FLocalPort, Bound FRunning]"

text \<open>
  What happens in a dialog: input, a click on one of its two buttons, or its window is closed. The button that accepts
  submits the form first where the dialog \<open>checks\<close>; an error of that is logged and the dialog stays. \<open>None\<close>: the dialog is still open.
\<close>

datatype 'i dialog_event = Enters field 'i | AcceptClicked "error option" | CancelClicked | CloseClicked

type_synonym 'i data_binding = "field \<Rightarrow> 'i \<Rightarrow> AppForm \<Rightarrow> AppForm"

fun dialog_run :: "'i data_binding \<Rightarrow> bool \<Rightarrow> widget list \<Rightarrow> 'i dialog_event list \<Rightarrow> AppForm \<Rightarrow> dialog option \<times> view_line list" where
  "dialog_run B checks ws [] form = (None, [])"
| "dialog_run B checks ws (Enters f i # evs) form = dialog_run B checks ws evs (if Bound f \<in> set ws then B f i form else form)"
| "dialog_run B checks ws (AcceptClicked err # evs) form =
     (case (if checks then err else None) of
        None \<Rightarrow> (Some (DlgOK form), [])
      | Some e \<Rightarrow> (case dialog_run B checks ws evs form of (d, ls) \<Rightarrow> (d, FormInvalid e # ls)))"
| "dialog_run B checks ws (CancelClicked # evs) form = (Some DlgCancel, [])"
| "dialog_run B checks ws (CloseClicked # evs) form = (Some DlgCancel, [])"

text \<open>The double click with its dialog.\<close>

definition activate :: "'i data_binding \<Rightarrow> 'db agent_env \<Rightarrow> int \<Rightarrow> 'i dialog_event list \<Rightarrow> 'db window \<Rightarrow> 'db window outcome option" where
  "activate B E idx evs w =
     (case selected idx w of
        None \<Rightarrow> Some (Return w)
      | Some app \<Rightarrow>
          (case dialog_run B True (activate_widgets app) evs (form_of app) of
             (None, ls) \<Rightarrow> None
           | (Some d, ls) \<Rightarrow> Some (OnItemActivated E idx d (log_view ls w))))"

text \<open>The buttons that add and edit with theirs; the one that adds submits its form when the dialog is over.\<close>

definition add_button :: "'i data_binding \<Rightarrow> 'db agent_env \<Rightarrow> uint64 \<Rightarrow> 'i dialog_event list \<Rightarrow> error option \<Rightarrow> 'db window \<Rightarrow> 'db window outcome option" where
  "add_button B E rnd evs submitted w =
     (case dialog_run B False add_widgets evs new_form of
        (None, ls) \<Rightarrow> None
      | (Some d, ls) \<Rightarrow> Some (add_clicked E rnd d submitted (log_view ls w)))"

definition edit_button :: "'i data_binding \<Rightarrow> 'db agent_env \<Rightarrow> uint64 \<Rightarrow> int \<Rightarrow> 'i dialog_event list \<Rightarrow> 'db window \<Rightarrow> 'db window outcome option" where
  "edit_button B E rnd idx evs w =
     (case selected idx w of
        None \<Rightarrow> Some (Return (log_view [SelectFirst] w))
      | Some app \<Rightarrow>
          (case dialog_run B True edit_widgets evs (form_of app) of
             (None, ls) \<Rightarrow> None
           | (Some d, ls) \<Rightarrow> Some (edit_clicked E rnd idx d (log_view ls w))))"

text \<open>With its dialog every handler is an action of the window, so that the rows stay the applications of the agent.\<close>

lemma buttons_show:
  assumes "showing E w" and "leveldb_writable (ae_D E)"
  shows "activate B E idx evs w = Some r \<Longrightarrow> \<exists>w'. r = Return w' \<and> showing E w'"
    and "add_button B E rnd evs submitted w = Some r \<Longrightarrow> \<exists>w'. r = Return w' \<and> showing E w'"
    and "edit_button B E rnd idx evs w = Some r \<Longrightarrow> \<exists>w'. r = Return w' \<and> showing E w'"
  using assms handlers_show [OF _ assms(2)]
  by (auto simp: activate_def add_button_def edit_button_def split: option.splits prod.splits)

text \<open>The input that reaches the form before it is accepted.\<close>

fun entered :: "widget list \<Rightarrow> 'i dialog_event list \<Rightarrow> (field \<times> 'i) list" where
  "entered ws [] = []"
| "entered ws (Enters f i # evs) = (if Bound f \<in> set ws then (f, i) # entered ws evs else entered ws evs)"
| "entered ws (AcceptClicked None # evs) = []"
| "entered ws (AcceptClicked (Some e) # evs) = entered ws evs"
| "entered ws (_ # evs) = []"

lemma dialog_run_form:
  "dialog_run B True ws evs form = (Some (DlgOK form'), ls) \<Longrightarrow> form' = fold (\<lambda>(f, i). B f i) (entered ws evs) form"
proof (induction ws evs arbitrary: form ls rule: entered.induct)
  case (4 ws e evs)
  then show ?case by (auto split: prod.splits)
qed (auto split: if_splits)

section \<open>The tray\<close>

text \<open>The errors of the calls that set the window up, in their order; those of the two texts cost their entry of the menu.\<close>

record tray_env =
  te_Create :: "error option"
  te_NewIcon :: "error option"
  te_NewNotifyIcon :: "error option"
  te_SetIcon :: "error option"
  te_SetToolTip :: "error option"
  te_ShowText :: "error option"
  te_ExitText :: "error option"
  te_SetVisible :: "error option"

record tray =
  ty_window :: bool
  ty_icon :: bool
  ty_menu :: "string list"
  ty_exited :: bool

datatype tray_end = Ends | MsgBox string error | Runs tray

definition window_main :: "tray_env \<Rightarrow> tray_end" where
  "window_main T =
     (if te_Create T \<noteq> None then Ends
      else case te_NewIcon T of Some err \<Rightarrow> MsgBox ''icon'' err | None \<Rightarrow>
      case te_NewNotifyIcon T of Some err \<Rightarrow> MsgBox ''notify icon'' err | None \<Rightarrow>
      case te_SetIcon T of Some err \<Rightarrow> MsgBox ''set icon'' err | None \<Rightarrow>
      case te_SetToolTip T of Some err \<Rightarrow> MsgBox ''tool tip'' err | None \<Rightarrow>
      (let menu = (if te_ShowText T = None then [''show''] else []) @ (if te_ExitText T = None then [''exit''] else [])
       in case te_SetVisible T of Some err \<Rightarrow> MsgBox ''visible'' err | None \<Rightarrow>
          Runs \<lparr>ty_window = True, ty_icon = True, ty_menu = menu, ty_exited = False\<rparr>))"

datatype tray_event = WindowClosed | IconMouseUp bool | Entry string

text \<open>Closing the window hides it, a click with the left button shows it again, and so does the first entry of the menu; the second exits.\<close>

fun tray_step :: "tray_event \<Rightarrow> tray \<Rightarrow> tray" where
  "tray_step WindowClosed ty = ty\<lparr>ty_window := False\<rparr>"
| "tray_step (IconMouseUp leftButton) ty = (if leftButton \<and> ty_icon ty then ty\<lparr>ty_window := True\<rparr> else ty)"
| "tray_step (Entry e) ty =
     (if e \<notin> set (ty_menu ty) then ty
      else if e = ''show'' then ty\<lparr>ty_window := True\<rparr>
      else if e = ''exit'' then ty\<lparr>ty_exited := True\<rparr> else ty)"

section \<open>Properties\<close>

text \<open>
  C16: what is typed in is what is stored. When the dialog of a double click is accepted, the application of the row is stored under its
  identifier with the name, the network and the local address as the form has them after all that was typed, and it runs if the
  form says so and its listener could be opened; otherwise it is stopped, with the error of the listener if there was one. The target is that
  of the form if the application had one; for an application without a target the dialog takes one and it is not stored. The gateway, the resource
  and the name of the node are those it had before, and every other application stays as it is.
\<close>

theorem dialog_stores_input:
  assumes "leveldb_writable (ae_D E)" and "live (wn_agent w)" and "ag_am (wn_agent w) = Some (Some as)" and "ag_pm (wn_agent w) = Some pm"
    and "selected idx w = Some app" and "map_of as (pa_ID app) = Some app" and "pa_ID app \<noteq> 0" and "activate B E idx evs w = Some (Return w')"
    and "dialog_run B True (activate_widgets app) evs (form_of app) = (Some (DlgOK form), ls)"
    and "AddListener (ae_listen E) (af_Network form) (af_LocalIP form) (af_LocalPort form) pm = ((port, err), pm')"
  shows "form = fold (\<lambda>(f, i). B f i) (entered (activate_widgets app) evs) (form_of app)
    \<and> ag_am (wn_agent w') = Some (Some (AList.update (pa_ID app)
        (app\<lparr>pa_Name := af_Name form, pa_Network := af_Network form, pa_LocalIP := af_LocalIP form, pa_LocalPort := af_LocalPort form,
             pa_TargetAddr := (if pa_TargetAddr app = [] then [] else af_TargetAddr form),
             pa_TargetPort := (if pa_TargetAddr app = [] then pa_TargetPort app else af_TargetPort form),
             pa_Running := (af_Running form \<and> err = None),
             pa_Err := (case err of Some e \<Rightarrow> if af_Running form then ae_Error E e else pa_Err app | None \<Rightarrow> pa_Err app)\<rparr>) as))"
    (is "_ \<and> _ = Some (Some (AList.update _ ?new as))")
proof -
  have o: "OnItemActivated E idx (DlgOK form) (log_view ls w) = Return w'"
    using assms(5,8,9) by (simp add: activate_def)
  have l: "wn_agent (log_view ls w) = wn_agent w" "selected idx (log_view ls w) = selected idx w" by (simp_all add: log_view_def selected_def)
  have "listen_error E (of_form form app) pm = err" using assms(10) by (simp add: listen_error_def of_form_def)
  then have "listened E (of_form form app) pm (merged (of_form form app) app) = ?new"
    by (intro PortmapApp.equality) (auto simp: listened_def merged_def of_form_def Let_def split: option.splits)
  with double_click_updates [OF assms(1) _ _ _ _ assms(6,7) o, unfolded l, OF assms(2-5)] dialog_run_form [OF assms(9)] show ?thesis by simp
qed

text \<open>A data binding to evaluate on: the widgets for texts and numbers and the tick write their field.\<close>

datatype input = Words_in string | Number_in int | Tick_in bool

fun enter :: "input data_binding" where
  "enter FName (Words_in s) form = form\<lparr>af_Name := s\<rparr>"
| "enter FPeerID (Words_in s) form = form\<lparr>af_PeerID := s\<rparr>"
| "enter FResID (Words_in s) form = form\<lparr>af_ResID := s\<rparr>"
| "enter FNetwork (Words_in s) form = form\<lparr>af_Network := s\<rparr>"
| "enter FTargetAddr (Words_in s) form = form\<lparr>af_TargetAddr := s\<rparr>"
| "enter FLocalIP (Words_in s) form = form\<lparr>af_LocalIP := s\<rparr>"
| "enter FTargetPort (Number_in n) form = form\<lparr>af_TargetPort := n\<rparr>"
| "enter FLocalPort (Number_in n) form = form\<lparr>af_LocalPort := n\<rparr>"
| "enter FRunning (Tick_in b) form = form\<lparr>af_Running := b\<rparr>"
| "enter _ _ form = form"

theorem dialog_stores_input_witness:
  "\<exists>w' new. activate enter window_env 0 [Enters FName (Words_in ''web''), Enters FPeerID (Words_in ''other''), AcceptClicked (Some ErrNotFound),
        Enters FLocalPort (Number_in 8080), AcceptClicked None] ssh_window = Some (Return w')
    \<and> ag_am (wn_agent w') = Some (Some [(5, new)]) \<and> pa_Name new = ''web'' \<and> pa_LocalPort new = 8080 \<and> pa_PeerID new = ''peer''"
proof -
  let ?evs = "[Enters FName (Words_in ''web''), Enters FPeerID (Words_in ''other''), AcceptClicked (Some ErrNotFound),
        Enters FLocalPort (Number_in 8080), AcceptClicked None]"
  let ?form = "(form_of ssh_app)\<lparr>af_Name := ''web'', af_LocalPort := 8080\<rparr>"
  have d: "dialog_run enter True (activate_widgets ssh_app) ?evs (form_of ssh_app) = (Some (DlgOK ?form), [FormInvalid ErrNotFound])"
    by (simp add: activate_widgets_def)
  have s: "showing window_env (log_view [FormInvalid ErrNotFound] ssh_window)"
    using ssh_window_live(2)
    by (simp add: showing_def getApps_def ssh_window_def sample_agent_def agentIns_def GetPortmapApps_def window_env_def sample_agent_env_def log_view_def)
  obtain w' where "OnItemActivated window_env 0 (DlgOK ?form) (log_view [FormInvalid ErrNotFound] ssh_window) = Return w'"
    using OnItemActivated_shows [OF s ssh_window_live(1)] by blast
  then have a: "activate enter window_env 0 ?evs ssh_window = Some (Return w')" using d ssh_window_live(4) by (simp add: activate_def)
  have i: "pa_ID ssh_app = 5" "pa_ID ssh_app \<noteq> 0" "pa_PeerID ssh_app = ''peer''" by (simp_all add: ssh_app_def zero_PortmapApp_def)
  obtain pm q err pm' where l: "ag_pm (wn_agent ssh_window) = Some pm"
    "AddListener (ae_listen window_env) (af_Network ?form) (af_LocalIP ?form) (af_LocalPort ?form) pm = ((q, err), pm')"
    using ssh_window_live(2) by (metis live_cases surj_pair)
  from dialog_stores_input [OF ssh_window_live(1-3) l(1) ssh_window_live(4-5) i(2) a d l(2)] a show ?thesis
    by (simp add: i)
qed

text \<open>
  The target that is typed in for an application without one is dropped, and the window reports an update.
\<close>

lemma typed_target_dropped:
  assumes "pa_TargetAddr app = []"
  shows "pa_TargetAddr (listened E (of_form form app) pm (merged (of_form form app) app)) = []"
  using assms by (simp add: listened_def merged_def Let_def split: option.splits)

lemma window_main_Runs:
  assumes "window_main T = Runs ty"
  shows "ty_exited ty = False" and "''exit'' \<in> set (ty_menu ty) \<longleftrightarrow> te_ExitText T = None"
proof -
  let ?menu = "(if te_ShowText T = None then [''show''] else []) @ (if te_ExitText T = None then [''exit''] else [])"
  have "ty = \<lparr>ty_window = True, ty_icon = True, ty_menu = ?menu, ty_exited = False\<rparr>"
    using assms unfolding window_main_def Let_def
    by (cases "te_Create T"; cases "te_NewIcon T"; cases "te_NewNotifyIcon T"; cases "te_SetIcon T"; cases "te_SetToolTip T"; cases "te_SetVisible T")
      simp_all
  then show "ty_exited ty = False" and "''exit'' \<in> set (ty_menu ty) \<longleftrightarrow> te_ExitText T = None" by auto
qed

text \<open>
  The program ends by the last entry of its menu only, and when the text of that entry could not be set it never ends.
\<close>

theorem only_exit_entry_ends:
  assumes "window_main T = Runs ty"
  shows "ty_exited (fold tray_step evs ty) \<longleftrightarrow> Entry ''exit'' \<in> set evs \<and> te_ExitText T = None"
proof -
  have s: "ty_menu (tray_step ev t) = ty_menu t" "ty_exited (tray_step ev t) \<longleftrightarrow> ty_exited t \<or> ev = Entry ''exit'' \<and> ''exit'' \<in> set (ty_menu t)" for ev t
    by (cases ev; simp)+
  have "ty_exited (fold tray_step evs t) \<longleftrightarrow> ty_exited t \<or> Entry ''exit'' \<in> set evs \<and> ''exit'' \<in> set (ty_menu t)" for t
    by (induction evs arbitrary: t) (simp_all add: s, blast)
  from this [of ty] window_main_Runs [OF assms] show ?thesis by simp
qed

theorem only_exit_entry_ends_witness:
  "\<not> ty_exited (fold tray_step [WindowClosed, IconMouseUp True, Entry ''exit'']
     \<lparr>ty_window = True, ty_icon = True, ty_menu = [''show''], ty_exited = False\<rparr>)"
proof -
  have "window_main \<lparr>te_Create = None, te_NewIcon = None, te_NewNotifyIcon = None, te_SetIcon = None, te_SetToolTip = None, te_ShowText = None,
      te_ExitText = Some ErrNotFound, te_SetVisible = None\<rparr> = Runs \<lparr>ty_window = True, ty_icon = True, ty_menu = [''show''], ty_exited = False\<rparr>"
    by (simp add: window_main_def)
  from only_exit_entry_ends [OF this] show ?thesis by simp
qed

end
