(* ===== verification/TunStack.thy ===== *)
theory TunStack
  imports GoText
begin

text \<open>
  The package \<open>tun_stack\<close> (\<open>engine.go\<close>, \<open>stack.go\<close>, \<open>tun.go\<close>, \<open>key.go\<close>): one network stack on one tun device for the
  whole process. Devices, the stack and the tunnel of \<open>tun2socks\<close> are parameters; the state is the package's
  variables and the devices that have been opened and closed.
\<close>

section \<open>Operations\<close>

record Key =
  k_MTU :: int
  k_Mark :: int
  k_Device :: string
  k_LogLevel :: string
  k_UDPTimeout :: int

text \<open>
  A device is its host part and its MTU. \<open>_defaultDevice\<close> and \<open>_defaultStack\<close> are overwritten by each attempt, with
  nil when it fails. \<open>ss_dialer\<close> is the dialer of the tunnel, \<open>None\<close> the one that goes out directly.
\<close>

record 'd stack_state =
  ss_running :: bool
  ss_defaultKey :: "Key option"
  ss_defaultDevice :: "(string \<times> uint32) option"
  ss_defaultStack :: bool
  ss_udpTimeout :: int
  ss_mark :: int
  ss_dialer :: "'d option"
  ss_opened :: "(string \<times> uint32) list"
  ss_closed :: "(string \<times> uint32) list"

record tun_lib =
  tl_ParseLevel :: "string \<Rightarrow> error option"
  tl_urlParse :: "string \<Rightarrow> error + string \<times> string"
  tl_tunDriver :: string
  tl_fdDriver :: string
  tl_tunOpen :: "string \<Rightarrow> uint32 \<Rightarrow> error option"
  tl_fdOpen :: "string \<Rightarrow> uint32 \<Rightarrow> error option"
  tl_CreateStack :: "error option"

definition Insert :: "Key \<Rightarrow> 'd stack_state \<Rightarrow> 'd stack_state" where
  "Insert k st = st\<lparr>ss_defaultKey := Some k\<rparr>"

text \<open>Durations are in nanoseconds.\<close>

definition general :: "tun_lib \<Rightarrow> Key \<Rightarrow> 'd stack_state \<Rightarrow> error option \<times> 'd stack_state" where
  "general T k st =
     (case tl_ParseLevel T (k_LogLevel k) of
        Some err \<Rightarrow> (Some err, st)
      | None \<Rightarrow>
          let st1 = (if k_Mark k \<noteq> 0 then st\<lparr>ss_mark := sint (word_of_int (k_Mark k) :: 32 word)\<rparr> else st)
          in if 0 < k_UDPTimeout k then
               (if k_UDPTimeout k < 1000000000 then (Some (ErrNew ''invalid udp timeout value''), st1)
                else (None, st1\<lparr>ss_udpTimeout := k_UDPTimeout k\<rparr>))
             else (None, st1))"

definition to_lower :: "char \<Rightarrow> char" where
  "to_lower c = (if 65 \<le> char_nat c \<and> char_nat c \<le> 90 then char_of (char_nat c + 32) else c)"

text \<open>The device a text names: without a driver it is a tun device.\<close>

definition parseDevice :: "tun_lib \<Rightarrow> string \<Rightarrow> uint32 \<Rightarrow> error + string \<times> uint32" where
  "parseDevice T s0 mtu =
     (let s = (if Contains s0 ''://'' then s0 else tl_tunDriver T @ ''://'' @ s0)
      in case tl_urlParse T s of
           Inl err \<Rightarrow> Inl err
         | Inr (scheme, host) \<Rightarrow>
             let driver = map to_lower scheme
             in if driver = tl_fdDriver T then (case tl_fdOpen T host mtu of Some err \<Rightarrow> Inl err | None \<Rightarrow> Inr (host, mtu))
                else if driver = tl_tunDriver T then (case tl_tunOpen T host mtu of Some err \<Rightarrow> Inl err | None \<Rightarrow> Inr (host, mtu))
                else Inl (ErrNew (''unsupported driver: '' @ driver)))"

definition netstack :: "tun_lib \<Rightarrow> Key \<Rightarrow> 'd stack_state \<Rightarrow> error option \<times> 'd stack_state" where
  "netstack T k st =
     (case parseDevice T (k_Device k) (word_of_int (k_MTU k)) of
        Inl err \<Rightarrow> (Some err, st\<lparr>ss_defaultDevice := None\<rparr>)
      | Inr dev \<Rightarrow>
          let st1 = st\<lparr>ss_defaultDevice := Some dev, ss_opened := ss_opened st @ [dev]\<rparr>
          in case tl_CreateStack T of
               Some err \<Rightarrow> (Some err, st1\<lparr>ss_defaultStack := False\<rparr>)
             | None \<Rightarrow> (None, st1\<lparr>ss_defaultStack := True\<rparr>))"

text \<open>Starting with no key dereferences nil.\<close>

definition stack_start :: "tun_lib \<Rightarrow> 'd stack_state \<Rightarrow> (error option \<times> 'd stack_state) outcome" where
  "stack_start T st =
     (if ss_running st then Return (None, st)
      else case ss_defaultKey st of
        None \<Rightarrow> Panic
      | Some k \<Rightarrow>
          (case general T k st of
             (Some err, st1) \<Rightarrow> Return (Some err, st1)
           | (None, st1) \<Rightarrow> Return (netstack T k st1)))"

definition stack_stop :: "'d stack_state \<Rightarrow> error option \<times> 'd stack_state" where
  "stack_stop st =
     (if \<not> ss_running st then (None, st)
      else (None, case ss_defaultDevice st of None \<Rightarrow> st | Some dev \<Rightarrow> st\<lparr>ss_closed := ss_closed st @ [dev]\<rparr>))"

text \<open>\<open>Wait\<close> says whether it waits for the stack; a stack that is nil dereferences nil.\<close>

definition stack_wait :: "'d stack_state \<Rightarrow> bool outcome" where
  "stack_wait st = (if \<not> ss_running st then Return False else if \<not> ss_defaultStack st then Panic else Return True)"

definition SetProxyDialer :: "'d option \<Rightarrow> 'd stack_state \<Rightarrow> 'd stack_state" where
  "SetProxyDialer d st = st\<lparr>ss_dialer := d\<rparr>"

text \<open>The agent and the gateway start the stack with a key of their own (\<open>agent/proxy.go\<close>).\<close>

definition startTun2socks :: "tun_lib \<Rightarrow> string \<Rightarrow> 'd stack_state \<Rightarrow> (error option \<times> 'd stack_state) outcome" where
  "startTun2socks T tunDevice st =
     stack_start T (Insert \<lparr>k_MTU = 0, k_Mark = 0, k_Device = tunDevice, k_LogLevel = ''debug'', k_UDPTimeout = 60000000000\<rparr> st)"

definition stopTun2socks :: "'d stack_state \<Rightarrow> error option \<times> 'd stack_state" where
  "stopTun2socks st = stack_stop st"

definition stack_init :: "'d stack_state" where
  "stack_init = \<lparr>ss_running = False, ss_defaultKey = None, ss_defaultDevice = None, ss_defaultStack = False, ss_udpTimeout = 0,
                 ss_mark = 0, ss_dialer = None, ss_opened = [], ss_closed = []\<rparr>"

section \<open>Every sequence of calls\<close>

inductive stack_reach :: "tun_lib \<Rightarrow> 'd stack_state \<Rightarrow> bool" for T where
  init: "stack_reach T stack_init"
| insert: "stack_reach T st \<Longrightarrow> stack_reach T (Insert k st)"
| start: "stack_reach T st \<Longrightarrow> stack_start T st = Return (err, st') \<Longrightarrow> stack_reach T st'"
| stop: "stack_reach T st \<Longrightarrow> stack_reach T (snd (stack_stop st))"
| dialer: "stack_reach T st \<Longrightarrow> stack_reach T (SetProxyDialer d st)"

lemma general_keeps:
  assumes "general T k st = (err, st')"
  shows "ss_running st' = ss_running st" "ss_opened st' = ss_opened st" "ss_closed st' = ss_closed st"
  using assms by (auto simp: general_def Let_def split: option.splits if_splits)

lemma stack_start_keeps:
  assumes "stack_start T st = Return (err, st')"
  shows "ss_running st' = ss_running st" "ss_closed st' = ss_closed st"
proof -
  have n: "ss_running (snd (netstack T k s)) = ss_running s \<and> ss_closed (snd (netstack T k s)) = ss_closed s" for k and s :: "'a stack_state"
    by (simp add: netstack_def Let_def split: sum.splits option.splits)
  have "ss_running st' = ss_running st \<and> ss_closed st' = ss_closed st"
  proof (cases "ss_running st")
    case True
    with assms show ?thesis by (simp add: stack_start_def)
  next
    case False
    with assms obtain k where k: "ss_defaultKey st = Some k" by (cases "ss_defaultKey st") (simp_all add: stack_start_def)
    obtain e st1 where g: "general T k st = (e, st1)" by fastforce
    with assms False k have "st' = st1 \<or> st' = snd (netstack T k st1)"
      by (cases e) (simp_all add: stack_start_def)
    with n [of k st1] general_keeps [OF g] show ?thesis by auto
  qed
  then show "ss_running st' = ss_running st" "ss_closed st' = ss_closed st" by simp_all
qed

lemma stack_reach_idle:
  assumes "stack_reach T st"
  shows "\<not> ss_running st \<and> ss_closed st = []"
  using assms
proof induction
  case (start st err st')
  with stack_start_keeps [of T st err st'] show ?case by simp
qed (simp_all add: stack_init_def Insert_def stack_stop_def SetProxyDialer_def)

lemma start_opens:
  assumes "stack_reach T st" and "stack_start T st = Return (None, st')"
  shows "length (ss_opened st') = Suc (length (ss_opened st))"
proof -
  from assms(2) stack_reach_idle [OF assms(1)] obtain k st1 where k: "general T k st = (None, st1)" "netstack T k st1 = (None, st')"
    by (auto simp: stack_start_def split: option.splits prod.splits)
  then show ?thesis
    using general_keeps(2) [OF k(1)] by (auto simp: netstack_def Let_def split: sum.splits option.splits)
qed

section \<open>Properties\<close>

text \<open>
  The tun proxy of an agent that is stopped and started again holds two devices: the first one is still open.
\<close>

lemma restarted_proxy_opens_again:
  assumes "stack_reach T st" and "startTun2socks T dev st = Return (None, st1)"
    and "stopTun2socks st1 = (err, st2)" and "startTun2socks T dev' st2 = Return (None, st3)"
  shows "length (ss_opened st3) = length (ss_opened st) + 2 \<and> ss_closed st3 = []"
proof -
  have r1: "stack_reach T st1" using assms(1,2) unfolding startTun2socks_def by (blast intro: stack_reach.intros)
  have e: "st2 = st1" using stack_reach_idle [OF r1] assms(3) by (simp add: stopTun2socks_def stack_stop_def)
  have r3: "stack_reach T st3" using r1 assms(4) unfolding e startTun2socks_def by (blast intro: stack_reach.intros)
  from start_opens [OF stack_reach.insert [OF assms(1)] assms(2) [unfolded startTun2socks_def]]
    start_opens [OF stack_reach.insert [OF r1] assms(4) [unfolded e startTun2socks_def]] stack_reach_idle [OF r3]
  show ?thesis by (simp add: Insert_def)
qed

text \<open>
  The stack is never stopped. No call marks it as running, so in every state that calls can reach,
  stopping does nothing, waiting for it returns at once, and no device has been closed; starting again opens the device once more.
\<close>

theorem tun_stack_never_stops:
  assumes "stack_reach T st"
  shows "stack_stop st = (None, st) \<and> stack_wait st = Return False \<and> ss_closed st = []
    \<and> (\<forall>err st'. stack_start T st = Return (err, st') \<longrightarrow> err = None \<longrightarrow> length (ss_opened st') = Suc (length (ss_opened st)))"
proof (intro conjI allI impI)
  note idle = stack_reach_idle [OF assms]
  then show "stack_stop st = (None, st)" "stack_wait st = Return False" "ss_closed st = []" by (simp_all add: stack_stop_def stack_wait_def)
  fix err st' assume "stack_start T st = Return (err, st')" "err = None"
  then show "length (ss_opened st') = Suc (length (ss_opened st))" using start_opens [OF assms] by simp
qed

definition sample_tun :: tun_lib where
  "sample_tun = \<lparr>tl_ParseLevel = (\<lambda>_. None), tl_urlParse = (\<lambda>_. Inr (''tun'', ''tun0'')), tl_tunDriver = ''tun'', tl_fdDriver = ''fd'',
     tl_tunOpen = (\<lambda>_ _. None), tl_fdOpen = (\<lambda>_ _. None), tl_CreateStack = None\<rparr>"

definition sample_key :: Key where
  "sample_key = \<lparr>k_MTU = 1375, k_Mark = 0, k_Device = ''tun0'', k_LogLevel = ''debug'', k_UDPTimeout = 60000000000\<rparr>"

theorem tun_stack_never_stops_witness:
  "\<exists>st. stack_reach sample_tun (st :: nat stack_state) \<and> ss_opened st = [(''tun0'', 1375)] \<and> stack_stop st = (None, st)"
proof -
  let ?s = "Insert sample_key (stack_init :: nat stack_state)"
  have "\<exists>st. stack_start sample_tun ?s = Return (None, st) \<and> ss_opened st = [(''tun0'', 1375)]"
    by (simp add: stack_start_def Insert_def stack_init_def general_def sample_tun_def sample_key_def netstack_def parseDevice_def
        to_lower_def Let_def)
  then obtain st where st: "stack_start sample_tun ?s = Return (None, st)" "ss_opened st = [(''tun0'', 1375)]" by blast
  have r: "stack_reach sample_tun st"
    by (rule stack_reach.start [OF stack_reach.insert [OF stack_reach.init] st(1)])
  from tun_stack_never_stops [OF r] r st(2) show ?thesis by blast
qed

end
