(* ===== verification/Platform.thy ===== *)
theory Platform
  imports Outbounds TunStack
begin

text \<open>
  What differs by platform: the address of the tun device (\<open>gateway/sys_linux.go\<close> over netlink, \<open>gateway/sys_windows.go\<close>, which cannot), and
  the drivers that open devices (\<open>parseFD\<close> and the two \<open>parseTUN\<close> of \<open>tun_stack\<close>); and the test of the own IPv6 address (\<open>agent/util.go\<close>).
  Netlink and the drivers of tun2socks are parameters.
\<close>

section \<open>The tun device on Linux\<close>

text \<open>
  The calls of netlink on the state \<open>'k\<close> of the kernel: a link by its name, three settings of a link whose errors the code does not look at, the
  parser of a prefix that keeps its address, and a new pair of addresses for a link.
\<close>

record ('k, 'l) netlink =
  nk_LinkByName :: "string \<Rightarrow> 'k \<Rightarrow> error + 'l"
  nk_SetMTU :: "'l \<Rightarrow> nat \<Rightarrow> 'k \<Rightarrow> 'k"
  nk_SetTxQLen :: "'l \<Rightarrow> nat \<Rightarrow> 'k \<Rightarrow> 'k"
  nk_SetUp :: "'l \<Rightarrow> 'k \<Rightarrow> 'k"
  nk_ParseIPNet :: "string \<Rightarrow> error + IPNet"
  nk_AddrAdd :: "'l \<Rightarrow> IPNet \<times> IPNet \<Rightarrow> 'k \<Rightarrow> error option \<times> 'k"

text \<open>The mask of \<open>net.CIDRMask(32, 32)\<close>.\<close>

definition host_mask :: "IPNet \<Rightarrow> IPNet" where
  "host_mask n = n\<lparr>ipnet_Mask := replicate 4 0xff\<rparr>"

definition setTunAddr :: "('k, 'l) netlink \<Rightarrow> string \<Rightarrow> string \<Rightarrow> string \<Rightarrow> 'k \<Rightarrow> error option \<times> 'k" where
  "setTunAddr K ifname localAddr remoteAddr k =
     (case nk_LinkByName K ifname k of
        Inl err \<Rightarrow> (Some err, k)
      | Inr ifce \<Rightarrow>
          let k1 = nk_SetUp K ifce (nk_SetTxQLen K ifce 100 (nk_SetMTU K ifce 1375 k))
          in case nk_ParseIPNet K localAddr of
               Inl err \<Rightarrow> (Some err, k1)
             | Inr ln \<Rightarrow>
                 (case nk_ParseIPNet K remoteAddr of
                    Inl err \<Rightarrow> (Some err, k1)
                  | Inr rn \<Rightarrow> nk_AddrAdd K ifce (host_mask ln, host_mask rn) k1))"

definition addTunAddr :: "('k, 'l) netlink \<Rightarrow> string \<Rightarrow> string \<Rightarrow> string \<Rightarrow> 'k \<Rightarrow> error option \<times> 'k" where
  "addTunAddr K ifname localAddr remoteAddr k =
     (case nk_LinkByName K ifname k of
        Inl err \<Rightarrow> (Some err, k)
      | Inr ifce \<Rightarrow>
          (case nk_ParseIPNet K localAddr of
             Inl err \<Rightarrow> (Some err, k)
           | Inr ln \<Rightarrow>
               (case nk_ParseIPNet K remoteAddr of
                  Inl err \<Rightarrow> (Some err, k)
                | Inr rn \<Rightarrow> nk_AddrAdd K ifce (host_mask ln, host_mask rn) k)))"

definition tunName :: string where "tunName = ''uptptun0''"
definition tunLocal :: string where "tunLocal = ''10.8.0.3/32''"
definition tunRemote :: string where "tunRemote = ''10.8.0.254/32''"

text \<open>The client's environment on this kernel: what \<open>startTunStack\<close> sees of it.\<close>

definition on_linux :: "('k, 'l) netlink \<Rightarrow> 'k \<Rightarrow> client_env \<Rightarrow> client_env" where
  "on_linux K k env = env\<lparr>ce_setTunAddr := fst (setTunAddr K tunName tunLocal tunRemote k)\<rparr>"

section \<open>Windows\<close>

definition windows_unsupported :: "error option" where
  "windows_unsupported = Some (ErrNew ''not supoort'')"

definition on_windows :: "client_env \<Rightarrow> client_env" where
  "on_windows env = env\<lparr>ce_setTunAddr := windows_unsupported, ce_RouteAdd := (\<lambda>_. windows_unsupported), ce_RouteDel := (\<lambda>_. windows_unsupported)\<rparr>"

section \<open>Drivers\<close>

text \<open>A device is opened by its host part; file descriptors skip four bytes on iOS.\<close>

definition parseFD :: "string \<Rightarrow> (string \<Rightarrow> uint32 \<Rightarrow> nat \<Rightarrow> error option) \<Rightarrow> string \<Rightarrow> uint32 \<Rightarrow> error option" where
  "parseFD GOOS fdOpen host mtu = fdOpen host mtu (if GOOS = ''ios'' then 4 else 0)"

definition parseTUN_unix :: "(string \<Rightarrow> uint32 \<Rightarrow> error option) \<Rightarrow> string \<Rightarrow> uint32 \<Rightarrow> error option" where
  "parseTUN_unix tunOpen host mtu = tunOpen host mtu"

text \<open>
  On Windows the query of the address may name the identifier of the device, which goes to a variable of the driver for this and
  for every later device.
\<close>

record 'g wintun =
  wt_GUID :: "'g option"
  wt_TunnelType :: string

definition tunGUID :: string where
  "tunGUID = ''{D5BFEE3A-9DC2-44CC-9FFC-A7F6B53474F2}''"

definition wintun_init :: "(string \<Rightarrow> error + 'g) \<Rightarrow> 'g \<Rightarrow> 'g wintun" where
  "wintun_init GUIDFromString zero =
     \<lparr>wt_GUID = Some (case GUIDFromString tunGUID of Inr g \<Rightarrow> g | Inl err \<Rightarrow> zero), wt_TunnelType = ''uptptun''\<rparr>"

definition parseTUN_windows ::
  "(string \<Rightarrow> error + string) \<Rightarrow> (string \<Rightarrow> error + 'g) \<Rightarrow> ('g wintun \<Rightarrow> string \<Rightarrow> uint32 \<Rightarrow> error option)
     \<Rightarrow> string \<Rightarrow> string \<Rightarrow> uint32 \<Rightarrow> 'g wintun \<Rightarrow> error option \<times> 'g wintun" where
  "parseTUN_windows Decode GUIDFromString tunOpen host query mtu w =
     (case Decode query of
        Inl err \<Rightarrow> (Some err, w)
      | Inr guidText \<Rightarrow>
          if guidText \<noteq> [] then
            (case GUIDFromString guidText of
               Inl err \<Rightarrow> (Some err, w)
             | Inr guid \<Rightarrow> let w' = w\<lparr>wt_GUID := Some guid\<rparr> in (tunOpen w' host mtu, w'))
          else (tunOpen w host mtu, w))"

section \<open>The own address\<close>

text \<open>One \<open>Read\<close> of at most 1024 bytes of the answer.\<close>

definition GetIPv6 :: "(string \<Rightarrow> error + char conn) \<Rightarrow> string \<Rightarrow> error + string" where
  "GetIPv6 httpGet testUrl =
     (case httpGet testUrl of
        Inl err \<Rightarrow> Inl err
      | Inr body \<Rightarrow>
          (case conn_read 1024 body of
             (buf, err, _) \<Rightarrow> (case err of Some e \<Rightarrow> if e \<noteq> EOF then Inl e else Inr buf | None \<Rightarrow> Inr buf)))"

definition TestIPv6 :: "(string \<Rightarrow> error + char conn) \<Rightarrow> (string \<Rightarrow> error option) \<Rightarrow> string \<Rightarrow> error option" where
  "TestIPv6 httpGet ResolveIPAddr testUrl =
     (case GetIPv6 httpGet testUrl of Inl err \<Rightarrow> Some err | Inr ipv6 \<Rightarrow> ResolveIPAddr ipv6)"

section \<open>Properties\<close>

text \<open>
  Setting an address is configuring the link and then adding the address; a client on Linux starts its stack only when the
  kernel took the pair.
\<close>

lemma setTunAddr_adds:
  assumes "nk_LinkByName K ifname k = Inr ifce" and "k1 = nk_SetUp K ifce (nk_SetTxQLen K ifce 100 (nk_SetMTU K ifce 1375 k))"
    and "nk_LinkByName K ifname k1 = Inr ifce"
  shows "setTunAddr K ifname l r k = addTunAddr K ifname l r k1"
  using assms by (simp add: setTunAddr_def addTunAddr_def Let_def split: sum.splits)

lemma started_on_linux:
  assumes "startTunStack (on_linux K k env) pc = (None, pc')" and "\<not> pc_tunStackRunning pc"
  shows "\<exists>ifce ln rn k1. nk_LinkByName K tunName k = Inr ifce \<and> nk_ParseIPNet K tunLocal = Inr ln \<and> nk_ParseIPNet K tunRemote = Inr rn
    \<and> fst (nk_AddrAdd K ifce (host_mask ln, host_mask rn) k1) = None"
  using assms
  by (cases "nk_LinkByName K tunName k"; cases "nk_ParseIPNet K tunLocal"; cases "nk_ParseIPNet K tunRemote")
    (auto simp: startTunStack_def on_linux_def setTunAddr_def Let_def split: option.splits)

text \<open>
  An outbound that cannot be started is stored all the same. When the tun device cannot be set up, as always on Windows, adding an
  open outbound reports the error, after the outbound was stored as open; nothing routes to it. So a client that is told
  of the error and tries again stores it twice.
\<close>

theorem failed_tun_keeps_outbound:
  assumes "ce_tunStart env = None" and "ce_setTunAddr env = Some err" and "\<not> pc_tunStackRunning pc" and "so_Open ob"
    and "CheckPeer env (so_Peer ob) (so_Token ob) = Inr peerName"
    and "mgr_AddOutbound D (ce_p2p env) (ob\<lparr>so_PeerName := peerName\<rparr>) (pc_mgr pc) = (None, ob', m)"
  shows "pc_AddOutbound D env ob pc = Return (Some err, pc\<lparr>pc_mgr := m\<rparr>) \<and> fst (GetOutbound (so_ID ob) m) = Some ob' \<and> so_Open ob'"
proof -
  have f: "socks5OutboundFillRunningInfo (ce_p2p env) (ob\<lparr>so_PeerName := peerName\<rparr>) = (None, ob')"
    "m = (fst m, snd m)" "saveOutbounds D (Some (AList.update (so_ID ob') ob' (made (fst (pc_mgr pc)))), snd (pc_mgr pc)) = (None, m)"
    using assms(6) by (auto simp: mgr_AddOutbound_def split: prod.splits option.splits)
  then have o: "so_ID ob' = so_ID ob" "so_Open ob' = so_Open ob"
    by (auto simp: socks5OutboundFillRunningInfo_def Let_def split: sum.splits option.splits)
  have "fst m = Some (AList.update (so_ID ob') ob' (made (fst (pc_mgr pc))))"
    using f(3) by (auto simp: saveOutbounds_def split: prod.splits option.splits)
  then have "fst (GetOutbound (so_ID ob) m) = Some ob'" by (simp add: GetOutbound_def o(1) update_conv')
  with assms o show ?thesis by (simp add: pc_AddOutbound_def startTunStack_def Let_def)
qed

theorem failed_tun_keeps_outbound_witness:
  "\<exists>pc' ob'. pc_AddOutbound list_db (on_windows answering_env) office empty_client = Return (Some (ErrNew ''not supoort''), pc')
    \<and> fst (GetOutbound 3 (pc_mgr pc')) = Some ob' \<and> so_Open ob'"
proof -
  let ?E = "on_windows answering_env"
  have c: "CheckPeer ?E (so_Peer office) (so_Token office) = Inr ''home''"
    using CheckPeer_answering [of office "so_Token office"] by (simp add: CheckPeer_def on_windows_def office_def)
  have n: "ParseCIDR (so_Route office) = Some (v4_net 0x0a000000 8)" unfolding office_cidr by (rule ParseCIDR_v4) simp
  have "\<exists>ob' m. mgr_AddOutbound list_db (ce_p2p ?E) (office\<lparr>so_PeerName := ''home''\<rparr>) (pc_mgr empty_client) = (None, ob', m)"
    using n by (simp add: mgr_AddOutbound_def socks5OutboundFillRunningInfo_def on_windows_def answering_env_def answering_p2p_def Let_def
        saveOutbounds_def list_db_def ID_Uint64_def) (simp add: office_def)
  then obtain ob' m where m: "mgr_AddOutbound list_db (ce_p2p ?E) (office\<lparr>so_PeerName := ''home''\<rparr>) (pc_mgr empty_client) = (None, ob', m)" by blast
  have i: "so_ID office = 3" by (simp add: office_def)
  have "pc_AddOutbound list_db ?E office empty_client = Return (Some (ErrNew ''not supoort''), empty_client\<lparr>pc_mgr := m\<rparr>)
      \<and> fst (GetOutbound (so_ID office) m) = Some ob' \<and> so_Open ob'"
    by (rule failed_tun_keeps_outbound [OF _ _ _ _ c m])
      (simp_all add: on_windows_def windows_unsupported_def answering_env_def empty_client_def office_def)
  then show ?thesis unfolding i by (intro exI [of _ "empty_client\<lparr>pc_mgr := m\<rparr>"] exI [of _ ob']) simp
qed

text \<open>
  The test of the own address sees what comes in one piece: an answer that arrives in two is cut off.
\<close>

lemma GetIPv6_one_piece:
  assumes "httpGet url = Inr c" and "rd_chunks c = piece # pieces"
  shows "GetIPv6 httpGet url = Inr (take 1024 piece)"
  using assms by (simp add: GetIPv6_def conn_read_def)

text \<open>The identifier of one device on Windows stays requested for the next.\<close>

lemma requested_guid_stays:
  assumes "parseTUN_windows Decode GUIDFromString tunOpen host query mtu w = (err, w')" and "Decode query = Inr g" and "g \<noteq> []"
    and "GUIDFromString g = Inr guid" and "Decode query2 = Inr []"
  shows "parseTUN_windows Decode GUIDFromString tunOpen host2 query2 mtu2 w' = (tunOpen (w\<lparr>wt_GUID := Some guid\<rparr>) host2 mtu2, w\<lparr>wt_GUID := Some guid\<rparr>)"
  using assms by (auto simp: parseTUN_windows_def Let_def)

end
