(* ===== verification/Spec2Isabelle.thy ===== *)
theory Spec2Isabelle
  imports VarLenStream ProxyRouter SocksServer Totp GatewaySafety Process ProxyToken Node Bootstrap AgentDialogs Platform CommandLine Logger
begin

text \<open>
  A verification development for uptp, a peer-to-peer tunnel and proxy in Go. Gateways find each other over libp2p. A
  gateway shares ports of its network with other nodes (resources), opens local ports that lead to such resources
  (applications), serves a SOCKS proxy to nodes that know its token, sends traffic of its own network through the proxies of
  others (outbounds) and is administered by a web interface behind a login. An agent is a small client with
  applications and proxy gateways but without the web interface.

  \<^bold>\<open>The shared theories.\<close>
  \<^item> \<open>Prelude\<close>: the outcome of a call that may panic (\<open>Return\<close>, \<open>Panic\<close>), errors, machine integers, Go maps as association lists, lemmas
    on them, and the interfaces as locales: \<open>framing\<close> (packets on a byte stream), \<open>codec\<close> (encoding and decoding),
    \<open>keyed_table\<close> and \<open>durable_table\<close> (a table that survives restarts), \<open>simulation\<close> and
    \<open>total_machine\<close> (runs that never panic and follow another machine, or keep an invariant).
  \<^item> \<open>GoIO\<close> (connections that deliver their bytes in any pieces, \<open>io.ReadFull\<close>, \<open>io.Copy\<close>, varints), \<open>GoText\<close> (\<open>strconv\<close>, \<open>strings\<close>), \<open>GoNet\<close> (addresses and
    networks), \<open>Json\<close> and \<open>GoStruct\<close> (\<open>encoding/json\<close>: a parser, a printer and their round trip; decoding into structs and maps).
  \<^item> \<open>Store\<close>: LevelDB as a parameter, with \<open>leveldb_spec\<close> (what a get returns after a put or a delete) and \<open>leveldb_writable\<close>.

  \<^bold>\<open>The components and the code they model.\<close>
  \<^item> \<open>VarLenStream\<close>: \<open>stream/var_length_packet.go\<close>, length-prefixed packets; every cut of the bytes, every branch of \<open>Write\<close> and \<open>Read\<close>.
  \<^item> \<open>SocksFrame\<close>, \<open>SocksServer\<close>, \<open>SocksClient\<close>: \<open>socks5/util.go\<close>, \<open>server.go\<close>, \<open>client.go\<close>. Packet framing, the two copies of a tunnel under every
    interleaving, the negotiation and the sessions of the peers, requests, the dialer; client and server are composed over
    the bytes they exchange.
  \<^item> \<open>ProxyRouter\<close>: \<open>gateway/proxy_router.go\<close>, ranges of IPv4 addresses in the AVL tree of the gods library (a parameter with \<open>avltree_spec\<close>).
  \<^item> \<open>TypesID\<close> (\<open>types/id.go\<close>), \<open>PortmapRes\<close>, \<open>PortmapApps\<close>, \<open>ProxyService\<close>, \<open>Outbounds\<close> (\<open>gateway/portmap_resource.go\<close>, \<open>portmap_app.go\<close>, \<open>proxy_service.go\<close>,
    \<open>proxy_client.go\<close>): the managers of the gateway and their state in the database; each table is an interpretation of
    \<open>durable_table\<close> and so refines a map through every history of calls and restarts.
  \<^item> \<open>AuthMessages\<close>, \<open>Authorize\<close>: \<open>gateway/authorize.go\<close>, how one node asks another for a resource or for its proxy. \<open>ProxyToken\<close> follows a proxy
    token from this question over the stored outbound to the SOCKS login of client and server.
  \<^item> \<open>Portmap\<close>: \<open>portmap/portmap.go\<close>, listeners, the handshake and the relays. \<open>PortForward\<close> composes it with the gateway at both ends.
  \<^item> \<open>Gateway\<close>, \<open>GatewayApi\<close>, \<open>Server\<close>, \<open>Startup\<close>: \<open>gateway/gateway.go\<close>. Settings, logins and sessions; one definition per handler; the router with the login
    in front of it, and runs of a gateway as a step relation; \<open>Run\<close> and \<open>Stop\<close>. \<open>SiteHistory\<close> follows the password and the resources through whole
    histories of a gateway, restarts included: an abstract state changed by four requests only, which the handlers and the start refine. \<open>GatewaySafety\<close> shows
    that the start and the handlers keep the shape of the tables, on which only a lookup of a missing outbound panics. \<open>Process\<close> is
    the process around it (\<open>main\<close> of \<open>gateway/cmd/main.go\<close>): two goroutines, requests, streams of other nodes, unrecovered panics, signals and time as steps in any order.
  \<^item> \<open>P2PEngine\<close>: \<open>p2pengine/engine.go\<close>; with the SOCKS service it decides how long a session lasts. \<open>Node\<close> puts it under \<open>Run\<close>.
    \<open>Bootstrap\<close>: \<open>bootstrap/main.go\<close>, and the file that keeps the identity of every kind of node.
  \<^item> \<open>Agent\<close> (\<open>agent/agent.go\<close>, \<open>proxy.go\<close>), \<open>Exports\<close> (\<open>export.go\<close>: its calls as one step function, in any order), \<open>AgentWindow\<close> and \<open>AgentDialogs\<close>
    (\<open>agent/windows/main.go\<close>): the agent, the handlers of its window, and its dialogs and tray icon.
  \<^item> \<open>TunStack\<close> (\<open>tun_stack\<close>), \<open>Platform\<close> (\<open>gateway/sys_linux.go\<close>, \<open>sys_windows.go\<close>, the drivers of \<open>tun_stack\<close>, \<open>agent/util.go\<close>), \<open>Logger\<close> (\<open>logger\<close>, \<open>logging\<close>), \<open>Totp\<close> (\<open>totp/totp.go\<close>, with SHA-256 written out), \<open>Version\<close> (\<open>common/version.go\<close>), \<open>ApiUtil\<close>
    (\<open>apiutil.go/api.go\<close>), \<open>Upgrade\<close> (\<open>upgrade/api.go\<close>, \<open>gateway/upgrade.go\<close>), \<open>Daemon\<close> and \<open>CommandLine\<close> (\<open>gateway/cmd\<close>, \<open>agent/cmd\<close>)
    over \<open>Flags\<close>, the \<open>flag\<close> package.

  \<^bold>\<open>How the code is modelled.\<close> A struct is a record, a method a function from the state to the state and the result. A Go map
  is an association list with distinct keys, \<open>None\<close> the nil map, and a loop over it visits a permutation given as an argument
  (\<open>visit\<close>). A dereference of nil, an index out of range and a write to a nil map are \<open>Panic\<close>. Errors are values. Random numbers,
  UUIDs and the time are arguments. The two goroutines of a tunnel run by an explicit schedule. Mutexes are not modelled: the
  operations they guard are atomic here. Code of other packages (libp2p, LevelDB, gods, txthinking/socks5, nbio, tun2socks, chi, netlink, walk, the
  service manager) is a record of functions that the definitions take; what a theorem needs of it is a named hypothesis
  (\<open>leveldb_spec\<close>, \<open>avltree_spec\<close>, \<open>peerstore_spec\<close>, \<open>remove_spec\<close>, \<open>mux_spec\<close>, \<open>client_lib_spec\<close>, \<open>server_lib_spec\<close>, \<open>listen_spec\<close>) and each such theorem has a witness
  with a concrete instance.

  \<^bold>\<open>What the theorems show.\<close> Safety of the web interface over every run (no request behind the login without a session that a
  correct login opened less than fifteen minutes ago, and no end of the process over the web without one; other nodes can end it by a panic) and of the SOCKS service (a session only for an accepted token, and
  only until the peer is disconnected). End to end: a connection to an application's port reaches the target of the resource and nothing else;
  a flow the agent opens, over TCP or UDP and to either version of addresses, reaches its destination through the gateway that accepted the token; the proxy token
  opens the question and the SOCKS login in the same case, but for the trial mode, where the login takes every token. Durability: resources, applications, outbounds and proxy gateways refine maps and lists through
  all histories with restarts; what other nodes reach and what the login takes is what the requests of the administrator left, and a started gateway listens for its
  applications; a node keeps its identity while its file can be read, and a worker the settings of its daemon. No call of a started agent panics, but for those the theorem names, one kind of web request makes a gateway panic, and the agent's window
  shows its applications and stores what is typed in. Routing: a network
  is accepted exactly when it overlaps no other, and lookups follow. Round trips of packets, datagrams,
  identifiers and messages; termination of tunnels; bounds of networks and sessions; the reference orders behind versions and
  codes. Theorems of kind error state what the code does where it fails, and the remaining unlisted theorems of this kind accompany
  the findings.

  \<^bold>\<open>Bounds and termination.\<close> All loops are structural recursions or functions with a measure; the copy loops of a tunnel take as
  many rounds as the schedule has, and \<open>tunneling_returns\<close> proves that enough rounds end them. \<open>JSON\<close> nesting is limited to 10000
  as in Go; the parser is total by the length of its input.

  \<^bold>\<open>Not modelled.\<close> The layout of the window (titles, sizes, columns), the Android application, the embedded files of the web interface and the constants of
  other systems, the log settings of libp2p, deadlines and contexts, requests that arrive between \<open>Stop\<close> and the end of the process (the database is
  closed then), and data races: where the code reads shared fields without its mutex the model has no counterpart.
\<close>

end
